(* ===== verification/Prelude.thy ===== *)
theory Prelude
  imports Main
begin

text \<open>
  What every theory of the development shares: the names of the model's base types, the
  errors the modelled functions return, the collections of rewrite rules, and generic facts
  on lists and options.

  A point in time is an \<open>int\<close>, the nanoseconds since the Unix epoch (\<open>time.Time\<close>,
  \<open>UnixNano\<close>); a \<open>time.Duration\<close> is an \<open>int\<close> number of nanoseconds. A byte slice is a
  list of characters, since a HOL \<open>char\<close> is exactly one byte. Go's \<open>error\<close> values are
  the constructors of \<open>err\<close>; a function returning \<open>(T, error)\<close> has the type
  \<open>err + 'a\<close>, with \<open>Inl\<close> the non-nil error.
\<close>

type_synonym time = int
type_synonym duration = int
type_synonym bytes = "char list"

abbreviation second :: duration where "second \<equiv> 1000000000"
abbreviation minute :: duration where "minute \<equiv> 60000000000"
abbreviation hour :: duration where "hour \<equiv> 3600000000000"

datatype err =
    ErrDuplicateJob string string    \<comment> \<open>queue.go: the lock key and the job that holds it\<close>
  | ErrCircuitBreakerOpen
  | ErrInvalidKey
  | ErrPayloadTooShort
  | ErrNoHeader
  | ErrNoRows                        \<comment> \<open>database/sql's sentinel\<close>
  | ErrConstraint                    \<comment> \<open>a primary key violation reported by the engine\<close>
  | ErrEngine                        \<comment> \<open>any other failure of the storage engine\<close>
  | ErrMsg string                    \<comment> \<open>\<open>errors.New\<close> and \<open>fmt.Errorf\<close> texts\<close>

named_theorems go_lib \<open>characteristic facts of the modelled Go library functions\<close>
named_theorems run_simps \<open>how a storage action runs\<close>
named_theorems hoare_rules \<open>Hoare rules of the storage monad\<close>
named_theorems table_simps \<open>what the statements do to a table\<close>

section \<open>Integers as Go computes them\<close>

text \<open>Go's \<open>%\<close> and \<open>/\<close> truncate towards zero.\<close>

definition go_rem :: "int \<Rightarrow> int \<Rightarrow> int" where
  "go_rem a b = (if a < 0 then - ((- a) mod \<bar>b\<bar>) else a mod \<bar>b\<bar>)"

definition go_div :: "int \<Rightarrow> int \<Rightarrow> int" where
  "go_div a b = sgn a * sgn b * (\<bar>a\<bar> div \<bar>b\<bar>)"

lemma go_rem_nonneg [simp]: "0 \<le> a \<Longrightarrow> 0 < b \<Longrightarrow> go_rem a b = a mod b"
  by (simp add: go_rem_def)

lemma go_rem_zero_iff: "0 < b \<Longrightarrow> go_rem a b = 0 \<longleftrightarrow> b dvd a"
  by (auto simp: go_rem_def dvd_eq_mod_eq_0[symmetric])

lemma go_div_nonneg [simp]: "0 \<le> a \<Longrightarrow> 0 < b \<Longrightarrow> go_div a b = a div b"
  by (cases "a = 0") (auto simp: go_div_def)

section \<open>Lists\<close>

lemma find_None_iff_all: "find P xs = None \<longleftrightarrow> (\<forall>x. x \<in> set xs \<longrightarrow> \<not> P x)"
  by (auto simp: find_None_iff)

lemma find_SomeD: "find P xs = Some x \<Longrightarrow> x \<in> set xs \<and> P x"
  by (auto simp: find_Some_iff)

lemma distinct_map_eq:
  "distinct (map f xs) \<Longrightarrow> x \<in> set xs \<Longrightarrow> y \<in> set xs \<Longrightarrow> f x = f y \<Longrightarrow> x = y"
  by (auto simp: distinct_map dest: inj_onD)

lemma length_filter_map_eq:
  "(\<And>x. x \<in> set xs \<Longrightarrow> P (f x) = Q x) \<Longrightarrow> length (filter P (map f xs)) = length (filter Q xs)"
  by (induction xs) auto

end
