(* ===== verification/GoLib.thy ===== *)
theory GoLib
  imports Prelude "HOL-Library.Sublist"
begin

text \<open>
  The Go library functions the modelled code calls on strings, as functions on character
  lists: \<open>strings.Split\<close>, \<open>strings.Join\<close>, \<open>strings.Fields\<close>, \<open>strings.Contains\<close>,
  \<open>strings.HasPrefix\<close>, \<open>strings.TrimPrefix\<close>, \<open>strconv.Atoi\<close>, the decimal printing of
  \<open>strconv.Itoa\<close> and \<open>%d\<close>, and the pattern operator \<open>LIKE\<close> of SQLite. The separators
  the code uses are single bytes. \<open>Fields\<close> splits at the ASCII spaces; the two further
  spaces of \<open>unicode.IsSpace\<close> below U+0100 are not single bytes in UTF-8.
\<close>

section \<open>Splitting and joining\<close>

fun split_on :: "char \<Rightarrow> string \<Rightarrow> string list" where
  "split_on c [] = [[]]"
| "split_on c (x # xs) =
     (if x = c then [] # split_on c xs
      else case split_on c xs of [] \<Rightarrow> [[x]] | p # ps \<Rightarrow> (x # p) # ps)"

fun join_with :: "char \<Rightarrow> string list \<Rightarrow> string" where
  "join_with c [] = []"
| "join_with c [p] = p"
| "join_with c (p # q # ps) = p @ c # join_with c (q # ps)"

definition has_prefix :: "string \<Rightarrow> string \<Rightarrow> bool" where
  "has_prefix s p \<longleftrightarrow> take (length p) s = p"

definition trim_prefix :: "string \<Rightarrow> string \<Rightarrow> string" where
  "trim_prefix s p = (if has_prefix s p then drop (length p) s else s)"

definition contains_char :: "string \<Rightarrow> char \<Rightarrow> bool" where
  "contains_char s c \<longleftrightarrow> c \<in> set s"

lemma split_on_neq_Nil [simp]: "split_on c s \<noteq> []"
  by (cases s) (auto split: list.splits)

lemma join_Cons_neq: "ps \<noteq> [] \<Longrightarrow> join_with c (p # ps) = p @ c # join_with c ps"
  by (cases ps) auto

lemma join_split [go_lib]: "join_with c (split_on c s) = s"
proof (induction s)
  case (Cons x xs)
  then show ?case
    by (cases "split_on c xs"; cases "tl (split_on c xs)") auto
qed simp

lemma split_on_no_sep: "c \<notin> set s \<Longrightarrow> split_on c s = [s]"
  by (induction s) auto

lemma split_on_append_sep: "c \<notin> set p \<Longrightarrow> split_on c (p @ c # s) = p # split_on c s"
  by (induction p) auto

lemma split_join [go_lib]:
  "ps \<noteq> [] \<Longrightarrow> (\<And>p. p \<in> set ps \<Longrightarrow> c \<notin> set p) \<Longrightarrow> split_on c (join_with c ps) = ps"
proof (induction ps)
  case (Cons p ps)
  show ?case
  proof (cases "ps = []")
    case True
    then show ?thesis using Cons.prems by (simp add: split_on_no_sep)
  next
    case False
    with Cons show ?thesis by (simp add: join_Cons_neq split_on_append_sep)
  qed
qed simp

lemma split_on_piece_no_sep: "p \<in> set (split_on c s) \<Longrightarrow> c \<notin> set p"
  by (induction s arbitrary: p) (auto split: if_splits list.splits)

lemma length_split_piece: "p \<in> set (split_on c s) \<Longrightarrow> length p \<le> length s"
  by (induction s arbitrary: p) (force split: if_splits list.splits)+

lemma length_split_piece_less:
  assumes "c \<in> set s" and "p \<in> set (split_on c s)"
  shows "length p < length s"
  using assms
proof (induction s arbitrary: p)
  case (Cons x xs)
  then show ?case
    using length_split_piece[of _ c xs]
    by (cases "split_on c xs") (auto split: if_splits simp: le_imp_less_Suc less_SucI)
qed simp

section \<open>Fields\<close>

definition is_space :: "char \<Rightarrow> bool" where
  "is_space c \<longleftrightarrow> of_char c \<in> {9, 10, 11, 12, 13, 32::nat}"

fun Fields_acc :: "string \<Rightarrow> string \<Rightarrow> string list" where
  "Fields_acc cur [] = (if cur = [] then [] else [rev cur])"
| "Fields_acc cur (x # xs) =
     (if is_space x then (if cur = [] then Fields_acc [] xs else rev cur # Fields_acc [] xs)
      else Fields_acc (x # cur) xs)"

definition Fields :: "string \<Rightarrow> string list" where
  "Fields s = Fields_acc [] s"

definition word_chars :: "string \<Rightarrow> bool" where
  "word_chars p \<longleftrightarrow> p \<noteq> [] \<and> list_all (\<lambda>c. \<not> is_space c) p"

lemma Fields_acc_word:
  "list_all (\<lambda>c. \<not> is_space c) p \<Longrightarrow> Fields_acc cur (p @ s) = Fields_acc (rev p @ cur) s"
  by (induction p arbitrary: cur) auto

lemma Fields_last: "word_chars p \<Longrightarrow> Fields p = [p]"
  using Fields_acc_word[of p "[]" "[]"] by (auto simp: Fields_def word_chars_def)

lemma Fields_word_space:
  "word_chars p \<Longrightarrow> is_space c \<Longrightarrow> Fields (p @ c # s) = p # Fields s"
  using Fields_acc_word[of p "[]" "c # s"] by (auto simp: Fields_def word_chars_def)

lemma Fields_join [go_lib]:
  "(\<And>p. p \<in> set ps \<Longrightarrow> word_chars p) \<Longrightarrow> Fields (join_with CHR '' '' ps) = ps"
proof (induction ps)
  case Nil
  then show ?case by (simp add: Fields_def)
next
  case (Cons p ps)
  have sp: "is_space CHR '' ''" by (simp add: is_space_def)
  show ?case
  proof (cases "ps = []")
    case True
    then show ?thesis using Cons.prems by (simp add: Fields_last)
  next
    case False
    with Cons sp show ?thesis by (simp add: join_Cons_neq Fields_word_space)
  qed
qed

section \<open>Decimal numbers\<close>

definition digit_of :: "char \<Rightarrow> nat option" where
  "digit_of c = (let n = of_char c in if 48 \<le> n \<and> n \<le> 57 then Some (n - 48) else None)"

fun parse_digits :: "nat \<Rightarrow> string \<Rightarrow> nat option" where
  "parse_digits acc [] = Some acc"
| "parse_digits acc (c # cs) =
     (case digit_of c of None \<Rightarrow> None | Some d \<Rightarrow> parse_digits (10 * acc + d) cs)"

text \<open>
  \<open>strconv.Atoi\<close>: an optional sign, at least one digit, only digits, and the value in the
  range of a 64-bit \<open>int\<close>. \<open>None\<close> stands for a non-nil error, whatever its kind.
\<close>

definition max_int :: int where "max_int = 2 ^ 63 - 1"

definition parse_nat :: "string \<Rightarrow> nat option" where
  "parse_nat s = (if s = [] then None else parse_digits 0 s)"

definition in_int64 :: "int \<Rightarrow> int option" where
  "in_int64 n = (if - (2 ^ 63) \<le> n \<and> n \<le> max_int then Some n else None)"

definition Atoi :: "string \<Rightarrow> int option" where
  "Atoi s =
     (case s of
        [] \<Rightarrow> None
      | c # r \<Rightarrow>
          if c = CHR ''-'' then
            (case parse_nat r of None \<Rightarrow> None | Some n \<Rightarrow> in_int64 (- int n))
          else if c = CHR ''+'' then
            (case parse_nat r of None \<Rightarrow> None | Some n \<Rightarrow> in_int64 (int n))
          else
            (case parse_nat s of None \<Rightarrow> None | Some n \<Rightarrow> in_int64 (int n)))"

definition digit_char :: "nat \<Rightarrow> char" where
  "digit_char d = char_of (48 + d)"

fun itoa_nat :: "nat \<Rightarrow> string" where
  "itoa_nat n = (if n < 10 then [digit_char n] else itoa_nat (n div 10) @ [digit_char (n mod 10)])"

declare itoa_nat.simps [simp del]

definition Itoa :: "int \<Rightarrow> string" where
  "Itoa n = (if n < 0 then CHR ''-'' # itoa_nat (nat (- n)) else itoa_nat (nat n))"

lemma of_char_digit: "d < 10 \<Longrightarrow> of_char (digit_char d) = 48 + d"
  by (simp add: digit_char_def)

lemma digit_of_digit_char [simp]: "d < 10 \<Longrightarrow> digit_of (digit_char d) = Some d"
  by (simp add: digit_of_def of_char_digit)

lemma parse_digits_append:
  "parse_digits a (xs @ ys) =
     (case parse_digits a xs of None \<Rightarrow> None | Some b \<Rightarrow> parse_digits b ys)"
  by (induction xs arbitrary: a) (auto split: option.splits)

lemma parse_itoa: "parse_digits 0 (itoa_nat n) = Some n"
proof (induction n rule: itoa_nat.induct)
  case (1 n)
  show ?case
  proof (cases "n < 10")
    case True
    then show ?thesis by (subst itoa_nat.simps) simp
  next
    case False
    with 1 show ?thesis by (subst itoa_nat.simps) (simp add: parse_digits_append)
  qed
qed

lemma itoa_nat_neq_Nil [simp]: "itoa_nat n \<noteq> []"
  by (subst itoa_nat.simps) simp

lemma itoa_nat_digits: "c \<in> set (itoa_nat n) \<Longrightarrow> \<exists>d. d < 10 \<and> c = digit_char d"
proof (induction n rule: itoa_nat.induct)
  case (1 n)
  have "n mod 10 < 10" by simp
  then have last: "\<exists>d<10. digit_char (n mod 10) = digit_char d" by blast
  from "1.prems" have "c \<in> set (if n < 10 then [digit_char n] else itoa_nat (n div 10) @ [digit_char (n mod 10)])"
    by (subst (asm) itoa_nat.simps)
  with last "1.IH" show ?case by (auto split: if_splits)
qed

lemma digit_char_range: "d < 10 \<Longrightarrow> (of_char (digit_char d) :: nat) \<in> {48..57}"
  by (auto simp: of_char_digit)

lemma itoa_nat_char_range: "c \<in> set (itoa_nat n) \<Longrightarrow> (of_char c :: nat) \<in> {48..57}"
  using itoa_nat_digits digit_char_range by blast

lemma itoa_nat_not_in:
  "(of_char c :: nat) < 48 \<Longrightarrow> c \<notin> set (itoa_nat n)"
  using itoa_nat_char_range[of c n] by auto

lemma parse_nat_itoa [simp]: "parse_nat (itoa_nat n) = Some n"
  by (simp add: parse_nat_def parse_itoa)

lemma Atoi_itoa_nat [go_lib]: "int n \<le> max_int \<Longrightarrow> Atoi (itoa_nat n) = Some (int n)"
proof -
  assume n: "int n \<le> max_int"
  obtain c r where cr: "itoa_nat n = c # r" by (cases "itoa_nat n") auto
  have "c \<noteq> CHR ''-''" "c \<noteq> CHR ''+''"
    using itoa_nat_not_in[of "CHR ''-''" n] itoa_nat_not_in[of "CHR ''+''" n] cr by auto
  with cr n parse_nat_itoa[of n] show ?thesis
    by (simp add: Atoi_def in_int64_def)
qed

lemma itoa_nat_word [go_lib]: "word_chars (itoa_nat n)"
  using itoa_nat_char_range[of _ n]
  by (fastforce simp: word_chars_def list_all_iff is_space_def)

section \<open>SQLite's LIKE\<close>

text \<open>
  \<open>%\<close> matches any sequence, \<open>_\<close> any one character, any other character itself, without
  regard to the case of ASCII letters.
\<close>

definition ascii_lower :: "char \<Rightarrow> char" where
  "ascii_lower c = (let n = of_char c in if 65 \<le> n \<and> n \<le> (90::nat) then char_of (n + 32) else c)"

fun like_match :: "string \<Rightarrow> string \<Rightarrow> bool" where
  "like_match [] s = (s = [])"
| "like_match (p # ps) [] = (p = CHR ''%'' \<and> like_match ps [])"
| "like_match (p # ps) (c # s) =
     (if p = CHR ''%'' then like_match ps (c # s) \<or> like_match (p # ps) s
      else if p = CHR ''_'' then like_match ps s
      else ascii_lower p = ascii_lower c \<and> like_match ps s)"

lemma like_percent: "like_match ''%'' s"
  by (induction s) auto

lemma like_prefix_self:
  "CHR ''%'' \<notin> set p \<Longrightarrow> like_match (p @ ''%'') (p @ s)"
  by (induction p) (use like_percent in auto)

lemma like_prefix_literal:
  assumes "list_all (\<lambda>c. c \<noteq> CHR ''%'' \<and> c \<noteq> CHR ''_'') p" and "like_match (p @ ''%'') s"
  shows "\<exists>q r. s = q @ r \<and> map ascii_lower q = map ascii_lower p"
  using assms
proof (induction p arbitrary: s)
  case (Cons a p)
  then obtain c t where s: "s = c # t" by (cases s) auto
  with Cons.prems have low: "ascii_lower a = ascii_lower c" and m: "like_match (p @ ''%'') t"
    by auto
  from Cons.IH[OF _ m] Cons.prems obtain q r where "t = q @ r" "map ascii_lower q = map ascii_lower p"
    by auto
  with s low show ?case by (intro exI[of _ "c # q"] exI[of _ r]) simp
qed simp

end
