(* ===== verification/Core.thy ===== *)
theory Core
  imports GoLib "HOL-Library.Word" "HOL-Library.List_Lexorder" "HOL-Library.Char_ord"
    "HOL-Library.Multiset"
begin

text \<open>
  The shared declarations of package \<open>queue\<close> (\<open>queue.go\<close>): the envelope and the detail
  records, the driver registry; and the helpers of \<open>helpers.go\<close>: default limits, the
  retry backoff on 64-bit integers, tag matching and the ordering of cron details. The
  error values of \<open>queue.go\<close> are constructors of \<open>Prelude.err\<close>. A job id that the code
  draws from \<open>crypto/rand\<close> is an argument of the operations that use one: the sixteen
  random bytes.
\<close>

section \<open>Data\<close>

record TraceContext =
  TraceID :: string
  SpanID :: string

record JobEnvelope =
  TraceCtx :: TraceContext
  Args :: bytes
  Dependencies :: "string list"
  Tags :: "string list"
  JobID :: string
  Queue :: string
  Name :: string
  UniqueKey :: string
  BatchID :: string
  RunAt :: "time option"
  UniqueTTL :: duration
  Priority :: int
  Attempts :: int
  MaxAttempts :: int

text \<open>The zero value of \<open>JobEnvelope\<close>, which composite literals start from.\<close>

definition zero_envelope :: JobEnvelope where
  "zero_envelope =
     \<lparr>TraceCtx = \<lparr>TraceID = '''', SpanID = ''''\<rparr>, Args = [], Dependencies = [], Tags = [],
      JobID = '''', Queue = '''', Name = '''', UniqueKey = '''', BatchID = '''',
      RunAt = None, UniqueTTL = 0, Priority = 0, Attempts = 0, MaxAttempts = 0\<rparr>"

text \<open>\<open>CreatedAt\<close> is \<open>time.RFC3339\<close>, computed by \<open>Json.rfc3339\<close>.\<close>

record JobDetail =
  jd_JobID :: string
  jd_Queue :: string
  jd_Name :: string
  jd_Status :: string
  jd_TraceID :: string
  jd_ErrorMessage :: string
  jd_CreatedAt :: string

record CronJob =
  cj_Payload :: bytes
  cj_Spec :: string
  cj_Name :: string
  cj_Queue :: string
  cj_Timezone :: string
  cj_Paused :: bool

record CronJobDetail =
  cd_Name :: string
  cd_Expression :: string
  cd_Queue :: string
  cd_Payload :: string
  cd_Timezone :: string
  cd_Source :: string
  cd_Paused :: bool

definition zero_CronJobDetail :: CronJobDetail where
  "zero_CronJobDetail =
     \<lparr>cd_Name = '''', cd_Expression = '''', cd_Queue = '''', cd_Payload = '''',
      cd_Timezone = '''', cd_Source = '''', cd_Paused = False\<rparr>"

record ProcessInfo =
  pi_HeartbeatAt :: time
  pi_Queues :: "string list"
  pi_ProcessID :: string
  pi_Concurrency :: int
  pi_MinConcurrency :: int
  pi_MaxConcurrency :: int
  pi_IsLeader :: bool

record QueueStats =
  qs_Name :: string
  qs_Pending :: int
  qs_Running :: int
  qs_Failed :: int
  qs_Processed :: int
  qs_Paused :: bool

record Stats =
  st_Queues :: "QueueStats list"
  st_Jobs :: "JobDetail list"
  st_Processes :: "ProcessInfo list"
  st_CronJobs :: "CronJobDetail list"
  st_Pending :: int
  st_Running :: int
  st_Failed :: int
  st_Processed :: int

definition zero_Stats :: Stats where
  "zero_Stats = \<lparr>st_Queues = [], st_Jobs = [], st_Processes = [], st_CronJobs = [],
     st_Pending = 0, st_Running = 0, st_Failed = 0, st_Processed = 0\<rparr>"

section \<open>Printing\<close>

text \<open>Hexadecimal bytes, and \<open>%q\<close> (\<open>strconv.Quote\<close>) on the bytes that need no Unicode tables.\<close>

definition hex_digit :: "nat \<Rightarrow> char" where
  "hex_digit d = (if d < 10 then char_of (48 + d) else char_of (87 + d))"

definition hex_byte :: "char \<Rightarrow> string" where
  "hex_byte b = [hex_digit (of_char b div 16), hex_digit (of_char b mod 16)]"

definition go_quote_char :: "char \<Rightarrow> string" where
  "go_quote_char c =
     (if c = CHR 0x22 \<or> c = CHR 0x5C then [CHR 0x5C, c]
      else if c = CHR 0x07 then [CHR 0x5C, CHR ''a''] else if c = CHR 0x08 then [CHR 0x5C, CHR ''b'']
      else if c = CHR 0x0C then [CHR 0x5C, CHR ''f''] else if c = CHR 0x0A then [CHR 0x5C, CHR ''n'']
      else if c = CHR 0x0D then [CHR 0x5C, CHR ''r''] else if c = CHR 0x09 then [CHR 0x5C, CHR ''t'']
      else if c = CHR 0x0B then [CHR 0x5C, CHR ''v'']
      else if (of_char c :: nat) < 32 \<or> c = CHR 0x7F then [CHR 0x5C, CHR ''x''] @ hex_byte c
      else [c])"

definition go_quote :: "string \<Rightarrow> string" where
  "go_quote s = [CHR 0x22] @ concat (map go_quote_char s) @ [CHR 0x22]"

section \<open>The driver registry\<close>

text \<open>
  The package variable \<open>drivers\<close>; a factory is a function from the connection to a driver
  or an error, \<open>None\<close> the nil factory. A panic is an \<open>Inl\<close> with its message.
\<close>

type_synonym ('c, 'd) factory = "'c \<Rightarrow> err + 'd"
type_synonym ('c, 'd) drivers = "string \<Rightarrow> ('c, 'd) factory option"

definition RegisterStorageDriver ::
  "('c, 'd) drivers \<Rightarrow> string \<Rightarrow> ('c, 'd) factory option \<Rightarrow> string + ('c, 'd) drivers" where
  "RegisterStorageDriver drivers name fac =
     (case fac of
        None \<Rightarrow> Inl ''queue: RegisterStorageDriver factory is nil''
      | Some f \<Rightarrow>
          if drivers name \<noteq> None
          then Inl (''queue: RegisterStorageDriver called twice for driver '' @ name)
          else Inr (drivers(name \<mapsto> f)))"

definition OpenStorage :: "('c, 'd) drivers \<Rightarrow> string \<Rightarrow> 'c \<Rightarrow> err + 'd" where
  "OpenStorage drivers name conn =
     (case drivers name of
        None \<Rightarrow> Inl (ErrMsg (''queue: unknown storage driver '' @ go_quote name @ '' (forgotten import?)''))
      | Some f \<Rightarrow> f conn)"

section \<open>helpers.go\<close>

definition generateJobID :: "bytes \<Rightarrow> string" where
  "generateJobID rnd = concat (map hex_byte rnd)"

definition getRunAt :: "time \<Rightarrow> time option \<Rightarrow> time" where
  "getRunAt now t = (case t of Some r \<Rightarrow> r | None \<Rightarrow> now)"

definition getMaxAttempts :: "int \<Rightarrow> int" where
  "getMaxAttempts mx = (if mx \<le> 0 then 3 else mx)"

text \<open>
  \<open>ComputeBackoffDelay\<close> computes on 64-bit \<open>int\<close>s: the shift drops the bits it moves out,
  the multiplication wraps, and so does the scaling to nanoseconds. \<open>now\<close> is the clock the
  jitter is taken from.
\<close>

definition jitter_sec :: "time \<Rightarrow> int" where
  "jitter_sec now = (now mod second) mod 3"

definition backoff_shift :: "int \<Rightarrow> 64 word" where
  "backoff_shift attempts = push_bit (unat (word_of_int attempts :: 64 word)) 1 * 10"

definition ComputeBackoffDelay :: "int \<Rightarrow> time \<Rightarrow> duration" where
  "ComputeBackoffDelay attempts now =
     (let delaySec = (if sint (backoff_shift attempts) > 3600 then 3600
                      else sint (backoff_shift attempts))
      in sint ((word_of_int (delaySec + jitter_sec now) * word_of_int second) :: 64 word))"

fun tag_found :: "string \<Rightarrow> string list \<Rightarrow> bool" where
  "tag_found jt [] = False"
| "tag_found jt (wt # ws) = (if jt = wt then True else tag_found jt ws)"

fun tags_loop :: "string list \<Rightarrow> string list \<Rightarrow> bool" where
  "tags_loop [] ws = True"
| "tags_loop (jt # js) ws = (if \<not> tag_found jt ws then False else tags_loop js ws)"

definition matchTags :: "string list \<Rightarrow> string list \<Rightarrow> bool" where
  "matchTags jobTags workerTags = (if jobTags = [] then True else tags_loop jobTags workerTags)"

text \<open>
  A Go map is given by its entries in the (unspecified) order of the iteration;
  \<open>sort.Strings\<close> orders bytewise.
\<close>

definition map_get :: "(string \<times> CronJobDetail) list \<Rightarrow> string \<Rightarrow> CronJobDetail" where
  "map_get m n = (case map_of m n of Some d \<Rightarrow> d | None \<Rightarrow> zero_CronJobDetail)"

definition sortCronJobs :: "(string \<times> CronJobDetail) list \<Rightarrow> CronJobDetail list" where
  "sortCronJobs m = map (map_get m) (sort (map fst m))"

section \<open>Facts\<close>

lemma tag_found_iff [simp]: "tag_found t ws \<longleftrightarrow> t \<in> set ws"
  by (induction ws) auto

lemma tags_loop_iff [simp]: "tags_loop js ws \<longleftrightarrow> set js \<subseteq> set ws"
  by (induction js) auto

lemma matchTags_iff: "matchTags js ws \<longleftrightarrow> set js \<subseteq> set ws"
  by (simp add: matchTags_def)

lemma getMaxAttempts_pos [simp]: "0 < getMaxAttempts mx"
  by (simp add: getMaxAttempts_def)

lemma length_generateJobID: "length (generateJobID rnd) = 2 * length rnd"
  by (induction rnd) (auto simp: generateJobID_def hex_byte_def)

lemma jitter_bounds: "0 \<le> jitter_sec now \<and> jitter_sec now \<le> 2"
  by (simp add: jitter_sec_def)

subsection \<open>The generated ids\<close>

lemma hex_digit_inj: "d < 16 \<Longrightarrow> e < 16 \<Longrightarrow> hex_digit d = hex_digit e \<Longrightarrow> d = e"
proof -
  assume b: "d < 16" "e < 16" and eq: "hex_digit d = hex_digit e"
  from eq have "(of_char (hex_digit d) :: nat) = of_char (hex_digit e)" by simp
  with b show "d = e"
    by (auto simp: hex_digit_def split: if_splits)
qed

lemma hex_byte_inj: "hex_byte a = hex_byte b \<Longrightarrow> a = b"
proof -
  assume eq: "hex_byte a = hex_byte b"
  have lt: "(of_char a :: nat) div 16 < 16" "(of_char b :: nat) div 16 < 16"
    using nat_of_char_less_256[of a] nat_of_char_less_256[of b] by (auto simp: less_mult_imp_div_less)
  have md: "(of_char a :: nat) mod 16 < 16" "(of_char b :: nat) mod 16 < 16" by simp_all
  from eq have "(of_char a :: nat) div 16 = of_char b div 16"
    by (intro hex_digit_inj lt) (simp add: hex_byte_def)
  moreover from eq have "(of_char a :: nat) mod 16 = of_char b mod 16"
    by (intro hex_digit_inj md) (simp add: hex_byte_def)
  ultimately have "(of_char a :: nat) = of_char b"
    by (metis div_mod_decomp)
  then show "a = b" by simp
qed

lemma generateJobID_inj:
  "generateJobID r = generateJobID r' \<Longrightarrow> r = r'"
proof (induction r arbitrary: r')
  case Nil
  then show ?case by (cases r') (auto simp: generateJobID_def hex_byte_def)
next
  case (Cons b r)
  then obtain b' s where r': "r' = b' # s"
    by (cases r') (auto simp: generateJobID_def hex_byte_def)
  with Cons.prems have "hex_byte b = hex_byte b'" "generateJobID r = generateJobID s"
    by (auto simp: generateJobID_def hex_byte_def)
  with Cons.IH r' show ?case by (auto dest: hex_byte_inj)
qed

subsection \<open>The backoff shift\<close>

lemma backoff_shift_small:
  assumes "0 \<le> a" "a < 60"
  shows "sint (backoff_shift a) = 2 ^ nat a * 10"
proof -
  have u: "unat (word_of_int a :: 64 word) = nat a"
    using assms by (simp add: unat_eq_nat_uint uint_word_of_int_eq take_bit_int_eq_self)
  have le: "(2::int) ^ nat a \<le> 2 ^ 59"
    using assms by (intro power_increasing) auto
  have "push_bit (nat a) (1 :: 64 word) * 10 = word_of_int (2 ^ nat a * 10)"
    by (simp add: push_bit_eq_mult)
  moreover have "sint (word_of_int (2 ^ nat a * 10) :: 64 word) = 2 ^ nat a * 10"
  proof -
    define p where "p = (2::int) ^ nat a"
    have "0 \<le> p" "p \<le> 2 ^ 59" using le by (auto simp: p_def)
    then have "sint (word_of_int (p * 10) :: 64 word) = p * 10"
      by (subst sint_sbintrunc') (rule signed_take_bit_int_eq_self, auto)
    then show ?thesis by (simp add: p_def)
  qed
  ultimately show ?thesis by (simp add: backoff_shift_def u)
qed

lemma backoff_shift_large:
  assumes "60 \<le> a" "a < 2 ^ 63" "a \<noteq> 61"
  shows "sint (backoff_shift a) \<le> 0 \<and> 2 ^ 60 dvd sint (backoff_shift a)"
proof -
  have u: "unat (word_of_int a :: 64 word) = nat a"
    using assms by (simp add: unat_eq_nat_uint uint_word_of_int_eq take_bit_int_eq_self)
  consider "a = 60" | "a = 62" | "a = 63" | "64 \<le> a" using assms by linarith
  then show ?thesis
  proof cases
    case 4
    then have z: "(2 :: 64 word) ^ nat a = 0" by (simp add: exp_eq_zero_iff)
    have "backoff_shift a = 0" by (simp add: backoff_shift_def u push_bit_eq_mult z)
    then show ?thesis by simp
  qed (simp_all add: backoff_shift_def)
qed


lemma sint_scaled:
  assumes "0 \<le> d" "d \<le> 4000"
  shows "sint ((word_of_int d * word_of_int second) :: 64 word) = d * second"
proof -
  have "(word_of_int d * word_of_int second :: 64 word) = word_of_int (d * second)" by simp
  moreover have "sint (word_of_int (d * second) :: 64 word) = d * second"
    using assms by (subst sint_sbintrunc') (rule signed_take_bit_int_eq_self, auto)
  ultimately show ?thesis by simp
qed

lemma word_second_zero:
  assumes "(2::int) ^ 60 dvd d"
  shows "(word_of_int d * word_of_int second :: 64 word) = 0"
proof -
  from assms obtain k where d: "d = 2 ^ 60 * k" by (auto elim: dvdE)
  have "d * second = 2 ^ 64 * (k * 62500000)" by (simp add: d)
  then have "2 ^ LENGTH(64) dvd d * second" by simp
  then have "(word_of_int (d * second) :: 64 word) = 0" by (simp only: word_of_int_eq_0_iff)
  moreover have "(word_of_int d * word_of_int second :: 64 word) = word_of_int (d * second)" by simp
  ultimately show ?thesis by simp
qed

section \<open>Properties\<close>

text \<open>For the attempt numbers below 60 the retry delay is ten seconds doubled per
  attempt, never more than an hour, plus zero to two seconds of jitter.\<close>

theorem backoff_in_range:
  assumes "0 \<le> attempts" "attempts < 60"
  shows "ComputeBackoffDelay attempts now = (min (2 ^ nat attempts * 10) 3600 + jitter_sec now) * second
    \<and> 10 * second \<le> ComputeBackoffDelay attempts now
    \<and> ComputeBackoffDelay attempts now \<le> 3602 * second"
proof -
  let ?d = "min (2 ^ nat attempts * 10) 3600 :: int"
  have one: "(1::int) \<le> 2 ^ nat attempts" by simp
  then have d: "10 \<le> ?d" "?d \<le> 3600" by (simp_all only: min_def) auto
  have "ComputeBackoffDelay attempts now
      = sint ((word_of_int (?d + jitter_sec now) * word_of_int second) :: 64 word)"
    using assms by (simp add: ComputeBackoffDelay_def backoff_shift_small min_def Let_def not_less)
  also have "\<dots> = (?d + jitter_sec now) * second"
    using d jitter_bounds[of now] by (intro sint_scaled) linarith+
  finally have eq: "ComputeBackoffDelay attempts now = (?d + jitter_sec now) * second" .
  moreover have "10 * second \<le> (?d + jitter_sec now) * second"
      "(?d + jitter_sec now) * second \<le> 3602 * second"
    using d jitter_bounds[of now] by (intro mult_right_mono; linarith)+
  ultimately show ?thesis by simp
qed

theorem backoff_in_range_witness:
  "ComputeBackoffDelay 2 0 = 40 * second \<and> ComputeBackoffDelay 20 4 = 3601 * second"
  using backoff_in_range[of 2 0] backoff_in_range[of 20 4] by (simp add: jitter_sec_def)

text \<open>From attempt 60 on (61 apart) the shift overflows before the cap is applied, so
  the delay collapses to the jitter alone, at most two seconds, instead of the hour the cap
  promises.\<close>

theorem backoff_overflow:
  assumes "60 \<le> attempts" "attempts < 2 ^ 63" "attempts \<noteq> 61"
  shows "ComputeBackoffDelay attempts now = jitter_sec now * second
    \<and> ComputeBackoffDelay attempts now \<le> 2 * second"
proof -
  let ?s = "sint (backoff_shift attempts)"
  from backoff_shift_large[OF assms] have s: "?s \<le> 0" "2 ^ 60 dvd ?s" by auto
  have j: "0 \<le> jitter_sec now" "jitter_sec now \<le> 2" using jitter_bounds by auto
  have "(word_of_int (?s + jitter_sec now) * word_of_int second :: 64 word)
      = word_of_int ?s * word_of_int second + word_of_int (jitter_sec now) * word_of_int second"
    by (simp add: algebra_simps flip: wi_hom_add)
  also have "\<dots> = word_of_int (jitter_sec now) * word_of_int second"
    using word_second_zero[OF s(2)] by simp
  finally have "ComputeBackoffDelay attempts now = jitter_sec now * second"
    using s(1) j sint_scaled[of "jitter_sec now"] by (simp add: ComputeBackoffDelay_def)
  with j show ?thesis by simp
qed

theorem backoff_overflow_witness:
  "ComputeBackoffDelay 60 5 = 2 * second \<and> ComputeBackoffDelay 64 0 = 0"
  using backoff_overflow[of 60 5] backoff_overflow[of 64 0] by (simp add: jitter_sec_def)

text \<open>Whatever order the Go map is iterated in, \<open>sortCronJobs\<close> returns the same list:
  every entry once, in the order of the names.\<close>

lemma sortCronJobs_deterministic:
  assumes "distinct (map fst m)" "mset m = mset m'"
  shows "sortCronJobs m = sortCronJobs m'
    \<and> mset (sortCronJobs m) = mset (map snd m)"
proof -
  have dist': "distinct (map fst m')"
    using assms by (metis mset_eq_imp_distinct_iff mset_map)
  have "set m = set m'" using assms(2) by (rule mset_eq_setD)
  then have "map_of m = map_of m'" using assms(1) dist' by (rule map_of_inject_set[THEN iffD2, rotated 2])
  then have get: "map_get m = map_get m'" by (simp add: map_get_def fun_eq_iff)
  have "sort (map fst m) = sort (map fst m')"
    using assms(2) by (metis mset_map sorted_list_of_multiset_mset)
  with get have eq: "sortCronJobs m = sortCronJobs m'" by (simp add: sortCronJobs_def)
  have "map (map_get m) (map fst m) = map snd m"
    using assms(1) by (auto simp: map_get_def)
  then have "mset (sortCronJobs m) = mset (map snd m)"
    by (metis mset_map mset_sort sortCronJobs_def)
  with eq show ?thesis by blast
qed

text \<open>A driver name is registered at most once and never with a nil factory; every
  refused registration panics, and an accepted one is what \<open>OpenStorage\<close> later uses,
  leaving every other driver as it was.\<close>

lemma driver_registry:
  "RegisterStorageDriver ds name fac = Inr ds' \<longleftrightarrow>
     (\<exists>f. fac = Some f \<and> ds name = None \<and> ds' = ds(name \<mapsto> f)
        \<and> (\<forall>conn. OpenStorage ds' name conn = f conn)
        \<and> (\<forall>other conn. other = name \<or> OpenStorage ds' other conn = OpenStorage ds other conn))"
  by (auto simp: RegisterStorageDriver_def OpenStorage_def split: option.splits if_splits)

end
