(* ===== verification/SqlBase.thy ===== *)
theory SqlBase
  imports Core
begin

text \<open>
  The storage the SQL backends work on: the tables of \<open>sqlite.go\<close> (\<open>sqliteTables\<close>) as
  records of row lists in rowid order, and the effects of \<open>database/sql\<close> as an action.
  An action runs on the database and a schedule of engine failures: every statement, every
  \<open>BeginTx\<close> and every \<open>Commit\<close> takes one entry, and \<open>True\<close> makes it fail (\<open>ErrEngine\<close>);
  an exhausted schedule means no further failures. The result is an error or a value, with
  the new database; \<open>None\<close> means that the process died of stack exhaustion, which only the
  recursive dependency cascade can cause.

  SQL semantics used: a statement is atomic; \<open>INSERT\<close> fails on an existing primary key;
  \<open>CURRENT_TIMESTAMP\<close> has whole seconds; SQLite does not enforce \<open>FOREIGN KEY\<close> clauses, as
  the code never sets \<open>PRAGMA foreign_keys\<close>; DATETIME columns are compared as instants. An
  operation reads the clock once (\<open>now\<close>).
\<close>

section \<open>Rows and tables\<close>

datatype job_status = Pending | Running | Processed | Dead | Blocked | Failed

datatype batch_status = BatchOpen | BatchSealed | BatchCompleted | BatchFailed

record job_row =
  j_id :: string
  j_queue :: string
  j_name :: string
  j_args :: bytes
  j_trace_id :: string
  j_span_id :: string
  j_status :: job_status
  j_attempts :: int
  j_max_attempts :: int
  j_error_message :: string
  j_created_at :: time
  j_updated_at :: time
  j_locked_at :: "time option"
  j_run_at :: "time option"
  j_unique_key :: string
  j_batch_id :: string
  j_priority :: int
  j_tags :: string

record lock_row =
  l_key :: string
  l_job_id :: string
  l_expires_at :: time

record process_row =
  p_id :: string
  p_concurrency :: int
  p_queues :: string
  p_heartbeat_at :: time
  p_min_concurrency :: int
  p_max_concurrency :: int

record batch_row =
  b_id :: string
  b_callback_queue :: string
  b_callback_name :: string
  b_callback_args :: bytes
  b_total_jobs :: int
  b_pending_jobs :: int
  b_status :: batch_status
  b_expires_at :: "time option"
  b_created_at :: time

record cron_row =
  c_name :: string
  c_expression :: string
  c_queue :: string
  c_payload :: string
  c_timezone :: string
  c_updated_at :: time

record schedule_row =
  s_name :: string
  s_spec :: string
  s_queue :: string
  s_payload :: bytes
  s_timezone :: string
  s_paused :: int
  s_created_at :: time
  s_updated_at :: time

text \<open>
  A cron lock is the pair of its key columns with the time it was acquired; a rate-limit row
  the name and the time stamp; a dependency the child and the parent; the lease table holds
  the holder and the expiry per lease key.
\<close>

record db =
  jobs :: "job_row list"
  archived_jobs :: "job_row list"
  unique_locks :: "lock_row list"
  processes :: "process_row list"
  cron_locks :: "((string \<times> time) \<times> time) list"
  rate_limits :: "(string \<times> int) list"
  batches :: "batch_row list"
  paused_queues :: "string list"
  cron_jobs :: "cron_row list"
  cron_schedules :: "schedule_row list"
  job_dependencies :: "(string \<times> string) list"
  leader_leases :: "(string \<times> (string \<times> time)) list"

definition empty_db :: db where
  "empty_db = \<lparr>jobs = [], archived_jobs = [], unique_locks = [], processes = [], cron_locks = [],
     rate_limits = [], batches = [], paused_queues = [], cron_jobs = [], cron_schedules = [],
     job_dependencies = [], leader_leases = []\<rparr>"

definition cur_ts :: "time \<Rightarrow> time" where
  "cur_ts now = now div second * second"

subsection \<open>What a statement does to a table\<close>

definition t_find :: "('r \<Rightarrow> bool) \<Rightarrow> 'r list \<Rightarrow> 'r option" where
  "t_find P t = find P t"

definition t_update :: "('r \<Rightarrow> bool) \<Rightarrow> ('r \<Rightarrow> 'r) \<Rightarrow> 'r list \<Rightarrow> 'r list" where
  "t_update P f t = map (\<lambda>r. if P r then f r else r) t"

definition t_delete :: "('r \<Rightarrow> bool) \<Rightarrow> 'r list \<Rightarrow> 'r list" where
  "t_delete P t = filter (\<lambda>r. \<not> P r) t"

definition has_key :: "('r \<Rightarrow> 'k) \<Rightarrow> 'k \<Rightarrow> 'r list \<Rightarrow> bool" where
  "has_key key k t \<longleftrightarrow> (\<exists>r\<in>set t. key r = k)"

definition t_insert_ignore :: "('r \<Rightarrow> 'k) \<Rightarrow> 'r \<Rightarrow> 'r list \<Rightarrow> 'r list" where
  "t_insert_ignore key r t = (if has_key key (key r) t then t else t @ [r])"

definition t_upsert :: "('r \<Rightarrow> 'k) \<Rightarrow> 'r \<Rightarrow> ('r \<Rightarrow> 'r) \<Rightarrow> 'r list \<Rightarrow> 'r list" where
  "t_upsert key r f t =
     (if has_key key (key r) t then t_update (\<lambda>x. key x = key r) f t else t @ [r])"

section \<open>Actions\<close>

type_synonym ('s, 'a) eff = "'s \<times> bool list \<Rightarrow> ((err + 'a) \<times> ('s \<times> bool list)) option"
type_synonym conn = "db \<times> bool list"
type_synonym 'a sql = "(db, 'a) eff"

definition ret :: "'a \<Rightarrow> ('s, 'a) eff" where
  "ret x = (\<lambda>c. Some (Inr x, c))"

definition throw :: "err \<Rightarrow> ('s, 'a) eff" where
  "throw e = (\<lambda>c. Some (Inl e, c))"

definition crash :: "('s, 'a) eff" where
  "crash = (\<lambda>c. None)"

definition bindS :: "('s, 'a) eff \<Rightarrow> ('a \<Rightarrow> ('s, 'b) eff) \<Rightarrow> ('s, 'b) eff" where
  "bindS m f = (\<lambda>c. case m c of
       None \<Rightarrow> None
     | Some (Inl e, c') \<Rightarrow> Some (Inl e, c')
     | Some (Inr x, c') \<Rightarrow> f x c')"

definition thenS :: "('s, unit) eff \<Rightarrow> ('s, 'b) eff \<Rightarrow> ('s, 'b) eff" where
  "thenS m n = bindS m (\<lambda>_. n)"

text \<open>The error as a value, for the callers that inspect or drop it.\<close>

definition tryS :: "('s, 'a) eff \<Rightarrow> ('s, err + 'a) eff" where
  "tryS m = (\<lambda>c. case m c of None \<Rightarrow> None | Some (r, c') \<Rightarrow> Some (Inr r, c'))"

definition ignoreS :: "('s, 'a) eff \<Rightarrow> ('s, unit) eff" where
  "ignoreS m = bindS (tryS m) (\<lambda>_. ret ())"

text \<open>\<open>for _, x := range xs { if err := f(x); err != nil { return err } }\<close>\<close>

fun forS :: "('x \<Rightarrow> ('s, unit) eff) \<Rightarrow> 'x list \<Rightarrow> ('s, unit) eff" where
  "forS f [] = ret ()"
| "forS f (x # xs) = thenS (f x) (forS f xs)"

text \<open>One call of the driver: it fails if the schedule says so, and else runs.\<close>

definition engine :: "('s \<Rightarrow> (err + 'a) \<times> 's) \<Rightarrow> ('s, 'a) eff" where
  "engine g = (\<lambda>(d, fs). case fs of
       True # fs' \<Rightarrow> Some (Inl ErrEngine, (d, fs'))
     | _ \<Rightarrow> (case g d of (r, d') \<Rightarrow> Some (r, (d', tl fs))))"

definition exec :: "('s \<Rightarrow> 's) \<Rightarrow> ('s, unit) eff" where
  "exec g = engine (\<lambda>d. (Inr (), g d))"

text \<open>\<open>exec_count\<close> also returns \<open>RowsAffected\<close>.\<close>

definition exec_count :: "('s \<Rightarrow> int) \<Rightarrow> ('s \<Rightarrow> 's) \<Rightarrow> ('s, int) eff" where
  "exec_count n g = engine (\<lambda>d. (Inr (n d), g d))"

definition exec_unique :: "('s \<Rightarrow> bool) \<Rightarrow> ('s \<Rightarrow> 's) \<Rightarrow> ('s, unit) eff" where
  "exec_unique ok g = engine (\<lambda>d. if ok d then (Inr (), g d) else (Inl ErrConstraint, d))"

definition query :: "('s \<Rightarrow> 'a) \<Rightarrow> ('s, 'a) eff" where
  "query g = engine (\<lambda>d. (Inr (g d), d))"

text \<open>\<open>QueryRow(...).Scan(...)\<close>, possibly of an \<open>UPDATE ... RETURNING\<close>.\<close>

definition query_row :: "('s \<Rightarrow> 'a option) \<Rightarrow> ('s, 'a) eff" where
  "query_row g = engine (\<lambda>d. case g d of None \<Rightarrow> (Inl ErrNoRows, d) | Some x \<Rightarrow> (Inr x, d))"

definition update_returning :: "('s \<Rightarrow> 'a option) \<Rightarrow> ('s \<Rightarrow> 's) \<Rightarrow> ('s, 'a) eff" where
  "update_returning g u =
     engine (\<lambda>d. case g (u d) of None \<Rightarrow> (Inl ErrNoRows, u d) | Some x \<Rightarrow> (Inr x, u d))"

text \<open>
  \<open>run_tx body\<close>: \<open>BeginTx\<close>, \<open>defer tx.Rollback()\<close>, the body, and a \<open>Commit\<close> if the body
  ends in one; its error (\<open>Inl\<close> with \<open>ErrEngine\<close>) is part of the result. Whatever is not
  committed is rolled back.
\<close>

definition run_tx :: "('s, 'a \<times> bool) eff \<Rightarrow> ('s, 'a \<times> err option) eff" where
  "run_tx body = (\<lambda>(d, fs). case fs of
       True # fs' \<Rightarrow> Some (Inl ErrEngine, (d, fs'))
     | _ \<Rightarrow> (case body (d, tl fs) of
           None \<Rightarrow> None
         | Some (Inl e, (d', fs1)) \<Rightarrow> Some (Inl e, (d, fs1))
         | Some (Inr (x, commit), (d', fs1)) \<Rightarrow>
             if \<not> commit then Some (Inr (x, None), (d, fs1))
             else (case fs1 of
                 True # fs2 \<Rightarrow> Some (Inr (x, Some ErrEngine), (d, fs2))
               | _ \<Rightarrow> Some (Inr (x, None), (d', tl fs1)))))"

text \<open>The usual ending \<open>return tx.Commit()\<close>, and the variant that may return without it.\<close>

definition with_tx_if :: "('s, 'a \<times> bool) eff \<Rightarrow> ('s, 'a) eff" where
  "with_tx_if body = bindS (run_tx body) (\<lambda>(x, e). case e of None \<Rightarrow> ret x | Some er \<Rightarrow> throw er)"

definition with_tx :: "('s, 'a) eff \<Rightarrow> ('s, 'a) eff" where
  "with_tx body = with_tx_if (bindS body (\<lambda>x. ret (x, True)))"

section \<open>How the statements change a table\<close>

lemma has_key_iff [table_simps]: "has_key key k t \<longleftrightarrow> k \<in> key ` set t"
  by (auto simp: has_key_def)

lemma t_update_keys [table_simps]:
  "(\<And>r. key (f r) = key r) \<Longrightarrow> map key (t_update P f t) = map key t"
  by (induction t) (auto simp: t_update_def)

lemma t_update_key_set [table_simps]:
  "(\<And>r. key (f r) = key r) \<Longrightarrow> key ` set (t_update P f t) = key ` set t"
  by (metis t_update_keys set_map)

lemma t_delete_keys: "distinct (map key t) \<Longrightarrow> distinct (map key (t_delete P t))"
  by (simp add: t_delete_def distinct_map_filter)

lemma set_t_delete [table_simps]: "set (t_delete P t) = {r \<in> set t. \<not> P r}"
  by (auto simp: t_delete_def)

lemma set_t_update [table_simps]: "set (t_update P f t) = (\<lambda>r. if P r then f r else r) ` set t"
  by (simp add: t_update_def)

lemma t_insert_ignore_keys:
  "distinct (map key t) \<Longrightarrow> distinct (map key (t_insert_ignore key r t))"
  by (auto simp: t_insert_ignore_def has_key_def)

lemma t_upsert_keys:
  assumes "\<And>x. key (f x) = key x" "distinct (map key t)"
  shows "distinct (map key (t_upsert key r f t))"
  using assms by (auto simp: t_upsert_def has_key_def t_update_keys)

lemma t_find_SomeD: "t_find P t = Some r \<Longrightarrow> r \<in> set t \<and> P r"
  by (auto simp: t_find_def find_Some_iff)

lemma t_find_NoneD: "t_find P t = None \<Longrightarrow> r \<in> set t \<Longrightarrow> \<not> P r"
  by (auto simp: t_find_def find_None_iff)

lemma t_find_key:
  assumes "distinct (map key t)" "r \<in> set t"
  shows "t_find (\<lambda>x. key x = key r) t = Some r"
  using assms by (induction t) (auto simp: t_find_def image_iff)

lemma t_find_key_iff:
  assumes "distinct (map key t)"
  shows "t_find (\<lambda>x. key x = k) t = Some r \<longleftrightarrow> r \<in> set t \<and> key r = k"
  using assms t_find_key[OF assms] t_find_SomeD[of "\<lambda>x. key x = k"] by auto

lemma t_find_update:
  "(\<And>r. Q (f r) = Q r) \<Longrightarrow>
     t_find Q (t_update P f t) = map_option (\<lambda>r. if P r then f r else r) (t_find Q t)"
  by (induction t) (auto simp: t_find_def t_update_def)

lemma t_find_append: "t_find Q (t @ u) = (case t_find Q t of None \<Rightarrow> t_find Q u | Some r \<Rightarrow> Some r)"
  by (induction t) (auto simp: t_find_def)

lemma t_find_single: "t_find Q [r] = (if Q r then Some r else None)"
  by (simp add: t_find_def)

lemma t_find_None_key: "t_find (\<lambda>x. key x = k) t = None \<longleftrightarrow> \<not> has_key key k t"
  by (auto simp: t_find_def find_None_iff has_key_def)

lemma t_update_none: "(\<And>r. r \<in> set t \<Longrightarrow> \<not> P r) \<Longrightarrow> t_update P f t = t"
  by (induction t) (auto simp: t_update_def)

text \<open>
  A table of the database with its primary key: how to read it, how a statement changes it
  and the key columns. Every table of the schema is an instance, below.
\<close>

locale keyed_table =
  fixes get :: "db \<Rightarrow> 'r list"
    and put :: "('r list \<Rightarrow> 'r list) \<Rightarrow> db \<Rightarrow> db"
    and key :: "'r \<Rightarrow> 'k"
  assumes get_put: "get (put f d) = f (get d)"
begin

lemma pk_delete:
  "distinct (map key (get d)) \<Longrightarrow> distinct (map key (get (put (t_delete P) d)))"
  by (simp add: get_put t_delete_keys)

lemma pk_update:
  "(\<And>r. key (f r) = key r) \<Longrightarrow> distinct (map key (get d))
    \<Longrightarrow> distinct (map key (get (put (t_update P f) d)))"
  by (simp add: get_put t_update_keys)

lemma pk_insert:
  "\<not> has_key key (key r) (get d) \<Longrightarrow> distinct (map key (get d))
    \<Longrightarrow> distinct (map key (get (put (\<lambda>t. t @ [r]) d)))"
  by (simp add: get_put has_key_iff)

lemma pk_insert_ignore:
  "distinct (map key (get d)) \<Longrightarrow> distinct (map key (get (put (t_insert_ignore key r) d)))"
  by (simp add: get_put t_insert_ignore_keys)

lemma pk_upsert:
  "(\<And>x. key (f x) = key x) \<Longrightarrow> distinct (map key (get d))
    \<Longrightarrow> distinct (map key (get (put (t_upsert key r f) d)))"
  by (simp add: get_put t_upsert_keys)

text \<open>A row written is the row read back.\<close>

lemma find_after_insert:
  "\<not> has_key key (key r) (get d)
    \<Longrightarrow> t_find (\<lambda>x. key x = key r) (get (put (\<lambda>t. t @ [r]) d)) = Some r"
  by (simp add: get_put t_find_append t_find_single t_find_None_key[symmetric])

lemma find_after_update:
  assumes "\<And>x. key (f x) = key x"
  shows "t_find (\<lambda>x. key x = k) (get (put (t_update (\<lambda>x. key x = k) f) d))
    = map_option f (t_find (\<lambda>x. key x = k) (get d))"
proof -
  have "map_option (\<lambda>r. if key r = k then f r else r) (t_find (\<lambda>x. key x = k) (get d))
      = map_option f (t_find (\<lambda>x. key x = k) (get d))"
    by (rule option.map_cong[OF refl]) (use t_find_SomeD in fastforce)
  then show ?thesis by (simp add: get_put t_find_update assms)
qed

lemma find_after_upsert:
  assumes "\<And>x. key (f x) = key x"
  shows "t_find (\<lambda>x. key x = key r) (get (put (t_upsert key r f) d))
    = Some (case t_find (\<lambda>x. key x = key r) (get d) of None \<Rightarrow> r | Some x \<Rightarrow> f x)"
proof (cases "t_find (\<lambda>x. key x = key r) (get d)")
  case None
  then have n: "\<not> has_key key (key r) (get d)" by (simp add: t_find_None_key)
  then have eq: "get (put (t_upsert key r f) d) = get (put (\<lambda>t. t @ [r]) d)"
    by (simp add: get_put t_upsert_def)
  show ?thesis using find_after_insert[OF n] by (simp add: None eq)
next
  case (Some x)
  then have h: "has_key key (key r) (get d)" using t_find_None_key[of key] by (metis option.distinct(1))
  then have eq: "get (put (t_upsert key r f) d) = get (put (t_update (\<lambda>x. key x = key r) f) d)"
    by (simp add: get_put t_upsert_def)
  show ?thesis by (simp only: eq find_after_update[OF assms] Some) simp
qed

lemma find_after_delete:
  "t_find (\<lambda>x. key x = k) (get (put (t_delete (\<lambda>x. key x = k)) d)) = None"
  by (auto simp: get_put t_find_None_key has_key_def t_delete_def)

end

interpretation jobs_t: keyed_table jobs jobs_update j_id by unfold_locales simp
interpretation archived_t: keyed_table archived_jobs archived_jobs_update j_id by unfold_locales simp
interpretation locks_t: keyed_table unique_locks unique_locks_update l_key by unfold_locales simp
interpretation processes_t: keyed_table processes processes_update p_id by unfold_locales simp
interpretation cron_locks_t: keyed_table cron_locks cron_locks_update fst by unfold_locales simp
interpretation batches_t: keyed_table batches batches_update b_id by unfold_locales simp
interpretation paused_t: keyed_table paused_queues paused_queues_update "\<lambda>q. q" by unfold_locales simp
interpretation cron_jobs_t: keyed_table cron_jobs cron_jobs_update c_name by unfold_locales simp
interpretation schedules_t: keyed_table cron_schedules cron_schedules_update s_name by unfold_locales simp
interpretation deps_t: keyed_table job_dependencies job_dependencies_update "\<lambda>q. q" by unfold_locales simp
interpretation leases_t: keyed_table leader_leases leader_leases_update fst by unfold_locales simp

text \<open>The primary keys of the whole schema.\<close>

definition pk_ok :: "db \<Rightarrow> bool" where
  "pk_ok d \<longleftrightarrow> distinct (map j_id (jobs d)) \<and> distinct (map j_id (archived_jobs d))
     \<and> distinct (map l_key (unique_locks d)) \<and> distinct (map p_id (processes d))
     \<and> distinct (map fst (cron_locks d)) \<and> distinct (map b_id (batches d))
     \<and> distinct (paused_queues d) \<and> distinct (map c_name (cron_jobs d))
     \<and> distinct (map s_name (cron_schedules d)) \<and> distinct (job_dependencies d)
     \<and> distinct (map fst (leader_leases d))"

lemmas pk_table_rules =
  t_delete_keys t_update_keys t_insert_ignore_keys t_upsert_keys

end
