(* ===== verification/SqlLogic.thy ===== *)
theory SqlLogic
  imports SqlBase
begin

text \<open>
  How to reason about storage actions: rewrite rules for runs without engine failures, and a
  Hoare logic that holds for every failure schedule. \<open>triple P m Q E\<close> says that from a
  database satisfying \<open>P\<close>, whatever statements fail, \<open>m\<close> ends in a value and a database
  satisfying \<open>Q\<close> or in an error and a database satisfying \<open>E\<close> (or the process dies, which
  leaves the committed database as it was).
\<close>

section \<open>Runs without failures\<close>

lemma ret_run [run_simps]: "ret x c = Some (Inr x, c)" by (simp add: ret_def)
lemma throw_run [run_simps]: "throw e c = Some (Inl e, c)" by (simp add: throw_def)
lemma crash_run [run_simps]: "crash c = None" by (simp add: crash_def)

lemma bind_run [run_simps]:
  "bindS m f c = (case m c of None \<Rightarrow> None | Some (Inl e, c') \<Rightarrow> Some (Inl e, c')
     | Some (Inr x, c') \<Rightarrow> f x c')"
  by (simp add: bindS_def)

lemma then_run [run_simps]:
  "thenS m n c = (case m c of None \<Rightarrow> None | Some (Inl e, c') \<Rightarrow> Some (Inl e, c')
     | Some (Inr x, c') \<Rightarrow> n c')"
  by (simp add: thenS_def bindS_def)

lemma try_run [run_simps]:
  "tryS m c = (case m c of None \<Rightarrow> None | Some (r, c') \<Rightarrow> Some (Inr r, c'))"
  by (simp add: tryS_def)

lemma ignore_run [run_simps]:
  "ignoreS m c = (case m c of None \<Rightarrow> None | Some (r, c') \<Rightarrow> Some (Inr (), c'))"
  by (auto simp: ignoreS_def run_simps split: option.splits)

lemma exec_run [run_simps]: "exec g (d, []) = Some (Inr (), (g d, []))"
  by (simp add: exec_def engine_def)

lemma exec_count_run [run_simps]: "exec_count n g (d, []) = Some (Inr (n d), (g d, []))"
  by (simp add: exec_count_def engine_def)

lemma exec_unique_run [run_simps]:
  "exec_unique ok g (d, []) = (if ok d then Some (Inr (), (g d, [])) else Some (Inl ErrConstraint, (d, [])))"
  by (simp add: exec_unique_def engine_def)

lemma query_run [run_simps]: "query g (d, []) = Some (Inr (g d), (d, []))"
  by (simp add: query_def engine_def)

lemma query_row_run [run_simps]:
  "query_row g (d, []) = (case g d of None \<Rightarrow> Some (Inl ErrNoRows, (d, []))
     | Some x \<Rightarrow> Some (Inr x, (d, [])))"
  by (simp add: query_row_def engine_def split: option.splits)

lemma update_returning_run [run_simps]:
  "update_returning g u (d, []) = (case g (u d) of None \<Rightarrow> Some (Inl ErrNoRows, (u d, []))
     | Some x \<Rightarrow> Some (Inr x, (u d, [])))"
  by (simp add: update_returning_def engine_def split: option.splits)

lemma run_tx_run [run_simps]:
  "run_tx b (d, []) = (case b (d, []) of None \<Rightarrow> None
     | Some (Inl e, (d', fs)) \<Rightarrow> Some (Inl e, (d, fs))
     | Some (Inr (x, commit), (d', fs)) \<Rightarrow>
         if \<not> commit then Some (Inr (x, None), (d, fs))
         else (case fs of True # fs2 \<Rightarrow> Some (Inr (x, Some ErrEngine), (d, fs2))
               | _ \<Rightarrow> Some (Inr (x, None), (d', tl fs))))"
  by (simp add: run_tx_def)

text \<open>
  An action that starts with no failures scheduled ends with none: the schedule only
  shrinks.
\<close>

definition quiet :: "('s, 'a) eff \<Rightarrow> bool" where
  "quiet m \<longleftrightarrow> (\<forall>d r d' fs. m (d, []) = Some (r, (d', fs)) \<longrightarrow> fs = [])"

lemma quietD: "quiet m \<Longrightarrow> m (d, []) = Some (r, (d', fs)) \<Longrightarrow> fs = []"
  by (auto simp: quiet_def)

lemma with_tx_run [run_simps]:
  assumes "b (d, []) = Some (r, (d', []))"
  shows "with_tx b (d, []) = (case r of Inl e \<Rightarrow> Some (Inl e, (d, [])) | Inr x \<Rightarrow> Some (Inr x, (d', [])))"
  using assms by (cases r) (simp_all add: with_tx_def with_tx_if_def run_simps)

lemma with_tx_unfold:
  "with_tx b (d, []) = (case b (d, []) of None \<Rightarrow> None
     | Some (Inl e, (d', fs)) \<Rightarrow> Some (Inl e, (d, fs))
     | Some (Inr x, (d', fs)) \<Rightarrow> (case fs of
           True # fs2 \<Rightarrow> Some (Inl ErrEngine, (d, fs2))
         | _ \<Rightarrow> Some (Inr x, (d', tl fs))))"
  by (auto simp: with_tx_def with_tx_if_def run_simps split: option.splits sum.splits list.splits bool.splits)

lemma with_tx_crash:
  "b (d, []) = None \<Longrightarrow> with_tx b (d, []) = None"
  by (simp add: with_tx_def with_tx_if_def run_simps)

section \<open>Hoare logic\<close>

definition triple :: "('s \<Rightarrow> bool) \<Rightarrow> ('s, 'a) eff \<Rightarrow> ('a \<Rightarrow> 's \<Rightarrow> bool) \<Rightarrow> (err \<Rightarrow> 's \<Rightarrow> bool) \<Rightarrow> bool" where
  "triple P m Q E \<longleftrightarrow> (\<forall>d fs. P d \<longrightarrow> (case m (d, fs) of
       None \<Rightarrow> True
     | Some (Inl e, (d', fs')) \<Rightarrow> E e d'
     | Some (Inr x, (d', fs')) \<Rightarrow> Q x d'))"

lemma tripleI:
  assumes "\<And>d fs e d' fs'. P d \<Longrightarrow> m (d, fs) = Some (Inl e, (d', fs')) \<Longrightarrow> E e d'"
    and "\<And>d fs x d' fs'. P d \<Longrightarrow> m (d, fs) = Some (Inr x, (d', fs')) \<Longrightarrow> Q x d'"
  shows "triple P m Q E"
  unfolding triple_def using assms by (fastforce split: option.split sum.split)

lemma tripleD:
  assumes "triple P m Q E" "m (d, fs) = Some (r, (d', fs'))" "P d"
  shows "case r of Inl e \<Rightarrow> E e d' | Inr x \<Rightarrow> Q x d'"
proof -
  have "case m (d, fs) of None \<Rightarrow> True | Some (Inl e, (d', fs')) \<Rightarrow> E e d'
      | Some (Inr x, (d', fs')) \<Rightarrow> Q x d'"
    using assms(1,3) unfolding triple_def by blast
  with assms(2) show ?thesis by (cases r) simp_all
qed

lemma tripleD_err: "triple P m Q E \<Longrightarrow> m (d, fs) = Some (Inl e, (d', fs')) \<Longrightarrow> P d \<Longrightarrow> E e d'"
  by (drule (2) tripleD) simp

lemma tripleD_ok: "triple P m Q E \<Longrightarrow> m (d, fs) = Some (Inr x, (d', fs')) \<Longrightarrow> P d \<Longrightarrow> Q x d'"
  by (drule (2) tripleD) simp

lemma triple_weaken:
  assumes "triple P' m Q' E'" "\<And>d. P d \<Longrightarrow> P' d" "\<And>x d. Q' x d \<Longrightarrow> Q x d"
    "\<And>e d. E' e d \<Longrightarrow> E e d"
  shows "triple P m Q E"
  by (rule tripleI) (auto intro: assms(2-4) dest: tripleD_err[OF assms(1)] tripleD_ok[OF assms(1)])

lemma triple_pure: "(b \<Longrightarrow> triple P m Q E) \<Longrightarrow> triple (\<lambda>d. P d \<and> b) m Q E"
  unfolding triple_def by blast

lemma triple_ret [hoare_rules]: "(\<And>d. P d \<Longrightarrow> Q x d) \<Longrightarrow> triple P (ret x) Q E"
  by (rule tripleI) (auto simp: ret_def)

lemma triple_throw [hoare_rules]: "(\<And>d. P d \<Longrightarrow> E e d) \<Longrightarrow> triple P (throw e) Q E"
  by (rule tripleI) (auto simp: throw_def)

lemma triple_crash [hoare_rules]: "triple P crash Q E"
  by (rule tripleI) (auto simp: crash_def)

lemma bindS_cases:
  assumes "bindS m f (d, fs) = Some (r, c)"
  obtains e where "m (d, fs) = Some (Inl e, c)" "r = Inl e"
  | x d1 fs1 where "m (d, fs) = Some (Inr x, (d1, fs1))" "f x (d1, fs1) = Some (r, c)"
  using assms by (auto simp: bindS_def split: option.splits sum.splits)

lemma triple_bind:
  assumes m: "triple P m R E" and f: "\<And>x. triple (R x) (f x) Q E"
  shows "triple P (bindS m f) Q E"
proof (rule tripleI)
  fix d fs e d' fs' assume P: "P d" and r: "bindS m f (d, fs) = Some (Inl e, (d', fs'))"
  from r show "E e d'"
    by (cases rule: bindS_cases) (auto dest: tripleD_err[OF m _ P] tripleD_ok[OF m _ P] tripleD_err[OF f])
next
  fix d fs x d' fs' assume P: "P d" and r: "bindS m f (d, fs) = Some (Inr x, (d', fs'))"
  from r show "Q x d'"
    by (cases rule: bindS_cases) (auto dest: tripleD_ok[OF m _ P] tripleD_ok[OF f])
qed

lemma triple_then:
  "triple P m (\<lambda>_. R) E \<Longrightarrow> triple R n Q E \<Longrightarrow> triple P (thenS m n) Q E"
  unfolding thenS_def by (rule triple_bind)

lemma triple_try:
  assumes "triple P m (\<lambda>x. Q (Inr x)) (\<lambda>e. Q (Inl e))"
  shows "triple P (tryS m) Q E"
proof (rule tripleI)
  fix d fs e d' fs' assume "tryS m (d, fs) = Some (Inl e, (d', fs'))"
  then show "E e d'" by (auto simp: tryS_def split: option.splits)
next
  fix d fs x d' fs' assume P: "P d" and "tryS m (d, fs) = Some (Inr x, (d', fs'))"
  then have "m (d, fs) = Some (x, (d', fs'))" by (auto simp: tryS_def split: option.splits)
  from tripleD[OF assms this P] show "Q x d'" by (cases x) auto
qed

lemma triple_ignore:
  "triple P m (\<lambda>_. Q ()) (\<lambda>_. Q ()) \<Longrightarrow> triple P (ignoreS m) Q E"
  unfolding ignoreS_def
  by (rule triple_bind[where R = "\<lambda>_. Q ()"]) (auto intro!: triple_try triple_ret)

lemma triple_engine:
  assumes "\<And>d. P d \<Longrightarrow> E ErrEngine d"
    "\<And>d. P d \<Longrightarrow> (case g d of (Inl e, d') \<Rightarrow> E e d' | (Inr x, d') \<Rightarrow> Q x d')"
  shows "triple P (engine g) Q E"
proof (rule tripleI)
  fix d fs e d' fs' assume P: "P d" and "engine g (d, fs) = Some (Inl e, (d', fs'))"
  then show "E e d'" using assms(1)[OF P] assms(2)[OF P]
    by (auto simp: engine_def split: list.splits bool.splits prod.splits)
next
  fix d fs x d' fs' assume P: "P d" and "engine g (d, fs) = Some (Inr x, (d', fs'))"
  then show "Q x d'" using assms(2)[OF P]
    by (auto simp: engine_def split: list.splits bool.splits prod.splits)
qed

lemma triple_exec:
  "(\<And>d. P d \<Longrightarrow> E ErrEngine d) \<Longrightarrow> (\<And>d. P d \<Longrightarrow> Q () (g d)) \<Longrightarrow> triple P (exec g) Q E"
  unfolding exec_def by (rule triple_engine) auto

lemma triple_exec_count:
  "(\<And>d. P d \<Longrightarrow> E ErrEngine d) \<Longrightarrow> (\<And>d. P d \<Longrightarrow> Q (n d) (g d)) \<Longrightarrow> triple P (exec_count n g) Q E"
  unfolding exec_count_def by (rule triple_engine) auto

lemma triple_exec_unique:
  "(\<And>d e. P d \<Longrightarrow> E e d) \<Longrightarrow> (\<And>d. P d \<Longrightarrow> ok d \<Longrightarrow> Q () (g d)) \<Longrightarrow> triple P (exec_unique ok g) Q E"
  unfolding exec_unique_def by (rule triple_engine) auto

lemma triple_query:
  "(\<And>d. P d \<Longrightarrow> E ErrEngine d) \<Longrightarrow> (\<And>d. P d \<Longrightarrow> Q (g d) d) \<Longrightarrow> triple P (query g) Q E"
  unfolding query_def by (rule triple_engine) auto

lemma triple_query_row:
  "(\<And>d e. P d \<Longrightarrow> E e d) \<Longrightarrow> (\<And>d x. P d \<Longrightarrow> g d = Some x \<Longrightarrow> Q x d) \<Longrightarrow> triple P (query_row g) Q E"
  unfolding query_row_def by (rule triple_engine) (auto split: option.splits)

lemma triple_update_returning:
  "(\<And>d. P d \<Longrightarrow> E ErrEngine d) \<Longrightarrow> (\<And>d. P d \<Longrightarrow> g (u d) = None \<Longrightarrow> E ErrNoRows (u d))
    \<Longrightarrow> (\<And>d x. P d \<Longrightarrow> g (u d) = Some x \<Longrightarrow> Q x (u d)) \<Longrightarrow> triple P (update_returning g u) Q E"
  unfolding update_returning_def by (rule triple_engine) (auto split: option.splits)

lemma triple_run_tx:
  assumes "triple P b (\<lambda>(x, c) d. if c then Q (x, None) d else True) (\<lambda>_ _. True)"
    and "\<And>d e. P d \<Longrightarrow> E e d" "\<And>d x e. P d \<Longrightarrow> Q (x, Some e) d"
    and "\<And>d d' fs fs' x. P d \<Longrightarrow> b (d, fs) = Some (Inr (x, False), (d', fs')) \<Longrightarrow> Q (x, None) d"
  shows "triple P (run_tx b) Q E"
proof (rule tripleI)
  fix d fs e d' fs' assume P: "P d" and "run_tx b (d, fs) = Some (Inl e, (d', fs'))"
  then show "E e d'" using assms(2)[OF P]
    by (auto simp: run_tx_def split: list.splits bool.splits option.splits sum.splits if_splits)
next
  fix d fs y d' fs' assume P: "P d" and r: "run_tx b (d, fs) = Some (Inr y, (d', fs'))"
  obtain x eo where y: "y = (x, eo)" by fastforce
  from r have "(\<exists>fs1 d1 fs2. b (d, fs1) = Some (Inr (x, False), (d1, fs2)) \<and> eo = None \<and> d' = d)
      \<or> (\<exists>fs1 d1 fs2. b (d, fs1) = Some (Inr (x, True), (d1, fs2))
            \<and> (eo = Some ErrEngine \<and> d' = d \<or> eo = None \<and> d' = d1))"
    by (auto simp: run_tx_def y split: list.splits bool.splits option.splits sum.splits if_splits;
        blast)
  then show "Q y d'"
  proof (elim disjE exE conjE)
    fix fs1 d1 fs2 assume "b (d, fs1) = Some (Inr (x, False), (d1, fs2))" "eo = None" "d' = d"
    with assms(4)[OF P] y show ?thesis by auto
  next
    fix fs1 d1 fs2 assume "b (d, fs1) = Some (Inr (x, True), (d1, fs2))" "eo = Some ErrEngine" "d' = d"
    with assms(3)[OF P] y show ?thesis by auto
  next
    fix fs1 d1 fs2 assume b: "b (d, fs1) = Some (Inr (x, True), (d1, fs2))" "eo = None" "d' = d1"
    from tripleD[OF assms(1) b(1) P] b y show ?thesis by auto
  qed
qed

lemma triple_with_tx:
  assumes "triple P b Q (\<lambda>_ _. True)" "\<And>d e. P d \<Longrightarrow> E e d"
  shows "triple P (with_tx b) Q E"
  unfolding with_tx_def with_tx_if_def
proof (rule triple_bind)
  show "triple P (run_tx (bindS b (\<lambda>x. ret (x, True))))
      (\<lambda>(x, eo) d. case eo of None \<Rightarrow> Q x d | Some e \<Rightarrow> E e d) E"
  proof (rule triple_run_tx)
    show "triple P (bindS b (\<lambda>x. ret (x, True)))
        (\<lambda>(x, c) d. if c then (case (x, None) of (x, eo) \<Rightarrow> \<lambda>d. case eo of None \<Rightarrow> Q x d | Some e \<Rightarrow> E e d) d else True)
        (\<lambda>_ _. True)"
      by (rule triple_bind[OF assms(1)]) (auto intro: triple_ret)
  qed (use assms(2) in \<open>auto simp: bindS_def ret_def split: option.splits sum.splits\<close>)
  show "triple (case x of (x, eo) \<Rightarrow> \<lambda>d. case eo of None \<Rightarrow> Q x d | Some e \<Rightarrow> E e d)
      (case x of (x, e) \<Rightarrow> case e of None \<Rightarrow> ret x | Some x \<Rightarrow> throw x) Q E" for x
    by (auto split: prod.splits option.splits intro!: triple_ret triple_throw)
qed

lemma triple_for:
  assumes "\<And>x. x \<in> set xs \<Longrightarrow> triple I (f x) (\<lambda>_. I) E" "\<And>d. I d \<Longrightarrow> True"
  shows "triple I (forS f xs) (\<lambda>_. I) E"
  using assms(1) by (induction xs) (auto intro: triple_ret triple_then)

section \<open>Invariants\<close>

definition keeps :: "('s \<Rightarrow> bool) \<Rightarrow> ('s, 'a) eff \<Rightarrow> bool" where
  "keeps I m \<longleftrightarrow> triple I m (\<lambda>_. I) (\<lambda>_. I)"

lemma keepsD: "keeps I m \<Longrightarrow> m (d, fs) = Some (r, (d', fs')) \<Longrightarrow> I d \<Longrightarrow> I d'"
  unfolding keeps_def by (drule (2) tripleD) (simp split: sum.splits)

lemma keeps_ret: "keeps I (ret x)" by (simp add: keeps_def triple_ret)
lemma keeps_throw: "keeps I (throw e)" by (simp add: keeps_def triple_throw)
lemma keeps_crash: "keeps I crash" by (simp add: keeps_def triple_crash)

lemma keeps_bind: "keeps I m \<Longrightarrow> (\<And>x. keeps I (f x)) \<Longrightarrow> keeps I (bindS m f)"
  unfolding keeps_def by (rule triple_bind)

lemma keeps_then: "keeps I m \<Longrightarrow> keeps I n \<Longrightarrow> keeps I (thenS m n)"
  unfolding keeps_def by (rule triple_then)

lemma keeps_try: "keeps I m \<Longrightarrow> keeps I (tryS m)"
  unfolding keeps_def by (rule triple_try)

lemma keeps_ignore: "keeps I m \<Longrightarrow> keeps I (ignoreS m)"
  unfolding keeps_def by (rule triple_ignore)

lemma keeps_for: "(\<And>x. x \<in> set xs \<Longrightarrow> keeps I (f x)) \<Longrightarrow> keeps I (forS f xs)"
  unfolding keeps_def by (rule triple_for) auto

lemma keeps_exec: "(\<And>d. I d \<Longrightarrow> I (g d)) \<Longrightarrow> keeps I (exec g)"
  unfolding keeps_def by (rule triple_exec)

lemma keeps_exec_count: "(\<And>d. I d \<Longrightarrow> I (g d)) \<Longrightarrow> keeps I (exec_count n g)"
  unfolding keeps_def by (rule triple_exec_count)

lemma keeps_exec_unique: "(\<And>d. I d \<Longrightarrow> ok d \<Longrightarrow> I (g d)) \<Longrightarrow> keeps I (exec_unique ok g)"
  unfolding keeps_def by (rule triple_exec_unique)

lemma keeps_query: "keeps I (query g)"
  unfolding keeps_def by (rule triple_query)

lemma keeps_query_row: "keeps I (query_row g)"
  unfolding keeps_def by (rule triple_query_row)

lemma keeps_update_returning: "(\<And>d. I d \<Longrightarrow> I (u d)) \<Longrightarrow> keeps I (update_returning g u)"
  unfolding keeps_def by (rule triple_update_returning)

lemma keeps_run_tx: "keeps I b \<Longrightarrow> keeps I (run_tx b)"
  unfolding keeps_def
  by (rule triple_run_tx, erule triple_weaken) (simp_all split: prod.splits)

lemma keeps_with_tx_if: "keeps I b \<Longrightarrow> keeps I (with_tx_if b)"
  unfolding with_tx_if_def
  by (rule keeps_bind[OF keeps_run_tx]) (auto split: prod.splits option.splits intro: keeps_ret keeps_throw)

lemma keeps_with_tx: "keeps I b \<Longrightarrow> keeps I (with_tx b)"
  unfolding with_tx_def by (intro keeps_with_tx_if keeps_bind keeps_ret)

lemma keeps_if: "(b \<Longrightarrow> keeps I m) \<Longrightarrow> (\<not> b \<Longrightarrow> keeps I n) \<Longrightarrow> keeps I (if b then m else n)"
  by simp

lemma keeps_case_option:
  "(x = None \<Longrightarrow> keeps I m) \<Longrightarrow> (\<And>y. x = Some y \<Longrightarrow> keeps I (f y))
     \<Longrightarrow> keeps I (case x of None \<Rightarrow> m | Some y \<Rightarrow> f y)"
  by (cases x) auto

lemma keeps_case_sum:
  "(\<And>e. x = Inl e \<Longrightarrow> keeps I (f e)) \<Longrightarrow> (\<And>y. x = Inr y \<Longrightarrow> keeps I (g y))
     \<Longrightarrow> keeps I (case x of Inl e \<Rightarrow> f e | Inr y \<Rightarrow> g y)"
  by (cases x) auto

lemma keeps_case_prod: "(\<And>a b. x = (a, b) \<Longrightarrow> keeps I (f a b)) \<Longrightarrow> keeps I (case x of (a, b) \<Rightarrow> f a b)"
  by (cases x) auto

lemmas keeps_rules =
  keeps_ret keeps_throw keeps_crash keeps_bind keeps_then keeps_try keeps_ignore keeps_for
  keeps_exec keeps_exec_count keeps_exec_unique keeps_query keeps_query_row
  keeps_update_returning keeps_run_tx keeps_with_tx_if keeps_with_tx keeps_if keeps_case_option
  keeps_case_sum keeps_case_prod

text \<open>An invariant that is broken and restored inside a transaction.\<close>

lemma keeps_tx_triple: "triple I b (\<lambda>_. I) (\<lambda>_ _. True) \<Longrightarrow> keeps I (with_tx b)"
  unfolding keeps_def by (rule triple_with_tx)

section \<open>Failed actions that leave no trace\<close>

definition atomic :: "('s, 'a) eff \<Rightarrow> bool" where
  "atomic m \<longleftrightarrow> (\<forall>d fs e d' fs'. m (d, fs) = Some (Inl e, (d', fs')) \<longrightarrow> d' = d)"

lemma atomicD: "atomic m \<Longrightarrow> m (d, fs) = Some (Inl e, (d', fs')) \<Longrightarrow> d' = d"
  unfolding atomic_def by blast

lemma atomic_ret: "atomic (ret x)" by (auto simp: atomic_def ret_def)
lemma atomic_throw: "atomic (throw e)" by (auto simp: atomic_def throw_def)

lemma atomic_exec: "atomic (exec g)"
  by (auto simp: atomic_def exec_def engine_def split: list.splits bool.splits)

lemma atomic_exec_unique: "atomic (exec_unique ok g)"
  by (auto simp: atomic_def exec_unique_def engine_def split: list.splits bool.splits if_splits)

lemma atomic_with_tx: "atomic (with_tx m)"
  by (auto simp: atomic_def with_tx_def with_tx_if_def run_tx_def bindS_def ret_def throw_def
      split: list.splits bool.splits option.splits sum.splits if_splits)

definition readonly :: "('s, 'a) eff \<Rightarrow> bool" where
  "readonly m \<longleftrightarrow> (\<forall>d fs r d' fs'. m (d, fs) = Some (r, (d', fs')) \<longrightarrow> d' = d)"

lemma readonly_query_row: "readonly (query_row g)"
  by (auto simp: readonly_def query_row_def engine_def split: list.splits bool.splits option.splits)

lemma readonly_query: "readonly (query g)"
  by (auto simp: readonly_def query_def engine_def split: list.splits bool.splits)

lemma readonly_try: "readonly m \<Longrightarrow> readonly (tryS m)"
  by (fastforce simp: readonly_def tryS_def split: option.splits)

lemma atomic_read_then:
  assumes "readonly m" "\<And>x. atomic (f x)"
  shows "atomic (bindS m f)"
  unfolding atomic_def
proof (intro allI impI)
  fix d fs e d' fs' assume r: "bindS m f (d, fs) = Some (Inl e, (d', fs'))"
  then obtain r0 d0 fs0 where m: "m (d, fs) = Some (r0, (d0, fs0))"
    by (auto simp: bindS_def split: option.splits)
  with assms(1) have d0: "d0 = d" unfolding readonly_def by blast
  show "d' = d"
  proof (cases r0)
    case (Inl a)
    with r m d0 show ?thesis by (simp add: bindS_def)
  next
    case (Inr x)
    with r m d0 have "f x (d, fs0) = Some (Inl e, (d', fs'))" by (simp add: bindS_def)
    then show ?thesis by (rule atomicD[OF assms(2)])
  qed
qed

lemma atomic_case_sum:
  "(\<And>e. atomic (f e)) \<Longrightarrow> (\<And>y. atomic (g y)) \<Longrightarrow> atomic (case x of Inl e \<Rightarrow> f e | Inr y \<Rightarrow> g y)"
  by (cases x) auto

lemma atomic_if: "atomic m \<Longrightarrow> atomic n \<Longrightarrow> atomic (if b then m else n)" by simp

lemma atomic_case_prod: "(\<And>a b. atomic (f a b)) \<Longrightarrow> atomic (case x of (a, b) \<Rightarrow> f a b)"
  by (cases x) auto

lemmas atomic_rules =
  atomic_ret atomic_throw atomic_exec atomic_exec_unique atomic_with_tx atomic_case_sum
  atomic_if atomic_case_prod atomic_read_then[OF readonly_query_row]
  atomic_read_then[OF readonly_try[OF readonly_query_row]] atomic_read_then[OF readonly_query]

end
