(* ===== verification/SqliteJobs.thy ===== *)
theory SqliteJobs
  imports SqlLogic
begin

text \<open>
  \<open>sqlite.go\<close>: unique locks, enqueueing, dequeueing, the leader lease and archival. Each
  method of \<open>SqliteStorage\<close> is an action \<open>Sqlite_<method>\<close>; \<open>now\<close> is the reading of the
  clock.
\<close>

section \<open>Unique locks\<close>

definition lock_key :: "string \<Rightarrow> string \<Rightarrow> string" where
  "lock_key queue uniqueKey = queue @ '':'' @ uniqueKey"

definition Sqlite_getLockExpires :: "time \<Rightarrow> JobEnvelope \<Rightarrow> time" where
  "Sqlite_getLockExpires now env =
     now + (if UniqueTTL env \<le> 0 then 24 * hour else UniqueTTL env)"

definition Sqlite_tryInsertLock :: "string \<Rightarrow> string \<Rightarrow> time \<Rightarrow> unit sql" where
  "Sqlite_tryInsertLock lockKey jobID expiresAt =
     exec (unique_locks_update (t_insert_ignore l_key
       \<lparr>l_key = lockKey, l_job_id = jobID, l_expires_at = expiresAt\<rparr>))"

definition Sqlite_handleLockCollision ::
  "time \<Rightarrow> JobEnvelope \<Rightarrow> string \<Rightarrow> string \<Rightarrow> time \<Rightarrow> time \<Rightarrow> unit sql" where
  "Sqlite_handleLockCollision now env lockKey existingJobID expiresAt existingExpiresAt =
     bindS (tryS (query (\<lambda>d. has_key j_id existingJobID (jobs d)))) (\<lambda>r.
     let exists = (case r of Inr b \<Rightarrow> b | Inl e \<Rightarrow> False) in
     if now < existingExpiresAt \<and> exists
     then throw (ErrDuplicateJob lockKey existingJobID)
     else exec (unique_locks_update (t_upsert l_key
            \<lparr>l_key = lockKey, l_job_id = JobID env, l_expires_at = expiresAt\<rparr>
            (l_job_id_update (\<lambda>_. JobID env) \<circ> l_expires_at_update (\<lambda>_. expiresAt)))))"

definition Sqlite_checkLockCollision ::
  "time \<Rightarrow> JobEnvelope \<Rightarrow> string \<Rightarrow> time \<Rightarrow> unit sql" where
  "Sqlite_checkLockCollision now env lockKey expiresAt =
     bindS (query_row (\<lambda>d. t_find (\<lambda>l. l_key l = lockKey) (unique_locks d))) (\<lambda>l.
     if l_job_id l = JobID env then ret ()
     else Sqlite_handleLockCollision now env lockKey (l_job_id l) expiresAt (l_expires_at l))"

definition Sqlite_acquireUniqueLock :: "time \<Rightarrow> JobEnvelope \<Rightarrow> unit sql" where
  "Sqlite_acquireUniqueLock now env =
     (if UniqueKey env = '''' then ret ()
      else let lockKey = lock_key (Queue env) (UniqueKey env);
               expiresAt = Sqlite_getLockExpires now env
           in thenS (Sqlite_tryInsertLock lockKey (JobID env) expiresAt)
                (Sqlite_checkLockCollision now env lockKey expiresAt))"

section \<open>Enqueue\<close>

text \<open>A row of \<open>runiq_jobs\<close> with the schema's defaults in the columns an INSERT leaves out.\<close>

definition default_job_row :: "time \<Rightarrow> string \<Rightarrow> string \<Rightarrow> string \<Rightarrow> bytes \<Rightarrow> job_row" where
  "default_job_row now jobID queue name args =
     \<lparr>j_id = jobID, j_queue = queue, j_name = name, j_args = args, j_trace_id = '''',
      j_span_id = '''', j_status = Pending, j_attempts = 0, j_max_attempts = 3,
      j_error_message = '''', j_created_at = cur_ts now, j_updated_at = cur_ts now,
      j_locked_at = None, j_run_at = Some (cur_ts now), j_unique_key = '''', j_batch_id = '''',
      j_priority = 0, j_tags = ''''\<rparr>"

definition Sqlite_insertJob :: "time \<Rightarrow> JobEnvelope \<Rightarrow> time \<Rightarrow> int \<Rightarrow> unit sql" where
  "Sqlite_insertJob now env runAt maxAttempts =
     (let tagsStr = join_with CHR '','' (Tags env) in
      exec (jobs_update (t_upsert j_id
        ((default_job_row now (JobID env) (Queue env) (Name env) (Args env))
           \<lparr>j_trace_id := TraceID (TraceCtx env), j_span_id := SpanID (TraceCtx env),
            j_max_attempts := maxAttempts, j_run_at := Some runAt,
            j_unique_key := UniqueKey env, j_priority := Priority env, j_tags := tagsStr\<rparr>)
        (\<lambda>r. r\<lparr>j_status := Pending, j_attempts := 0, j_max_attempts := maxAttempts,
               j_run_at := Some runAt, j_unique_key := UniqueKey env,
               j_priority := Priority env, j_tags := tagsStr, j_updated_at := cur_ts now\<rparr>))))"

definition Sqlite_Enqueue :: "time \<Rightarrow> JobEnvelope \<Rightarrow> unit sql" where
  "Sqlite_Enqueue now env =
     (let runAt = (case RunAt env of Some t \<Rightarrow> t | None \<Rightarrow> now);
          maxAttempts = (if MaxAttempts env \<le> 0 then 3 else MaxAttempts env)
      in thenS (Sqlite_acquireUniqueLock now env) (Sqlite_insertJob now env runAt maxAttempts))"

section \<open>Dequeue\<close>

text \<open>\<open>ORDER BY priority DESC, created_at ASC\<close> as a linear order.\<close>

datatype dequeue_order = DequeueOrder (ord_priority: int) (ord_created: int)

instantiation dequeue_order :: linorder
begin

definition less_eq_dequeue_order :: "dequeue_order \<Rightarrow> dequeue_order \<Rightarrow> bool" where
  "less_eq_dequeue_order a b \<longleftrightarrow> ord_priority b < ord_priority a
     \<or> ord_priority a = ord_priority b \<and> ord_created a \<le> ord_created b"

definition less_dequeue_order :: "dequeue_order \<Rightarrow> dequeue_order \<Rightarrow> bool" where
  "less_dequeue_order a b \<longleftrightarrow> ord_priority b < ord_priority a
     \<or> ord_priority a = ord_priority b \<and> ord_created a < ord_created b"

instance
  by standard (auto simp: less_eq_dequeue_order_def less_dequeue_order_def dequeue_order.expand)

end

definition dequeue_key :: "job_row \<Rightarrow> dequeue_order" where
  "dequeue_key r = DequeueOrder (j_priority r) (j_created_at r)"

text \<open>The code compares the seconds since 1970 as the texts of \<open>strftime('%s')\<close>. Texts of ten digits, from
  September 2001 to 2286, compare like the numbers, and numbers are compared here; a time outside that
  range is compared otherwise by the code.\<close>

definition due :: "time \<Rightarrow> job_row \<Rightarrow> bool" where
  "due now r = (case j_run_at r of None \<Rightarrow> True | Some t \<Rightarrow> t div second \<le> now div second)"

text \<open>The rows of the SELECT in \<open>dequeueTx\<close>; ties keep the order of the rows.\<close>

definition Sqlite_candidates :: "time \<Rightarrow> string \<Rightarrow> db \<Rightarrow> job_row list" where
  "Sqlite_candidates now queueName d =
     take 100 (sort_key dequeue_key
       (filter (\<lambda>r. j_queue r = queueName \<and> j_status r = Pending \<and> due now r) (jobs d)))"

definition Sqlite_scanJobFrom :: "job_row \<Rightarrow> JobEnvelope" where
  "Sqlite_scanJobFrom r =
     (let env = zero_envelope\<lparr>JobID := j_id r, Queue := j_queue r, Name := j_name r,
        Args := j_args r, TraceCtx := \<lparr>TraceID = j_trace_id r, SpanID = j_span_id r\<rparr>,
        Attempts := j_attempts r, MaxAttempts := j_max_attempts r, UniqueKey := j_unique_key r,
        BatchID := j_batch_id r, Priority := j_priority r\<rparr>
      in if j_tags r \<noteq> '''' then env\<lparr>Tags := split_on CHR '','' (j_tags r)\<rparr> else env)"

fun Sqlite_findMatchingJob :: "job_row list \<Rightarrow> string list \<Rightarrow> JobEnvelope option" where
  "Sqlite_findMatchingJob [] workerTags = None"
| "Sqlite_findMatchingJob (r # rows) workerTags =
     (let env = Sqlite_scanJobFrom r in
      if matchTags (Tags env) workerTags then Some env else Sqlite_findMatchingJob rows workerTags)"

definition Sqlite_dequeueTx :: "time \<Rightarrow> string \<Rightarrow> string list \<Rightarrow> JobEnvelope option sql" where
  "Sqlite_dequeueTx now queueName workerTags =
     bindS (query (Sqlite_candidates now queueName)) (\<lambda>rows.
     case Sqlite_findMatchingJob rows workerTags of
       None \<Rightarrow> ret None
     | Some selected \<Rightarrow>
         thenS (exec (jobs_update (t_update (\<lambda>r. j_id r = JobID selected)
                  (\<lambda>r. r\<lparr>j_status := Running, j_locked_at := Some (cur_ts now)\<rparr>))))
           (ret (Some selected)))"

definition Sqlite_Dequeue :: "time \<Rightarrow> string \<Rightarrow> string list \<Rightarrow> JobEnvelope option sql" where
  "Sqlite_Dequeue now queueName workerTags =
     with_tx_if (bindS (Sqlite_dequeueTx now queueName workerTags) (\<lambda>env. ret (env, env \<noteq> None)))"

definition Sqlite_PollScheduled :: "string \<Rightarrow> unit sql" where
  "Sqlite_PollScheduled queue = ret ()"

section \<open>The leader lease\<close>

definition Sqlite_tryAcquire :: "time \<Rightarrow> string \<Rightarrow> duration \<Rightarrow> bool sql" where
  "Sqlite_tryAcquire now clientID ttl =
     bindS (tryS (query_row (\<lambda>d. map_option snd (t_find (\<lambda>r. fst r = ''leader'') (leader_leases d))))) (\<lambda>row.
     case row of
       Inl e \<Rightarrow>
         if e = ErrNoRows
         then thenS (exec_unique (\<lambda>d. \<not> has_key fst ''leader'' (leader_leases d))
                       (leader_leases_update (\<lambda>t. t @ [(''leader'', (clientID, now + ttl))])))
                (ret True)
         else throw e
     | Inr (holder, expires) \<Rightarrow>
         if holder \<noteq> clientID \<and> now < expires then ret False
         else thenS (exec (leader_leases_update (t_update (\<lambda>r. fst r = ''leader'')
                       (\<lambda>r. (fst r, (clientID, now + ttl))))))
                (ret True))"

definition Sqlite_AcquireLeader :: "time \<Rightarrow> string \<Rightarrow> duration \<Rightarrow> bool sql" where
  "Sqlite_AcquireLeader now clientID ttl =
     bindS (run_tx (bindS (Sqlite_tryAcquire now clientID ttl) (\<lambda>ok. ret (ok, ok))))
       (\<lambda>(ok, commitErr). ret (ok \<and> commitErr = None))"

definition Sqlite_ReleaseLeader :: "string \<Rightarrow> unit sql" where
  "Sqlite_ReleaseLeader clientID =
     exec (leader_leases_update (t_delete (\<lambda>r. fst r = ''leader'' \<and> fst (snd r) = clientID)))"

section \<open>Archival\<close>

definition archivable :: "time \<Rightarrow> job_row \<Rightarrow> bool" where
  "archivable cutoff r \<longleftrightarrow> (j_status r = Processed \<or> j_status r = Dead) \<and> j_updated_at r \<le> cutoff"

definition Sqlite_ArchiveJobs :: "time \<Rightarrow> duration \<Rightarrow> int sql" where
  "Sqlite_ArchiveJobs now age =
     (let cutoff = now - age in
      with_tx
        (thenS (exec_unique
                 (\<lambda>d. list_all (\<lambda>r. \<not> has_key j_id (j_id r) (archived_jobs d))
                        (filter (archivable cutoff) (jobs d)))
                 (\<lambda>d. archived_jobs_update (\<lambda>t. t @ filter (archivable cutoff) (jobs d)) d))
        (exec_count (\<lambda>d. int (length (filter (archivable cutoff) (jobs d))))
           (jobs_update (t_delete (archivable cutoff))))))"

end
