(* ===== verification/SqliteFlow.thy ===== *)
theory SqliteFlow
  imports SqliteJobs
begin

text \<open>
  \<open>sqlite_workflow.go\<close>, \<open>sqlite_batch.go\<close> and the job life cycle of \<open>sqlite_admin.go\<close>:
  workflows and their dependencies, batches and their callbacks, \<open>Ack\<close>, \<open>Fail\<close>, \<open>Retry\<close>,
  \<open>Cancel\<close> and the queue-wide variants. The ids of the callback jobs are drawn from the random
  bytes \<open>rnd\<close>. The recursion of the failure cascade takes the number of nested calls the stack
  has room for; running out of it kills the process (\<open>crash\<close>), as the Go runtime does.
\<close>

section \<open>Workflows\<close>

definition Sqlite_execInsertJob :: "time \<Rightarrow> JobEnvelope \<Rightarrow> job_status \<Rightarrow> unit sql" where
  "Sqlite_execInsertJob now job status =
     (let runAt = getRunAt now (RunAt job);
          maxAttempts = getMaxAttempts (MaxAttempts job)
      in exec (jobs_update (t_upsert j_id
           ((default_job_row now (JobID job) (Queue job) (Name job) (Args job))
              \<lparr>j_trace_id := TraceID (TraceCtx job), j_span_id := SpanID (TraceCtx job),
               j_status := status, j_max_attempts := maxAttempts, j_run_at := Some runAt,
               j_unique_key := UniqueKey job\<rparr>)
           (\<lambda>r. r\<lparr>j_status := status, j_attempts := 0, j_max_attempts := maxAttempts,
                  j_run_at := Some runAt, j_unique_key := UniqueKey job,
                  j_updated_at := cur_ts now\<rparr>))))"

definition Sqlite_insertJobDependencies :: "JobEnvelope \<Rightarrow> unit sql" where
  "Sqlite_insertJobDependencies job =
     forS (\<lambda>parentID. exec (job_dependencies_update
              (t_insert_ignore (\<lambda>q. q) (JobID job, parentID))))
       (Dependencies job)"

definition Sqlite_insertWorkflowJob :: "time \<Rightarrow> JobEnvelope \<Rightarrow> unit sql" where
  "Sqlite_insertWorkflowJob now job =
     thenS (Sqlite_acquireUniqueLock now job)
    (let status = (if length (Dependencies job) > 0 then Blocked else Pending) in
     thenS (Sqlite_execInsertJob now job status)
       (Sqlite_insertJobDependencies job))"

definition Sqlite_insertWorkflowJobs :: "time \<Rightarrow> JobEnvelope list \<Rightarrow> unit sql" where
  "Sqlite_insertWorkflowJobs now js = forS (Sqlite_insertWorkflowJob now) js"

definition Sqlite_EnqueueWorkflow :: "time \<Rightarrow> JobEnvelope list \<Rightarrow> unit sql" where
  "Sqlite_EnqueueWorkflow now js =
     (if length js = 0 then ret () else with_tx (Sqlite_insertWorkflowJobs now js))"

definition Sqlite_queryChildJobIDs :: "string \<Rightarrow> string list sql" where
  "Sqlite_queryChildJobIDs parentJobID =
     query (\<lambda>d. map fst (filter (\<lambda>(c, p). p = parentJobID) (job_dependencies d)))"

text \<open>\<open>checkBlockedChildren\<close> and \<open>resolveDependencies\<close>: what an acknowledged parent frees.\<close>

definition Sqlite_checkBlockedChildren :: "time \<Rightarrow> string list \<Rightarrow> unit sql" where
  "Sqlite_checkBlockedChildren now childIDs =
     forS (\<lambda>cid.
        bindS (query (\<lambda>d. length (filter (\<lambda>(c, p). c = cid) (job_dependencies d)))) (\<lambda>count.
        if count = 0
        then exec (jobs_update (t_update (\<lambda>r. j_id r = cid)
               (\<lambda>r. r\<lparr>j_status := Pending, j_updated_at := cur_ts now\<rparr>)))
        else ret ()))
       childIDs"

definition Sqlite_resolveDependencies :: "time \<Rightarrow> string \<Rightarrow> unit sql" where
  "Sqlite_resolveDependencies now parentJobID =
     bindS (Sqlite_queryChildJobIDs parentJobID) (\<lambda>childIDs.
     thenS (exec (job_dependencies_update (t_delete (\<lambda>(c, p). p = parentJobID))))
       (Sqlite_checkBlockedChildren now childIDs))"

section \<open>Batches\<close>

definition Sqlite_CreateBatch ::
  "time \<Rightarrow> string \<Rightarrow> JobEnvelope \<Rightarrow> time option \<Rightarrow> unit sql" where
  "Sqlite_CreateBatch now batchID callback expiresAt =
     exec_unique (\<lambda>d. \<not> has_key b_id batchID (batches d))
       (batches_update (\<lambda>t. t @
          [\<lparr>b_id = batchID, b_callback_queue = Queue callback, b_callback_name = Name callback,
            b_callback_args = Args callback, b_total_jobs = 0, b_pending_jobs = 0,
            b_status = BatchOpen, b_expires_at = expiresAt, b_created_at = cur_ts now\<rparr>]))"

definition Sqlite_updateBatchCount :: "string \<Rightarrow> unit sql" where
  "Sqlite_updateBatchCount batchID =
     exec (batches_update (t_update (\<lambda>b. b_id b = batchID)
       (\<lambda>b. b\<lparr>b_total_jobs := b_total_jobs b + 1, b_pending_jobs := b_pending_jobs b + 1\<rparr>)))"

definition Sqlite_insertBatchJob :: "time \<Rightarrow> string \<Rightarrow> JobEnvelope \<Rightarrow> unit sql" where
  "Sqlite_insertBatchJob now batchID env =
     (let runAt = (case RunAt env of Some t \<Rightarrow> t | None \<Rightarrow> now);
          maxAttempts = (if MaxAttempts env \<le> 0 then 3 else MaxAttempts env)
      in exec_unique (\<lambda>d. \<not> has_key j_id (JobID env) (jobs d))
           (jobs_update (\<lambda>t. t @
              [(default_job_row now (JobID env) (Queue env) (Name env) (Args env))
                 \<lparr>j_trace_id := TraceID (TraceCtx env), j_span_id := SpanID (TraceCtx env),
                  j_max_attempts := maxAttempts, j_run_at := Some runAt,
                  j_unique_key := UniqueKey env, j_batch_id := batchID\<rparr>])))"

definition Sqlite_EnqueueInBatch :: "time \<Rightarrow> string \<Rightarrow> JobEnvelope \<Rightarrow> unit sql" where
  "Sqlite_EnqueueInBatch now batchID env =
     with_tx
       (thenS (Sqlite_updateBatchCount batchID)
       (thenS (Sqlite_acquireUniqueLock now env)
          (Sqlite_insertBatchJob now batchID env)))"

definition set_batch_status :: "string \<Rightarrow> batch_status \<Rightarrow> unit sql" where
  "set_batch_status batchID st =
     exec (batches_update (t_update (\<lambda>b. b_id b = batchID) (\<lambda>b. b\<lparr>b_status := st\<rparr>)))"

definition Sqlite_checkBatchExpired :: "time \<Rightarrow> string \<Rightarrow> bool sql" where
  "Sqlite_checkBatchExpired now batchID =
     bindS (tryS (query_row (\<lambda>d. map_option b_expires_at
                                  (t_find (\<lambda>b. b_id b = batchID) (batches d))))) (\<lambda>row.
     case row of
       Inl e \<Rightarrow> if e = ErrNoRows then ret False else throw e
     | Inr expiresAt \<Rightarrow>
         (case expiresAt of
            None \<Rightarrow> ret False
          | Some t \<Rightarrow> if t < now then thenS (set_batch_status batchID BatchFailed) (ret True)
                      else ret False))"

definition Sqlite_sealBatch :: "string \<Rightarrow> (int \<times> string \<times> string \<times> bytes) sql" where
  "Sqlite_sealBatch batchID =
     update_returning
       (\<lambda>d. map_option (\<lambda>b. (b_pending_jobs b, b_callback_queue b, b_callback_name b, b_callback_args b))
              (t_find (\<lambda>b. b_id b = batchID) (batches d)))
       (batches_update (t_update (\<lambda>b. b_id b = batchID) (\<lambda>b. b\<lparr>b_status := BatchSealed\<rparr>)))"

text \<open>The INSERT of a callback job, in \<open>completeBatchAndEnqueue\<close> and \<open>enqueueCallback\<close>.\<close>

definition insert_callback_job :: "time \<Rightarrow> bytes \<Rightarrow> string \<Rightarrow> string \<Rightarrow> bytes \<Rightarrow> unit sql" where
  "insert_callback_job now rnd cq cn ca =
     (let callbackJobID = generateJobID rnd in
      exec_unique (\<lambda>d. \<not> has_key j_id callbackJobID (jobs d))
        (jobs_update (\<lambda>t. t @ [default_job_row now callbackJobID cq cn ca])))"

definition Sqlite_completeBatchAndEnqueue ::
  "time \<Rightarrow> bytes \<Rightarrow> string \<Rightarrow> string \<Rightarrow> string \<Rightarrow> bytes \<Rightarrow> unit sql" where
  "Sqlite_completeBatchAndEnqueue now rnd batchID cq cn ca =
     thenS (set_batch_status batchID BatchCompleted) (insert_callback_job now rnd cq cn ca)"

definition Sqlite_SubmitBatch :: "time \<Rightarrow> bytes \<Rightarrow> string \<Rightarrow> unit sql" where
  "Sqlite_SubmitBatch now rnd batchID =
     with_tx
       (bindS (Sqlite_checkBatchExpired now batchID) (\<lambda>expired.
        if expired then ret ()
        else bindS (Sqlite_sealBatch batchID) (\<lambda>(pending, cq, cn, ca).
             if pending = 0 then Sqlite_completeBatchAndEnqueue now rnd batchID cq cn ca
             else ret ())))"

section \<open>Acknowledging a job\<close>

definition Sqlite_deleteUniqueLock :: "string \<Rightarrow> string \<Rightarrow> unit sql" where
  "Sqlite_deleteUniqueLock queueName uniqueKey =
     (if uniqueKey = '''' then ret ()
      else exec (unique_locks_update (t_delete (\<lambda>l. l_key l = lock_key queueName uniqueKey))))"

text \<open>\<open>updateBatchPending\<close>: the error of marking an expired batch failed is dropped.\<close>

definition Sqlite_updateBatchPending ::
  "time \<Rightarrow> string \<Rightarrow> (int \<times> batch_status \<times> string \<times> string \<times> bytes) sql" where
  "Sqlite_updateBatchPending now batchID =
     bindS (update_returning
       (\<lambda>d. t_find (\<lambda>b. b_id b = batchID) (batches d))
       (batches_update (t_update (\<lambda>b. b_id b = batchID)
          (\<lambda>b. b\<lparr>b_pending_jobs := b_pending_jobs b - 1\<rparr>)))) (\<lambda>b.
     case b_expires_at b of
       Some t \<Rightarrow>
         if t < now
         then thenS (ignoreS (set_batch_status batchID BatchFailed))
                (ret (b_pending_jobs b, BatchFailed, b_callback_queue b, b_callback_name b, b_callback_args b))
         else ret (b_pending_jobs b, b_status b, b_callback_queue b, b_callback_name b, b_callback_args b)
     | None \<Rightarrow> ret (b_pending_jobs b, b_status b, b_callback_queue b, b_callback_name b, b_callback_args b))"

definition Sqlite_handleBatchAck :: "time \<Rightarrow> bytes \<Rightarrow> string \<Rightarrow> unit sql" where
  "Sqlite_handleBatchAck now rnd batchID =
     bindS (Sqlite_updateBatchPending now batchID) (\<lambda>(pending, status, cq, cn, ca).
     if status \<noteq> BatchSealed \<or> pending \<noteq> 0 then ret ()
     else thenS (set_batch_status batchID BatchCompleted) (insert_callback_job now rnd cq cn ca))"

definition Sqlite_performAck ::
  "time \<Rightarrow> bytes \<Rightarrow> string \<Rightarrow> string \<Rightarrow> string \<Rightarrow> string \<Rightarrow> unit sql" where
  "Sqlite_performAck now rnd jobID queueName uniqueKey batchID =
     thenS (exec (jobs_update (t_update (\<lambda>r. j_id r = jobID)
              (\<lambda>r. r\<lparr>j_status := Processed, j_locked_at := None, j_updated_at := cur_ts now\<rparr>))))
    (thenS (Sqlite_deleteUniqueLock queueName uniqueKey)
    (thenS (Sqlite_resolveDependencies now jobID)
       (if batchID \<noteq> '''' then Sqlite_handleBatchAck now rnd batchID else ret ())))"

definition job_by_id :: "string \<Rightarrow> db \<Rightarrow> job_row option" where
  "job_by_id jobID d = t_find (\<lambda>r. j_id r = jobID) (jobs d)"

definition Sqlite_Ack :: "time \<Rightarrow> bytes \<Rightarrow> string \<Rightarrow> unit sql" where
  "Sqlite_Ack now rnd jobID =
     bindS (tryS (query_row (\<lambda>d. map_option (\<lambda>r. (j_unique_key r, j_queue r, j_batch_id r))
                                  (job_by_id jobID d)))) (\<lambda>row.
     case row of
       Inl e \<Rightarrow> if e \<noteq> ErrNoRows then throw e
                else with_tx (Sqlite_performAck now rnd jobID '''' '''' '''')
     | Inr (uniqueKey, queueName, batchID) \<Rightarrow>
         with_tx (Sqlite_performAck now rnd jobID queueName uniqueKey batchID))"

section \<open>Failing a job\<close>

text \<open>
  \<open>transitionToDead\<close> and \<open>failChildren\<close> take the recursive call to
  \<open>cascadeDependencyFailure\<close> as \<open>casc\<close>; the recursion is closed at that function, on the
  number of nested calls the stack still has room for.
\<close>

definition Sqlite_transitionToDead ::
  "(string \<Rightarrow> unit sql) \<Rightarrow> time \<Rightarrow> string \<Rightarrow> string \<Rightarrow> string \<Rightarrow> string \<Rightarrow> string \<Rightarrow> unit sql" where
  "Sqlite_transitionToDead casc now jobID errMsg uniqueKey queueName batchID =
     thenS (exec (jobs_update (t_update (\<lambda>r. j_id r = jobID)
              (\<lambda>r. r\<lparr>j_status := Dead, j_error_message := errMsg, j_attempts := j_attempts r + 1,
                     j_locked_at := None, j_updated_at := cur_ts now\<rparr>))))
    (thenS (Sqlite_deleteUniqueLock queueName uniqueKey)
    (thenS (casc jobID)
       (if batchID \<noteq> '''' then set_batch_status batchID BatchFailed else ret ())))"

definition Sqlite_failChildren ::
  "(string \<Rightarrow> unit sql) \<Rightarrow> time \<Rightarrow> string \<Rightarrow> string list \<Rightarrow> unit sql" where
  "Sqlite_failChildren casc now parentID childIDs =
     forS (\<lambda>cid.
       bindS (tryS (query_row (\<lambda>d. map_option (\<lambda>r. (j_unique_key r, j_queue r, j_batch_id r))
                                    (job_by_id cid d)))) (\<lambda>row.
       let errMsg = ''Dependency '' @ parentID @ '' failed'' in
       thenS (case row of
           Inl e \<Rightarrow> if e \<noteq> ErrNoRows then throw e
                    else Sqlite_transitionToDead casc now cid errMsg '''' '''' ''''
         | Inr (uniqueKey, queueName, batchID) \<Rightarrow>
             Sqlite_transitionToDead casc now cid errMsg uniqueKey queueName batchID)
         (exec (job_dependencies_update (t_delete (\<lambda>(c, p). c = cid))))))
     childIDs"

primrec Sqlite_cascadeDependencyFailure :: "nat \<Rightarrow> time \<Rightarrow> string \<Rightarrow> unit sql" where
  "Sqlite_cascadeDependencyFailure 0 now failedJobID = crash"
| "Sqlite_cascadeDependencyFailure (Suc n) now failedJobID =
     bindS (Sqlite_queryChildJobIDs failedJobID) (\<lambda>childIDs.
     Sqlite_failChildren (Sqlite_cascadeDependencyFailure n now) now failedJobID childIDs)"

definition Sqlite_performFail ::
  "nat \<Rightarrow> time \<Rightarrow> string \<Rightarrow> string \<Rightarrow> int \<Rightarrow> int \<Rightarrow> string \<Rightarrow> string \<Rightarrow> string \<Rightarrow> unit sql" where
  "Sqlite_performFail stack now jobID errMsg attempts maxAttempts uniqueKey queueName batchID =
     (if attempts + 1 < maxAttempts
      then let nextRun = now + ComputeBackoffDelay attempts now in
           exec (jobs_update (t_update (\<lambda>r. j_id r = jobID)
             (\<lambda>r. r\<lparr>j_status := Pending, j_attempts := j_attempts r + 1, j_run_at := Some nextRun,
                    j_error_message := errMsg, j_locked_at := None, j_updated_at := cur_ts now\<rparr>)))
      else Sqlite_transitionToDead (Sqlite_cascadeDependencyFailure stack now) now jobID errMsg
             uniqueKey queueName batchID)"

definition Sqlite_beginAndPerformFail ::
  "nat \<Rightarrow> time \<Rightarrow> string \<Rightarrow> string \<Rightarrow> int \<Rightarrow> int \<Rightarrow> string \<Rightarrow> string \<Rightarrow> string \<Rightarrow> unit sql" where
  "Sqlite_beginAndPerformFail stack now jobID errMsg attempts maxAttempts uniqueKey queueName batchID =
     (let maxAttempts = (if maxAttempts \<le> 0 then 3 else maxAttempts) in
      with_tx (Sqlite_performFail stack now jobID errMsg attempts maxAttempts uniqueKey queueName batchID))"

definition Sqlite_Fail :: "nat \<Rightarrow> time \<Rightarrow> string \<Rightarrow> string \<Rightarrow> unit sql" where
  "Sqlite_Fail stack now jobID runErr =
     bindS (query_row (\<lambda>d. map_option
              (\<lambda>r. (j_attempts r, j_max_attempts r, j_unique_key r, j_queue r, j_batch_id r))
              (job_by_id jobID d))) (\<lambda>(attempts, maxAttempts, uniqueKey, queueName, batchID).
     Sqlite_beginAndPerformFail stack now jobID runErr attempts maxAttempts uniqueKey queueName batchID)"

section \<open>Retrying, cancelling and clearing\<close>

definition reset_row :: "time \<Rightarrow> job_row \<Rightarrow> job_row" where
  "reset_row now r = r\<lparr>j_status := Pending, j_attempts := 0, j_run_at := Some (cur_ts now),
     j_error_message := ''''\<rparr>"

definition Sqlite_Retry :: "time \<Rightarrow> string \<Rightarrow> unit sql" where
  "Sqlite_Retry now jobID = exec (jobs_update (t_update (\<lambda>r. j_id r = jobID) (reset_row now)))"

definition Sqlite_Cancel :: "nat \<Rightarrow> time \<Rightarrow> string \<Rightarrow> unit sql" where
  "Sqlite_Cancel stack now jobID =
     bindS (tryS (query_row (\<lambda>d. map_option (\<lambda>r. (j_unique_key r, j_queue r)) (job_by_id jobID d)))) (\<lambda>row.
     let (uniqueKey, queueName) = (case row of Inr kq \<Rightarrow> kq | Inl e \<Rightarrow> ('''', '''')) in
     with_tx
       (thenS (exec (jobs_update (t_delete (\<lambda>r. j_id r = jobID))))
       (thenS (Sqlite_deleteUniqueLock queueName uniqueKey)
          (Sqlite_cascadeDependencyFailure stack now jobID))))"

definition Sqlite_ClearQueue :: "string \<Rightarrow> unit sql" where
  "Sqlite_ClearQueue queue =
     with_tx
       (thenS (exec (jobs_update (t_delete (\<lambda>r. j_queue r = queue))))
          (exec (unique_locks_update (t_delete (\<lambda>l. like_match (queue @ '':%'') (l_key l))))))"

definition Sqlite_RetryAllFailed :: "time \<Rightarrow> unit sql" where
  "Sqlite_RetryAllFailed now =
     exec (jobs_update (t_update (\<lambda>r. j_status r = Dead \<or> j_status r = Failed) (reset_row now)))"

definition Sqlite_PurgeAllFailed :: "unit sql" where
  "Sqlite_PurgeAllFailed =
     exec (jobs_update (t_delete (\<lambda>r. j_status r = Dead \<or> j_status r = Failed)))"

definition Sqlite_PurgeExpiredDLQ :: "time \<Rightarrow> duration \<Rightarrow> unit sql" where
  "Sqlite_PurgeExpiredDLQ now ttl =
     (let cutoff = now - ttl in
      exec (jobs_update (t_delete (\<lambda>r. j_status r = Dead \<and> j_updated_at r < cutoff))))"

definition Sqlite_FailExpiredBatches :: "time \<Rightarrow> unit sql" where
  "Sqlite_FailExpiredBatches now =
     exec (batches_update (t_update
       (\<lambda>b. (b_status b = BatchOpen \<or> b_status b = BatchSealed)
            \<and> (case b_expires_at b of None \<Rightarrow> False | Some t \<Rightarrow> t < now))
       (\<lambda>b. b\<lparr>b_status := BatchFailed\<rparr>)))"

end
