(* ===== verification/Json.thy ===== *)
theory Json
  imports Core
begin

text \<open>
  What the code uses of \<open>encoding/json\<close> and of \<open>time.Format\<close>: the encoding of a
  \<open>[]string\<close> (the queue names of a process) and back, and RFC 3339 time stamps in UTC. The
  encoder escapes as Go does; bytes from 128 on are copied (they are valid UTF-8). The
  decoder reads what the encoder writes, as the column it reads has no other writer.
\<close>

section \<open>String arrays\<close>

abbreviation quote_char :: char where "quote_char \<equiv> CHR 0x22"
abbreviation backslash :: char where "backslash \<equiv> CHR 0x5C"

definition u_escape :: "char \<Rightarrow> string" where
  "u_escape c = [backslash, CHR ''u'', CHR ''0'', CHR ''0''] @ hex_byte c"

definition json_char :: "char \<Rightarrow> string" where
  "json_char c =
     (if c = quote_char \<or> c = backslash then [backslash, c]
      else if c = CHR 0x0A then [backslash, CHR ''n'']
      else if c = CHR 0x0D then [backslash, CHR ''r'']
      else if c = CHR 0x09 then [backslash, CHR ''t'']
      else if of_char c < (32 :: nat) \<or> c = CHR ''<'' \<or> c = CHR ''>'' \<or> c = CHR ''&'' then u_escape c
      else [c])"

definition json_string :: "string \<Rightarrow> string" where
  "json_string s = quote_char # concat (map json_char s) @ [quote_char]"

fun json_elems :: "string list \<Rightarrow> string" where
  "json_elems [] = '']''"
| "json_elems [s] = json_string s @ '']''"
| "json_elems (s # ss) = json_string s @ '','' @ json_elems ss"

text \<open>\<open>json.Marshal\<close> of a \<open>[]string\<close>; the empty list is the nil slice.\<close>

definition json_strings :: "string list \<Rightarrow> string" where
  "json_strings ss = (if ss = [] then ''null'' else CHR ''['' # json_elems ss)"

definition hex_val :: "char \<Rightarrow> nat option" where
  "hex_val c = (let n = of_char c :: nat in
     if 48 \<le> n \<and> n \<le> 57 then Some (n - 48)
     else if 97 \<le> n \<and> n \<le> 102 then Some (n - 87) else None)"

text \<open>The rest of a string literal: its characters and what follows the closing quote.\<close>

fun un_json_string :: "string \<Rightarrow> (string \<times> string) option" where
  "un_json_string [] = None"
| "un_json_string (c # cs) =
     (if c = quote_char then Some ([], cs)
      else if c = backslash then
        (case cs of
           [] \<Rightarrow> None
         | e # es \<Rightarrow>
             if e = CHR ''u'' then
               (case es of
                  a # b # h # l # rest \<Rightarrow>
                    (case (hex_val h, hex_val l, un_json_string rest) of
                       (Some x, Some y, Some (s, r)) \<Rightarrow> Some (char_of (16 * x + y) # s, r)
                     | _ \<Rightarrow> None)
                | _ \<Rightarrow> None)
             else
               (let d = (if e = CHR ''n'' then CHR 0x0A else if e = CHR ''r'' then CHR 0x0D
                         else if e = CHR ''t'' then CHR 0x09 else e)
                in map_option (\<lambda>(s, r). (d # s, r)) (un_json_string es)))
      else map_option (\<lambda>(s, r). (c # s, r)) (un_json_string cs))"

lemma un_json_string_shorter: "un_json_string cs = Some (s, r) \<Longrightarrow> length r < length cs"
  by (induction cs arbitrary: s r rule: un_json_string.induct)
    (fastforce split: if_splits list.splits option.splits prod.splits simp: Let_def)+

function un_json_elems :: "string \<Rightarrow> string list option" where
  "un_json_elems [] = None"
| "un_json_elems (c # cs) =
     (if c = quote_char then
        (case un_json_string cs of
           None \<Rightarrow> None
         | Some (s, []) \<Rightarrow> None
         | Some (s, x # r) \<Rightarrow>
             if x = CHR '']'' then Some [s]
             else if x = CHR '','' then map_option (\<lambda>ss. s # ss) (un_json_elems r)
             else None)
      else None)"
  by pat_completeness auto
termination
  by (relation "measure length") (auto dest!: un_json_string_shorter)

text \<open>\<open>json.Unmarshal\<close> into a nil \<open>[]string\<close>; an error leaves it nil.\<close>

definition un_json_strings :: "string \<Rightarrow> string list" where
  "un_json_strings s = (case s of
     c # cs \<Rightarrow> if c = CHR ''['' then (case un_json_elems cs of Some ss \<Rightarrow> ss | None \<Rightarrow> []) else []
   | [] \<Rightarrow> [])"

lemma hex_val_digit: "d < 16 \<Longrightarrow> hex_val (hex_digit d) = Some d"
  by (auto simp: hex_val_def hex_digit_def Let_def)

lemma un_json_u_escape:
  "un_json_string (u_escape c @ rest) = map_option (\<lambda>(s, r). (c # s, r)) (un_json_string rest)"
proof -
  have lt: "(of_char c :: nat) div 16 < 16"
    using nat_of_char_less_256[of c] by (simp add: less_mult_imp_div_less)
  show ?thesis
    by (simp add: u_escape_def hex_byte_def hex_val_digit[OF lt] hex_val_digit
        split: option.splits prod.splits)
qed

lemma un_json_char:
  "un_json_string (json_char c @ rest) = map_option (\<lambda>(s, r). (c # s, r)) (un_json_string rest)"
  by (auto simp: json_char_def un_json_u_escape Let_def split: option.splits prod.splits)

lemma un_json_string_body:
  "un_json_string (concat (map json_char s) @ quote_char # rest) = Some (s, rest)"
  by (induction s) (auto simp: un_json_char)

lemma un_json_elems_print: "ss \<noteq> [] \<Longrightarrow> un_json_elems (json_elems ss) = Some ss"
proof (induction ss rule: json_elems.induct)
  case (2 s)
  then show ?case using un_json_string_body[of s "'']''"] by (simp add: json_string_def)
next
  case (3 s v va)
  then show ?case using un_json_string_body[of s "CHR '','' # json_elems (v # va)"]
    by (simp add: json_string_def)
qed simp

lemma un_json_strings_print [go_lib]: "un_json_strings (json_strings ss) = ss"
  by (auto simp: json_strings_def un_json_strings_def un_json_elems_print)

section \<open>Time stamps\<close>

text \<open>The civil date of a day counted from 1970-01-01, in the proleptic Gregorian calendar.\<close>

definition civil_of_days :: "int \<Rightarrow> int \<times> int \<times> int" where
  "civil_of_days z0 =
     (let z = z0 + 719468;
          era = z div 146097;
          doe = z mod 146097;
          yoe = (doe - doe div 1460 + doe div 36524 - doe div 146096) div 365;
          doy = doe - (365 * yoe + yoe div 4 - yoe div 100);
          mp = (5 * doy + 2) div 153;
          d = doy - (153 * mp + 2) div 5 + 1;
          m = (if mp < 10 then mp + 3 else mp - 9);
          y = yoe + era * 400 + (if m \<le> 2 then 1 else 0)
      in (y, m, d))"

definition pad :: "nat \<Rightarrow> int \<Rightarrow> string" where
  "pad w n = (let s = itoa_nat (nat n) in replicate (w - length s) CHR ''0'' @ s)"

definition rfc3339 :: "time \<Rightarrow> string" where
  "rfc3339 t =
     (let secs = t div second; (y, m, d) = civil_of_days (secs div 86400); sod = secs mod 86400
      in pad 4 y @ ''-'' @ pad 2 m @ ''-'' @ pad 2 d @ ''T'' @ pad 2 (sod div 3600) @ '':''
         @ pad 2 (sod div 60 mod 60) @ '':'' @ pad 2 (sod mod 60) @ ''Z'')"

lemma rfc3339_epoch: "rfc3339 (1700000000 * second) = ''2023-11-14T22:13:20Z''"
  by code_simp

end
