(* ===== verification/SqliteAdmin.thy ===== *)
theory SqliteAdmin
  imports SqliteFlow Json "HOL-Library.AList"
begin

text \<open>
  The rest of the SQLite backend: statistics, paused queues and cron listings
  (\<open>sqlite_admin.go\<close>), worker processes, cron locks, rate limits and postponing
  (\<open>sqlite_process.go\<close>), cron schedules (\<open>sqlite_cron.go\<close>), job search and the bulk
  operations (\<open>sqlite_search.go\<close>). A Go map is an association list in one of the orders its
  iteration may take; what is proved of one does not depend on the order.
\<close>

section \<open>Statistics\<close>

fun status_text :: "job_status \<Rightarrow> string" where
  "status_text Pending = ''pending''"
| "status_text Running = ''running''"
| "status_text Processed = ''processed''"
| "status_text Dead = ''dead''"
| "status_text Blocked = ''blocked''"
| "status_text Failed = ''failed''"

type_synonym queue_map = "(string \<times> QueueStats) list"

definition zero_QueueStats :: "string \<Rightarrow> QueueStats" where
  "zero_QueueStats name = \<lparr>qs_Name = name, qs_Pending = 0, qs_Running = 0, qs_Failed = 0,
     qs_Processed = 0, qs_Paused = False\<rparr>"

text \<open>
  \<open>getOrCreateQueueStats\<close> returns a pointer into the map; the update the caller makes
  through it is \<open>f\<close>.
\<close>

definition Sqlite_getOrCreateQueueStats :: "queue_map \<Rightarrow> string \<Rightarrow> QueueStats" where
  "Sqlite_getOrCreateQueueStats queueMap qName =
     (case map_of queueMap qName of Some qs \<Rightarrow> qs | None \<Rightarrow> zero_QueueStats qName)"

definition update_queue_stats ::
  "(QueueStats \<Rightarrow> QueueStats) \<Rightarrow> string \<Rightarrow> queue_map \<Rightarrow> queue_map" where
  "update_queue_stats f qName queueMap =
     AList.update qName (f (Sqlite_getOrCreateQueueStats queueMap qName)) queueMap"

definition Sqlite_accumulateStats ::
  "Stats \<times> queue_map \<Rightarrow> (string \<times> job_status \<times> int) \<Rightarrow> Stats \<times> queue_map" where
  "Sqlite_accumulateStats acc row =
     (let (stats, queueMap) = acc; (qName, status, count) = row in
      case status of
        Pending \<Rightarrow> (stats\<lparr>st_Pending := st_Pending stats + count\<rparr>,
          update_queue_stats (\<lambda>q. q\<lparr>qs_Pending := qs_Pending q + count\<rparr>) qName queueMap)
      | Running \<Rightarrow> (stats\<lparr>st_Running := st_Running stats + count\<rparr>,
          update_queue_stats (\<lambda>q. q\<lparr>qs_Running := qs_Running q + count\<rparr>) qName queueMap)
      | Failed \<Rightarrow> (stats\<lparr>st_Failed := st_Failed stats + count\<rparr>,
          update_queue_stats (\<lambda>q. q\<lparr>qs_Failed := qs_Failed q + count\<rparr>) qName queueMap)
      | Dead \<Rightarrow> (stats\<lparr>st_Failed := st_Failed stats + count\<rparr>,
          update_queue_stats (\<lambda>q. q\<lparr>qs_Failed := qs_Failed q + count\<rparr>) qName queueMap)
      | Processed \<Rightarrow> (stats\<lparr>st_Processed := st_Processed stats + count\<rparr>,
          update_queue_stats (\<lambda>q. q\<lparr>qs_Processed := qs_Processed q + count\<rparr>) qName queueMap)
      | Blocked \<Rightarrow> (stats, update_queue_stats (\<lambda>q. q) qName queueMap))"

text \<open>\<open>SELECT queue, status, COUNT(*) ... GROUP BY queue, status\<close>\<close>

definition group_counts :: "job_row list \<Rightarrow> (string \<times> job_status \<times> int) list" where
  "group_counts t =
     map (\<lambda>(q, s). (q, s, int (length (filter (\<lambda>r. j_queue r = q \<and> j_status r = s) t))))
       (remdups (map (\<lambda>r. (j_queue r, j_status r)) t))"

definition Sqlite_scanQueueStatsRows ::
  "(string \<times> job_status \<times> int) list \<Rightarrow> Stats \<Rightarrow> Stats \<times> queue_map" where
  "Sqlite_scanQueueStatsRows rows stats = foldl Sqlite_accumulateStats (stats, []) rows"

definition Sqlite_fetchQueueStats :: "Stats \<Rightarrow> (Stats \<times> queue_map) sql" where
  "Sqlite_fetchQueueStats stats =
     bindS (query (\<lambda>d. group_counts (jobs d))) (\<lambda>rows. ret (Sqlite_scanQueueStatsRows rows stats))"

definition Sqlite_applyPausedQueues :: "queue_map \<Rightarrow> queue_map sql" where
  "Sqlite_applyPausedQueues queueMap =
     bindS (tryS (query paused_queues)) (\<lambda>rows.
     case rows of
       Inl e \<Rightarrow> ret queueMap
     | Inr qs \<Rightarrow> ret (fold (update_queue_stats (\<lambda>q. q\<lparr>qs_Paused := True\<rparr>)) qs queueMap))"

definition job_detail :: "job_row \<Rightarrow> JobDetail" where
  "job_detail r = \<lparr>jd_JobID = j_id r, jd_Queue = j_queue r, jd_Name = j_name r,
     jd_Status = status_text (j_status r), jd_TraceID = j_trace_id r,
     jd_ErrorMessage = j_error_message r, jd_CreatedAt = rfc3339 (j_created_at r)\<rparr>"

definition newest_first :: "job_row list \<Rightarrow> job_row list" where
  "newest_first t = sort_key (\<lambda>r. - j_created_at r) t"

definition Sqlite_fetchRecentJobs :: "Stats \<Rightarrow> Stats sql" where
  "Sqlite_fetchRecentJobs stats =
     bindS (query (\<lambda>d. take 100 (newest_first (jobs d)))) (\<lambda>rows.
     ret (stats\<lparr>st_Jobs := st_Jobs stats @ map job_detail rows\<rparr>))"

definition Sqlite_loadStaticCrons :: "(string \<times> CronJobDetail) list \<Rightarrow> (string \<times> CronJobDetail) list sql" where
  "Sqlite_loadStaticCrons m =
     bindS (tryS (query cron_jobs)) (\<lambda>rows.
     case rows of
       Inl e \<Rightarrow> ret m
     | Inr cs \<Rightarrow> ret (fold (\<lambda>c. AList.update (c_name c)
         \<lparr>cd_Name = c_name c, cd_Expression = c_expression c, cd_Queue = c_queue c,
          cd_Payload = c_payload c, cd_Timezone = c_timezone c, cd_Source = ''static'',
          cd_Paused = False\<rparr>) cs m))"

definition Sqlite_loadDynamicCrons :: "(string \<times> CronJobDetail) list \<Rightarrow> (string \<times> CronJobDetail) list sql" where
  "Sqlite_loadDynamicCrons m =
     bindS (tryS (query cron_schedules)) (\<lambda>rows.
     case rows of
       Inl e \<Rightarrow> ret m
     | Inr cs \<Rightarrow> ret (fold (\<lambda>c. AList.update (s_name c)
         \<lparr>cd_Name = s_name c, cd_Expression = s_spec c, cd_Queue = s_queue c,
          cd_Payload = s_payload c, cd_Timezone = s_timezone c, cd_Source = ''dynamic'',
          cd_Paused = (s_paused c \<noteq> 0)\<rparr>) cs m))"

definition Sqlite_fetchCronJobs :: "Stats \<Rightarrow> Stats sql" where
  "Sqlite_fetchCronJobs stats =
     bindS (Sqlite_loadStaticCrons []) (\<lambda>m.
     bindS (Sqlite_loadDynamicCrons m) (\<lambda>m.
     ret (stats\<lparr>st_CronJobs := sortCronJobs m\<rparr>)))"

section \<open>Worker processes\<close>

definition Sqlite_RegisterProcess :: "ProcessInfo \<Rightarrow> unit sql" where
  "Sqlite_RegisterProcess info =
     (let queuesJSON = json_strings (pi_Queues info) in
      exec (processes_update (t_upsert p_id
        \<lparr>p_id = pi_ProcessID info, p_concurrency = pi_Concurrency info, p_queues = queuesJSON,
         p_heartbeat_at = pi_HeartbeatAt info, p_min_concurrency = pi_MinConcurrency info,
         p_max_concurrency = pi_MaxConcurrency info\<rparr>
        (\<lambda>p. p\<lparr>p_concurrency := pi_Concurrency info, p_queues := queuesJSON,
               p_heartbeat_at := pi_HeartbeatAt info, p_min_concurrency := pi_MinConcurrency info,
               p_max_concurrency := pi_MaxConcurrency info\<rparr>))))"

definition Sqlite_HeartbeatProcess :: "time \<Rightarrow> string \<Rightarrow> unit sql" where
  "Sqlite_HeartbeatProcess now processID =
     exec (processes_update (t_update (\<lambda>p. p_id p = processID) (\<lambda>p. p\<lparr>p_heartbeat_at := now\<rparr>)))"

definition Sqlite_scanProcesses :: "process_row list \<Rightarrow> ProcessInfo list" where
  "Sqlite_scanProcesses rows =
     map (\<lambda>p. \<lparr>pi_HeartbeatAt = p_heartbeat_at p, pi_Queues = un_json_strings (p_queues p),
               pi_ProcessID = p_id p, pi_Concurrency = p_concurrency p,
               pi_MinConcurrency = p_min_concurrency p, pi_MaxConcurrency = p_max_concurrency p,
               pi_IsLeader = False\<rparr>) rows"

definition Sqlite_markLeader :: "time \<Rightarrow> ProcessInfo list \<Rightarrow> ProcessInfo list sql" where
  "Sqlite_markLeader now list =
     bindS (tryS (query_row (\<lambda>d. map_option snd (t_find (\<lambda>r. fst r = ''leader'') (leader_leases d))))) (\<lambda>row.
     case row of
       Inl e \<Rightarrow> if e \<noteq> ErrNoRows then throw e else ret list
     | Inr (leader, expires) \<Rightarrow>
         if expires < now then ret list
         else ret (map (\<lambda>p. if pi_ProcessID p = leader then p\<lparr>pi_IsLeader := True\<rparr> else p) list))"

definition Sqlite_GetActiveProcesses :: "time \<Rightarrow> ProcessInfo list sql" where
  "Sqlite_GetActiveProcesses now =
     (let dead = now - 15 * second in
      thenS (ignoreS (exec (processes_update (t_delete (\<lambda>p. p_heartbeat_at p < dead)))))
     (bindS (query (\<lambda>d. sort_key (\<lambda>p. - p_heartbeat_at p) (processes d))) (\<lambda>rows.
      Sqlite_markLeader now (Sqlite_scanProcesses rows))))"

definition Sqlite_loadActiveProcesses :: "time \<Rightarrow> Stats \<Rightarrow> Stats sql" where
  "Sqlite_loadActiveProcesses now stats =
     bindS (tryS (Sqlite_GetActiveProcesses now)) (\<lambda>r.
     case r of Inr ps \<Rightarrow> ret (stats\<lparr>st_Processes := ps\<rparr>) | Inl e \<Rightarrow> ret stats)"

definition Sqlite_GetStats :: "time \<Rightarrow> Stats sql" where
  "Sqlite_GetStats now =
     bindS (Sqlite_fetchQueueStats zero_Stats) (\<lambda>(stats, queueMap).
     bindS (Sqlite_applyPausedQueues queueMap) (\<lambda>queueMap.
     bindS (Sqlite_fetchRecentJobs (stats\<lparr>st_Queues := map snd queueMap\<rparr>)) (\<lambda>stats.
     bindS (Sqlite_fetchCronJobs stats) (\<lambda>stats.
     Sqlite_loadActiveProcesses now stats))))"

section \<open>Paused queues and cron tables\<close>

definition Sqlite_IsQueuePaused :: "string \<Rightarrow> bool sql" where
  "Sqlite_IsQueuePaused queue = query (\<lambda>d. has_key (\<lambda>q. q) queue (paused_queues d))"

definition Sqlite_PauseQueue :: "string \<Rightarrow> unit sql" where
  "Sqlite_PauseQueue queue = exec (paused_queues_update (t_insert_ignore (\<lambda>q. q) queue))"

definition Sqlite_ResumeQueue :: "string \<Rightarrow> unit sql" where
  "Sqlite_ResumeQueue queue = exec (paused_queues_update (t_delete (\<lambda>q. q = queue)))"

definition Sqlite_insertCronJobsTx :: "time \<Rightarrow> CronJob list \<Rightarrow> unit sql" where
  "Sqlite_insertCronJobsTx now crons =
     forS (\<lambda>c. exec (cron_jobs_update (t_upsert c_name
        \<lparr>c_name = cj_Name c, c_expression = cj_Spec c, c_queue = cj_Queue c,
         c_payload = cj_Payload c, c_timezone = cj_Timezone c, c_updated_at = cur_ts now\<rparr>
        (\<lambda>r. r\<lparr>c_expression := cj_Spec c, c_queue := cj_Queue c, c_payload := cj_Payload c,
               c_timezone := cj_Timezone c, c_updated_at := cur_ts now\<rparr>)))) crons"

definition Sqlite_RegisterCronJobs :: "time \<Rightarrow> CronJob list \<Rightarrow> unit sql" where
  "Sqlite_RegisterCronJobs now crons = with_tx (Sqlite_insertCronJobsTx now crons)"

definition Sqlite_GetCronSchedules :: "CronJob list sql" where
  "Sqlite_GetCronSchedules =
     query (\<lambda>d. map (\<lambda>s. \<lparr>cj_Payload = s_payload s, cj_Spec = s_spec s, cj_Name = s_name s,
                          cj_Queue = s_queue s, cj_Timezone = s_timezone s,
                          cj_Paused = (s_paused s \<noteq> 0)\<rparr>)
                  (sort_key s_name (cron_schedules d)))"

definition Sqlite_SaveCronSchedule :: "time \<Rightarrow> CronJob \<Rightarrow> unit sql" where
  "Sqlite_SaveCronSchedule now cron =
     (let p = (if cj_Paused cron then 1 else 0) in
      exec (cron_schedules_update (t_upsert s_name
        \<lparr>s_name = cj_Name cron, s_spec = cj_Spec cron, s_queue = cj_Queue cron,
         s_payload = cj_Payload cron, s_timezone = cj_Timezone cron, s_paused = p,
         s_created_at = cur_ts now, s_updated_at = cur_ts now\<rparr>
        (\<lambda>r. r\<lparr>s_spec := cj_Spec cron, s_queue := cj_Queue cron, s_payload := cj_Payload cron,
               s_timezone := cj_Timezone cron, s_paused := p, s_updated_at := cur_ts now\<rparr>))))"

definition Sqlite_DeleteCronSchedule :: "string \<Rightarrow> unit sql" where
  "Sqlite_DeleteCronSchedule name = exec (cron_schedules_update (t_delete (\<lambda>s. s_name s = name)))"

text \<open>\<open>time.Truncate(time.Minute)\<close> of an instant, which Go counts from the zero time, a
  whole number of minutes before the epoch.\<close>

definition trunc_minute :: "time \<Rightarrow> time" where
  "trunc_minute t = t div minute * minute"

definition Sqlite_LockCronExecution :: "time \<Rightarrow> string \<Rightarrow> time \<Rightarrow> bool sql" where
  "Sqlite_LockCronExecution now cronName executionMinute =
     thenS (ignoreS (exec (cron_locks_update (t_delete (\<lambda>l. snd (fst l) < now - 1 * hour)))))
    (bindS (exec_count
       (\<lambda>d. if has_key fst (cronName, trunc_minute executionMinute) (cron_locks d) then 0 else 1)
       (cron_locks_update (t_insert_ignore fst ((cronName, trunc_minute executionMinute), now))))
     (\<lambda>rows. ret (rows > 0)))"

section \<open>Throttling\<close>

definition Sqlite_GetRunningJobsCount :: "string \<Rightarrow> int sql" where
  "Sqlite_GetRunningJobsCount jobName =
     query (\<lambda>d. int (length (filter (\<lambda>r. j_name r = jobName \<and> j_status r = Running) (jobs d))))"

definition Sqlite_evaluateRateLimit :: "time \<Rightarrow> string \<Rightarrow> int \<Rightarrow> duration \<Rightarrow> bool sql" where
  "Sqlite_evaluateRateLimit now jobName limit period =
     (let clearBefore = now - period in
      thenS (exec (rate_limits_update (t_delete (\<lambda>(n, ts). n = jobName \<and> ts < clearBefore))))
     (bindS (query (\<lambda>d. int (length (filter (\<lambda>(n, ts). n = jobName) (rate_limits d))))) (\<lambda>count.
      if count \<ge> limit then ret False
      else thenS (exec (rate_limits_update (\<lambda>t. t @ [(jobName, now)]))) (ret True))))"

definition Sqlite_CheckRateLimit :: "time \<Rightarrow> string \<Rightarrow> int \<Rightarrow> duration \<Rightarrow> bool sql" where
  "Sqlite_CheckRateLimit now jobName limit period =
     with_tx_if (bindS (Sqlite_evaluateRateLimit now jobName limit period)
       (\<lambda>allowed. ret (allowed, allowed)))"

definition Sqlite_PostponeJob :: "time \<Rightarrow> string \<Rightarrow> string \<Rightarrow> duration \<Rightarrow> unit sql" where
  "Sqlite_PostponeJob now jobID queueName delay =
     (let runAt = now + delay in
      exec (jobs_update (t_update (\<lambda>r. j_id r = jobID)
        (\<lambda>r. r\<lparr>j_status := Pending, j_run_at := Some runAt, j_locked_at := None\<rparr>))))"

section \<open>Search and bulk operations\<close>

text \<open>The detail of one job; a NULL \<open>run_at\<close> does not scan into a \<open>time.Time\<close>.\<close>

definition Sqlite_GetJobDetail :: "string \<Rightarrow> JobEnvelope option sql" where
  "Sqlite_GetJobDetail jobID =
     bindS (tryS (query_row (job_by_id jobID))) (\<lambda>row.
     case row of
       Inl e \<Rightarrow> if e = ErrNoRows then ret None else throw e
     | Inr r \<Rightarrow>
         (case j_run_at r of
            None \<Rightarrow> throw (ErrMsg ''sql: Scan error on column index 10'')
          | Some runAt \<Rightarrow> ret (Some (zero_envelope\<lparr>JobID := j_id r, Queue := j_queue r,
              Name := j_name r, Args := j_args r,
              TraceCtx := \<lparr>TraceID = j_trace_id r, SpanID = j_span_id r\<rparr>,
              Attempts := j_attempts r, MaxAttempts := j_max_attempts r,
              UniqueKey := j_unique_key r, BatchID := j_batch_id r, RunAt := Some runAt\<rparr>))))"

text \<open>The WHERE clause built by \<open>buildSearchQuery\<close>, as the condition on a row.\<close>

definition Sqlite_buildSearchQuery :: "string \<Rightarrow> string \<Rightarrow> job_row \<Rightarrow> bool" where
  "Sqlite_buildSearchQuery q status r \<longleftrightarrow>
     (if status \<noteq> '''' then status_text (j_status r) = status else True)
     \<and> (if q \<noteq> '''' then let likePat = ''%'' @ q @ ''%'' in
          like_match likePat (j_id r) \<or> like_match likePat (j_name r) \<or> like_match likePat (j_trace_id r)
        else True)"

definition Sqlite_sanitizePageLimit :: "int \<Rightarrow> int \<Rightarrow> int \<times> int" where
  "Sqlite_sanitizePageLimit limit page =
     (let limit = (if limit \<le> 0 then 20 else limit);
          limit = (if limit > 100 then 100 else limit);
          page = (if page \<le> 0 then 1 else page)
      in (limit, page))"

text \<open>The offset is a 64-bit product; a negative OFFSET counts as zero.\<close>

definition Sqlite_GetJobs :: "string \<Rightarrow> string \<Rightarrow> int \<Rightarrow> int \<Rightarrow> (JobDetail list \<times> int) sql" where
  "Sqlite_GetJobs q status page limit =
     (let (limit, page) = Sqlite_sanitizePageLimit limit page;
          offset = sint ((word_of_int (page - 1) :: 64 word) * word_of_int limit);
          whr = Sqlite_buildSearchQuery q status
      in bindS (query (\<lambda>d. int (length (filter whr (jobs d))))) (\<lambda>total.
         bindS (query (\<lambda>d. take (nat limit) (drop (nat offset) (newest_first (filter whr (jobs d)))))) (\<lambda>rows.
         ret (map job_detail rows, total))))"

definition Sqlite_BulkRetry :: "time \<Rightarrow> string list \<Rightarrow> unit sql" where
  "Sqlite_BulkRetry now jobIDs =
     (if length jobIDs = 0 then ret ()
      else with_tx (forS (\<lambda>id. exec (jobs_update (t_update (\<lambda>r. j_id r = id) (reset_row now)))) jobIDs))"

definition Sqlite_cancelOneJob :: "string \<Rightarrow> unit sql" where
  "Sqlite_cancelOneJob jobID =
     bindS (tryS (query_row (\<lambda>d. map_option (\<lambda>r. (j_unique_key r, j_queue r)) (job_by_id jobID d)))) (\<lambda>row.
     case row of
       Inl e \<Rightarrow> if e \<noteq> ErrNoRows then throw e
                else thenS (exec (jobs_update (t_delete (\<lambda>r. j_id r = jobID)))) (Sqlite_deleteUniqueLock '''' '''')
     | Inr (uniqueKey, queueName) \<Rightarrow>
         thenS (exec (jobs_update (t_delete (\<lambda>r. j_id r = jobID)))) (Sqlite_deleteUniqueLock queueName uniqueKey))"

definition Sqlite_BulkCancel :: "string list \<Rightarrow> unit sql" where
  "Sqlite_BulkCancel jobIDs =
     (if length jobIDs = 0 then ret () else with_tx (forS Sqlite_cancelOneJob jobIDs))"

definition Sqlite_BulkPurge :: "string list \<Rightarrow> unit sql" where
  "Sqlite_BulkPurge jobIDs =
     (if length jobIDs = 0 then ret ()
      else with_tx (forS (\<lambda>id. exec (jobs_update (t_delete (\<lambda>r. j_id r = id)))) jobIDs))"

definition Sqlite_RetryModified :: "time \<Rightarrow> string \<Rightarrow> bytes \<Rightarrow> unit sql" where
  "Sqlite_RetryModified now jobID args =
     exec (jobs_update (t_update (\<lambda>r. j_id r = jobID) (\<lambda>r. (reset_row now r)\<lparr>j_args := args\<rparr>)))"

end
