(* ===== verification/SqliteInv.thy ===== *)
theory SqliteInv
  imports SqliteAdmin
begin

text \<open>
  The SQLite backend as a transition system: \<open>call\<close> lists the storage methods a client, a
  worker or the dashboard may call, \<open>run_call\<close> dispatches them to the operations, and
  \<open>reachable\<close> are the databases that any sequence of calls leads to, whatever statements
  fail on the way. Two invariants hold in all of them: the primary keys of every table, and
  that a blocked job waits for some parent.
\<close>

section \<open>Calls\<close>

datatype call =
    CEnqueue time JobEnvelope
  | CDequeue time string "string list"
  | CPollScheduled string
  | CAck time bytes string
  | CFail nat time string string
  | CPostponeJob time string string duration
  | CAcquireLeader time string duration
  | CReleaseLeader string
  | CArchiveJobs time duration
  | CEnqueueWorkflow time "JobEnvelope list"
  | CCreateBatch time string JobEnvelope "time option"
  | CEnqueueInBatch time string JobEnvelope
  | CSubmitBatch time bytes string
  | CFailExpiredBatches time
  | CRetry time string
  | CCancel nat time string
  | CClearQueue string
  | CRetryAllFailed time
  | CPurgeAllFailed
  | CPurgeExpiredDLQ time duration
  | CBulkRetry time "string list"
  | CBulkCancel "string list"
  | CBulkPurge "string list"
  | CRetryModified time string bytes
  | CGetStats time
  | CGetActiveProcesses time
  | CGetJobs string string int int
  | CGetJobDetail string
  | CRegisterProcess ProcessInfo
  | CHeartbeatProcess time string
  | CIsQueuePaused string
  | CPauseQueue string
  | CResumeQueue string
  | CRegisterCronJobs time "CronJob list"
  | CGetCronSchedules
  | CSaveCronSchedule time CronJob
  | CDeleteCronSchedule string
  | CLockCronExecution time string time
  | CGetRunningJobsCount string
  | CCheckRateLimit time string int duration

definition voidS :: "'a sql \<Rightarrow> unit sql" where
  "voidS m = bindS m (\<lambda>_. ret ())"

fun run_call :: "call \<Rightarrow> unit sql" where
  "run_call (CEnqueue now env) = Sqlite_Enqueue now env"
| "run_call (CDequeue now q ws) = voidS (Sqlite_Dequeue now q ws)"
| "run_call (CPollScheduled q) = Sqlite_PollScheduled q"
| "run_call (CAck now rnd j) = Sqlite_Ack now rnd j"
| "run_call (CFail stack now j e) = Sqlite_Fail stack now j e"
| "run_call (CPostponeJob now j q delay) = Sqlite_PostponeJob now j q delay"
| "run_call (CAcquireLeader now c ttl) = voidS (Sqlite_AcquireLeader now c ttl)"
| "run_call (CReleaseLeader c) = Sqlite_ReleaseLeader c"
| "run_call (CArchiveJobs now age) = voidS (Sqlite_ArchiveJobs now age)"
| "run_call (CEnqueueWorkflow now js) = Sqlite_EnqueueWorkflow now js"
| "run_call (CCreateBatch now b cb ex) = Sqlite_CreateBatch now b cb ex"
| "run_call (CEnqueueInBatch now b env) = Sqlite_EnqueueInBatch now b env"
| "run_call (CSubmitBatch now rnd b) = Sqlite_SubmitBatch now rnd b"
| "run_call (CFailExpiredBatches now) = Sqlite_FailExpiredBatches now"
| "run_call (CRetry now j) = Sqlite_Retry now j"
| "run_call (CCancel stack now j) = Sqlite_Cancel stack now j"
| "run_call (CClearQueue q) = Sqlite_ClearQueue q"
| "run_call (CRetryAllFailed now) = Sqlite_RetryAllFailed now"
| "run_call CPurgeAllFailed = Sqlite_PurgeAllFailed"
| "run_call (CPurgeExpiredDLQ now ttl) = Sqlite_PurgeExpiredDLQ now ttl"
| "run_call (CBulkRetry now js) = Sqlite_BulkRetry now js"
| "run_call (CBulkCancel js) = Sqlite_BulkCancel js"
| "run_call (CBulkPurge js) = Sqlite_BulkPurge js"
| "run_call (CRetryModified now j args) = Sqlite_RetryModified now j args"
| "run_call (CGetStats now) = voidS (Sqlite_GetStats now)"
| "run_call (CGetActiveProcesses now) = voidS (Sqlite_GetActiveProcesses now)"
| "run_call (CGetJobs q s p l) = voidS (Sqlite_GetJobs q s p l)"
| "run_call (CGetJobDetail j) = voidS (Sqlite_GetJobDetail j)"
| "run_call (CRegisterProcess info) = Sqlite_RegisterProcess info"
| "run_call (CHeartbeatProcess now p) = Sqlite_HeartbeatProcess now p"
| "run_call (CIsQueuePaused q) = voidS (Sqlite_IsQueuePaused q)"
| "run_call (CPauseQueue q) = Sqlite_PauseQueue q"
| "run_call (CResumeQueue q) = Sqlite_ResumeQueue q"
| "run_call (CRegisterCronJobs now cs) = Sqlite_RegisterCronJobs now cs"
| "run_call CGetCronSchedules = voidS Sqlite_GetCronSchedules"
| "run_call (CSaveCronSchedule now c) = Sqlite_SaveCronSchedule now c"
| "run_call (CDeleteCronSchedule n) = Sqlite_DeleteCronSchedule n"
| "run_call (CLockCronExecution now n t) = voidS (Sqlite_LockCronExecution now n t)"
| "run_call (CGetRunningJobsCount n) = voidS (Sqlite_GetRunningJobsCount n)"
| "run_call (CCheckRateLimit now n l p) = voidS (Sqlite_CheckRateLimit now n l p)"

text \<open>One call under some failure schedule; a call whose process dies leaves the committed
  database as it was.\<close>

inductive sqlite_step :: "db \<Rightarrow> db \<Rightarrow> bool" where
  "run_call c (d, fs) = Some (r, (d', fs')) \<Longrightarrow> sqlite_step d d'"

inductive reachable :: "db \<Rightarrow> bool" where
  start: "reachable empty_db"
| step: "reachable d \<Longrightarrow> sqlite_step d d' \<Longrightarrow> reachable d'"

lemma reachable_run: "reachable d \<Longrightarrow> run_call c (d, fs) = Some (r, (d', fs')) \<Longrightarrow> reachable d'"
  by (blast intro: reachable.step sqlite_step.intros)

inductive_cases sqlite_stepE: "sqlite_step d d'"

lemma reachable_invariant:
  assumes "reachable d" "I empty_db" "\<And>c. keeps I (run_call c)"
  shows "I d"
  using assms(1)
proof induction
  case (step d d')
  from step.hyps(2) step.IH show ?case by (auto elim!: sqlite_stepE dest: keepsD[OF assms(3)])
qed (rule assms(2))

section \<open>Primary keys\<close>

lemma distinct_t_delete: "distinct t \<Longrightarrow> distinct (t_delete P t)"
  by (simp add: t_delete_def)

lemma distinct_t_insert_ignore: "distinct t \<Longrightarrow> distinct (t_insert_ignore (\<lambda>q. q) r t)"
  using t_insert_ignore_keys[of "\<lambda>q. q" t r] by simp

lemmas pk_simps = pk_ok_def t_delete_keys t_update_keys t_insert_ignore_keys t_upsert_keys
  distinct_t_delete distinct_t_insert_ignore has_key_iff

lemmas sqlite_lock_defs = Sqlite_acquireUniqueLock_def Sqlite_tryInsertLock_def
  Sqlite_checkLockCollision_def Sqlite_handleLockCollision_def Sqlite_deleteUniqueLock_def Let_def

lemma keeps_let: "keeps I (f x) \<Longrightarrow> keeps I (let y = x in f y)" by simp

lemma pk_acquireUniqueLock: "keeps pk_ok (Sqlite_acquireUniqueLock now env)"
  unfolding sqlite_lock_defs by (intro keeps_rules) (simp_all add: pk_simps)

lemma pk_deleteUniqueLock: "keeps pk_ok (Sqlite_deleteUniqueLock q k)"
  unfolding sqlite_lock_defs by (intro keeps_rules) (simp_all add: pk_simps)

lemma pk_Enqueue: "keeps pk_ok (Sqlite_Enqueue now env)"
  unfolding Sqlite_Enqueue_def Sqlite_insertJob_def Let_def
  by (intro keeps_rules pk_acquireUniqueLock) (simp_all add: pk_simps default_job_row_def)

lemma pk_Dequeue: "keeps pk_ok (Sqlite_Dequeue now q ws)"
  unfolding Sqlite_Dequeue_def Sqlite_dequeueTx_def
  by (intro keeps_rules) (simp_all add: pk_simps)

lemma pk_leader:
  "keeps pk_ok (Sqlite_AcquireLeader now c ttl)" "keeps pk_ok (Sqlite_ReleaseLeader c)"
  unfolding Sqlite_AcquireLeader_def Sqlite_tryAcquire_def Sqlite_ReleaseLeader_def
  by (intro keeps_rules; simp add: pk_simps)+

lemma distinct_append_filter:
  "distinct (map key a) \<Longrightarrow> distinct (map key t) \<Longrightarrow> \<forall>r\<in>set (filter P t). \<not> has_key key (key r) a
    \<Longrightarrow> distinct (map key (a @ filter P t))"
  by (auto simp: distinct_map_filter has_key_def)

lemma pk_ArchiveJobs: "keeps pk_ok (Sqlite_ArchiveJobs now age)"
  unfolding Sqlite_ArchiveJobs_def Let_def
  by (intro keeps_rules)
    (auto simp: pk_ok_def t_delete_keys list_all_iff has_key_def distinct_map_filter)

lemma pk_EnqueueWorkflow: "keeps pk_ok (Sqlite_EnqueueWorkflow now js)"
  unfolding Sqlite_EnqueueWorkflow_def Sqlite_insertWorkflowJobs_def Sqlite_insertWorkflowJob_def
    Sqlite_execInsertJob_def Sqlite_insertJobDependencies_def Let_def
  by (intro keeps_rules pk_acquireUniqueLock) (simp_all add: pk_simps default_job_row_def)

lemmas batch_defs = Sqlite_CreateBatch_def Sqlite_EnqueueInBatch_def Sqlite_updateBatchCount_def
  Sqlite_insertBatchJob_def Sqlite_SubmitBatch_def Sqlite_checkBatchExpired_def set_batch_status_def
  Sqlite_sealBatch_def Sqlite_completeBatchAndEnqueue_def insert_callback_job_def
  Sqlite_handleBatchAck_def Sqlite_updateBatchPending_def Let_def

lemma pk_batch:
  "keeps pk_ok (Sqlite_CreateBatch now b cb ex)" "keeps pk_ok (Sqlite_EnqueueInBatch now b env)"
  "keeps pk_ok (Sqlite_SubmitBatch now rnd b)" "keeps pk_ok (Sqlite_handleBatchAck now rnd b)"
  unfolding batch_defs
  by (intro keeps_rules pk_acquireUniqueLock; simp add: pk_simps default_job_row_def)+

lemma pk_Ack: "keeps pk_ok (Sqlite_Ack now rnd j)"
  unfolding Sqlite_Ack_def Sqlite_performAck_def Sqlite_resolveDependencies_def
    Sqlite_queryChildJobIDs_def Sqlite_checkBlockedChildren_def
  by (intro keeps_rules pk_deleteUniqueLock pk_batch) (simp_all add: pk_simps)

lemma pk_transitionToDead:
  "(\<And>j. keeps pk_ok (casc j)) \<Longrightarrow> keeps pk_ok (Sqlite_transitionToDead casc now j e k q b)"
  unfolding Sqlite_transitionToDead_def set_batch_status_def
  by (intro keeps_rules pk_deleteUniqueLock) (simp_all add: pk_simps)

lemma pk_cascade: "keeps pk_ok (Sqlite_cascadeDependencyFailure n now j)"
proof (induction n arbitrary: j)
  case (Suc n)
  show ?case
    unfolding Sqlite_cascadeDependencyFailure.simps Sqlite_failChildren_def
      Sqlite_queryChildJobIDs_def Let_def
    by (intro keeps_rules pk_transitionToDead Suc.IH) (simp_all add: pk_simps)
qed (simp add: keeps_crash)

lemma pk_Fail: "keeps pk_ok (Sqlite_Fail stack now j e)"
  unfolding Sqlite_Fail_def Sqlite_beginAndPerformFail_def Sqlite_performFail_def Let_def
  by (intro keeps_rules pk_transitionToDead pk_cascade) (simp_all add: pk_simps)

lemma pk_Cancel: "keeps pk_ok (Sqlite_Cancel stack now j)"
  unfolding Sqlite_Cancel_def Let_def
  by (intro keeps_rules pk_deleteUniqueLock pk_cascade) (simp_all add: pk_simps)

lemma pk_admin:
  "keeps pk_ok (Sqlite_ClearQueue q)" "keeps pk_ok (Sqlite_Retry now j)"
  "keeps pk_ok (Sqlite_RetryAllFailed now)" "keeps pk_ok Sqlite_PurgeAllFailed"
  "keeps pk_ok (Sqlite_PurgeExpiredDLQ now ttl)" "keeps pk_ok (Sqlite_FailExpiredBatches now)"
  "keeps pk_ok (Sqlite_PostponeJob now j q delay)" "keeps pk_ok (Sqlite_BulkRetry now js)"
  "keeps pk_ok (Sqlite_BulkPurge js)" "keeps pk_ok (Sqlite_RetryModified now j args)"
  unfolding Sqlite_ClearQueue_def Sqlite_Retry_def Sqlite_RetryAllFailed_def
    Sqlite_PurgeAllFailed_def Sqlite_PurgeExpiredDLQ_def Sqlite_FailExpiredBatches_def
    Sqlite_PostponeJob_def Sqlite_BulkRetry_def Sqlite_BulkPurge_def Sqlite_RetryModified_def Let_def
  by (intro keeps_rules; simp add: pk_simps reset_row_def)+

lemma pk_BulkCancel: "keeps pk_ok (Sqlite_BulkCancel js)"
  unfolding Sqlite_BulkCancel_def Sqlite_cancelOneJob_def
  by (intro keeps_rules pk_deleteUniqueLock) (simp_all add: pk_simps)

lemma pk_GetActiveProcesses: "keeps pk_ok (Sqlite_GetActiveProcesses now)"
  unfolding Sqlite_GetActiveProcesses_def Sqlite_markLeader_def Let_def
  by (intro keeps_rules) (simp_all add: pk_simps)

lemma pk_GetStats: "keeps pk_ok (Sqlite_GetStats now)"
  unfolding Sqlite_GetStats_def Sqlite_fetchQueueStats_def Sqlite_applyPausedQueues_def
    Sqlite_fetchRecentJobs_def Sqlite_fetchCronJobs_def Sqlite_loadStaticCrons_def
    Sqlite_loadDynamicCrons_def Sqlite_loadActiveProcesses_def
  by (intro keeps_rules pk_GetActiveProcesses)

lemma pk_rest:
  "keeps pk_ok (Sqlite_RegisterProcess info)" "keeps pk_ok (Sqlite_HeartbeatProcess now p)"
  "keeps pk_ok (Sqlite_PauseQueue q)" "keeps pk_ok (Sqlite_ResumeQueue q)"
  "keeps pk_ok (Sqlite_RegisterCronJobs now cs)" "keeps pk_ok (Sqlite_SaveCronSchedule now c)"
  "keeps pk_ok (Sqlite_DeleteCronSchedule nm)" "keeps pk_ok (Sqlite_LockCronExecution now nm t)"
  "keeps pk_ok (Sqlite_CheckRateLimit now nm l per)"
  unfolding Sqlite_RegisterProcess_def Sqlite_HeartbeatProcess_def Sqlite_PauseQueue_def
    Sqlite_ResumeQueue_def Sqlite_RegisterCronJobs_def Sqlite_insertCronJobsTx_def
    Sqlite_SaveCronSchedule_def Sqlite_DeleteCronSchedule_def Sqlite_LockCronExecution_def
    Sqlite_CheckRateLimit_def Sqlite_evaluateRateLimit_def Let_def
  by (intro keeps_rules; simp add: pk_simps)+

lemma keeps_reads:
  "keeps I (Sqlite_GetJobs q s p l)" "keeps I (Sqlite_GetJobDetail j)" "keeps I (Sqlite_IsQueuePaused q)"
  "keeps I Sqlite_GetCronSchedules" "keeps I (Sqlite_GetRunningJobsCount n)" "keeps I (Sqlite_PollScheduled q)"
  unfolding Sqlite_GetJobs_def Sqlite_GetJobDetail_def Sqlite_IsQueuePaused_def
    Sqlite_GetCronSchedules_def Sqlite_GetRunningJobsCount_def Sqlite_PollScheduled_def Let_def
  by (auto intro!: keeps_rules split: prod.splits)

lemmas pk_ops = pk_Enqueue pk_Dequeue pk_leader pk_ArchiveJobs pk_EnqueueWorkflow pk_batch pk_Ack
  pk_Fail pk_Cancel pk_admin pk_BulkCancel pk_GetActiveProcesses pk_GetStats pk_rest keeps_reads

lemma keeps_void: "keeps I m \<Longrightarrow> keeps I (voidS m)"
  unfolding voidS_def by (intro keeps_bind keeps_ret)

lemma pk_run_call: "keeps pk_ok (run_call c)"
  by (cases c) (simp_all add: pk_ops keeps_void)

lemma pk_empty: "pk_ok empty_db"
  by (simp add: pk_ok_def empty_db_def)

lemma reachable_pk: "reachable d \<Longrightarrow> pk_ok d"
  by (rule reachable_invariant) (auto intro: pk_empty pk_run_call)

section \<open>Blocked jobs wait for a parent\<close>

definition waits :: "string \<Rightarrow> db \<Rightarrow> bool" where
  "waits j d \<longleftrightarrow> j \<in> fst ` set (job_dependencies d)"

definition blocked_except :: "string set \<Rightarrow> db \<Rightarrow> bool" where
  "blocked_except S d \<longleftrightarrow>
     (\<forall>r\<in>set (jobs d). j_status r = Blocked \<longrightarrow> waits (j_id r) d \<or> j_id r \<in> S)"

abbreviation blocked_ok :: "db \<Rightarrow> bool" where
  "blocked_ok \<equiv> blocked_except {}"

lemma waits_jobs_update [simp]: "waits j (jobs_update f d) = waits j d"
  by (simp add: waits_def)

lemma be_jobs:
  assumes "blocked_except S d" "\<And>r. r \<in> set (f (jobs d)) \<Longrightarrow> j_status r = Blocked
    \<Longrightarrow> j_id r \<in> S' \<or> (\<exists>r'\<in>set (jobs d). j_id r' = j_id r \<and> j_status r' = Blocked \<and> (j_id r \<in> S \<longrightarrow> j_id r \<in> S'))"
  shows "blocked_except S' (jobs_update f d)"
  unfolding blocked_except_def
proof (intro ballI impI)
  fix r assume r: "r \<in> set (jobs (jobs_update f d))" "j_status r = Blocked"
  with assms(2)[of r] consider "j_id r \<in> S'"
    | r' where "r' \<in> set (jobs d)" "j_id r' = j_id r" "j_status r' = Blocked" "j_id r \<in> S \<longrightarrow> j_id r \<in> S'"
    by auto
  then show "waits (j_id r) (jobs_update f d) \<or> j_id r \<in> S'"
    using assms(1) by cases (fastforce simp: blocked_except_def)+
qed

lemma be_jobs_update:
  "blocked_except S d \<Longrightarrow> (\<And>r. j_id (f r) = j_id r) \<Longrightarrow> (\<And>r. j_status (f r) \<noteq> Blocked)
    \<Longrightarrow> blocked_except S (jobs_update (t_update P f) d)"
  by (erule be_jobs) (auto simp: t_update_def split: if_splits)

lemma be_jobs_delete: "blocked_except S d \<Longrightarrow> blocked_except S (jobs_update (t_delete P) d)"
  by (erule be_jobs) (auto simp: t_delete_def)

lemma be_jobs_insert:
  "blocked_except S d \<Longrightarrow> j_status r \<noteq> Blocked \<Longrightarrow> blocked_except S (jobs_update (\<lambda>t. t @ [r]) d)"
  by (erule be_jobs) auto

lemma be_jobs_upsert:
  "blocked_except S d \<Longrightarrow> j_status r \<noteq> Blocked \<Longrightarrow> (\<And>x. j_id (f x) = j_id x)
    \<Longrightarrow> (\<And>x. j_status (f x) \<noteq> Blocked) \<Longrightarrow> blocked_except S (jobs_update (t_upsert j_id r f) d)"
  by (erule be_jobs) (auto simp: t_upsert_def t_update_def split: if_splits)

lemma be_jobs_upsert_except:
  "blocked_except S d \<Longrightarrow> (\<And>x. j_id (f x) = j_id x) \<Longrightarrow> j_id r = c
    \<Longrightarrow> blocked_except (insert c S) (jobs_update (t_upsert j_id r f) d)"
  by (erule be_jobs) (auto simp: t_upsert_def t_update_def split: if_splits)

lemma be_frame:
  "jobs d' = jobs d \<Longrightarrow> job_dependencies d' = job_dependencies d \<Longrightarrow> blocked_except S d
    \<Longrightarrow> blocked_except S d'"
  by (simp add: blocked_except_def waits_def)

lemma waits_dep_insert:
  "waits j (job_dependencies_update (t_insert_ignore (\<lambda>q. q) (c, p)) d) \<longleftrightarrow> waits j d \<or> j = c"
  by (force simp: waits_def t_insert_ignore_def has_key_def)

lemma be_dep_insert:
  "blocked_except S d \<Longrightarrow>
     blocked_except (S - {c}) (job_dependencies_update (t_insert_ignore (\<lambda>q. q) (c, p)) d)"
  by (auto simp: blocked_except_def waits_dep_insert)

lemma be_dep_delete_parent:
  "blocked_except S d \<Longrightarrow>
     blocked_except (S \<union> {c. (c, p) \<in> set (job_dependencies d)})
       (job_dependencies_update (t_delete (\<lambda>(c, q). q = p)) d)"
  by (fastforce simp: blocked_except_def waits_def t_delete_def)

lemmas be_rules = be_jobs_update be_jobs_delete be_jobs_insert be_jobs_upsert

lemma keeps_triple: "keeps I m \<Longrightarrow> triple I m (\<lambda>_. I) (\<lambda>_ _. True)"
  unfolding keeps_def by (erule triple_weaken) auto

lemma keeps_then_triple:
  "keeps I m \<Longrightarrow> triple I n Q (\<lambda>_ _. True) \<Longrightarrow> triple I (thenS m n) Q (\<lambda>_ _. True)"
  by (rule triple_then[OF keeps_triple])

subsection \<open>Inserting a workflow\<close>

lemma be_acquireUniqueLock: "keeps (blocked_except S) (Sqlite_acquireUniqueLock now env)"
  unfolding sqlite_lock_defs by (intro keeps_rules) (auto elim: be_frame[rotated 2])

lemma be_deleteUniqueLock: "keeps (blocked_except S) (Sqlite_deleteUniqueLock q k)"
  unfolding sqlite_lock_defs by (intro keeps_rules) (auto elim: be_frame[rotated 2])

lemma be_insert_deps:
  "triple (blocked_except {c}) (forS (\<lambda>p. exec (job_dependencies_update (t_insert_ignore (\<lambda>q. q) (c, p)))) (p # ps))
     (\<lambda>_. blocked_ok) (\<lambda>_ _. True)"
proof -
  have first: "triple (blocked_except {c}) (exec (job_dependencies_update (t_insert_ignore (\<lambda>q. q) (c, p))))
      (\<lambda>_. blocked_ok) (\<lambda>_ _. True)" for p
    by (rule triple_exec) (use be_dep_insert[of "{c}" _ c] in auto)
  have rest: "keeps blocked_ok (forS (\<lambda>p. exec (job_dependencies_update (t_insert_ignore (\<lambda>q. q) (c, p)))) ps)"
    by (intro keeps_for keeps_exec) (use be_dep_insert[of "{}" _ c] in auto)
  show ?thesis
    unfolding forS.simps by (rule triple_then[OF first keeps_triple[OF rest]])
qed

lemma be_insertWorkflowJob:
  "triple blocked_ok (Sqlite_insertWorkflowJob now job) (\<lambda>_. blocked_ok) (\<lambda>_ _. True)"
proof (cases "Dependencies job")
  case Nil
  then have "keeps blocked_ok (Sqlite_insertWorkflowJob now job)"
    unfolding Sqlite_insertWorkflowJob_def Sqlite_execInsertJob_def Sqlite_insertJobDependencies_def Let_def
    by (auto intro!: keeps_rules be_acquireUniqueLock be_jobs_upsert simp: default_job_row_def)
  then show ?thesis by (rule keeps_triple)
next
  case (Cons p ps)
  have ins: "triple blocked_ok (Sqlite_execInsertJob now job Blocked)
      (\<lambda>_. blocked_except {JobID job}) (\<lambda>_ _. True)"
    unfolding Sqlite_execInsertJob_def Let_def
    by (rule triple_exec) (auto intro!: be_jobs_upsert_except simp: default_job_row_def)
  show ?thesis
    unfolding Sqlite_insertWorkflowJob_def Let_def Cons Sqlite_insertJobDependencies_def
    by (simp del: forS.simps, intro triple_then[OF keeps_triple[OF be_acquireUniqueLock]] triple_then[OF ins] be_insert_deps)
qed

lemma be_EnqueueWorkflow: "keeps blocked_ok (Sqlite_EnqueueWorkflow now js)"
  unfolding Sqlite_EnqueueWorkflow_def Sqlite_insertWorkflowJobs_def
  by (intro keeps_if keeps_ret keeps_tx_triple triple_for be_insertWorkflowJob) auto

subsection \<open>Resolving and cascading\<close>

lemma be_unblock_step:
  "triple (blocked_except (insert c S))
     (bindS (query (\<lambda>d. length (filter (\<lambda>(x, p). x = c) (job_dependencies d)))) (\<lambda>count.
        if count = 0
        then exec (jobs_update (t_update (\<lambda>r. j_id r = c)
               (\<lambda>r. r\<lparr>j_status := Pending, j_updated_at := cur_ts now\<rparr>)))
        else ret ()))
     (\<lambda>_. blocked_except S) (\<lambda>_ _. True)"
proof (rule triple_bind)
  show "triple (blocked_except (insert c S))
      (query (\<lambda>d. length (filter (\<lambda>(x, p). x = c) (job_dependencies d))))
      (\<lambda>count d. blocked_except (insert c S) d \<and> (count \<noteq> 0 \<longrightarrow> waits c d)) (\<lambda>_ _. True)"
    by (rule triple_query) (auto simp: waits_def filter_empty_conv rev_image_eqI)
  show "triple (\<lambda>d. blocked_except (insert c S) d \<and> (count \<noteq> 0 \<longrightarrow> waits c d))
      (if count = 0
        then exec (jobs_update (t_update (\<lambda>r. j_id r = c)
               (\<lambda>r. r\<lparr>j_status := Pending, j_updated_at := cur_ts now\<rparr>)))
        else ret ())
      (\<lambda>_. blocked_except S) (\<lambda>_ _. True)" for count :: nat
  proof (cases "count = 0")
    case True
    then show ?thesis
      by (auto intro!: triple_exec elim!: be_jobs simp: t_update_def split: if_splits)
  next
    case False
    then show ?thesis by (auto intro!: triple_ret simp: blocked_except_def)
  qed
qed

lemma be_checkBlockedChildren:
  "triple (blocked_except (set cs)) (Sqlite_checkBlockedChildren now cs) (\<lambda>_. blocked_ok) (\<lambda>_ _. True)"
  unfolding Sqlite_checkBlockedChildren_def
proof (induction cs)
  case Nil
  show ?case by (auto intro: triple_ret)
next
  case (Cons c cs)
  show ?case
    unfolding forS.simps list.set by (rule triple_then[OF be_unblock_step Cons.IH])
qed

lemma be_resolveDependencies:
  "triple blocked_ok (Sqlite_resolveDependencies now p) (\<lambda>_. blocked_ok) (\<lambda>_ _. True)"
  unfolding Sqlite_resolveDependencies_def Sqlite_queryChildJobIDs_def
proof (rule triple_bind)
  show "triple blocked_ok (query (\<lambda>d. map fst (filter (\<lambda>(c, q). q = p) (job_dependencies d))))
      (\<lambda>cs d. blocked_ok d \<and> set cs = {c. (c, p) \<in> set (job_dependencies d)}) (\<lambda>_ _. True)"
    by (rule triple_query) force+
  show "triple (\<lambda>d. blocked_ok d \<and> set cs = {c. (c, p) \<in> set (job_dependencies d)})
      (thenS (exec (job_dependencies_update (t_delete (\<lambda>(c, q). q = p)))) (Sqlite_checkBlockedChildren now cs))
      (\<lambda>_. blocked_ok) (\<lambda>_ _. True)" for cs
    by (rule triple_then[OF triple_exec be_checkBlockedChildren])
      (use be_dep_delete_parent[of "{}" _ p] in auto)
qed

text \<open>In the cascade a job once marked dead stays unblocked while its children are failed, so
  that its dependency rows can go.\<close>

definition unblocked :: "string set \<Rightarrow> db \<Rightarrow> bool" where
  "unblocked S d \<longleftrightarrow> blocked_ok d \<and> (\<forall>r\<in>set (jobs d). j_id r \<in> S \<longrightarrow> j_status r \<noteq> Blocked)"

abbreviation unblocks :: "string set \<Rightarrow> string set \<Rightarrow> unit sql \<Rightarrow> bool" where
  "unblocks S S' m \<equiv> triple (unblocked S) m (\<lambda>_. unblocked S') (\<lambda>_ _. True)"

lemma unblocked_mark:
  "unblocked S d \<Longrightarrow> (\<And>r. j_id (f r) = j_id r) \<Longrightarrow> (\<And>r. j_status (f r) \<noteq> Blocked)
    \<Longrightarrow> unblocked (insert c S) (jobs_update (t_update (\<lambda>r. j_id r = c) f) d)"
  by (auto simp: unblocked_def t_update_def intro!: be_jobs_update)

lemma unblocked_frame:
  "jobs d' = jobs d \<Longrightarrow> job_dependencies d' = job_dependencies d \<Longrightarrow> unblocked S d \<Longrightarrow> unblocked S d'"
  by (auto simp: unblocked_def elim: be_frame[rotated 2])

lemma unblocked_dep_delete:
  "unblocked (insert c S) d \<Longrightarrow> unblocked S (job_dependencies_update (t_delete (\<lambda>(x, p). x = c)) d)"
  by (fastforce simp: unblocked_def blocked_except_def waits_def t_delete_def)

lemma unblocked_deleteUniqueLock: "keeps (unblocked S) (Sqlite_deleteUniqueLock q k)"
  unfolding sqlite_lock_defs by (intro keeps_rules) (auto elim: unblocked_frame[rotated 2])

lemma unblocked_transitionToDead:
  assumes "\<And>j S. unblocks S S (casc j)"
  shows "unblocks S (insert c S) (Sqlite_transitionToDead casc now c e k q b)"
  unfolding Sqlite_transitionToDead_def
proof (intro triple_then)
  show "unblocks S (insert c S) (exec (jobs_update (t_update (\<lambda>r. j_id r = c)
      (\<lambda>r. r\<lparr>j_status := Dead, j_error_message := e, j_attempts := j_attempts r + 1,
             j_locked_at := None, j_updated_at := cur_ts now\<rparr>))))"
    by (rule triple_exec) (auto intro: unblocked_mark)
  show "unblocks (insert c S) (insert c S) (Sqlite_deleteUniqueLock q k)"
    by (rule keeps_triple[OF unblocked_deleteUniqueLock])
  show "unblocks (insert c S) (insert c S) (if b \<noteq> '''' then set_batch_status b BatchFailed else ret ())"
    unfolding set_batch_status_def
    by (intro keeps_triple keeps_rules) (auto elim: unblocked_frame[rotated 2])
qed (rule assms)

lemma triple_tryS_read: "triple P (tryS (query_row g)) (\<lambda>_. P) E"
  by (intro triple_try triple_query_row)

lemma unblocked_failChildren:
  assumes "\<And>j S. unblocks S S (casc j)"
  shows "unblocks S S (Sqlite_failChildren casc now p cs)"
  unfolding Sqlite_failChildren_def Let_def
proof (intro triple_for triple_bind[OF triple_tryS_read] triple_then)
  fix c and row :: "err + string \<times> string \<times> string"
  show "unblocks S (insert c S) (case row of
          Inl e \<Rightarrow> if e \<noteq> ErrNoRows then throw e
                   else Sqlite_transitionToDead casc now c (''Dependency '' @ p @ '' failed'') '''' '''' ''''
        | Inr (k, q, b) \<Rightarrow> Sqlite_transitionToDead casc now c (''Dependency '' @ p @ '' failed'') k q b)"
    by (auto split: sum.splits prod.splits intro!: unblocked_transitionToDead assms triple_throw)
qed (auto intro!: triple_exec unblocked_dep_delete)

lemma unblocked_cascade: "unblocks S S (Sqlite_cascadeDependencyFailure n now j)"
proof (induction n arbitrary: j S)
  case (Suc n)
  show ?case
    unfolding Sqlite_cascadeDependencyFailure.simps Sqlite_queryChildJobIDs_def
    by (rule triple_bind[OF triple_query unblocked_failChildren[OF Suc.IH]]) auto
qed (simp add: triple_crash)

lemma unblocked_empty: "unblocked {} = blocked_ok"
  by (simp add: unblocked_def fun_eq_iff)

lemma be_cascade:
  "triple blocked_ok (Sqlite_cascadeDependencyFailure n now j) (\<lambda>_. blocked_ok) (\<lambda>_ _. True)"
  using unblocked_cascade[of "{}"] by (simp add: unblocked_empty)

lemma be_transitionToDead:
  "triple blocked_ok (Sqlite_transitionToDead (Sqlite_cascadeDependencyFailure n now) now c e k q b)
     (\<lambda>_. blocked_ok) (\<lambda>_ _. True)"
  using unblocked_transitionToDead[OF unblocked_cascade, where c = c and S = "{}"]
  by (rule triple_weaken) (auto simp: unblocked_def)

subsection \<open>Every call\<close>

lemma be_batch:
  "keeps blocked_ok (Sqlite_CreateBatch now b cb ex)" "keeps blocked_ok (Sqlite_EnqueueInBatch now b env)"
  "keeps blocked_ok (Sqlite_SubmitBatch now rnd b)" "keeps blocked_ok (Sqlite_handleBatchAck now rnd b)"
  unfolding batch_defs
  by (intro keeps_rules be_acquireUniqueLock;
      auto intro!: be_jobs_insert simp: default_job_row_def elim: be_frame[rotated 2])+

lemma be_Ack: "keeps blocked_ok (Sqlite_Ack now rnd j)"
proof -
  have "triple blocked_ok (Sqlite_performAck now rnd j q k b) (\<lambda>_. blocked_ok) (\<lambda>_ _. True)" for q k b
    unfolding Sqlite_performAck_def
  proof (rule keeps_then_triple[OF _ keeps_then_triple[OF be_deleteUniqueLock
        triple_then[OF be_resolveDependencies]]])
    show "triple blocked_ok (if b \<noteq> '''' then Sqlite_handleBatchAck now rnd b else ret ())
        (\<lambda>_. blocked_ok) (\<lambda>_ _. True)"
      by (intro keeps_triple keeps_if keeps_ret be_batch)
  qed (auto intro!: keeps_exec be_rules)
  then show ?thesis
    unfolding Sqlite_Ack_def by (intro keeps_rules keeps_tx_triple)
qed

lemma be_Fail: "keeps blocked_ok (Sqlite_Fail stack now j e)"
proof -
  have "triple blocked_ok (Sqlite_performFail stack now j e a m k q b) (\<lambda>_. blocked_ok) (\<lambda>_ _. True)" for a m k q b
    unfolding Sqlite_performFail_def Let_def
    by (auto intro!: triple_exec be_rules be_transitionToDead)
  then show ?thesis
    unfolding Sqlite_Fail_def Sqlite_beginAndPerformFail_def
    by (intro keeps_bind keeps_query_row keeps_case_prod keeps_let keeps_tx_triple)
qed

lemma be_Cancel: "keeps blocked_ok (Sqlite_Cancel stack now j)"
proof -
  have "triple blocked_ok (thenS (exec (jobs_update (t_delete (\<lambda>r. j_id r = j))))
       (thenS (Sqlite_deleteUniqueLock q k) (Sqlite_cascadeDependencyFailure stack now j)))
       (\<lambda>_. blocked_ok) (\<lambda>_ _. True)" for q k
    by (intro keeps_then_triple be_cascade be_deleteUniqueLock) (auto intro!: keeps_exec be_rules)
  then show ?thesis
    unfolding Sqlite_Cancel_def
    by (intro keeps_bind keeps_try keeps_query_row keeps_let keeps_case_prod keeps_tx_triple)
qed

lemmas be_simple_defs =
  Sqlite_Enqueue_def Sqlite_insertJob_def Sqlite_Dequeue_def Sqlite_dequeueTx_def
  Sqlite_AcquireLeader_def Sqlite_tryAcquire_def Sqlite_ReleaseLeader_def Sqlite_ArchiveJobs_def
  Sqlite_ClearQueue_def Sqlite_Retry_def Sqlite_RetryAllFailed_def
  Sqlite_PurgeAllFailed_def Sqlite_PurgeExpiredDLQ_def Sqlite_FailExpiredBatches_def
  Sqlite_PostponeJob_def Sqlite_BulkRetry_def Sqlite_BulkPurge_def Sqlite_RetryModified_def
  Sqlite_BulkCancel_def Sqlite_cancelOneJob_def
  Sqlite_GetActiveProcesses_def Sqlite_markLeader_def Sqlite_GetStats_def Sqlite_fetchQueueStats_def
  Sqlite_applyPausedQueues_def Sqlite_fetchRecentJobs_def Sqlite_fetchCronJobs_def
  Sqlite_loadStaticCrons_def Sqlite_loadDynamicCrons_def Sqlite_loadActiveProcesses_def
  Sqlite_RegisterProcess_def Sqlite_HeartbeatProcess_def Sqlite_PauseQueue_def
  Sqlite_ResumeQueue_def Sqlite_RegisterCronJobs_def Sqlite_insertCronJobsTx_def
  Sqlite_SaveCronSchedule_def Sqlite_DeleteCronSchedule_def Sqlite_LockCronExecution_def
  Sqlite_CheckRateLimit_def Sqlite_evaluateRateLimit_def Let_def

lemma be_simple:
  "keeps blocked_ok (Sqlite_Enqueue now env)" "keeps blocked_ok (Sqlite_Dequeue now q ws)"
  "keeps blocked_ok (Sqlite_AcquireLeader now c ttl)" "keeps blocked_ok (Sqlite_ReleaseLeader c)"
  "keeps blocked_ok (Sqlite_ArchiveJobs now age)"
  "keeps blocked_ok (Sqlite_ClearQueue q)" "keeps blocked_ok (Sqlite_Retry now j)"
  "keeps blocked_ok (Sqlite_RetryAllFailed now)" "keeps blocked_ok Sqlite_PurgeAllFailed"
  "keeps blocked_ok (Sqlite_PurgeExpiredDLQ now ttl)" "keeps blocked_ok (Sqlite_FailExpiredBatches now)"
  "keeps blocked_ok (Sqlite_PostponeJob now j q delay)" "keeps blocked_ok (Sqlite_BulkRetry now js)"
  "keeps blocked_ok (Sqlite_BulkPurge js)" "keeps blocked_ok (Sqlite_RetryModified now j args)"
  "keeps blocked_ok (Sqlite_BulkCancel js)"
  "keeps blocked_ok (Sqlite_GetActiveProcesses now)" "keeps blocked_ok (Sqlite_GetStats now)"
  "keeps blocked_ok (Sqlite_RegisterProcess info)" "keeps blocked_ok (Sqlite_HeartbeatProcess now p)"
  "keeps blocked_ok (Sqlite_PauseQueue q)" "keeps blocked_ok (Sqlite_ResumeQueue q)"
  "keeps blocked_ok (Sqlite_RegisterCronJobs now cs)" "keeps blocked_ok (Sqlite_SaveCronSchedule now cr)"
  "keeps blocked_ok (Sqlite_DeleteCronSchedule nm)" "keeps blocked_ok (Sqlite_LockCronExecution now nm t)"
  "keeps blocked_ok (Sqlite_CheckRateLimit now nm l per)"
  unfolding be_simple_defs
  by (intro keeps_rules be_acquireUniqueLock be_deleteUniqueLock;
      auto intro!: be_rules simp: default_job_row_def reset_row_def elim: be_frame[rotated 2])+

lemma be_run_call: "keeps blocked_ok (run_call c)"
  by (cases c) (simp_all add: be_simple be_batch be_Ack be_Fail be_Cancel be_EnqueueWorkflow keeps_reads keeps_void)

lemma reachable_blocked: "reachable d \<Longrightarrow> blocked_ok d"
  by (rule reachable_invariant[OF _ _ be_run_call]) (auto simp: blocked_except_def empty_db_def)

section \<open>Calls that fail\<close>

text \<open>The calls whose error means that nothing at all was changed. The others keep what they
  changed before the failing statement: an acquired lock, expired rows that were deleted.\<close>

definition all_or_nothing :: "call \<Rightarrow> bool" where
  "all_or_nothing c = (case c of
     CEnqueue now env \<Rightarrow> False | CGetStats now \<Rightarrow> False | CGetActiveProcesses now \<Rightarrow> False
   | CLockCronExecution now n t \<Rightarrow> False | _ \<Rightarrow> True)"

lemma atomic_run_tx: "atomic (run_tx m)"
  by (auto simp: atomic_def run_tx_def split: list.splits bool.splits option.splits sum.splits if_splits)

lemma atomic_with_tx_if: "atomic (with_tx_if m)"
  by (auto simp: atomic_def with_tx_if_def run_tx_def bindS_def ret_def throw_def
      split: list.splits bool.splits option.splits sum.splits if_splits)

lemma atomic_bind_ret:
  assumes "atomic m"
  shows "atomic (bindS m (\<lambda>x. ret (f x)))"
  unfolding atomic_def
  by (intro allI impI, erule bindS_cases) (simp_all add: ret_def atomicD[OF assms])

lemma atomic_void: "atomic m \<Longrightarrow> atomic (voidS m)"
  unfolding voidS_def by (rule atomic_bind_ret[of m "\<lambda>_. ()"])

lemma atomic_keeps:
  assumes "\<And>d0. keeps (\<lambda>d. d = d0) m"
  shows "atomic m"
  unfolding atomic_def using keepsD[OF assms] by blast

lemma atomic_query_row_then: "(\<And>x. atomic (f x)) \<Longrightarrow> atomic (bindS (query_row g) f)"
  by (rule atomic_read_then[OF readonly_query_row])

lemma atomic_try_query_row_then: "(\<And>x. atomic (f x)) \<Longrightarrow> atomic (bindS (tryS (query_row g)) f)"
  by (rule atomic_read_then[OF readonly_try[OF readonly_query_row]])

lemmas all_or_nothing_defs =
  Sqlite_Dequeue_def Sqlite_Ack_def Sqlite_Fail_def Sqlite_beginAndPerformFail_def
  Sqlite_PostponeJob_def Sqlite_ReleaseLeader_def Sqlite_ArchiveJobs_def
  Sqlite_EnqueueWorkflow_def Sqlite_CreateBatch_def Sqlite_EnqueueInBatch_def Sqlite_SubmitBatch_def
  Sqlite_FailExpiredBatches_def Sqlite_Retry_def Sqlite_Cancel_def Sqlite_ClearQueue_def
  Sqlite_RetryAllFailed_def Sqlite_PurgeAllFailed_def Sqlite_PurgeExpiredDLQ_def Sqlite_BulkRetry_def
  Sqlite_BulkCancel_def Sqlite_BulkPurge_def Sqlite_RetryModified_def Sqlite_RegisterProcess_def
  Sqlite_HeartbeatProcess_def Sqlite_PauseQueue_def Sqlite_ResumeQueue_def Sqlite_RegisterCronJobs_def
  Sqlite_SaveCronSchedule_def Sqlite_DeleteCronSchedule_def Sqlite_CheckRateLimit_def Let_def

lemma atomic_AcquireLeader: "atomic (Sqlite_AcquireLeader now c ttl)"
  unfolding Sqlite_AcquireLeader_def split_def
  by (rule atomic_bind_ret[OF atomic_run_tx, of _ "\<lambda>x. fst x \<and> snd x = None"])

lemma all_or_nothing_atomic: "all_or_nothing c \<Longrightarrow> atomic (run_call c)"
  by (cases c)
    (simp_all add: all_or_nothing_def atomic_AcquireLeader atomic_void atomic_keeps keeps_reads,
      auto simp: all_or_nothing_defs split: sum.splits prod.splits
        intro!: atomic_void atomic_exec atomic_exec_unique atomic_with_tx atomic_with_tx_if atomic_ret atomic_throw
          atomic_query_row_then atomic_try_query_row_then)

lemma frame_acquireUniqueLock:
  "keeps (\<lambda>d. jobs d = J \<and> job_dependencies d = D \<and> batches d = B) (Sqlite_acquireUniqueLock now env)"
  unfolding sqlite_lock_defs by (intro keeps_rules) simp_all

lemma frame_Enqueue_error:
  "triple (\<lambda>d. jobs d = J \<and> job_dependencies d = D \<and> batches d = B) (Sqlite_Enqueue now env)
     (\<lambda>_ _. True) (\<lambda>_ d. jobs d = J \<and> job_dependencies d = D \<and> batches d = B)"
  unfolding Sqlite_Enqueue_def Sqlite_insertJob_def Let_def
  by (rule triple_then[OF frame_acquireUniqueLock[unfolded keeps_def]]) (auto intro!: triple_exec)

lemma frame_reads:
  "keeps (\<lambda>d. jobs d = J \<and> job_dependencies d = D \<and> batches d = B) (Sqlite_GetActiveProcesses now)"
  "keeps (\<lambda>d. jobs d = J \<and> job_dependencies d = D \<and> batches d = B) (Sqlite_GetStats now)"
  "keeps (\<lambda>d. jobs d = J \<and> job_dependencies d = D \<and> batches d = B) (Sqlite_LockCronExecution now nm t)"
  unfolding be_simple_defs by (intro keeps_rules; simp)+

section \<open>Properties\<close>


definition demo_parent :: JobEnvelope where
  "demo_parent = zero_envelope\<lparr>JobID := ''p'', Queue := ''q'', Name := ''A''\<rparr>"

definition demo_child :: JobEnvelope where
  "demo_child = zero_envelope\<lparr>JobID := ''c'', Queue := ''q'', Name := ''B'', Dependencies := [''p'']\<rparr>"

definition demo_db :: db where
  "demo_db = empty_db\<lparr>
     jobs := [(default_job_row 0 ''p'' ''q'' ''A'' [])\<lparr>j_run_at := Some 0\<rparr>,
              (default_job_row 0 ''c'' ''q'' ''B'' [])\<lparr>j_run_at := Some 0, j_status := Blocked\<rparr>],
     job_dependencies := [(''c'', ''p'')]\<rparr>"

lemma demo_run:
  "run_call (CEnqueueWorkflow 0 [demo_parent, demo_child]) (empty_db, []) = Some (Inr (), (demo_db, []))"
  by code_simp

lemma demo_reachable: "reachable demo_db"
  using reachable_run[OF reachable.start demo_run] .


text \<open>C15: in every reachable database a blocked job still has a dependency row, so that the
  acknowledgement or the failure of the parent it names would reach it; no call and no failure
  removes the last dependency row of a job that it leaves blocked.\<close>

theorem sqlite_blocked_waits:
  assumes "reachable d" "r \<in> set (jobs d)" "j_status r = Blocked"
  shows "\<exists>p. (j_id r, p) \<in> set (job_dependencies d)"
  using reachable_blocked[OF assms(1)] assms(2,3) by (fastforce simp: blocked_except_def waits_def)

theorem sqlite_blocked_waits_witness:
  "\<exists>p. (''c'', p) \<in> set (job_dependencies demo_db)"
  using sqlite_blocked_waits[OF demo_reachable,
      of "(default_job_row 0 ''c'' ''q'' ''B'' [])\<lparr>j_run_at := Some 0, j_status := Blocked\<rparr>"]
  by (simp add: demo_db_def default_job_row_def)

text \<open>C5: a call that returns an error has not changed any job, dependency or batch, at
  whichever statement, \<open>BeginTx\<close> or \<open>Commit\<close> it failed; and apart from \<open>Enqueue\<close> (which may
  keep a lock) and three calls that first delete expired rows, it has changed nothing.\<close>

theorem sqlite_failed_call_leaves_no_trace:
  assumes "run_call c (d, fs) = Some (Inl e, (d', fs'))"
  shows "jobs d' = jobs d \<and> job_dependencies d' = job_dependencies d \<and> batches d' = batches d
    \<and> (all_or_nothing c \<longrightarrow> d' = d)"
proof (cases "all_or_nothing c")
  case True
  then show ?thesis using atomicD[OF all_or_nothing_atomic assms] by simp
next
  case False
  then have "triple (\<lambda>x. jobs x = jobs d \<and> job_dependencies x = job_dependencies d \<and> batches x = batches d)
      (run_call c) (\<lambda>_ _. True)
      (\<lambda>_ x. jobs x = jobs d \<and> job_dependencies x = job_dependencies d \<and> batches x = batches d)"
    by (cases c) (auto simp: all_or_nothing_def frame_Enqueue_error
        intro!: triple_weaken[OF keeps_void[OF frame_reads(1), unfolded keeps_def]]
          triple_weaken[OF keeps_void[OF frame_reads(2), unfolded keeps_def]]
          triple_weaken[OF keeps_void[OF frame_reads(3), unfolded keeps_def]])
  from tripleD_err[OF this assms] False show ?thesis by simp
qed

theorem sqlite_failed_call_leaves_no_trace_witness:
  "\<exists>d'. run_call (CEnqueueWorkflow 0 [demo_parent, demo_child]) (empty_db, [False, False, False, False, True])
     = Some (Inl ErrEngine, (d', [])) \<and> d' = empty_db"
proof -
  have r: "run_call (CEnqueueWorkflow 0 [demo_parent, demo_child])
      (empty_db, [False, False, False, False, True]) = Some (Inl ErrEngine, (empty_db, []))"
    by code_simp
  with sqlite_failed_call_leaves_no_trace[OF r] show ?thesis by (simp add: all_or_nothing_def)
qed

end
