(* ===== verification/SqliteViews.thy ===== *)
theory SqliteViews
  imports SqliteInv
begin

text \<open>
  The read side of the SQLite backend: the counts that \<open>GetStats\<close> reports, the pages that
  \<open>GetJobs\<close> returns, and the worker processes as other workers see them.
\<close>

section \<open>Statistics\<close>

abbreviation rows_with :: "job_status \<Rightarrow> (string \<times> job_status \<times> int) list \<Rightarrow> int" where
  "rows_with st rows \<equiv> sum_list (map (\<lambda>(q, s, c). if s = st then c else 0) rows)"

abbreviation queue_rows_with :: "string \<Rightarrow> job_status \<Rightarrow> (string \<times> job_status \<times> int) list \<Rightarrow> int" where
  "queue_rows_with n st rows \<equiv> sum_list (map (\<lambda>(q, s, c). if q = n \<and> s = st then c else 0) rows)"

lemma get_update_stats:
  "Sqlite_getOrCreateQueueStats (update_queue_stats f q m) n
     = (if n = q then f (Sqlite_getOrCreateQueueStats m q) else Sqlite_getOrCreateQueueStats m n)"
  by (auto simp: Sqlite_getOrCreateQueueStats_def update_queue_stats_def update_conv')

lemma accumulate_totals:
  "st_Pending (fst (foldl Sqlite_accumulateStats acc rows)) = st_Pending (fst acc) + rows_with Pending rows"
  "st_Running (fst (foldl Sqlite_accumulateStats acc rows)) = st_Running (fst acc) + rows_with Running rows"
  "st_Processed (fst (foldl Sqlite_accumulateStats acc rows)) = st_Processed (fst acc) + rows_with Processed rows"
  "st_Failed (fst (foldl Sqlite_accumulateStats acc rows))
     = st_Failed (fst acc) + rows_with Failed rows + rows_with Dead rows"
  by (induction rows arbitrary: acc;
      auto simp: Sqlite_accumulateStats_def Let_def split: job_status.splits prod.splits)+

lemma accumulate_queue:
  "qs_Pending (Sqlite_getOrCreateQueueStats (snd (foldl Sqlite_accumulateStats acc rows)) n)
     = qs_Pending (Sqlite_getOrCreateQueueStats (snd acc) n) + queue_rows_with n Pending rows"
  by (induction rows arbitrary: acc)
    (auto simp: Sqlite_accumulateStats_def Let_def get_update_stats split: job_status.splits prod.splits)

lemma sum_group:
  "sum_list (map (\<lambda>k. if P k then int (length (filter (\<lambda>r. f r = k) t)) else 0) (remdups (map f t)))
     = int (length (filter (\<lambda>r. P (f r)) t))"
proof -
  have len: "length (filter (\<lambda>r. f r = k) t) = count_list (map f t) k" for k
    by (induction t) auto
  have "sum_list (map (\<lambda>k. if P k then int (length (filter (\<lambda>r. f r = k) t)) else 0) (remdups (map f t)))
      = (\<Sum>k\<in>set (map f t). int (count_list (map f t) k) * (if P k then 1 else 0))"
    by (simp add: sum_list_distinct_conv_sum_set len if_distrib cong: if_cong)
  also have "\<dots> = int (\<Sum>k\<in>set (map f t). count_list (map f t) k * (if P k then 1 else 0))"
    by (simp add: if_distrib cong: if_cong)
  also have "\<dots> = int (sum_list (map (\<lambda>k. if P k then 1 else 0) (map f t)))"
    by (subst sum_list_map_eq_sum_count) simp
  also have "\<dots> = int (length (filter (\<lambda>r. P (f r)) t))"
    by (induction t) auto
  finally show ?thesis .
qed

lemma group_rows:
  "rows_with st (group_counts t) = int (length (filter (\<lambda>r. j_status r = st) t))"
proof -
  have "rows_with st (group_counts t)
      = sum_list (map (\<lambda>k. if snd k = st then int (length (filter (\<lambda>r. (j_queue r, j_status r) = k) t)) else 0)
          (remdups (map (\<lambda>r. (j_queue r, j_status r)) t)))"
    unfolding group_counts_def map_map
    by (rule arg_cong[where f = sum_list], rule map_cong) (auto simp: prod_eq_iff)
  then show ?thesis by (simp only: sum_group[of "\<lambda>k. snd k = st"]) simp
qed

lemma group_queue_rows:
  "queue_rows_with n st (group_counts t) = int (length (filter (\<lambda>r. j_queue r = n \<and> j_status r = st) t))"
proof -
  have "queue_rows_with n st (group_counts t)
      = sum_list (map (\<lambda>k. if k = (n, st) then int (length (filter (\<lambda>r. (j_queue r, j_status r) = k) t)) else 0)
          (remdups (map (\<lambda>r. (j_queue r, j_status r)) t)))"
    unfolding group_counts_def map_map
    by (rule arg_cong[where f = sum_list], rule map_cong) (auto simp: prod_eq_iff)
  then show ?thesis by (simp only: sum_group[of "\<lambda>k. k = (n, st)"]) simp
qed

lemma paused_keeps_pending:
  "qs_Pending (Sqlite_getOrCreateQueueStats (fold (update_queue_stats (\<lambda>q. q\<lparr>qs_Paused := True\<rparr>)) qs m) n)
     = qs_Pending (Sqlite_getOrCreateQueueStats m n)"
  by (induction qs arbitrary: m) (simp_all add: get_update_stats)

definition stats_run_map :: "db \<Rightarrow> queue_map" where
  "stats_run_map d = fold (update_queue_stats (\<lambda>q. q\<lparr>qs_Paused := True\<rparr>)) (paused_queues d)
     (snd (Sqlite_scanQueueStatsRows (group_counts (jobs d)) zero_Stats))"

lemma named_update:
  "list_all (\<lambda>(k, q). qs_Name q = k) m \<Longrightarrow> qs_Name x = n
    \<Longrightarrow> list_all (\<lambda>(k, q). qs_Name q = k) (AList.update n x m)"
  by (induction m) auto

abbreviation named_map :: "queue_map \<Rightarrow> bool" where
  "named_map m \<equiv> list_all (\<lambda>(k, q). qs_Name q = k) m \<and> distinct (map fst m)"

lemma update_keeps_names:
  assumes "named_map m" "\<And>q. qs_Name (f q) = qs_Name q"
  shows "named_map (update_queue_stats f n m)"
proof -
  have "qs_Name (f (Sqlite_getOrCreateQueueStats m n)) = n"
    using assms by (auto simp: Sqlite_getOrCreateQueueStats_def zero_QueueStats_def list_all_iff
        split: option.splits dest: map_of_SomeD)
  with assms(1) show ?thesis
    by (simp add: update_queue_stats_def named_update distinct_update)
qed

lemma accumulate_updates:
  "\<exists>g. (\<forall>q. qs_Name (g q) = qs_Name q) \<and> snd (Sqlite_accumulateStats acc r) = update_queue_stats g (fst r) (snd acc)"
  by (cases acc, cases r, cases "fst (snd r)")
    (simp_all add: Sqlite_accumulateStats_def Let_def, (rule exI, rule conjI[rotated], rule refl, simp)+)

lemma named_accumulate: "named_map (snd acc) \<Longrightarrow> named_map (snd (foldl Sqlite_accumulateStats acc rows))"
proof (induction rows arbitrary: acc)
  case (Cons r rows)
  from accumulate_updates[of acc r] obtain g where "\<And>q. qs_Name (g q) = qs_Name q"
    "snd (Sqlite_accumulateStats acc r) = update_queue_stats g (fst r) (snd acc)" by blast
  with update_keeps_names[OF Cons.prems, of g "fst r"] have "named_map (snd (Sqlite_accumulateStats acc r))" by simp
  from Cons.IH[OF this] show ?case by simp
qed simp

lemma named_paused: "named_map m \<Longrightarrow> named_map (fold (update_queue_stats (\<lambda>q. q\<lparr>qs_Paused := True\<rparr>)) qs m)"
  by (induction qs arbitrary: m) (simp_all add: update_keeps_names)

lemma named_stats: "named_map (stats_run_map d)"
  unfolding stats_run_map_def Sqlite_scanQueueStatsRows_def
  by (intro named_paused named_accumulate) simp

lemma stats_queue_pending:
  "qs_Pending (Sqlite_getOrCreateQueueStats (stats_run_map d) n)
     = int (length (filter (\<lambda>r. j_queue r = n \<and> j_status r = Pending) (jobs d)))"
proof -
  have "qs_Pending (Sqlite_getOrCreateQueueStats [] n) = 0"
    by (simp add: Sqlite_getOrCreateQueueStats_def zero_QueueStats_def)
  then show ?thesis
    by (simp add: stats_run_map_def paused_keeps_pending Sqlite_scanQueueStatsRows_def accumulate_queue
        group_queue_rows)
qed

lemma named_member:
  assumes "named_map m" "qs \<in> set (map snd m)"
  shows "Sqlite_getOrCreateQueueStats m (qs_Name qs) = qs"
proof -
  from assms have "(qs_Name qs, qs) \<in> set m" by (auto simp: list_all_iff)
  with assms(1) show ?thesis by (simp add: Sqlite_getOrCreateQueueStats_def map_of_is_SomeI)
qed

lemma GetActiveProcesses_returns:
  "\<exists>r d'. Sqlite_GetActiveProcesses now (d, []) = Some (r, (d', []))"
  by (auto simp: Sqlite_GetActiveProcesses_def Sqlite_markLeader_def run_simps Let_def split: option.splits)

lemma GetStats_run:
  "\<exists>st d'. Sqlite_GetStats now (d, []) = Some (Inr st, (d', []))
     \<and> st_Queues st = map snd (stats_run_map d)
     \<and> st_Pending st = int (length (filter (\<lambda>r. j_status r = Pending) (jobs d)))
     \<and> st_Running st = int (length (filter (\<lambda>r. j_status r = Running) (jobs d)))
     \<and> st_Processed st = int (length (filter (\<lambda>r. j_status r = Processed) (jobs d)))
     \<and> st_Failed st = int (length (filter (\<lambda>r. j_status r = Failed) (jobs d)))
          + int (length (filter (\<lambda>r. j_status r = Dead) (jobs d)))"
proof -
  obtain stats m where sm: "Sqlite_scanQueueStatsRows (group_counts (jobs d)) zero_Stats = (stats, m)" by fastforce
  have tot: "st_Pending stats = int (length (filter (\<lambda>r. j_status r = Pending) (jobs d)))"
    "st_Running stats = int (length (filter (\<lambda>r. j_status r = Running) (jobs d)))"
    "st_Processed stats = int (length (filter (\<lambda>r. j_status r = Processed) (jobs d)))"
    "st_Failed stats = int (length (filter (\<lambda>r. j_status r = Failed) (jobs d)))
        + int (length (filter (\<lambda>r. j_status r = Dead) (jobs d)))"
    using accumulate_totals[where rows = "group_counts (jobs d)" and acc = "(zero_Stats, [])"] sm
    by (simp_all add: Sqlite_scanQueueStatsRows_def group_rows zero_Stats_def)
  obtain r d' where ap: "Sqlite_GetActiveProcesses now (d, []) = Some (r, (d', []))"
    using GetActiveProcesses_returns by blast
  show ?thesis
    using tot sm ap
    by (cases r) (simp_all add: Sqlite_GetStats_def Sqlite_fetchQueueStats_def Sqlite_applyPausedQueues_def
        Sqlite_fetchRecentJobs_def Sqlite_fetchCronJobs_def Sqlite_loadStaticCrons_def
        Sqlite_loadDynamicCrons_def Sqlite_loadActiveProcesses_def run_simps stats_run_map_def)
qed

section \<open>Pages\<close>

definition matching :: "string \<Rightarrow> string \<Rightarrow> db \<Rightarrow> job_row list" where
  "matching q status d = newest_first (filter (Sqlite_buildSearchQuery q status) (jobs d))"

lemma sint_product:
  assumes "0 \<le> a" "0 \<le> b" "a * b < 2 ^ 63"
  shows "sint ((word_of_int a :: 64 word) * word_of_int b) = a * b"
proof -
  have "(word_of_int a :: 64 word) * word_of_int b = word_of_int (a * b)" by simp
  moreover have "sint (word_of_int (a * b) :: 64 word) = a * b"
    using assms by (subst sint_sbintrunc') (rule signed_take_bit_int_eq_self, auto intro: order.trans[of _ 0])
  ultimately show ?thesis by simp
qed

lemma GetJobs_run:
  assumes "1 \<le> page" "1 \<le> limit" "limit \<le> 100" "page * limit < 2 ^ 63"
  shows "Sqlite_GetJobs q status page limit (d, []) = Some (Inr
    (map job_detail (take (nat limit) (drop (nat ((page - 1) * limit)) (matching q status d))),
     int (length (matching q status d))), (d, []))"
proof -
  have "(page - 1) * limit < 2 ^ 63"
    by (rule le_less_trans[OF _ assms(4)]) (use assms(2) in \<open>simp add: mult_right_mono\<close>)
  with assms(1,2) have "sint ((word_of_int (page - 1) :: 64 word) * word_of_int limit) = (page - 1) * limit"
    by (intro sint_product) auto
  with assms show ?thesis
    by (simp add: Sqlite_GetJobs_def Sqlite_sanitizePageLimit_def Let_def run_simps matching_def newest_first_def)
qed

lemma pages_concat:
  "concat (map (\<lambda>i. take n (drop (i * n) xs)) [0..<k]) = take (k * n) xs"
proof (induction k)
  case (Suc k)
  then show ?case by (simp add: take_add[symmetric] add.commute)
qed simp

lemma stats_queue_names:
  "qs_Name ` set (map snd (stats_run_map d)) = set (map j_queue (jobs d)) \<union> set (paused_queues d)"
proof -
  have upd: "fst ` set (update_queue_stats f q m) = insert q (fst ` set m)" for f q m
    by (simp add: update_queue_stats_def dom_update)
  have acc: "fst ` set (snd (foldl Sqlite_accumulateStats a rows)) = fst ` set rows \<union> fst ` set (snd a)" for a rows
  proof (induction rows arbitrary: a)
    case (Cons r rows)
    obtain g where "snd (Sqlite_accumulateStats a r) = update_queue_stats g (fst r) (snd a)"
      using accumulate_updates by blast
    with Cons show ?case by (auto simp: upd)
  qed simp
  have paused: "fst ` set (fold (update_queue_stats f) qs m) = set qs \<union> fst ` set m" for f qs m
    by (induction qs arbitrary: m) (auto simp: upd)
  have "fst ` set (group_counts t) = set (map j_queue t)" for t
    by (force simp: group_counts_def)
  then have "fst ` set (stats_run_map d) = set (map j_queue (jobs d)) \<union> set (paused_queues d)"
    by (auto simp: stats_run_map_def Sqlite_scanQueueStatsRows_def acc paused)
  moreover have "qs_Name ` set (map snd (stats_run_map d)) = fst ` set (stats_run_map d)"
    using named_stats[of d] by (force simp: list_all_iff image_iff)
  ultimately show ?thesis by simp
qed

text \<open>\<open>GetStats\<close> of the SQLite backend always returns, and its numbers are exact: the totals
  count the jobs rows by status (failed and dead ones together), there is exactly one entry for
  every queue that holds a job or is paused, and each entry's pending count is the number of
  pending jobs of that queue.\<close>

theorem stats_count_jobs:
  "\<exists>st d'. Sqlite_GetStats now (d, []) = Some (Inr st, (d', []))
     \<and> st_Pending st = int (length (filter (\<lambda>r. j_status r = Pending) (jobs d)))
     \<and> st_Running st = int (length (filter (\<lambda>r. j_status r = Running) (jobs d)))
     \<and> st_Processed st = int (length (filter (\<lambda>r. j_status r = Processed) (jobs d)))
     \<and> st_Failed st = int (length (filter (\<lambda>r. j_status r = Failed) (jobs d)))
          + int (length (filter (\<lambda>r. j_status r = Dead) (jobs d)))
     \<and> distinct (map qs_Name (st_Queues st))
     \<and> qs_Name ` set (st_Queues st) = set (map j_queue (jobs d)) \<union> set (paused_queues d)
     \<and> list_all (\<lambda>qs. qs_Pending qs =
          int (length (filter (\<lambda>r. j_queue r = qs_Name qs \<and> j_status r = Pending) (jobs d)))) (st_Queues st)"
proof -
  have "map qs_Name (map snd (stats_run_map d)) = map fst (stats_run_map d)"
    using named_stats[of d] by (auto simp: list_all_iff)
  then have "distinct (map qs_Name (map snd (stats_run_map d)))"
    using named_stats[of d] by (simp only:)
  moreover have "list_all (\<lambda>qs. qs_Pending qs =
      int (length (filter (\<lambda>r. j_queue r = qs_Name qs \<and> j_status r = Pending) (jobs d)))) (map snd (stats_run_map d))"
    unfolding list_all_iff
  proof
    fix qs assume "qs \<in> set (map snd (stats_run_map d))"
    from named_member[OF named_stats this] stats_queue_pending[of d "qs_Name qs"]
    show "qs_Pending qs = int (length (filter (\<lambda>r. j_queue r = qs_Name qs \<and> j_status r = Pending) (jobs d)))"
      by simp
  qed
  moreover obtain st d' where "Sqlite_GetStats now (d, []) = Some (Inr st, (d', []))"
    and "st_Queues st = map snd (stats_run_map d)"
    and "st_Pending st = int (length (filter (\<lambda>r. j_status r = Pending) (jobs d)))"
    and "st_Running st = int (length (filter (\<lambda>r. j_status r = Running) (jobs d)))"
    and "st_Processed st = int (length (filter (\<lambda>r. j_status r = Processed) (jobs d)))"
    and "st_Failed st = int (length (filter (\<lambda>r. j_status r = Failed) (jobs d)))
          + int (length (filter (\<lambda>r. j_status r = Dead) (jobs d)))"
    using GetStats_run[of now d] by blast
  ultimately show ?thesis
    using stats_queue_names[of d] by (intro exI[of _ st] exI[of _ d'] conjI) (simp_all only:)
qed

text \<open>C40: the pages that \<open>GetJobs\<close> returns for a search cut the matching jobs, newest first, into
  consecutive pieces: reading pages 1 to k with a limit between 1 and 100 returns the first k times
  limit matching jobs without a gap or a repetition, every page with the same total.\<close>

theorem pages_partition_matches:
  assumes "1 \<le> limit" "limit \<le> 100" "int k * limit < 2 ^ 63"
    and "sorted_jobs = newest_first (filter (Sqlite_buildSearchQuery q status) (jobs d))"
  shows "\<exists>pages. length pages = k
     \<and> (\<forall>i<k. Sqlite_GetJobs q status (int i + 1) limit (d, [])
          = Some (Inr (pages ! i, int (length sorted_jobs)), (d, [])))
     \<and> concat pages = map job_detail (take (k * nat limit) sorted_jobs)
     \<and> mset sorted_jobs = mset (filter (Sqlite_buildSearchQuery q status) (jobs d))
     \<and> sorted (map (\<lambda>r. - j_created_at r) sorted_jobs)"
proof -
  let ?page = "\<lambda>i. map job_detail (take (nat limit) (drop (i * nat limit) sorted_jobs))"
  have run: "Sqlite_GetJobs q status (int i + 1) limit (d, [])
      = Some (Inr (?page i, int (length sorted_jobs)), (d, []))" if "i < k" for i
  proof -
    have "(int i + 1) * limit \<le> int k * limit" using that assms(1) by (intro mult_right_mono) auto
    then have small: "(int i + 1) * limit < 2 ^ 63" using assms(3) by (rule le_less_trans)
    have "nat (int i * limit) = i * nat limit" using assms(1) by (simp add: nat_mult_distrib)
    with GetJobs_run[OF _ assms(1,2) small, of q status d] show ?thesis
      by (simp add: matching_def assms(4))
  qed
  have "concat (map ?page [0..<k]) = map job_detail (take (k * nat limit) sorted_jobs)"
    by (simp add: pages_concat[symmetric] map_concat comp_def)
  with run show ?thesis
    by (intro exI[of _ "map ?page [0..<k]"]) (simp add: assms(4) newest_first_def)
qed

theorem pages_partition_matches_witness:
  "\<exists>pages. length pages = 2
     \<and> (\<forall>i<2. Sqlite_GetJobs '''' '''' (int i + 1) 1 (demo_db, [])
          = Some (Inr (pages ! i, int (length (newest_first (filter (Sqlite_buildSearchQuery '''' '''') (jobs demo_db))))), (demo_db, [])))
     \<and> concat pages = map job_detail (take (2 * nat 1) (newest_first (filter (Sqlite_buildSearchQuery '''' '''') (jobs demo_db))))
     \<and> mset (newest_first (filter (Sqlite_buildSearchQuery '''' '''') (jobs demo_db))) = mset (filter (Sqlite_buildSearchQuery '''' '''') (jobs demo_db))
     \<and> sorted (map (\<lambda>r. - j_created_at r) (newest_first (filter (Sqlite_buildSearchQuery '''' '''') (jobs demo_db))))"
  by (rule pages_partition_matches[of 1 2]) simp_all

end
