(* ===== verification/SqliteQueue.thy ===== *)
theory SqliteQueue
  imports SqliteInv
begin

text \<open>
  What the queue operations of \<open>sqlite.go\<close> achieve: which job a dequeue returns and that no
  job is handed out twice, what a dequeued envelope keeps of the enqueued one, when a unique
  job is refused, what archival moves.
\<close>

section \<open>Dequeue\<close>

definition job_tags :: "job_row \<Rightarrow> string list" where
  "job_tags r = Tags (Sqlite_scanJobFrom r)"

definition eligible :: "time \<Rightarrow> string \<Rightarrow> job_row \<Rightarrow> bool" where
  "eligible now q r \<longleftrightarrow> j_queue r = q \<and> j_status r = Pending \<and> due now r"

definition mark_running :: "time \<Rightarrow> job_row \<Rightarrow> job_row" where
  "mark_running now r = r\<lparr>j_status := Running, j_locked_at := Some (cur_ts now)\<rparr>"

definition first_match :: "time \<Rightarrow> string \<Rightarrow> string list \<Rightarrow> db \<Rightarrow> job_row option" where
  "first_match now q ws d = find (\<lambda>r. matchTags (job_tags r) ws) (Sqlite_candidates now q d)"

lemma scan_id [simp]: "JobID (Sqlite_scanJobFrom r) = j_id r"
  by (simp add: Sqlite_scanJobFrom_def Let_def)

lemma findMatchingJob_find:
  "Sqlite_findMatchingJob rows ws
     = map_option Sqlite_scanJobFrom (find (\<lambda>r. matchTags (job_tags r) ws) rows)"
  by (induction rows) (auto simp: job_tags_def Let_def)

lemma candidates_set:
  "r \<in> set (Sqlite_candidates now q d) \<Longrightarrow> r \<in> set (jobs d) \<and> eligible now q r"
  by (auto simp: Sqlite_candidates_def eligible_def dest: in_set_takeD)

lemma first_match_SomeD:
  "first_match now q ws d = Some r \<Longrightarrow> r \<in> set (jobs d) \<and> eligible now q r \<and> matchTags (job_tags r) ws"
  unfolding first_match_def by (drule find_SomeD) (auto dest: candidates_set)

text \<open>The first match among the first hundred of a sorted list is a least match overall.\<close>

lemma find_take_sorted_least:
  assumes "sorted (map k xs)" "find P (take n xs) = Some r" "x \<in> set xs" "P x"
  shows "k r \<le> (k x :: 'b :: linorder)"
proof -
  from assms(2) obtain i where i: "i < length (take n xs)" "r = take n xs ! i"
    "\<And>j. j < i \<Longrightarrow> \<not> P (take n xs ! j)" by (auto simp: find_Some_iff)
  from assms(3) obtain j where j: "j < length xs" "x = xs ! j" by (auto simp: in_set_conv_nth)
  have "i \<le> j"
  proof (rule ccontr)
    assume "\<not> i \<le> j"
    with i j have "take n xs ! j = x" "j < i" by auto
    with i(3)[of j] assms(4) show False by simp
  qed
  with assms(1) i j show ?thesis
    using sorted_nth_mono[OF assms(1), of i j] by simp
qed

lemma first_match_least:
  assumes "first_match now q ws d = Some r" "x \<in> set (jobs d)" "eligible now q x"
    "matchTags (job_tags x) ws"
  shows "dequeue_key r \<le> dequeue_key x"
  using assms unfolding first_match_def Sqlite_candidates_def
  by (intro find_take_sorted_least[where P = "\<lambda>r. matchTags (job_tags r) ws"
        and xs = "sort_key dequeue_key (filter (\<lambda>r. j_queue r = q \<and> j_status r = Pending \<and> due now r) (jobs d))"])
    (auto simp: eligible_def)

lemma Dequeue_run [run_simps]:
  "Sqlite_Dequeue now q ws (d, []) = Some (case first_match now q ws d of
       None \<Rightarrow> (Inr None, (d, []))
     | Some r \<Rightarrow> (Inr (Some (Sqlite_scanJobFrom r)),
                  (jobs_update (t_update (\<lambda>x. j_id x = j_id r) (mark_running now)) d, [])))"
  by (simp add: Sqlite_Dequeue_def Sqlite_dequeueTx_def with_tx_if_def run_simps findMatchingJob_find
      first_match_def mark_running_def[abs_def] split: option.splits)

text \<open>The same under any failure schedule: what a dequeue that returned a job has done.\<close>

lemma Dequeue_triple:
  "triple (\<lambda>x. x = d) (Sqlite_Dequeue now q ws)
     (\<lambda>res d'. case res of
        None \<Rightarrow> d' = d
      | Some env \<Rightarrow> \<exists>r. first_match now q ws d = Some r \<and> env = Sqlite_scanJobFrom r
          \<and> d' = jobs_update (t_update (\<lambda>x. j_id x = j_id r) (mark_running now)) d)
     (\<lambda>_ d'. d' = d)"
proof -
  let ?Q = "\<lambda>res d'. case res of None \<Rightarrow> d' = d
      | Some env \<Rightarrow> \<exists>r. first_match now q ws d = Some r \<and> env = Sqlite_scanJobFrom r
          \<and> d' = jobs_update (t_update (\<lambda>x. j_id x = j_id r) (mark_running now)) d"
  have "triple (\<lambda>x. x = d) (Sqlite_dequeueTx now q ws) ?Q (\<lambda>_ _. True)"
    unfolding Sqlite_dequeueTx_def
  proof (rule triple_bind[where R = "\<lambda>rows x. x = d \<and> rows = Sqlite_candidates now q d"])
    show "triple (\<lambda>x. x = d \<and> rows = Sqlite_candidates now q d)
        (case Sqlite_findMatchingJob rows ws of None \<Rightarrow> ret None
         | Some selected \<Rightarrow> thenS (exec (jobs_update (t_update (\<lambda>r. j_id r = JobID selected)
              (\<lambda>r. r\<lparr>j_status := Running, j_locked_at := Some (cur_ts now)\<rparr>)))) (ret (Some selected)))
        ?Q (\<lambda>_ _. True)" for rows
    proof (rule triple_pure[where P = "\<lambda>x. x = d"])
      assume "rows = Sqlite_candidates now q d"
      then show "triple (\<lambda>x. x = d) (case Sqlite_findMatchingJob rows ws of None \<Rightarrow> ret None
         | Some selected \<Rightarrow> thenS (exec (jobs_update (t_update (\<lambda>r. j_id r = JobID selected)
              (\<lambda>r. r\<lparr>j_status := Running, j_locked_at := Some (cur_ts now)\<rparr>)))) (ret (Some selected)))
        ?Q (\<lambda>_ _. True)"
        by (cases "first_match now q ws d")
          (auto simp: findMatchingJob_find first_match_def mark_running_def[abs_def]
            intro!: triple_ret triple_then[where R = "?Q (Some (Sqlite_scanJobFrom (the (first_match now q ws d))))"]
              triple_exec)
    qed
  qed (rule triple_query; simp)
  then have body: "triple (\<lambda>x. x = d) (bindS (Sqlite_dequeueTx now q ws) (\<lambda>env. ret (env, env \<noteq> None)))
      (\<lambda>(x, c) d'. if c then ?Q x d' else x = None) (\<lambda>_ _. True)"
    by (rule triple_bind) (auto intro!: triple_ret)
  show ?thesis
    unfolding Sqlite_Dequeue_def with_tx_if_def
  proof (rule triple_bind[OF triple_run_tx[where Q = "\<lambda>(x, eo) d'. case eo of None \<Rightarrow> ?Q x d' | Some e \<Rightarrow> d' = d",
        OF triple_weaken[OF body]]])
    fix d0 d1 :: db and fs fs' x
    assume "d0 = d" and b: "bindS (Sqlite_dequeueTx now q ws) (\<lambda>env. ret (env, env \<noteq> None)) (d0, fs)
      = Some (Inr (x, False), (d1, fs'))"
    with tripleD_ok[OF body b] show "(\<lambda>(x, eo) d'. case eo of None \<Rightarrow> ?Q x d' | Some e \<Rightarrow> d' = d) (x, None) d0"
      by simp
  qed (auto split: option.splits intro!: triple_ret triple_throw)
qed

text \<open>A series of dequeues by any workers, with the ids of the jobs they got.\<close>

fun run_dequeues :: "(time \<times> string \<times> string list \<times> bool list) list \<Rightarrow> db \<Rightarrow> string list" where
  "run_dequeues [] d = []"
| "run_dequeues ((now, q, ws, fs) # cs) d =
     (case Sqlite_Dequeue now q ws (d, fs) of
        Some (Inr (Some env), (d', fs')) \<Rightarrow> JobID env # run_dequeues cs d'
      | Some (res, (d', fs')) \<Rightarrow> run_dequeues cs d'
      | None \<Rightarrow> run_dequeues cs d)"

definition pending_id :: "db \<Rightarrow> string \<Rightarrow> bool" where
  "pending_id d j \<longleftrightarrow> (\<exists>r\<in>set (jobs d). j_id r = j \<and> j_status r = Pending)"

lemma Dequeue_pending_id:
  assumes "Sqlite_Dequeue now q ws (d, fs) = Some (Inr (Some env), (d', fs'))"
  shows "pending_id d (JobID env) \<and> \<not> pending_id d' (JobID env) \<and> (\<forall>j. pending_id d' j \<longrightarrow> pending_id d j)"
proof -
  from tripleD_ok[OF Dequeue_triple assms] obtain r where r: "first_match now q ws d = Some r"
    "env = Sqlite_scanJobFrom r"
    "d' = jobs_update (t_update (\<lambda>x. j_id x = j_id r) (mark_running now)) d" by auto
  with first_match_SomeD[OF r(1)] show ?thesis
    by (auto simp: pending_id_def t_update_def mark_running_def eligible_def split: if_splits)
qed

lemma Dequeue_other:
  assumes "Sqlite_Dequeue now q ws (d, fs) = Some (res, (d', fs'))" "\<And>env. res \<noteq> Inr (Some env)"
  shows "d' = d"
  using tripleD[OF Dequeue_triple assms(1) refl] assms(2) by (cases res) (auto split: option.splits)

lemma run_dequeues_pending:
  "distinct (run_dequeues cs d) \<and> (\<forall>j\<in>set (run_dequeues cs d). pending_id d j)"
proof (induction cs arbitrary: d)
  case (Cons c cs)
  obtain now q ws fs where c: "c = (now, q, ws, fs)" by (cases c) auto
  show ?case
  proof (cases "Sqlite_Dequeue now q ws (d, fs)")
    case None
    with Cons.IH show ?thesis by (simp add: c)
  next
    case (Some p)
    obtain res d' fs' where p: "p = (res, (d', fs'))" by (cases p) auto
    show ?thesis
    proof (cases "\<exists>env. res = Inr (Some env)")
      case True
      then obtain env where "Sqlite_Dequeue now q ws (d, fs) = Some (Inr (Some env), (d', fs'))"
        using Some p by blast
      from Dequeue_pending_id[OF this] Cons.IH[of d'] this show ?thesis by (auto simp: c)
    next
      case False
      then have "d' = d" using Dequeue_other[of now q ws d fs res d' fs'] Some p by blast
      with False Some p have "run_dequeues (c # cs) d = run_dequeues cs d"
        by (auto simp: c split: sum.splits option.splits)
      with Cons.IH show ?thesis by simp
    qed
  qed
qed simp

section \<open>Enqueue\<close>

text \<open>The row an \<open>INSERT ... ON CONFLICT\<close> leaves for the envelope.\<close>

definition enqueued_row :: "time \<Rightarrow> JobEnvelope \<Rightarrow> job_row" where
  "enqueued_row now env =
     (default_job_row now (JobID env) (Queue env) (Name env) (Args env))
       \<lparr>j_trace_id := TraceID (TraceCtx env), j_span_id := SpanID (TraceCtx env),
        j_max_attempts := getMaxAttempts (MaxAttempts env), j_run_at := Some (getRunAt now (RunAt env)),
        j_unique_key := UniqueKey env, j_priority := Priority env,
        j_tags := join_with CHR '','' (Tags env)\<rparr>"

definition reenqueued :: "time \<Rightarrow> JobEnvelope \<Rightarrow> job_row \<Rightarrow> job_row" where
  "reenqueued now env r =
     r\<lparr>j_status := Pending, j_attempts := 0, j_max_attempts := getMaxAttempts (MaxAttempts env),
       j_run_at := Some (getRunAt now (RunAt env)), j_unique_key := UniqueKey env,
       j_priority := Priority env, j_tags := join_with CHR '','' (Tags env), j_updated_at := cur_ts now\<rparr>"

definition store_job :: "time \<Rightarrow> JobEnvelope \<Rightarrow> db \<Rightarrow> db" where
  "store_job now env = jobs_update (t_upsert j_id (enqueued_row now env) (reenqueued now env))"

lemma insertJob_store:
  "Sqlite_insertJob now env (case RunAt env of Some t \<Rightarrow> t | None \<Rightarrow> now)
     (if MaxAttempts env \<le> 0 then 3 else MaxAttempts env) = exec (store_job now env)"
  by (simp add: Sqlite_insertJob_def store_job_def enqueued_row_def reenqueued_def[abs_def]
      getMaxAttempts_def getRunAt_def Let_def)

lemma reenqueued_id [simp]: "j_id (reenqueued now env r) = j_id r"
  by (simp add: reenqueued_def)

lemma enqueued_row_id [simp]: "j_id (enqueued_row now env) = JobID env"
  by (simp add: enqueued_row_def default_job_row_def)

lemma store_job_row:
  "job_by_id (JobID env) (store_job now env d) = Some (case job_by_id (JobID env) d of
      None \<Rightarrow> enqueued_row now env | Some r \<Rightarrow> reenqueued now env r)"
  using jobs_t.find_after_upsert[where r = "enqueued_row now env" and f = "reenqueued now env" and d = d]
  by (simp add: job_by_id_def store_job_def)

text \<open>Who holds the lock on a key: a lock counts while it is unexpired and its job exists.\<close>

definition lock_of :: "string \<Rightarrow> db \<Rightarrow> lock_row option" where
  "lock_of k d = t_find (\<lambda>l. l_key l = k) (unique_locks d)"

definition held_by_other :: "time \<Rightarrow> string \<Rightarrow> string \<Rightarrow> db \<Rightarrow> string option" where
  "held_by_other now k jobID d = (case lock_of k d of
     None \<Rightarrow> None
   | Some l \<Rightarrow> if l_job_id l \<noteq> jobID \<and> now < l_expires_at l \<and> has_key j_id (l_job_id l) (jobs d)
               then Some (l_job_id l) else None)"

text \<open>The lock row after a successful acquisition: a job that holds the lock already keeps its
  expiry.\<close>

definition taken_lock :: "time \<Rightarrow> JobEnvelope \<Rightarrow> db \<Rightarrow> lock_row" where
  "taken_lock now env d =
     (let fresh = \<lparr>l_key = lock_key (Queue env) (UniqueKey env), l_job_id = JobID env,
                   l_expires_at = Sqlite_getLockExpires now env\<rparr> in
      case lock_of (lock_key (Queue env) (UniqueKey env)) d of
        None \<Rightarrow> fresh
      | Some l \<Rightarrow> if l_job_id l = JobID env then l else fresh)"

lemma lock_of_frame: "unique_locks d' = unique_locks d \<Longrightarrow> lock_of k d' = lock_of k d"
  by (simp add: lock_of_def)

lemma lock_of_key: "lock_of k d = Some l \<Longrightarrow> l_key l = k"
  unfolding lock_of_def by (drule t_find_SomeD) simp

lemma lock_of_insert:
  "lock_of k d = None \<Longrightarrow> l_key l = k \<Longrightarrow>
     lock_of k (unique_locks_update (t_insert_ignore l_key l) d) = Some l"
  using locks_t.find_after_insert[of l d] t_find_None_key[of l_key k "unique_locks d"]
  by (simp add: lock_of_def t_insert_ignore_def)

lemma lock_of_insert_present:
  "lock_of k d = Some l0 \<Longrightarrow> l_key l = k \<Longrightarrow> unique_locks_update (t_insert_ignore l_key l) d = d"
  using t_find_None_key[of l_key k "unique_locks d"]
  by (cases d) (auto simp: lock_of_def t_insert_ignore_def)

lemma acquireUniqueLock_run:
  assumes "UniqueKey env \<noteq> ''''"
  defines "k \<equiv> lock_key (Queue env) (UniqueKey env)"
  shows "\<exists>u. Sqlite_acquireUniqueLock now env (d, []) = (case held_by_other now k (JobID env) d of
      Some j \<Rightarrow> Some (Inl (ErrDuplicateJob k j), (d, []))
    | None \<Rightarrow> Some (Inr (), (unique_locks_update (\<lambda>_. u) d, [])))
    \<and> lock_of k (unique_locks_update (\<lambda>_. u) d) = Some (taken_lock now env d)"
proof -
  let ?fresh = "\<lparr>l_key = k, l_job_id = JobID env, l_expires_at = Sqlite_getLockExpires now env\<rparr>"
  let ?ins = "unique_locks_update (t_insert_ignore l_key ?fresh)"
  let ?ups = "unique_locks_update (t_upsert l_key ?fresh
      (l_job_id_update (\<lambda>_. JobID env) \<circ> l_expires_at_update (\<lambda>_. Sqlite_getLockExpires now env)))"
  have unf: "Sqlite_acquireUniqueLock now env =
      thenS (exec ?ins) (Sqlite_checkLockCollision now env k (Sqlite_getLockExpires now env))"
    using assms(1) by (simp add: Sqlite_acquireUniqueLock_def Sqlite_tryInsertLock_def k_def Let_def)
  have up: "unique_locks_update f d = unique_locks_update (\<lambda>_. f (unique_locks d)) d" for f by simp
  show ?thesis
  proof (cases "lock_of k d")
    case None
    then have l: "lock_of k (?ins d) = Some ?fresh" by (rule lock_of_insert) simp
    then have "Sqlite_acquireUniqueLock now env (d, []) = Some (Inr (), (?ins d, []))"
      by (simp add: unf run_simps Sqlite_checkLockCollision_def lock_of_def)
    moreover have "held_by_other now k (JobID env) d = None" by (simp add: held_by_other_def None)
    moreover have "taken_lock now env d = ?fresh" using None by (simp add: taken_lock_def k_def)
    ultimately show ?thesis using l up[of "t_insert_ignore l_key ?fresh"] by (metis option.simps(4))
  next
    case (Some l)
    have ins: "?ins d = d" using Some by (rule lock_of_insert_present) simp
    have run: "Sqlite_acquireUniqueLock now env (d, [])
        = (if l_job_id l = JobID env then Some (Inr (), (d, []))
           else if now < l_expires_at l \<and> has_key j_id (l_job_id l) (jobs d)
           then Some (Inl (ErrDuplicateJob k (l_job_id l)), (d, []))
           else Some (Inr (), (?ups d, [])))"
      using Some by (simp add: unf run_simps ins Sqlite_checkLockCollision_def lock_of_def
          Sqlite_handleLockCollision_def Let_def)
    show ?thesis
    proof (cases "l_job_id l = JobID env")
      case True
      with run Some show ?thesis
        by (intro exI[of _ "unique_locks d"]) (simp add: held_by_other_def taken_lock_def k_def[symmetric])
    next
      case False
      have "lock_of k (?ups d) = Some ?fresh"
        using locks_t.find_after_upsert[of "l_job_id_update (\<lambda>_. JobID env) \<circ>
            l_expires_at_update (\<lambda>_. Sqlite_getLockExpires now env)" ?fresh d] Some lock_of_key[OF Some]
        by (cases l) (simp add: lock_of_def)
      with False run Some show ?thesis
        by (intro exI[of _ "t_upsert l_key ?fresh (l_job_id_update (\<lambda>_. JobID env) \<circ>
            l_expires_at_update (\<lambda>_. Sqlite_getLockExpires now env)) (unique_locks d)"])
          (simp add: held_by_other_def taken_lock_def k_def[symmetric] up[symmetric])
    qed
  qed
qed

lemma Enqueue_plain_run [run_simps]:
  "UniqueKey env = '''' \<Longrightarrow> Sqlite_Enqueue now env (d, []) = Some (Inr (), (store_job now env d, []))"
  by (simp add: Sqlite_Enqueue_def insertJob_store Sqlite_acquireUniqueLock_def run_simps)

lemma store_job_frame [simp]:
  "unique_locks (store_job now env d) = unique_locks d" "archived_jobs (store_job now env d) = archived_jobs d"
  by (simp_all add: store_job_def)

lemma Enqueue_unique_run:
  assumes "UniqueKey env \<noteq> ''''"
  defines "k \<equiv> lock_key (Queue env) (UniqueKey env)"
  shows "\<exists>d'. Sqlite_Enqueue now env (d, []) = (case held_by_other now k (JobID env) d of
      Some j \<Rightarrow> Some (Inl (ErrDuplicateJob k j), (d, []))
    | None \<Rightarrow> Some (Inr (), (d', [])))
    \<and> lock_of k d' = Some (taken_lock now env d) \<and> jobs d' = jobs (store_job now env d)"
proof -
  from acquireUniqueLock_run[OF assms(1), of now d, folded k_def] obtain u where
    u: "Sqlite_acquireUniqueLock now env (d, []) = (case held_by_other now k (JobID env) d of
      Some j \<Rightarrow> Some (Inl (ErrDuplicateJob k j), (d, []))
    | None \<Rightarrow> Some (Inr (), (unique_locks_update (\<lambda>_. u) d, [])))"
    "lock_of k (unique_locks_update (\<lambda>_. u) d) = Some (taken_lock now env d)"
    by blast
  then show ?thesis
    by (intro exI[of _ "store_job now env (unique_locks_update (\<lambda>_. u) d)"])
      (auto simp: Sqlite_Enqueue_def insertJob_store run_simps store_job_def lock_of_def split: option.splits)
qed

subsection \<open>From the enqueued to the dequeued envelope\<close>

definition commaless :: "string list \<Rightarrow> bool" where
  "commaless ts \<longleftrightarrow> ts \<noteq> [''''] \<and> list_all (\<lambda>t. \<not> contains_char t CHR '','') ts"

lemma tags_roundtrip:
  assumes "commaless ts"
  shows "(if join_with CHR '','' ts \<noteq> '''' then split_on CHR '','' (join_with CHR '','' ts) else []) = ts"
proof (cases "ts = []")
  case False
  have ne: "join_with CHR '','' ts \<noteq> ''''"
    using False assms by (cases ts; cases "tl ts") (auto simp: commaless_def)
  have "\<And>p. p \<in> set ts \<Longrightarrow> CHR '','' \<notin> set p"
    using assms by (auto simp: commaless_def list_all_iff contains_char_def)
  with False have "split_on CHR '','' (join_with CHR '','' ts) = ts" by (simp add: split_join)
  with ne show ?thesis by simp
qed simp

lemma scan_enqueued:
  assumes "commaless (Tags env)"
  shows "Sqlite_scanJobFrom (enqueued_row now env) = env\<lparr>Dependencies := [], BatchID := '''',
    RunAt := None, UniqueTTL := 0, Attempts := 0, MaxAttempts := getMaxAttempts (MaxAttempts env)\<rparr>"
  using tags_roundtrip[OF assms]
  by (cases env; cases "TraceCtx env")
    (auto simp: Sqlite_scanJobFrom_def enqueued_row_def default_job_row_def zero_envelope_def Let_def
      split: if_splits)

lemma candidates_single:
  assumes "filter (eligible now q) (jobs d) = [r]"
  shows "Sqlite_candidates now q d = [r]"
  using assms by (simp add: Sqlite_candidates_def eligible_def[abs_def])

section \<open>Archival\<close>

abbreviation archived_db :: "time \<Rightarrow> db \<Rightarrow> db" where
  "archived_db cutoff d \<equiv> d\<lparr>jobs := filter (\<lambda>r. \<not> archivable cutoff r) (jobs d),
     archived_jobs := archived_jobs d @ filter (archivable cutoff) (jobs d)\<rparr>"

lemma ArchiveJobs_triple:
  "triple (\<lambda>x. x = d) (Sqlite_ArchiveJobs now age)
     (\<lambda>n d'. n = int (length (filter (archivable (now - age)) (jobs d)))
        \<and> mset (jobs d') + mset (archived_jobs d') = mset (jobs d) + mset (archived_jobs d)
        \<and> d' = archived_db (now - age) d)
     (\<lambda>_ d'. d' = d)"
  unfolding Sqlite_ArchiveJobs_def Let_def
proof (rule triple_with_tx, rule triple_then)
  show "triple (\<lambda>x. x = d) (exec_unique
      (\<lambda>d. list_all (\<lambda>r. \<not> has_key j_id (j_id r) (archived_jobs d)) (filter (archivable (now - age)) (jobs d)))
      (\<lambda>d. archived_jobs_update (\<lambda>t. t @ filter (archivable (now - age)) (jobs d)) d))
      (\<lambda>_ x. x = d\<lparr>archived_jobs := archived_jobs d @ filter (archivable (now - age)) (jobs d)\<rparr>) (\<lambda>_ _. True)"
    by (rule triple_exec_unique) auto
  have ms: "mset (filter (\<lambda>r. \<not> P r) t) + (mset a + mset (filter P t)) = mset t + mset a" for P and t a :: "job_row list"
    by (induction t) auto
  show "triple (\<lambda>x. x = d\<lparr>archived_jobs := archived_jobs d @ filter (archivable (now - age)) (jobs d)\<rparr>)
      (exec_count (\<lambda>d. int (length (filter (archivable (now - age)) (jobs d))))
         (jobs_update (t_delete (archivable (now - age)))))
      (\<lambda>n d'. n = int (length (filter (archivable (now - age)) (jobs d)))
        \<and> mset (jobs d') + mset (archived_jobs d') = mset (jobs d) + mset (archived_jobs d)
        \<and> d' = archived_db (now - age) d) (\<lambda>_ _. True)"
    by (rule triple_exec_count) (cases d; auto simp: t_delete_def ms[unfolded mset_filter])+
qed

lemma ArchiveJobs_conflict_run [run_simps]:
  "\<not> list_all (\<lambda>r. \<not> has_key j_id (j_id r) (archived_jobs d)) (filter (archivable (now - age)) (jobs d))
    \<Longrightarrow> Sqlite_ArchiveJobs now age (d, []) = Some (Inl ErrConstraint, (d, []))"
  unfolding Sqlite_ArchiveJobs_def Let_def
  by (subst with_tx_run[where r = "Inl ErrConstraint" and d' = d]) (simp_all add: run_simps)

lemma ArchiveJobs_ok_run [run_simps]:
  "list_all (\<lambda>r. \<not> has_key j_id (j_id r) (archived_jobs d)) (filter (archivable (now - age)) (jobs d))
    \<Longrightarrow> Sqlite_ArchiveJobs now age (d, [])
      = Some (Inr (int (length (filter (archivable (now - age)) (jobs d)))), (archived_db (now - age) d, []))"
  unfolding Sqlite_ArchiveJobs_def Let_def
  by (subst with_tx_run[where r = "Inr (int (length (filter (archivable (now - age)) (jobs d))))"
        and d' = "archived_db (now - age) d"]) (cases d; simp add: run_simps t_delete_def)+

definition finished_db :: db where
  "finished_db = empty_db\<lparr>jobs := [(default_job_row 0 ''p'' ''q'' ''A'' [])\<lparr>j_status := Processed\<rparr>]\<rparr>"

section \<open>Properties\<close>

text \<open>C11: a dequeue that no failure interrupts always returns, and what it returns is right:
  a job of that queue that was pending, due and served by the worker's tags, with the highest
  priority and, within it, the earliest creation among all such jobs; that row alone becomes
  running. When it returns nothing the database is unchanged and none of the first hundred
  candidates matched.\<close>

theorem dequeue_picks_best:
  "\<exists>res d'. Sqlite_Dequeue now q ws (d, []) = Some (Inr res, (d', [])) \<and>
     (case res of
        None \<Rightarrow> d' = d \<and> (\<forall>r\<in>set (Sqlite_candidates now q d). \<not> matchTags (job_tags r) ws)
      | Some env \<Rightarrow> \<exists>r\<in>set (jobs d). env = Sqlite_scanJobFrom r \<and> eligible now q r
          \<and> matchTags (job_tags r) ws
          \<and> (\<forall>x\<in>set (jobs d). eligible now q x \<and> matchTags (job_tags x) ws
                \<longrightarrow> dequeue_key r \<le> dequeue_key x)
          \<and> d' = jobs_update (t_update (\<lambda>x. j_id x = j_id r) (mark_running now)) d)"
proof (cases "first_match now q ws d")
  case None
  then have "\<forall>r\<in>set (Sqlite_candidates now q d). \<not> matchTags (job_tags r) ws"
    by (auto simp: first_match_def find_None_iff)
  with None show ?thesis by (simp add: run_simps)
next
  case (Some r)
  with first_match_SomeD[OF Some] first_match_least[OF Some] show ?thesis
    by (auto simp: run_simps intro!: bexI[of _ r])
qed

definition two_job_db :: db where
  "two_job_db = empty_db\<lparr>jobs :=
     [(default_job_row 0 ''low'' ''q'' ''A'' [])\<lparr>j_priority := 1\<rparr>,
      (default_job_row 0 ''high'' ''q'' ''A'' [])\<lparr>j_priority := 5, j_tags := ''gpu,eu''\<rparr>]\<rparr>"

theorem dequeue_picks_best_witness:
  "\<exists>d'. Sqlite_Dequeue second ''q'' [''eu'', ''gpu''] (two_job_db, [])
     = Some (Inr (Some (Sqlite_scanJobFrom (jobs two_job_db ! 1))), (d', []))"
proof -
  have run: "fst (the (Sqlite_Dequeue second ''q'' [''eu'', ''gpu''] (two_job_db, [])))
      = Inr (Some (Sqlite_scanJobFrom (jobs two_job_db ! 1)))" by code_simp
  from dequeue_picks_best[of second "''q''" "[''eu'', ''gpu'']" two_job_db] obtain res d' where
    "Sqlite_Dequeue second ''q'' [''eu'', ''gpu''] (two_job_db, []) = Some (Inr res, (d', []))" by blast
  with run show ?thesis by simp
qed

text \<open>C39: no two dequeues get the same job. In any series of dequeues, by any workers, with
  any tags, at any times and with any statement failures, the ids of the jobs handed out are
  distinct, and each was pending when the series began.\<close>

theorem dequeue_never_twice:
  "distinct (run_dequeues calls d) \<and> (\<forall>j\<in>set (run_dequeues calls d). pending_id d j)"
  by (rule run_dequeues_pending)

theorem dequeue_never_twice_witness:
  "run_dequeues [(second, ''q'', [], []), (second, ''q'', [''gpu'', ''eu''], []), (second, ''q'', [], [])]
     two_job_db = [''low'', ''high''] \<and> pending_id two_job_db ''low''"
proof -
  have run: "run_dequeues [(second, ''q'', [], []), (second, ''q'', [''gpu'', ''eu''], []), (second, ''q'', [], [])]
     two_job_db = [''low'', ''high'']" by code_simp
  with dequeue_never_twice[of "[(second, ''q'', [], []), (second, ''q'', [''gpu'', ''eu''], []), (second, ''q'', [], [])]"
      two_job_db] show ?thesis by simp
qed

text \<open>A dequeue looks at the first hundred candidates only: a matching job behind a
  hundred due jobs of the queue that the worker's tags do not serve is never returned to it,
  however often it asks.\<close>

theorem dequeue_hidden_behind_hundred:
  assumes "jobs d = front @ [r]" "length front = 100" "list_all (eligible now q) front"
    "list_all (\<lambda>x. dequeue_key x \<le> dequeue_key r) front" "sorted (map dequeue_key front)"
    "list_all (\<lambda>x. \<not> matchTags (job_tags x) ws) front" "eligible now q r" "matchTags (job_tags r) ws"
  shows "Sqlite_Dequeue now q ws (d, []) = Some (Inr None, (d, []))"
proof -
  have f: "filter (\<lambda>r. j_queue r = q \<and> j_status r = Pending \<and> due now r) (jobs d) = front @ [r]"
    using assms(1,3,7) by (auto simp: eligible_def list_all_iff)
  have "sorted (map dequeue_key (front @ [r]))"
    using assms(4,5) by (auto simp: sorted_append list_all_iff)
  then have "Sqlite_candidates now q d = front"
    using assms(2) by (simp add: Sqlite_candidates_def f sorted_sort_id sort_key_id_if_sorted)
  then have "first_match now q ws d = None"
    using assms(6) by (auto simp: first_match_def find_None_iff list_all_iff)
  then show ?thesis by (simp add: run_simps)
qed

definition gpu_row :: "nat \<Rightarrow> job_row" where
  "gpu_row i = (default_job_row 0 (itoa_nat i) ''q'' ''A'' [])\<lparr>j_tags := ''gpu''\<rparr>"

lemma gpu_row_facts:
  "eligible second ''q'' (gpu_row i)" "job_tags (gpu_row i) = [''gpu'']"
  "dequeue_key (gpu_row i) = DequeueOrder 0 0"
  by (simp_all add: gpu_row_def default_job_row_def eligible_def due_def cur_ts_def job_tags_def
      Sqlite_scanJobFrom_def zero_envelope_def dequeue_key_def Let_def)

definition crowded_db :: db where
  "crowded_db = empty_db\<lparr>jobs := map gpu_row [0..<100] @ [default_job_row second ''mine'' ''q'' ''A'' []]\<rparr>"

theorem dequeue_hidden_behind_hundred_witness:
  "Sqlite_Dequeue second ''q'' [] (crowded_db, []) = Some (Inr None, (crowded_db, []))"
proof (rule dequeue_hidden_behind_hundred)
  show "jobs crowded_db = map gpu_row [0..<100] @ [default_job_row second ''mine'' ''q'' ''A'' []]"
    by (simp add: crowded_db_def)
  have "map (dequeue_key \<circ> gpu_row) [0..<100] = replicate 100 (DequeueOrder 0 0)"
    by (rule nth_equalityI) (simp_all add: gpu_row_facts)
  then show "sorted (map dequeue_key (map gpu_row [0..<100]))"
    by (simp only: map_map) (simp add: sorted_replicate)
  have mine: "eligible second ''q'' (default_job_row second ''mine'' ''q'' ''A'' [])"
    "job_tags (default_job_row second ''mine'' ''q'' ''A'' []) = []"
    "dequeue_key (default_job_row second ''mine'' ''q'' ''A'' []) = DequeueOrder 0 second"
    by (simp_all add: default_job_row_def eligible_def due_def cur_ts_def job_tags_def
      Sqlite_scanJobFrom_def zero_envelope_def dequeue_key_def Let_def)
  show "eligible second ''q'' (default_job_row second ''mine'' ''q'' ''A'' [])"
    "matchTags (job_tags (default_job_row second ''mine'' ''q'' ''A'' [])) []"
    "list_all (\<lambda>x. dequeue_key x \<le> dequeue_key (default_job_row second ''mine'' ''q'' ''A'' []))
       (map gpu_row [0..<100])"
    by (simp_all add: mine matchTags_iff list_all_iff gpu_row_facts less_eq_dequeue_order_def)
qed (simp_all add: list_all_iff gpu_row_facts matchTags_iff)

lemma enqueue_then_dequeue:
  assumes "UniqueKey env = '''' \<or> held_by_other now (lock_key (Queue env) (UniqueKey env)) (JobID env) d = None"
    "commaless (Tags env)" "\<not> has_key j_id (JobID env) (jobs d)"
    "filter (eligible now' (Queue env)) (jobs d) = []"
    "getRunAt now (RunAt env) div second \<le> now' div second" "matchTags (Tags env) ws"
  shows "\<exists>d1 d2. Sqlite_Enqueue now env (d, []) = Some (Inr (), (d1, [])) \<and>
    Sqlite_Dequeue now' (Queue env) ws (d1, []) = Some (Inr (Some (env\<lparr>Dependencies := [],
      BatchID := '''', RunAt := None, UniqueTTL := 0, Attempts := 0,
      MaxAttempts := getMaxAttempts (MaxAttempts env)\<rparr>)), (d2, []))
    \<and> (UniqueKey env = '''' \<longrightarrow> d1 = store_job now env d)"
proof -
  let ?r = "enqueued_row now env"
  obtain d1 where d1: "Sqlite_Enqueue now env (d, []) = Some (Inr (), (d1, []))"
    "jobs d1 = jobs (store_job now env d)" "UniqueKey env = '''' \<longrightarrow> d1 = store_job now env d"
    using assms(1) Enqueue_plain_run[of env now d] Enqueue_unique_run[of env now d]
    by (cases "UniqueKey env = ''''") auto
  have js: "jobs d1 = jobs d @ [?r]"
    using assms(3) by (simp add: d1(2) store_job_def t_upsert_def)
  have el: "eligible now' (Queue env) ?r"
    using assms(5) by (simp add: eligible_def due_def enqueued_row_def default_job_row_def)
  have "Sqlite_candidates now' (Queue env) d1 = [?r]"
    by (rule candidates_single) (simp add: js assms(4) el)
  moreover have "matchTags (job_tags ?r) ws"
    using assms(6) by (simp add: job_tags_def scan_enqueued[OF assms(2)])
  ultimately have "first_match now' (Queue env) ws d1 = Some ?r"
    by (simp add: first_match_def)
  then show ?thesis
    using scan_enqueued[OF assms(2)] d1(1,3) by (auto simp: run_simps)
qed

text \<open>C16: the envelope a worker dequeues is the one the client enqueued. If the job id is fresh,
  the unique key (if there is one) is not held by another job, the tags have no comma, the
  worker has them and the queue has nothing else due, then \<open>Enqueue\<close> succeeds and \<open>Dequeue\<close>
  once the job is due gives back the id, queue, name, arguments, trace, tags, priority and
  unique key, with the default number of attempts filled in; dependencies, batch and schedule
  are not part of it.\<close>

theorem enqueue_dequeue_roundtrip:
  assumes "UniqueKey env = '''' \<or> held_by_other now (lock_key (Queue env) (UniqueKey env)) (JobID env) d = None"
    "commaless (Tags env)" "\<not> has_key j_id (JobID env) (jobs d)"
    "filter (eligible now' (Queue env)) (jobs d) = []"
    "getRunAt now (RunAt env) div second \<le> now' div second" "matchTags (Tags env) ws"
  shows "\<exists>d1 d2. Sqlite_Enqueue now env (d, []) = Some (Inr (), (d1, [])) \<and>
    Sqlite_Dequeue now' (Queue env) ws (d1, []) = Some (Inr (Some (env\<lparr>Dependencies := [],
      BatchID := '''', RunAt := None, UniqueTTL := 0, Attempts := 0,
      MaxAttempts := getMaxAttempts (MaxAttempts env)\<rparr>)), (d2, []))"
  using enqueue_then_dequeue[OF assms] by blast

theorem enqueue_dequeue_roundtrip_witness:
  "\<exists>d1 d2. Sqlite_Enqueue 5 (demo_parent\<lparr>Tags := [''gpu'', ''eu''], UniqueKey := ''k''\<rparr>) (empty_db, []) = Some (Inr (), (d1, []))
    \<and> Sqlite_Dequeue second ''q'' [''eu'', ''gpu''] (d1, [])
        = Some (Inr (Some (demo_parent\<lparr>Tags := [''gpu'', ''eu''], UniqueKey := ''k'', MaxAttempts := 3\<rparr>)), (d2, []))"
  using enqueue_dequeue_roundtrip[of "demo_parent\<lparr>Tags := [''gpu'', ''eu''], UniqueKey := ''k''\<rparr>" 5 empty_db second "[''eu'', ''gpu'']"]
  by (auto simp: demo_parent_def zero_envelope_def commaless_def contains_char_def empty_db_def
      has_key_def getRunAt_def matchTags_iff getMaxAttempts_def held_by_other_def lock_of_def t_find_def)

text \<open>C4: a unique job is refused exactly when another job that still exists holds an unexpired
  lock on its queue and key, and then nothing changes; otherwise it is stored as a pending job
  and owns the lock, an expired lock or the lock of a deleted job being taken over.\<close>

theorem enqueue_unique_decision:
  assumes "UniqueKey env \<noteq> ''''"
  shows "case held_by_other now (lock_key (Queue env) (UniqueKey env)) (JobID env) d of
      Some j \<Rightarrow> Sqlite_Enqueue now env (d, [])
        = Some (Inl (ErrDuplicateJob (lock_key (Queue env) (UniqueKey env)) j), (d, []))
    | None \<Rightarrow> \<exists>d' l r. Sqlite_Enqueue now env (d, []) = Some (Inr (), (d', []))
        \<and> lock_of (lock_key (Queue env) (UniqueKey env)) d' = Some l \<and> l_job_id l = JobID env
        \<and> job_by_id (JobID env) d' = Some r \<and> j_status r = Pending \<and> j_unique_key r = UniqueKey env"
proof (cases "held_by_other now (lock_key (Queue env) (UniqueKey env)) (JobID env) d")
  case (Some j)
  with Enqueue_unique_run[OF assms, of now d] show ?thesis by auto
next
  case None
  with Enqueue_unique_run[OF assms, of now d] obtain d' where
    d': "Sqlite_Enqueue now env (d, []) = Some (Inr (), (d', []))"
    "lock_of (lock_key (Queue env) (UniqueKey env)) d' = Some (taken_lock now env d)"
    "jobs d' = jobs (store_job now env d)" by auto
  have "job_by_id (JobID env) d' = job_by_id (JobID env) (store_job now env d)"
    using d'(3) by (simp add: job_by_id_def)
  with d' None show ?thesis
    by (auto simp: store_job_row taken_lock_def Let_def enqueued_row_def reenqueued_def
        default_job_row_def split: option.splits)
qed

definition unique_env :: "string \<Rightarrow> JobEnvelope" where
  "unique_env j = zero_envelope\<lparr>JobID := j, Queue := ''q'', Name := ''A'', UniqueKey := ''k''\<rparr>"

theorem enqueue_unique_decision_witness:
  "\<exists>d1. Sqlite_Enqueue 0 (unique_env ''j1'') (empty_db, []) = Some (Inr (), (d1, []))
    \<and> held_by_other (23 * hour) ''q:k'' ''j2'' d1 = Some ''j1''
    \<and> Sqlite_Enqueue (23 * hour) (unique_env ''j2'') (d1, []) = Some (Inl (ErrDuplicateJob ''q:k'' ''j1''), (d1, []))"
proof -
  obtain d1 where d1: "Sqlite_Enqueue 0 (unique_env ''j1'') (empty_db, []) = Some (Inr (), (d1, []))"
    "held_by_other (23 * hour) ''q:k'' ''j2'' d1 = Some ''j1''"
  proof
    show "Sqlite_Enqueue 0 (unique_env ''j1'') (empty_db, []) = Some (Inr (),
        (empty_db\<lparr>unique_locks := [\<lparr>l_key = ''q:k'', l_job_id = ''j1'', l_expires_at = 24 * hour\<rparr>],
          jobs := [enqueued_row 0 (unique_env ''j1'')]\<rparr>, []))" by code_simp
    show "held_by_other (23 * hour) ''q:k'' ''j2''
       (empty_db\<lparr>unique_locks := [\<lparr>l_key = ''q:k'', l_job_id = ''j1'', l_expires_at = 24 * hour\<rparr>],
          jobs := [enqueued_row 0 (unique_env ''j1'')]\<rparr>) = Some ''j1''" by code_simp
  qed
  with enqueue_unique_decision[of "unique_env ''j2''" "23 * hour" d1] show ?thesis
    by (simp add: unique_env_def lock_key_def)
qed

text \<open>C17: archival neither loses nor duplicates a job, whatever fails: when it reports a count,
  exactly the processed and dead jobs not touched for the given age, that many, have moved
  unchanged from the jobs to the archive; when it reports an error nothing has moved.\<close>

theorem archive_conserves_jobs:
  assumes "Sqlite_ArchiveJobs now age (d, fs) = Some (res, (d', fs'))"
  shows "mset (jobs d') + mset (archived_jobs d') = mset (jobs d) + mset (archived_jobs d)
    \<and> (case res of Inl e \<Rightarrow> d' = d
       | Inr n \<Rightarrow> n = int (length (filter (archivable (now - age)) (jobs d)))
           \<and> archived_jobs d' = archived_jobs d @ filter (archivable (now - age)) (jobs d)
           \<and> list_all (\<lambda>r. \<not> archivable (now - age) r) (jobs d'))"
  using tripleD[OF ArchiveJobs_triple assms refl] by (cases res) (auto simp: list_all_iff)

theorem archive_conserves_jobs_witness:
  "\<exists>d'. Sqlite_ArchiveJobs (2 * hour) hour (finished_db, []) = Some (Inr 1, (d', []))
     \<and> mset (jobs d') + mset (archived_jobs d') = mset (jobs finished_db) + mset (archived_jobs finished_db)"
proof -
  have f: "filter (archivable (2 * hour - hour)) (jobs finished_db) = jobs finished_db"
    by (simp add: finished_db_def archivable_def default_job_row_def cur_ts_def)
  have "Sqlite_ArchiveJobs (2 * hour) hour (finished_db, [])
      = Some (Inr 1, (archived_db (2 * hour - hour) finished_db, []))"
    by (subst ArchiveJobs_ok_run) (simp_all only: f, simp_all add: finished_db_def has_key_def empty_db_def)
  from this archive_conserves_jobs[OF this] show ?thesis by blast
qed

text \<open>One job whose id is archived already stops archival for good: every later archival
  with the same age fails too and moves none of the other jobs.\<close>

theorem archive_blocked_for_good:
  assumes "r \<in> set (jobs d)" "archivable (now - age) r" "has_key j_id (j_id r) (archived_jobs d)"
    "now \<le> later"
  shows "Sqlite_ArchiveJobs later age (d, []) = Some (Inl ErrConstraint, (d, []))"
proof -
  have "archivable (later - age) r" using assms(2,4) by (auto simp: archivable_def)
  with assms(1,3) have "\<not> list_all (\<lambda>r. \<not> has_key j_id (j_id r) (archived_jobs d))
      (filter (archivable (later - age)) (jobs d))"
    by (auto simp: list_all_iff)
  then show ?thesis by (rule ArchiveJobs_conflict_run)
qed

definition rearchived_db :: db where
  "rearchived_db = empty_db\<lparr>
     jobs := [(default_job_row 0 ''p'' ''q'' ''A'' [])\<lparr>j_status := Processed\<rparr>,
              (default_job_row 0 ''x'' ''q'' ''A'' [])\<lparr>j_status := Dead\<rparr>],
     archived_jobs := [(default_job_row 0 ''p'' ''q'' ''A'' [])\<lparr>j_status := Processed\<rparr>]\<rparr>"

theorem archive_blocked_for_good_witness:
  "Sqlite_ArchiveJobs (100 * hour) hour (rearchived_db, []) = Some (Inl ErrConstraint, (rearchived_db, []))"
  using archive_blocked_for_good[of "(default_job_row 0 ''p'' ''q'' ''A'' [])\<lparr>j_status := Processed\<rparr>"
      rearchived_db "2 * hour" hour "100 * hour"]
  by (simp add: rearchived_db_def archivable_def default_job_row_def has_key_def cur_ts_def)

end
