(* ===== verification/SqliteOwner.thy ===== *)
theory SqliteOwner
  imports SqliteQueue
begin

text \<open>
  Who may change a job while it is being run. A row that is running and waits for no parent belongs to
  the worker that runs it: only the calls that name the job, overwrite its id or clear its queue change
  it, whatever the other calls are, in whatever order they come and whatever statements fail in them.
\<close>

definition owned :: "job_row \<Rightarrow> db \<Rightarrow> bool" where
  "owned r d \<longleftrightarrow> j_status r = Running \<and> r \<in> set (jobs d) \<and> (\<forall>x\<in>set (jobs d). j_id x = j_id r \<longrightarrow> x = r)
     \<and> j_id r \<notin> fst ` set (job_dependencies d)"

text \<open>The calls that are about the job \<open>j\<close> of the queue \<open>q\<close>, and a step of any other call.\<close>

fun concerns :: "string \<Rightarrow> string \<Rightarrow> call \<Rightarrow> bool" where
  "concerns j q (CEnqueue now env) = (JobID env = j)"
| "concerns j q (CEnqueueWorkflow now js) = (j \<in> JobID ` set js)"
| "concerns j q (CAck now rnd i) = (i = j)"
| "concerns j q (CFail stack now i e) = (i = j)"
| "concerns j q (CRetry now i) = (i = j)"
| "concerns j q (CCancel stack now i) = (i = j)"
| "concerns j q (CPostponeJob now i p delay) = (i = j)"
| "concerns j q (CRetryModified now i args) = (i = j)"
| "concerns j q (CBulkRetry now js) = (j \<in> set js)"
| "concerns j q (CBulkCancel js) = (j \<in> set js)"
| "concerns j q (CBulkPurge js) = (j \<in> set js)"
| "concerns j q (CClearQueue p) = (p = q)"
| "concerns j q _ = False"

inductive other_step :: "string \<Rightarrow> string \<Rightarrow> db \<Rightarrow> db \<Rightarrow> bool" for j q where
  "\<not> concerns j q c \<Longrightarrow> run_call c (d, fs) = Some (r, (d', fs')) \<Longrightarrow> other_step j q d d'"

inductive_cases other_stepE: "other_step j q d d'"

section \<open>Statements\<close>

lemma owned_running: "owned r d \<Longrightarrow> j_status r = Running"
  by (simp add: owned_def)

lemma own_update:
  "owned r d \<Longrightarrow> \<not> P r \<Longrightarrow> (\<And>x. j_id (f x) = j_id x) \<Longrightarrow> owned r (jobs_update (t_update P f) d)"
  by (fastforce simp: owned_def t_update_def)

lemma own_delete: "owned r d \<Longrightarrow> \<not> P r \<Longrightarrow> owned r (jobs_update (t_delete P) d)"
  by (auto simp: owned_def t_delete_def)

lemma own_insert: "owned r d \<Longrightarrow> \<not> has_key j_id (j_id x) (jobs d) \<Longrightarrow> owned r (jobs_update (\<lambda>t. t @ [x]) d)"
  by (auto simp: owned_def has_key_def)

lemma own_upsert:
  "owned r d \<Longrightarrow> j_id x \<noteq> j_id r \<Longrightarrow> (\<And>y. j_id (f y) = j_id y) \<Longrightarrow> owned r (jobs_update (t_upsert j_id x f) d)"
  by (fastforce simp: owned_def t_upsert_def t_update_def)

lemma own_frame:
  "jobs d' = jobs d \<Longrightarrow> job_dependencies d' = job_dependencies d \<Longrightarrow> owned r d \<Longrightarrow> owned r d'"
  by (simp add: owned_def)

lemma own_dep_insert:
  "owned r d \<Longrightarrow> c \<noteq> j_id r \<Longrightarrow> owned r (job_dependencies_update (t_insert_ignore (\<lambda>q. q) (c, p)) d)"
  by (auto simp: owned_def t_insert_ignore_def)

lemma own_dep_delete: "owned r d \<Longrightarrow> owned r (job_dependencies_update (t_delete P) d)"
  by (auto simp: owned_def t_delete_def)

lemmas own_rules = own_update own_delete own_insert own_upsert own_dep_insert own_dep_delete

lemma own_locks: "keeps (owned r) (Sqlite_acquireUniqueLock now env)" "keeps (owned r) (Sqlite_deleteUniqueLock q k)"
  unfolding sqlite_lock_defs by (intro keeps_rules; auto elim: own_frame[rotated 2])+

section \<open>Resolving and cascading\<close>

lemma own_children:
  "triple (owned r) (Sqlite_queryChildJobIDs p) (\<lambda>cs d. owned r d \<and> j_id r \<notin> set cs) (\<lambda>_. owned r)"
  unfolding Sqlite_queryChildJobIDs_def by (rule triple_query) (auto simp: owned_def)

lemma keeps_bind_children:
  assumes "\<And>cs. j_id r \<notin> set cs \<Longrightarrow> keeps (owned r) (f cs)"
  shows "keeps (owned r) (bindS (Sqlite_queryChildJobIDs p) f)"
  unfolding keeps_def
  by (rule triple_bind[OF own_children]) (rule triple_pure, use assms in \<open>simp add: keeps_def\<close>)

lemma own_resolveDependencies: "keeps (owned r) (Sqlite_resolveDependencies now p)"
  unfolding Sqlite_resolveDependencies_def Sqlite_checkBlockedChildren_def
  by (intro keeps_bind_children keeps_rules) (auto intro!: own_rules)

lemma own_transitionToDead:
  assumes "\<And>j. keeps (owned r) (casc j)" "c \<noteq> j_id r"
  shows "keeps (owned r) (Sqlite_transitionToDead casc now c e k q b)"
  unfolding Sqlite_transitionToDead_def set_batch_status_def
  by (intro keeps_rules own_locks assms(1)) (use assms(2) in \<open>auto intro!: own_rules elim: own_frame[rotated 2]\<close>)

lemma own_cascade: "keeps (owned r) (Sqlite_cascadeDependencyFailure n now j)"
proof (induction n arbitrary: j)
  case (Suc n)
  show ?case
    unfolding Sqlite_cascadeDependencyFailure.simps Sqlite_failChildren_def Let_def
    by (intro keeps_bind_children keeps_rules own_transitionToDead Suc.IH) (auto intro!: own_rules)
qed (simp add: keeps_crash)

section \<open>Calls\<close>

lemma own_batch:
  "keeps (owned r) (Sqlite_CreateBatch now b cb ex)" "keeps (owned r) (Sqlite_EnqueueInBatch now b env)"
  "keeps (owned r) (Sqlite_SubmitBatch now rnd b)" "keeps (owned r) (Sqlite_handleBatchAck now rnd b)"
  unfolding batch_defs
  by (intro keeps_rules own_locks;
      auto intro!: own_insert simp: default_job_row_def elim: own_frame[rotated 2])+

lemma own_Ack: "j \<noteq> j_id r \<Longrightarrow> keeps (owned r) (Sqlite_Ack now rnd j)"
  unfolding Sqlite_Ack_def Sqlite_performAck_def
  by (intro keeps_rules own_locks own_batch own_resolveDependencies) (auto intro!: own_rules)

lemma own_Fail: "j \<noteq> j_id r \<Longrightarrow> keeps (owned r) (Sqlite_Fail stack now j e)"
  unfolding Sqlite_Fail_def Sqlite_beginAndPerformFail_def Sqlite_performFail_def Let_def
  by (intro keeps_rules own_transitionToDead own_cascade) (auto intro!: own_rules)

lemma own_Cancel: "j \<noteq> j_id r \<Longrightarrow> keeps (owned r) (Sqlite_Cancel stack now j)"
  unfolding Sqlite_Cancel_def Let_def
  by (intro keeps_rules own_locks own_cascade) (auto intro!: own_rules)

lemma own_EnqueueWorkflow: "\<forall>x\<in>set js. JobID x \<noteq> j_id r \<Longrightarrow> keeps (owned r) (Sqlite_EnqueueWorkflow now js)"
  unfolding Sqlite_EnqueueWorkflow_def Sqlite_insertWorkflowJobs_def Sqlite_insertWorkflowJob_def
    Sqlite_execInsertJob_def Sqlite_insertJobDependencies_def Let_def
  by (intro keeps_rules own_locks) (auto intro!: own_rules simp: default_job_row_def)

text \<open>A dequeue takes a pending row.\<close>

lemma findMatching_in: "Sqlite_findMatchingJob rows ws = Some env \<Longrightarrow> \<exists>x\<in>set rows. JobID env = j_id x"
  by (induction rows ws rule: Sqlite_findMatchingJob.induct)
    (auto simp: Sqlite_scanJobFrom_def Let_def split: if_splits)

lemma own_Dequeue: "keeps (owned r) (Sqlite_Dequeue now q ws)"
proof -
  have "triple (owned r) (query (Sqlite_candidates now q))
      (\<lambda>rows d. owned r d \<and> j_id r \<notin> j_id ` set rows) (\<lambda>_. owned r)"
    by (rule triple_query) (auto simp: owned_def eligible_def dest!: candidates_set)
  moreover have "keeps (owned r) (case Sqlite_findMatchingJob rows ws of
       None \<Rightarrow> ret None
     | Some selected \<Rightarrow>
         thenS (exec (jobs_update (t_update (\<lambda>r. j_id r = JobID selected)
                  (\<lambda>r. r\<lparr>j_status := Running, j_locked_at := Some (cur_ts now)\<rparr>))))
           (ret (Some selected)))" if "j_id r \<notin> j_id ` set rows" for rows
    using that findMatching_in[of rows ws]
    by (auto intro!: keeps_rules own_rules split: option.split)
  ultimately have "keeps (owned r) (Sqlite_dequeueTx now q ws)"
    unfolding Sqlite_dequeueTx_def keeps_def
    by (elim triple_bind) (rule triple_pure, simp)
  then show ?thesis unfolding Sqlite_Dequeue_def by (intro keeps_rules)
qed

lemma own_simple:
  "keeps (owned r) (Sqlite_AcquireLeader now c ttl)" "keeps (owned r) (Sqlite_ReleaseLeader c)"
  "keeps (owned r) (Sqlite_ArchiveJobs now age)" "keeps (owned r) (Sqlite_RetryAllFailed now)"
  "keeps (owned r) Sqlite_PurgeAllFailed"
  "keeps (owned r) (Sqlite_PurgeExpiredDLQ now ttl)" "keeps (owned r) (Sqlite_FailExpiredBatches now)"
  "keeps (owned r) (Sqlite_GetActiveProcesses now)" "keeps (owned r) (Sqlite_GetStats now)"
  "keeps (owned r) (Sqlite_RegisterProcess info)" "keeps (owned r) (Sqlite_HeartbeatProcess now p)"
  "keeps (owned r) (Sqlite_PauseQueue q)" "keeps (owned r) (Sqlite_ResumeQueue q)"
  "keeps (owned r) (Sqlite_RegisterCronJobs now cs)" "keeps (owned r) (Sqlite_SaveCronSchedule now cr)"
  "keeps (owned r) (Sqlite_DeleteCronSchedule nm)" "keeps (owned r) (Sqlite_LockCronExecution now nm t)"
  "keeps (owned r) (Sqlite_CheckRateLimit now nm l per)"
  unfolding be_simple_defs
  by (intro keeps_rules;
      auto intro!: own_rules simp: default_job_row_def reset_row_def archivable_def dest: owned_running elim: own_frame[rotated 2])+

lemma own_named:
  "JobID env \<noteq> j_id r \<Longrightarrow> keeps (owned r) (Sqlite_Enqueue now env)"
  "j \<noteq> j_id r \<Longrightarrow> keeps (owned r) (Sqlite_Retry now j)"
  "j \<noteq> j_id r \<Longrightarrow> keeps (owned r) (Sqlite_PostponeJob now j q delay)"
  "j \<noteq> j_id r \<Longrightarrow> keeps (owned r) (Sqlite_RetryModified now j args)"
  "j_id r \<notin> set js \<Longrightarrow> keeps (owned r) (Sqlite_BulkRetry now js)"
  "j_id r \<notin> set js \<Longrightarrow> keeps (owned r) (Sqlite_BulkPurge js)"
  "j_id r \<notin> set js \<Longrightarrow> keeps (owned r) (Sqlite_BulkCancel js)"
  "q \<noteq> j_queue r \<Longrightarrow> keeps (owned r) (Sqlite_ClearQueue q)"
  unfolding be_simple_defs
  by (intro keeps_rules own_locks;
      auto intro!: own_rules simp: default_job_row_def reset_row_def elim: own_frame[rotated 2])+

lemma own_run_call: "\<not> concerns (j_id r) (j_queue r) c \<Longrightarrow> keeps (owned r) (run_call c)"
  by (cases c)
    (auto intro!: own_EnqueueWorkflow simp: image_iff own_simple own_named own_batch own_Ack own_Fail own_Cancel own_Dequeue
      keeps_reads keeps_void)

lemma own_other_steps:
  assumes "(other_step (j_id r) (j_queue r))\<^sup>*\<^sup>* d d'" "owned r d"
  shows "owned r d'"
  using assms by induction (auto elim!: other_stepE dest: keepsD[OF own_run_call])

lemma Dequeue_owns:
  assumes "pk_ok d" "Sqlite_Dequeue now q ws (d, fs) = Some (Inr (Some env), (d', fs'))"
    and "JobID env \<notin> fst ` set (job_dependencies d)"
  obtains r where "owned r d'" "j_id r = JobID env" "j_queue r = Queue env"
proof -
  from tripleD_ok[OF Dequeue_triple assms(2) refl] obtain r where r: "first_match now q ws d = Some r"
    "env = Sqlite_scanJobFrom r"
    "d' = jobs_update (t_update (\<lambda>x. j_id x = j_id r) (mark_running now)) d" by auto
  have env: "JobID env = j_id r" "Queue env = j_queue r" by (simp_all add: r(2) Sqlite_scanJobFrom_def Let_def)
  have uniq: "x = r" if "x \<in> set (jobs d)" "j_id x = j_id r" for x
    using that first_match_SomeD[OF r(1)] assms(1) by (auto simp: pk_ok_def dest: eq_key_imp_eq_value inj_onD distinct_map[THEN iffD1])
  have "owned (mark_running now r) d'"
    using first_match_SomeD[OF r(1)] assms(3) uniq
    by (fastforce simp: owned_def r(3) env t_update_def mark_running_def)
  with that show thesis by (simp add: env mark_running_def)
qed

text \<open>The row that is owned is the one that is read by the job's id, and no dequeue returns it.\<close>

lemma owned_row:
  assumes "owned r d"
  shows "job_by_id (j_id r) d = Some r"
proof -
  have "t_find (\<lambda>x. j_id x = j_id r) (jobs d) \<noteq> None"
    using assms by (auto simp: owned_def t_find_None_key has_key_def)
  then obtain x where x: "t_find (\<lambda>x. j_id x = j_id r) (jobs d) = Some x" by blast
  from t_find_SomeD[OF x] assms have "x = r" by (auto simp: owned_def)
  with x show ?thesis by (simp add: job_by_id_def)
qed

lemma owned_not_dequeued:
  assumes "owned r d" "Sqlite_Dequeue now q ws (d, fs) = Some (Inr (Some env), c)"
  shows "JobID env \<noteq> j_id r"
proof -
  obtain d' fs' where "c = (d', fs')" by fastforce
  with assms(2) have "pending_id d (JobID env)" using Dequeue_pending_id by blast
  then obtain x where x: "x \<in> set (jobs d)" "j_id x = JobID env" "j_status x = Pending"
    unfolding pending_id_def by blast
  have "x = r \<Longrightarrow> False" using x(3) owned_running[OF assms(1)] by simp
  moreover have "j_id x = j_id r \<Longrightarrow> x = r" using assms(1) x(1) unfolding owned_def by blast
  ultimately show ?thesis using x(2) by metis
qed

text \<open>C8: A job belongs to the worker that dequeued it. Whatever other calls clients, workers and the
  dashboard then make, in any number and order and with any statements failing, as long as they do
  not name the job, enqueue its id again or clear its queue: its row stays as the dequeue left it,
  running, and no dequeue returns the job. This holds for a job that waits for no parent.\<close>

theorem running_job_is_owned:
  assumes "reachable d" "Sqlite_Dequeue now q ws (d, fs) = Some (Inr (Some env), (d1, fs1))"
    and "JobID env \<notin> fst ` set (job_dependencies d)"
    and "(other_step (JobID env) (Queue env))\<^sup>*\<^sup>* d1 d2"
  shows "job_by_id (JobID env) d2 = job_by_id (JobID env) d1
    \<and> map_option j_status (job_by_id (JobID env) d2) = Some Running
    \<and> (Sqlite_Dequeue now' q' ws' (d2, fs2) = Some (Inr (Some env'), c) \<longrightarrow> JobID env' \<noteq> JobID env)"
proof -
  obtain r where r: "owned r d1" "j_id r = JobID env" "j_queue r = Queue env"
    using Dequeue_owns[OF reachable_pk[OF assms(1)] assms(2,3)] .
  have "owned r d2" using own_other_steps[OF _ r(1), of d2] assms(4) by (simp add: r(2,3))
  then show ?thesis
    using owned_row[OF r(1)] owned_row[of r d2] owned_not_dequeued[of r d2 now' q' ws' fs2 env' c]
    by (auto simp: r(2) owned_def)
qed

definition queued_db :: db where
  "queued_db = fst (snd (the (Sqlite_Enqueue 0 (zero_envelope\<lparr>JobID := ''j'', Queue := ''q''\<rparr>) (empty_db, []))))"

lemma queued_reachable: "reachable queued_db"
proof -
  have "run_call (CEnqueue 0 (zero_envelope\<lparr>JobID := ''j'', Queue := ''q''\<rparr>)) (empty_db, []) = Some (Inr (), (queued_db, []))"
    by code_simp
  then show ?thesis by (rule reachable_run[OF reachable.start])
qed

theorem running_job_is_owned_witness:
  "\<exists>env d1 d2. Sqlite_Dequeue 0 ''q'' [] (queued_db, []) = Some (Inr (Some env), (d1, []))
     \<and> run_call (CRetryAllFailed 0) (d1, []) = Some (Inr (), (d2, []))
     \<and> map_option j_status (job_by_id (JobID env) d2) = Some Running"
proof -
  obtain env d1 where d1: "Sqlite_Dequeue 0 ''q'' [] (queued_db, []) = Some (Inr (Some env), (d1, []))"
    and env: "JobID env = ''j'' \<and> Queue env = ''q''"
  proof -
    have "map_option (\<lambda>(r, c). (snd c, map_option (\<lambda>e. (JobID e, Queue e)) (projr r)))
        (Sqlite_Dequeue 0 ''q'' [] (queued_db, [])) = Some ([], Some (''j'', ''q''))"
      by code_simp
    moreover have "case Sqlite_Dequeue 0 ''q'' [] (queued_db, []) of Some (Inr _, _) \<Rightarrow> True | _ \<Rightarrow> False"
      by code_simp
    ultimately show thesis using that by (auto split: option.splits sum.splits)
  qed
  obtain d2 where d2: "run_call (CRetryAllFailed 0) (d1, []) = Some (Inr (), (d2, []))"
    by (simp add: Sqlite_RetryAllFailed_def exec_run)
  have "other_step (JobID env) (Queue env) d1 d2" by (rule other_step.intros[OF _ d2]) simp
  then have steps: "(other_step (JobID env) (Queue env))\<^sup>*\<^sup>* d1 d2" by simp
  have "JobID env \<notin> fst ` set (job_dependencies queued_db)"
    unfolding env[THEN conjunct1] by code_simp
  from running_job_is_owned[OF queued_reachable d1 this steps] d1 d2 show ?thesis by blast
qed

text \<open>The exceptions are real: \<open>Retry\<close>, which is meant for failed jobs, does not look at the status. It makes
  a running job pending, so that a second worker can get it.\<close>

theorem retry_hands_out_running_job:
  assumes "job_by_id j d = Some r"
  shows "\<exists>d'. Sqlite_Retry now j (d, []) = Some (Inr (), (d', []))
    \<and> map_option j_status (job_by_id j d') = Some Pending"
  using assms t_find_SomeD[of "\<lambda>x. j_id x = j" "jobs d" r]
  by (auto simp: Sqlite_Retry_def exec_run job_by_id_def t_find_update reset_row_def)

end
