(* ===== verification/Storage.thy ===== *)
theory Storage
  imports SqliteAdmin
begin

text \<open>
  The storage interfaces of \<open>queue.go\<close> as the client and the worker use them, and the SQLite
  backend as an implementation. An interface is a record of operations on an abstract storage
  state; an operation returns its result, an error or a value, and the new state, and \<open>None\<close>
  when the process dies in it. The clock readings and random bytes of an operation are arguments
  of the instance.
\<close>

section \<open>Interfaces\<close>

type_synonym ('s, 'a) act = "'s \<Rightarrow> ('a \<times> 's) option"
type_synonym ('s, 'a) storage_op = "('s, err + 'a) act"

text \<open>\<open>ClientStorage\<close>: the operations \<open>Client\<close> and \<open>Batch\<close> call.\<close>

record 's ClientStorage =
  cs_Enqueue :: "JobEnvelope \<Rightarrow> ('s, unit) storage_op"
  cs_CreateBatch :: "string \<Rightarrow> JobEnvelope \<Rightarrow> time option \<Rightarrow> ('s, unit) storage_op"
  cs_EnqueueInBatch :: "string \<Rightarrow> JobEnvelope \<Rightarrow> ('s, unit) storage_op"
  cs_SubmitBatch :: "string \<Rightarrow> ('s, unit) storage_op"
  cs_EnqueueWorkflow :: "JobEnvelope list \<Rightarrow> ('s, unit) storage_op"

text \<open>\<open>WorkerPoolStorage\<close>: the operations \<open>WorkerPool\<close> calls. \<open>Fail\<close> gets the text of the
  error, all that a backend uses of it.\<close>

record 's WorkerPoolStorage =
  ws_Enqueue :: "JobEnvelope \<Rightarrow> ('s, unit) storage_op"
  ws_Dequeue :: "string \<Rightarrow> string list \<Rightarrow> ('s, JobEnvelope option) storage_op"
  ws_Ack :: "string \<Rightarrow> ('s, unit) storage_op"
  ws_Fail :: "string \<Rightarrow> string \<Rightarrow> ('s, unit) storage_op"
  ws_PollScheduled :: "string \<Rightarrow> ('s, unit) storage_op"
  ws_PostponeJob :: "string \<Rightarrow> string \<Rightarrow> duration \<Rightarrow> ('s, unit) storage_op"
  ws_RegisterProcess :: "ProcessInfo \<Rightarrow> ('s, unit) storage_op"
  ws_LockCronExecution :: "string \<Rightarrow> time \<Rightarrow> ('s, bool) storage_op"
  ws_GetRunningJobsCount :: "string \<Rightarrow> ('s, int) storage_op"
  ws_CheckRateLimit :: "string \<Rightarrow> int \<Rightarrow> duration \<Rightarrow> ('s, bool) storage_op"
  ws_GetStats :: "('s, Stats) storage_op"
  ws_IsQueuePaused :: "string \<Rightarrow> ('s, bool) storage_op"
  ws_RegisterCronJobs :: "CronJob list \<Rightarrow> ('s, unit) storage_op"
  ws_PurgeExpiredDLQ :: "duration \<Rightarrow> ('s, unit) storage_op"
  ws_FailExpiredBatches :: "('s, unit) storage_op"
  ws_GetCronSchedules :: "('s, CronJob list) storage_op"
  ws_AcquireLeader :: "string \<Rightarrow> duration \<Rightarrow> ('s, bool) storage_op"
  ws_ReleaseLeader :: "string \<Rightarrow> ('s, unit) storage_op"
  ws_ArchiveJobs :: "duration \<Rightarrow> ('s, int) storage_op"

section \<open>Sequencing\<close>

text \<open>The combinators the client and worker models are written with: errors are values here,
  since the worker inspects or drops them.\<close>

definition done_with :: "'a \<Rightarrow> ('s, 'a) act" where
  "done_with x = (\<lambda>s. Some (x, s))"

definition and_then :: "('s, 'a) act \<Rightarrow> ('a \<Rightarrow> ('s, 'b) act) \<Rightarrow> ('s, 'b) act" where
  "and_then m f = (\<lambda>s. case m s of None \<Rightarrow> None | Some (x, s') \<Rightarrow> f x s')"

fun each :: "('x \<Rightarrow> ('s, unit) act) \<Rightarrow> 'x list \<Rightarrow> ('s, unit) act" where
  "each f [] = done_with ()"
| "each f (x # xs) = and_then (f x) (\<lambda>_. each f xs)"

lemma done_with_run [run_simps]: "done_with x s = Some (x, s)"
  by (simp add: done_with_def)

lemma and_then_run [run_simps]:
  "and_then m f s = (case m s of None \<Rightarrow> None | Some (x, s') \<Rightarrow> f x s')"
  by (simp add: and_then_def)

text \<open>An action that keeps a predicate of its state, whatever its result.\<close>

definition act_keeps :: "('s \<Rightarrow> bool) \<Rightarrow> ('s, 'a) act \<Rightarrow> bool" where
  "act_keeps I m \<longleftrightarrow> (\<forall>s x s'. I s \<longrightarrow> m s = Some (x, s') \<longrightarrow> I s')"

named_theorems act_rules

lemma act_keepsD: "act_keeps I m \<Longrightarrow> m s = Some (x, s') \<Longrightarrow> I s \<Longrightarrow> I s'"
  by (auto simp: act_keeps_def)

lemma act_done [act_rules]: "act_keeps I (done_with x)"
  by (simp add: act_keeps_def done_with_def)

lemma act_then [act_rules]: "act_keeps I m \<Longrightarrow> (\<And>x. act_keeps I (f x)) \<Longrightarrow> act_keeps I (and_then m f)"
proof (unfold act_keeps_def, intro allI impI)
  fix s y s'
  assume m: "\<forall>s x s'. I s \<longrightarrow> m s = Some (x, s') \<longrightarrow> I s'"
    and f: "\<And>x. \<forall>s y s'. I s \<longrightarrow> f x s = Some (y, s') \<longrightarrow> I s'"
    and s: "I s" "and_then m f s = Some (y, s')"
  from s(2) obtain x s1 where "m s = Some (x, s1)" "f x s1 = Some (y, s')"
    by (auto simp: and_then_def split: option.splits)
  with m f s(1) show "I s'" by blast
qed

lemma act_each [act_rules]: "(\<And>x. act_keeps I (f x)) \<Longrightarrow> act_keeps I (each f xs)"
  by (induction xs) (auto intro!: act_rules)

section \<open>The SQLite backend behind the interfaces\<close>

definition sqlite_client :: "time \<Rightarrow> bytes \<Rightarrow> conn ClientStorage" where
  "sqlite_client now rnd =
     \<lparr>cs_Enqueue = Sqlite_Enqueue now, cs_CreateBatch = Sqlite_CreateBatch now,
      cs_EnqueueInBatch = Sqlite_EnqueueInBatch now, cs_SubmitBatch = Sqlite_SubmitBatch now rnd,
      cs_EnqueueWorkflow = Sqlite_EnqueueWorkflow now\<rparr>"

definition sqlite_worker :: "nat \<Rightarrow> time \<Rightarrow> bytes \<Rightarrow> conn WorkerPoolStorage" where
  "sqlite_worker stack now rnd =
     \<lparr>ws_Enqueue = Sqlite_Enqueue now, ws_Dequeue = Sqlite_Dequeue now, ws_Ack = Sqlite_Ack now rnd,
      ws_Fail = Sqlite_Fail stack now, ws_PollScheduled = Sqlite_PollScheduled,
      ws_PostponeJob = Sqlite_PostponeJob now, ws_RegisterProcess = Sqlite_RegisterProcess,
      ws_LockCronExecution = Sqlite_LockCronExecution now,
      ws_GetRunningJobsCount = Sqlite_GetRunningJobsCount, ws_CheckRateLimit = Sqlite_CheckRateLimit now,
      ws_GetStats = Sqlite_GetStats now, ws_IsQueuePaused = Sqlite_IsQueuePaused,
      ws_RegisterCronJobs = Sqlite_RegisterCronJobs now, ws_PurgeExpiredDLQ = Sqlite_PurgeExpiredDLQ now,
      ws_FailExpiredBatches = Sqlite_FailExpiredBatches now, ws_GetCronSchedules = Sqlite_GetCronSchedules,
      ws_AcquireLeader = Sqlite_AcquireLeader now, ws_ReleaseLeader = Sqlite_ReleaseLeader,
      ws_ArchiveJobs = Sqlite_ArchiveJobs now\<rparr>"

end
