(* ===== verification/Breaker.thy ===== *)
theory Breaker
  imports Core
begin

text \<open>
  The client-side circuit breaker of \<open>circuit_breaker.go\<close>. Every method runs under the
  mutex, so a method is one step; the calls they bracket run outside it, so before-steps
  and after-steps of several callers interleave freely. \<open>now\<close> is the clock a method reads
  while it holds the lock.
\<close>

datatype cbState = cbStateClosed | cbStateOpen | cbStateHalfOpen

record CircuitBreakerConfig =
  Cooldown :: duration
  LatencyThreshold :: duration
  FailureThreshold :: int

record circuitBreaker =
  lastStateChg :: time
  config :: CircuitBreakerConfig
  failures :: int
  state :: cbState

section \<open>The code\<close>

definition newCircuitBreaker :: "CircuitBreakerConfig \<Rightarrow> time \<Rightarrow> circuitBreaker" where
  "newCircuitBreaker cfg now =
     \<lparr>lastStateChg = now, config = cfg, failures = 0, state = cbStateClosed\<rparr>"

definition beforeCall :: "time \<Rightarrow> circuitBreaker \<Rightarrow> err option \<times> circuitBreaker" where
  "beforeCall now cb =
     (if state cb = cbStateOpen then
        (if now - lastStateChg cb > Cooldown (config cb)
         then (None, cb\<lparr>state := cbStateHalfOpen, lastStateChg := now\<rparr>)
         else (Some ErrCircuitBreakerOpen, cb))
      else (None, cb))"

definition handleFailure :: "time \<Rightarrow> circuitBreaker \<Rightarrow> circuitBreaker" where
  "handleFailure now cb =
     (if state cb = cbStateHalfOpen \<or> failures cb \<ge> FailureThreshold (config cb)
      then cb\<lparr>state := cbStateOpen, lastStateChg := now\<rparr> else cb)"

definition is_fail :: "bool \<Rightarrow> duration \<Rightarrow> CircuitBreakerConfig \<Rightarrow> bool" where
  "is_fail err elapsed cfg \<longleftrightarrow>
     err \<or> (LatencyThreshold cfg > 0 \<and> elapsed > LatencyThreshold cfg)"

definition afterCall :: "bool \<Rightarrow> duration \<Rightarrow> time \<Rightarrow> circuitBreaker \<Rightarrow> circuitBreaker" where
  "afterCall err elapsed now cb =
     (if is_fail err elapsed (config cb)
      then handleFailure now (cb\<lparr>failures := failures cb + 1\<rparr>)
      else
        (let cb1 = (if state cb = cbStateHalfOpen
                    then cb\<lparr>state := cbStateClosed, lastStateChg := now\<rparr> else cb)
         in cb1\<lparr>failures := 0\<rparr>))"

lemmas breaker_defs = beforeCall_def handleFailure_def afterCall_def Let_def

section \<open>Interleaved calls\<close>

text \<open>
  A configuration is the breaker and the number of admitted calls that have not finished.
\<close>

inductive cb_step :: "circuitBreaker \<times> nat \<Rightarrow> circuitBreaker \<times> nat \<Rightarrow> bool" where
  admit: "beforeCall now cb = (None, cb') \<Longrightarrow> cb_step (cb, n) (cb', Suc n)"
| reject: "beforeCall now cb = (Some e, cb') \<Longrightarrow> cb_step (cb, n) (cb', n)"
| finish: "cb_step (cb, Suc n) (afterCall err elapsed now cb, n)"

inductive cb_reach :: "CircuitBreakerConfig \<Rightarrow> circuitBreaker \<times> nat \<Rightarrow> bool" for cfg where
  start: "cb_reach cfg (newCircuitBreaker cfg now, 0)"
| step: "cb_reach cfg s \<Longrightarrow> cb_step s t \<Longrightarrow> cb_reach cfg t"

inductive_cases cb_stepE: "cb_step s t"

definition cb_inv :: "CircuitBreakerConfig \<Rightarrow> circuitBreaker \<Rightarrow> bool" where
  "cb_inv cfg cb \<longleftrightarrow> config cb = cfg \<and> 0 \<le> failures cb
     \<and> (state cb = cbStateClosed \<longrightarrow> failures cb < max 1 (FailureThreshold cfg))"

lemma cb_inv_before: "cb_inv cfg cb \<Longrightarrow> cb_inv cfg (snd (beforeCall now cb))"
  by (auto simp: cb_inv_def beforeCall_def)

lemma cb_inv_after: "cb_inv cfg cb \<Longrightarrow> cb_inv cfg (afterCall err elapsed now cb)"
  by (auto simp: cb_inv_def breaker_defs)

lemma cb_step_inv: "cb_step s t \<Longrightarrow> cb_inv cfg (fst s) \<Longrightarrow> cb_inv cfg (fst t)"
proof (erule cb_stepE, goal_cases)
  case (1 now cb cb' n)
  then show ?case using cb_inv_before[of cfg cb now] by simp
next
  case (2 now cb e cb' n)
  then show ?case using cb_inv_before[of cfg cb now] by simp
next
  case (3 cb n err elapsed now)
  then show ?case using cb_inv_after by simp
qed

lemma cb_reach_inv: "cb_reach cfg s \<Longrightarrow> cb_inv cfg (fst s)"
proof (induction rule: cb_reach.induct)
  case (start now)
  then show ?case by (simp add: cb_inv_def newCircuitBreaker_def)
next
  case (step s t)
  then show ?case by (blast intro: cb_step_inv)
qed

section \<open>Consecutive failures\<close>

fun fail_run :: "(duration \<times> time) list \<Rightarrow> circuitBreaker \<Rightarrow> circuitBreaker" where
  "fail_run [] cb = cb"
| "fail_run ((elapsed, now) # cs) cb = fail_run cs (afterCall True elapsed now cb)"

lemma after_failure_closed:
  assumes "state cb = cbStateClosed"
  shows "afterCall True el now cb =
    (if failures cb + 1 \<ge> FailureThreshold (config cb)
     then cb\<lparr>failures := failures cb + 1, state := cbStateOpen, lastStateChg := now\<rparr>
     else cb\<lparr>failures := failures cb + 1\<rparr>)"
  using assms by (simp add: breaker_defs is_fail_def)

lemma fail_run_open: "state cb = cbStateOpen \<Longrightarrow> state (fail_run cs cb) = cbStateOpen"
  by (induction cs cb rule: fail_run.induct) (auto simp: breaker_defs is_fail_def)

lemma fail_run_closed:
  assumes "state cb = cbStateClosed"
  shows "state (fail_run cs cb) =
    (if cs \<noteq> [] \<and> failures cb + int (length cs) \<ge> FailureThreshold (config cb)
     then cbStateOpen else cbStateClosed)"
  using assms
proof (induction cs cb rule: fail_run.induct)
  case (2 el now cs cb)
  show ?case
  proof (cases "failures cb + 1 \<ge> FailureThreshold (config cb)")
    case True
    with 2 show ?thesis by (simp add: after_failure_closed fail_run_open)
  next
    case False
    with 2 show ?thesis by (cases cs) (auto simp: after_failure_closed)
  qed
qed simp

section \<open>Properties\<close>

text \<open>Under every interleaving of admitted calls, a closed breaker has counted fewer
  consecutive failures than the threshold (one, if the threshold is not positive), and the
  configuration never changes.\<close>

theorem breaker_closed_below_threshold:
  assumes "cb_reach cfg (cb, n)" "state cb = cbStateClosed"
  shows "0 \<le> failures cb \<and> failures cb < max 1 (FailureThreshold cfg) \<and> config cb = cfg"
  using cb_reach_inv[OF assms(1)] assms(2) by (simp add: cb_inv_def)

theorem breaker_closed_below_threshold_witness:
  "let cfg = \<lparr>Cooldown = 5, LatencyThreshold = 0, FailureThreshold = 2\<rparr>;
       cb = afterCall True 0 1 (newCircuitBreaker cfg 0)
   in failures cb = 1 \<and> failures cb < max 1 (FailureThreshold cfg)"
proof -
  let ?cfg = "\<lparr>Cooldown = 5, LatencyThreshold = 0, FailureThreshold = 2\<rparr>"
  let ?cb = "newCircuitBreaker ?cfg 0"
  have "cb_reach ?cfg (?cb, 0)" by (rule cb_reach.start)
  moreover have "cb_step (?cb, 0) (?cb, Suc 0)"
    by (rule cb_step.admit[of 0]) (simp add: beforeCall_def newCircuitBreaker_def)
  ultimately have "cb_reach ?cfg (?cb, Suc 0)" by (rule cb_reach.step)
  then have "cb_reach ?cfg (afterCall True 0 1 ?cb, 0)"
    by (rule cb_reach.step) (rule cb_step.finish)
  moreover have "state (afterCall True 0 1 ?cb) = cbStateClosed"
      and f: "failures (afterCall True 0 1 ?cb) = 1"
    by (simp_all add: newCircuitBreaker_def breaker_defs is_fail_def)
  ultimately have "failures (afterCall True 0 1 ?cb) < max 1 (FailureThreshold ?cfg)"
    using breaker_closed_below_threshold[of ?cfg "afterCall True 0 1 ?cb" 0] by simp
  with f show ?thesis by (simp add: Let_def)
qed

text \<open>From the closed state, a run of failing calls opens the breaker exactly when the
  failures counted before it and its own reach the threshold, and with a fresh breaker
  exactly after the threshold's number of failures (at least one).\<close>

theorem breaker_trips_at_threshold:
  assumes "state cb = cbStateClosed" "cs \<noteq> []"
  shows "state (fail_run cs cb) = cbStateOpen \<longleftrightarrow>
    FailureThreshold (config cb) \<le> failures cb + int (length cs)"
  using assms fail_run_closed[of cb cs] by auto

theorem breaker_trips_at_threshold_witness:
  "state (fail_run [(0, 1), (0, 2), (0, 3)]
     (newCircuitBreaker \<lparr>Cooldown = 5, LatencyThreshold = 0, FailureThreshold = 3\<rparr> 0)) = cbStateOpen
   \<and> state (fail_run [(0, 1), (0, 2)]
     (newCircuitBreaker \<lparr>Cooldown = 5, LatencyThreshold = 0, FailureThreshold = 3\<rparr> 0)) \<noteq> cbStateOpen"
  using breaker_trips_at_threshold
      [of "newCircuitBreaker \<lparr>Cooldown = 5, LatencyThreshold = 0, FailureThreshold = 3\<rparr> 0"
          "[(0, 1), (0, 2), (0, 3)]"]
    breaker_trips_at_threshold
      [of "newCircuitBreaker \<lparr>Cooldown = 5, LatencyThreshold = 0, FailureThreshold = 3\<rparr> 0"
          "[(0, 1), (0, 2)]"]
  by (simp add: newCircuitBreaker_def)

text \<open>A call is rejected exactly while the breaker is open and its cooldown has not
  passed, and a rejection leaves the breaker as it was; the first call after the cooldown is
  admitted half-open, and its outcome alone decides: success closes the breaker with no
  failures counted, failure opens it again with a new cooldown.\<close>

theorem breaker_reject_and_recover:
  "(fst (beforeCall now cb) \<noteq> None \<longleftrightarrow>
       state cb = cbStateOpen \<and> now \<le> lastStateChg cb + Cooldown (config cb))
   \<and> (fst (beforeCall now cb) \<noteq> None \<longrightarrow> snd (beforeCall now cb) = cb)
   \<and> (state cb = cbStateOpen \<and> lastStateChg cb + Cooldown (config cb) < now \<longrightarrow>
       state (snd (beforeCall now cb)) = cbStateHalfOpen
       \<and> (let r = afterCall err elapsed now' (snd (beforeCall now cb)) in
          if is_fail err elapsed (config cb)
          then state r = cbStateOpen \<and> lastStateChg r = now'
            \<and> (\<forall>t. t \<le> now' + Cooldown (config cb) \<longrightarrow> fst (beforeCall t r) = Some ErrCircuitBreakerOpen)
          else state r = cbStateClosed \<and> failures r = 0))"
  by (auto simp: breaker_defs)

theorem breaker_reject_and_recover_witness:
  "fst (beforeCall 3 (fail_run [(0, 1)]
     (newCircuitBreaker \<lparr>Cooldown = 5, LatencyThreshold = 0, FailureThreshold = 1\<rparr> 0))) \<noteq> None"
proof -
  let ?cb = "fail_run [(0, 1)]
     (newCircuitBreaker \<lparr>Cooldown = 5, LatencyThreshold = 0, FailureThreshold = 1\<rparr> 0)"
  have "state ?cb = cbStateOpen \<and> (3::int) \<le> lastStateChg ?cb + Cooldown (config ?cb)"
    by (simp add: newCircuitBreaker_def breaker_defs is_fail_def)
  then show ?thesis using breaker_reject_and_recover[of 3 ?cb] by blast
qed

end
