(* ===== verification/Crypto.thy ===== *)
theory Crypto
  imports Core
begin

text \<open>
  The payload encryption of \<open>crypto.go\<close>. AES-GCM itself is a parameter: \<open>seal key nonce
  plaintext\<close> and \<open>unseal key nonce ciphertext\<close> (\<open>gcm.Seal\<close>, \<open>gcm.Open\<close> with no additional
  data; \<open>None\<close> when authentication fails). \<open>aes.NewCipher\<close> accepts keys of 16, 24 and 32
  bytes, \<open>cipher.NewGCM\<close> accepts every AES block, and its nonce is 12 bytes long. The
  random nonce is an argument, \<open>None\<close> when the random source fails.
\<close>

section \<open>The code\<close>

definition EncryptionHeader :: bytes where
  "EncryptionHeader = ''runiq:enc:''"

definition aes_key_ok :: "bytes \<Rightarrow> bool" where
  "aes_key_ok key \<longleftrightarrow> length key = 16 \<or> length key = 24 \<or> length key = 32"

definition nonceSize :: nat where "nonceSize = 12"

text \<open>\<open>copy(dst[off:], src)\<close> writes as much of \<open>src\<close> as fits.\<close>

definition copy_at :: "nat \<Rightarrow> bytes \<Rightarrow> bytes \<Rightarrow> bytes" where
  "copy_at off src dst =
     take off dst @ take (length dst - off) src @ drop (off + length src) dst"

definition buildEncryptedBytes :: "bytes \<Rightarrow> bytes \<Rightarrow> bytes" where
  "buildEncryptedBytes nonce ciphertext =
     (let res0 = replicate (length EncryptionHeader + length nonce + length ciphertext) (char_of (0::nat));
          res1 = copy_at 0 EncryptionHeader res0;
          res2 = copy_at (length EncryptionHeader) nonce res1
      in copy_at (length EncryptionHeader + length nonce) ciphertext res2)"

fun header_loop :: "bytes \<Rightarrow> bytes \<Rightarrow> bool" where
  "header_loop payload [] = True"
| "header_loop [] (b # bs) = False"
| "header_loop (p # ps) (b # bs) = (if p \<noteq> b then False else header_loop ps bs)"

definition IsEncrypted :: "bytes \<Rightarrow> bool" where
  "IsEncrypted payload =
     (if length payload < length EncryptionHeader then False
      else header_loop payload EncryptionHeader)"

definition EncryptPayload ::
  "(bytes \<Rightarrow> bytes \<Rightarrow> bytes \<Rightarrow> bytes) \<Rightarrow> bytes option \<Rightarrow> bytes \<Rightarrow> bytes \<Rightarrow> err + bytes" where
  "EncryptPayload seal rnd plaintext key =
     (if \<not> aes_key_ok key then Inl ErrInvalidKey
      else case rnd of
             None \<Rightarrow> Inl (ErrMsg ''rand'')
           | Some nonce \<Rightarrow> Inr (buildEncryptedBytes nonce (seal key nonce plaintext)))"

definition decryptCipher ::
  "(bytes \<Rightarrow> bytes \<Rightarrow> bytes \<Rightarrow> bytes option) \<Rightarrow> bytes \<Rightarrow> bytes \<Rightarrow> err + bytes" where
  "decryptCipher unseal payload key =
     (let headerLen = length EncryptionHeader in
      if length payload < headerLen + nonceSize then Inl ErrPayloadTooShort
      else
        (let nonce = take nonceSize (drop headerLen payload);
             ciphertext = drop (headerLen + nonceSize) payload
         in case unseal key nonce ciphertext of
              None \<Rightarrow> Inl (ErrMsg ''cipher: message authentication failed'')
            | Some p \<Rightarrow> Inr p))"

definition DecryptPayload ::
  "(bytes \<Rightarrow> bytes \<Rightarrow> bytes \<Rightarrow> bytes option) \<Rightarrow> bytes \<Rightarrow> bytes \<Rightarrow> err + bytes" where
  "DecryptPayload unseal payload key =
     (if \<not> IsEncrypted payload then Inl ErrNoHeader
      else if \<not> aes_key_ok key then Inl ErrInvalidKey
      else decryptCipher unseal payload key)"

section \<open>Facts\<close>

lemma header_loop_iff: "header_loop p h \<longleftrightarrow> (\<exists>r. p = h @ r)"
  by (induction p h rule: header_loop.induct) auto

lemma IsEncrypted_iff: "IsEncrypted p \<longleftrightarrow> (\<exists>r. p = EncryptionHeader @ r)"
  by (auto simp: IsEncrypted_def header_loop_iff)

lemma copy_at_prefix:
  "length pre = off \<Longrightarrow> length gap = length src \<Longrightarrow> copy_at off src (pre @ gap @ post) = pre @ src @ post"
  by (simp add: copy_at_def)

lemma buildEncryptedBytes_eq:
  "buildEncryptedBytes nonce ct = EncryptionHeader @ nonce @ ct"
proof -
  let ?z = "char_of (0::nat)"
  let ?h = "EncryptionHeader"
  have r0: "replicate (length ?h + length nonce + length ct) ?z
      = [] @ replicate (length ?h) ?z @ (replicate (length nonce) ?z @ replicate (length ct) ?z)"
    by (simp add: replicate_add)
  have "copy_at 0 ?h (replicate (length ?h + length nonce + length ct) ?z)
      = ?h @ replicate (length nonce) ?z @ replicate (length ct) ?z"
    unfolding r0 by (subst copy_at_prefix) simp_all
  moreover have "copy_at (length ?h) nonce (?h @ replicate (length nonce) ?z @ replicate (length ct) ?z)
      = ?h @ nonce @ replicate (length ct) ?z"
    by (rule copy_at_prefix) simp_all
  moreover have "copy_at (length ?h + length nonce) ct (?h @ nonce @ replicate (length ct) ?z)
      = ?h @ nonce @ ct"
    using copy_at_prefix[of "?h @ nonce" "length ?h + length nonce" "replicate (length ct) ?z" ct "[]"]
    by simp
  ultimately show ?thesis by (simp add: buildEncryptedBytes_def Let_def)
qed

lemma EncryptPayload_cases:
  "EncryptPayload seal rnd pt key = Inr out \<longleftrightarrow>
     aes_key_ok key \<and> (\<exists>nonce. rnd = Some nonce \<and> out = EncryptionHeader @ nonce @ seal key nonce pt)"
  by (auto simp: EncryptPayload_def buildEncryptedBytes_eq split: option.splits)

lemma EncryptPayload_IsEncrypted: "EncryptPayload seal rnd pt key = Inr out \<Longrightarrow> IsEncrypted out"
  by (auto simp: EncryptPayload_cases IsEncrypted_iff)

lemma decrypt_built:
  "length nonce = nonceSize \<Longrightarrow> aes_key_ok key \<Longrightarrow>
   DecryptPayload unseal (EncryptionHeader @ nonce @ ct) key =
     (case unseal key nonce ct of
        None \<Rightarrow> Inl (ErrMsg ''cipher: message authentication failed'') | Some p \<Rightarrow> Inr p)"
  by (simp add: DecryptPayload_def decryptCipher_def IsEncrypted_iff)

section \<open>Properties\<close>

text \<open>Whatever AES-GCM does, if it opens what it sealed then a payload that was encrypted
  is recognised as encrypted and decrypts under the same key to the plaintext.\<close>

theorem crypto_roundtrip:
  assumes "\<And>k n p. unseal k n (seal k n p) = Some p"
    and "length nonce = nonceSize"
    and "EncryptPayload seal (Some nonce) plaintext key = Inr payload"
  shows "IsEncrypted payload \<and> DecryptPayload unseal payload key = Inr plaintext"
  using assms by (auto simp: EncryptPayload_cases decrypt_built EncryptPayload_IsEncrypted IsEncrypted_iff)

text \<open>A stand-in for the cipher: the key and the nonce in front of the plaintext.\<close>

definition toy_seal :: "bytes \<Rightarrow> bytes \<Rightarrow> bytes \<Rightarrow> bytes" where
  "toy_seal k n p = k @ n @ p"

definition toy_unseal :: "bytes \<Rightarrow> bytes \<Rightarrow> bytes \<Rightarrow> bytes option" where
  "toy_unseal k n c = (if take (length (k @ n)) c = k @ n then Some (drop (length (k @ n)) c) else None)"

theorem crypto_roundtrip_witness:
  "EncryptPayload toy_seal (Some ''abcdefghijkl'') ''hi'' ''0123456789abcdef'' =
     Inr (''runiq:enc:abcdefghijkl0123456789abcdefabcdefghijklhi'')
   \<and> DecryptPayload toy_unseal (''runiq:enc:abcdefghijkl0123456789abcdefabcdefghijklhi'') ''0123456789abcdef''
     = Inr ''hi''"
proof -
  have e: "EncryptPayload toy_seal (Some ''abcdefghijkl'') ''hi'' ''0123456789abcdef'' =
      Inr (''runiq:enc:abcdefghijkl0123456789abcdefabcdefghijklhi'')"
    by (simp add: EncryptPayload_cases EncryptionHeader_def toy_seal_def aes_key_ok_def)
  moreover have "length (''abcdefghijkl'') = nonceSize" by (simp add: nonceSize_def)
  ultimately show ?thesis
    using crypto_roundtrip[of toy_unseal toy_seal "''abcdefghijkl''" "''hi''" "''0123456789abcdef''"]
    by (simp add: toy_seal_def toy_unseal_def)
qed

text \<open>The outcome of \<open>DecryptPayload\<close> on every input: no header, then a bad key size, then
  a payload too short for the nonce, in that order; otherwise what the cipher says of the
  bytes after the header, the first twelve being the nonce.\<close>

lemma decrypt_outcomes:
  "DecryptPayload unseal payload key =
     (if \<nexists>r. payload = EncryptionHeader @ r then Inl ErrNoHeader
      else if length key \<notin> {16, 24, 32} then Inl ErrInvalidKey
      else if length payload < 22 then Inl ErrPayloadTooShort
      else case unseal key (take 12 (drop 10 payload)) (drop 22 payload) of
             None \<Rightarrow> Inl (ErrMsg ''cipher: message authentication failed'')
           | Some p \<Rightarrow> Inr p)"
proof -
  have "length EncryptionHeader = 10" by (simp add: EncryptionHeader_def)
  then show ?thesis
    by (simp add: DecryptPayload_def decryptCipher_def IsEncrypted_iff aes_key_ok_def nonceSize_def
          numeral_eq_Suc Let_def)
qed

end
