(* ===== verification/Client.thy ===== *)
theory Client
  imports Storage Breaker Crypto
begin

text \<open>
  The client API of \<open>client.go\<close> and \<open>batch.go\<close>. A client's mutable state is its circuit
  breaker, \<open>None\<close> when it has none; the storage state is threaded beside it. What a call takes
  from its surroundings is a \<open>call_env\<close>: the random bytes of the job id, the nonces of the
  encryption, the trace of the context and the clock readings. A call runs by itself here; how
  the breaker's steps of concurrent calls interleave is the subject of \<open>Breaker\<close>. The functions
  that write into an envelope they were handed return the envelope as they leave it.
\<close>

section \<open>The client\<close>

record clock =
  at_before :: time
  at_start :: time
  at_end :: time
  at_after :: time

record call_env =
  ce_id :: bytes
  ce_nonces :: "nat \<Rightarrow> bytes option"
  ce_trace :: TraceContext
  ce_now :: time
  ce_clock :: clock

record 's Client =
  cl_storage :: "'s ClientStorage"
  cl_seal :: "bytes \<Rightarrow> bytes \<Rightarrow> bytes \<Rightarrow> bytes"
  cl_encryptionKey :: bytes

type_synonym 's client_state = "circuitBreaker option \<times> 's"

definition encryptEnvelope :: "'s Client \<Rightarrow> bytes option \<Rightarrow> JobEnvelope \<Rightarrow> err + JobEnvelope" where
  "encryptEnvelope c nonce env =
     (if length (cl_encryptionKey c) = 0 \<or> length (Args env) = 0 then Inr env
      else case EncryptPayload (cl_seal c) nonce (Args env) (cl_encryptionKey c) of
             Inl e \<Rightarrow> Inl e
           | Inr enc \<Rightarrow> Inr (env\<lparr>Args := enc\<rparr>))"

definition Client_execute :: "clock \<Rightarrow> ('s, unit) storage_op \<Rightarrow> ('s client_state, unit) storage_op" where
  "Client_execute ck fn = (\<lambda>(cb, s).
     case cb of
       None \<Rightarrow> (case fn s of None \<Rightarrow> None | Some (r, s') \<Rightarrow> Some (r, (None, s')))
     | Some b \<Rightarrow>
         (case beforeCall (at_before ck) b of
            (Some e, b') \<Rightarrow> Some (Inl e, (Some b', s))
          | (None, b') \<Rightarrow>
              (case fn s of
                 None \<Rightarrow> None
               | Some (r, s') \<Rightarrow>
                   Some (r, (Some (afterCall (isl r) (at_end ck - at_start ck) (at_after ck) b'), s')))))"

definition send :: "'s Client \<Rightarrow> call_env \<Rightarrow> JobEnvelope \<Rightarrow> ('s client_state, unit) storage_op" where
  "send c ev env =
     (case encryptEnvelope c (ce_nonces ev 0) env of
        Inl e \<Rightarrow> done_with (Inl e)
      | Inr env' \<Rightarrow> Client_execute (ce_clock ev) (cs_Enqueue (cl_storage c) env'))"

definition Client_Enqueue ::
  "'s Client \<Rightarrow> call_env \<Rightarrow> string \<Rightarrow> string \<Rightarrow> bytes \<Rightarrow> ('s client_state, unit) storage_op" where
  "Client_Enqueue c ev queueName name args =
     send c ev (zero_envelope\<lparr>JobID := generateJobID (ce_id ev), Queue := queueName, Name := name,
       Args := args, MaxAttempts := 3, TraceCtx := ce_trace ev\<rparr>)"

definition Client_EnqueueAt ::
  "'s Client \<Rightarrow> call_env \<Rightarrow> string \<Rightarrow> string \<Rightarrow> bytes \<Rightarrow> time \<Rightarrow> ('s client_state, unit) storage_op" where
  "Client_EnqueueAt c ev queueName name args runAt =
     send c ev (zero_envelope\<lparr>JobID := generateJobID (ce_id ev), Queue := queueName, Name := name,
       Args := args, RunAt := Some runAt, MaxAttempts := 3, TraceCtx := ce_trace ev\<rparr>)"

definition Client_EnqueueIn ::
  "'s Client \<Rightarrow> call_env \<Rightarrow> string \<Rightarrow> string \<Rightarrow> bytes \<Rightarrow> duration \<Rightarrow> ('s client_state, unit) storage_op" where
  "Client_EnqueueIn c ev queueName name args delay =
     Client_EnqueueAt c ev queueName name args (ce_now ev + delay)"

definition Client_EnqueueWithDelay ::
  "'s Client \<Rightarrow> call_env \<Rightarrow> string \<Rightarrow> string \<Rightarrow> bytes \<Rightarrow> duration \<Rightarrow> ('s client_state, unit) storage_op" where
  "Client_EnqueueWithDelay c ev queueName name args delay = Client_EnqueueIn c ev queueName name args delay"

definition Client_EnqueueUnique ::
  "'s Client \<Rightarrow> call_env \<Rightarrow> string \<Rightarrow> string \<Rightarrow> bytes \<Rightarrow> string \<Rightarrow> duration
    \<Rightarrow> ('s client_state, unit) storage_op" where
  "Client_EnqueueUnique c ev queueName name args uniqueKey uniqueTTL =
     send c ev (zero_envelope\<lparr>JobID := generateJobID (ce_id ev), Queue := queueName, Name := name,
       Args := args, MaxAttempts := 3, UniqueKey := uniqueKey, UniqueTTL := uniqueTTL,
       TraceCtx := ce_trace ev\<rparr>)"

section \<open>Envelopes\<close>

definition NewJob :: "bytes \<Rightarrow> string \<Rightarrow> string \<Rightarrow> bytes \<Rightarrow> JobEnvelope" where
  "NewJob rnd queueName name args = zero_envelope\<lparr>JobID := generateJobID rnd, Queue := queueName,
     Name := name, Args := args, MaxAttempts := 3\<rparr>"

definition WithPriority :: "int \<Rightarrow> JobEnvelope \<Rightarrow> JobEnvelope" where
  "WithPriority priority env = env\<lparr>Priority := priority\<rparr>"

definition RequireTags :: "string list \<Rightarrow> JobEnvelope \<Rightarrow> JobEnvelope" where
  "RequireTags tags env = env\<lparr>Tags := tags\<rparr>"

definition DependsOn :: "JobEnvelope option \<Rightarrow> JobEnvelope \<Rightarrow> JobEnvelope" where
  "DependsOn parent env =
     (case parent of
        None \<Rightarrow> env
      | Some p \<Rightarrow> if JobID p \<noteq> '''' then env\<lparr>Dependencies := Dependencies env @ [JobID p]\<rparr> else env)"

definition add_trace :: "call_env \<Rightarrow> JobEnvelope \<Rightarrow> JobEnvelope" where
  "add_trace ev env = (if TraceID (TraceCtx env) = '''' then env\<lparr>TraceCtx := ce_trace ev\<rparr> else env)"

definition Client_EnqueueJob ::
  "'s Client \<Rightarrow> call_env \<Rightarrow> JobEnvelope \<Rightarrow> ('s client_state, (err + unit) \<times> JobEnvelope) act" where
  "Client_EnqueueJob c ev env =
     (let env = (if JobID env = '''' then env\<lparr>JobID := generateJobID (ce_id ev)\<rparr> else env);
          env = (if MaxAttempts env \<le> 0 then env\<lparr>MaxAttempts := 3\<rparr> else env);
          env = add_trace ev env
      in case encryptEnvelope c (ce_nonces ev 0) env of
           Inl e \<Rightarrow> done_with (Inl e, env)
         | Inr env' \<Rightarrow> and_then (Client_execute (ce_clock ev) (cs_Enqueue (cl_storage c) env'))
             (\<lambda>r. done_with (r, env')))"

text \<open>The loop of \<open>EnqueueWorkflow\<close>: the jobs as it leaves them, and its error.\<close>

fun prepareJobs ::
  "'s Client \<Rightarrow> call_env \<Rightarrow> nat \<Rightarrow> JobEnvelope list \<Rightarrow> err option \<times> JobEnvelope list" where
  "prepareJobs c ev i [] = (None, [])"
| "prepareJobs c ev i (job # js) =
     (let job = add_trace ev job in
      case encryptEnvelope c (ce_nonces ev i) job of
        Inl e \<Rightarrow> (Some e, job # js)
      | Inr job' \<Rightarrow> (case prepareJobs c ev (Suc i) js of (e, js') \<Rightarrow> (e, job' # js')))"

definition Client_EnqueueWorkflow ::
  "'s Client \<Rightarrow> call_env \<Rightarrow> JobEnvelope list \<Rightarrow> ('s client_state, (err + unit) \<times> JobEnvelope list) act" where
  "Client_EnqueueWorkflow c ev js =
     (case prepareJobs c ev 0 js of
        (Some e, js') \<Rightarrow> done_with (Inl e, js')
      | (None, js') \<Rightarrow> and_then (Client_execute (ce_clock ev) (cs_EnqueueWorkflow (cl_storage c) js'))
          (\<lambda>r. done_with (r, js')))"

section \<open>Batches\<close>

record Batch =
  bt_ID :: string
  bt_callback :: JobEnvelope

definition validateCallback :: "JobEnvelope option \<Rightarrow> err option" where
  "validateCallback cb =
     (case cb of
        None \<Rightarrow> Some (ErrMsg ''callback job envelope cannot be nil'')
      | Some env \<Rightarrow>
          if Queue env = '''' \<or> Name env = '''' then Some (ErrMsg ''callback must specify queue and name'')
          else None)"

text \<open>An option writes the timeout; the last one counts.\<close>

definition evaluateBatchOptions :: "time \<Rightarrow> duration list \<Rightarrow> time option" where
  "evaluateBatchOptions now opts =
     (let timeout = fold (\<lambda>t _. t) opts 0 in
      if timeout \<le> 0 then None else Some (now + timeout))"

definition Client_NewBatch ::
  "'s Client \<Rightarrow> call_env \<Rightarrow> JobEnvelope option \<Rightarrow> duration list \<Rightarrow> ('s client_state, Batch) storage_op" where
  "Client_NewBatch c ev callback opts =
     (case validateCallback callback of
        Some e \<Rightarrow> done_with (Inl e)
      | None \<Rightarrow>
          (let expiresAt = evaluateBatchOptions (ce_now ev) opts; batchID = generateJobID (ce_id ev) in
           and_then (Client_execute (ce_clock ev) (cs_CreateBatch (cl_storage c) batchID (the callback) expiresAt))
             (\<lambda>r. done_with (case r of
                Inl e \<Rightarrow> Inl e
              | Inr _ \<Rightarrow> Inr \<lparr>bt_ID = batchID, bt_callback = the callback\<rparr>))))"

definition Batch_Enqueue ::
  "'s Client \<Rightarrow> call_env \<Rightarrow> Batch \<Rightarrow> string \<Rightarrow> string \<Rightarrow> bytes \<Rightarrow> ('s client_state, unit) storage_op" where
  "Batch_Enqueue c ev b queueName name args =
     (let env = zero_envelope\<lparr>JobID := generateJobID (ce_id ev), Queue := queueName, Name := name,
            Args := args, MaxAttempts := 3, BatchID := bt_ID b, TraceCtx := ce_trace ev\<rparr>
      in Client_execute (ce_clock ev) (cs_EnqueueInBatch (cl_storage c) (bt_ID b) env))"

definition Batch_Submit :: "'s Client \<Rightarrow> call_env \<Rightarrow> Batch \<Rightarrow> ('s client_state, unit) storage_op" where
  "Batch_Submit c ev b = Client_execute (ce_clock ev) (cs_SubmitBatch (cl_storage c) (bt_ID b))"

end
