(* ===== verification/Cron.thy ===== *)
theory Cron
  imports Core
begin

text \<open>
  The cron matcher of \<open>cron.go\<close>. A point in time enters as the civil fields that
  \<open>time.Time\<close>'s accessors return in its location. The recursion of \<open>matchPart\<close> through
  \<open>matchList\<close> ends because no element of a split list holds a comma, so each is shorter
  than the list. An abstract syntax of cron fields and its meaning specify the matcher,
  which is proved to decide the meaning of every printed expression.
\<close>

record civil =
  ct_Minute :: int
  ct_Hour :: int
  ct_Day :: int
  ct_Month :: int
  ct_Weekday :: int

section \<open>The code\<close>

definition matchStep :: "string \<Rightarrow> int \<Rightarrow> int \<Rightarrow> int \<Rightarrow> bool" where
  "matchStep spec val mn mx =
     (case Atoi (trim_prefix spec ''*/'') of
        None \<Rightarrow> False
      | Some step \<Rightarrow> if step \<le> 0 then False else go_rem (val - mn) step = 0)"

definition matchRange :: "string \<Rightarrow> int \<Rightarrow> bool" where
  "matchRange spec val =
     (case split_on CHR ''-'' spec of
        [a, b] \<Rightarrow>
          (case (Atoi a, Atoi b) of
             (Some start, Some stop) \<Rightarrow> val \<ge> start \<and> val \<le> stop
           | _ \<Rightarrow> False)
      | _ \<Rightarrow> False)"

definition matchSingle :: "string \<Rightarrow> int \<Rightarrow> bool" where
  "matchSingle spec val = (case Atoi spec of None \<Rightarrow> False | Some target \<Rightarrow> val = target)"

text \<open>\<open>matchList\<close> calls \<open>matchPart\<close> on the elements; the callee is its argument.\<close>

definition matchList :: "(string \<Rightarrow> bool) \<Rightarrow> string \<Rightarrow> bool" where
  "matchList part spec = list_ex part (split_on CHR '','' spec)"

lemma matchList_cong [fundef_cong]:
  assumes "spec = spec'" "\<And>p. p \<in> set (split_on CHR '','' spec') \<Longrightarrow> f p = g p"
  shows "matchList f spec = matchList g spec'"
  using assms by (auto simp: matchList_def list_ex_iff)

function matchPart :: "string \<Rightarrow> int \<Rightarrow> int \<Rightarrow> int \<Rightarrow> bool" where
  "matchPart spec val mn mx =
     (if spec = ''*'' then True
      else if contains_char spec CHR '','' then matchList (\<lambda>p. matchPart p val mn mx) spec
      else if has_prefix spec ''*/'' then matchStep spec val mn mx
      else if contains_char spec CHR ''-'' then matchRange spec val
      else matchSingle spec val)"
  by pat_completeness auto
termination
  by (relation "measure (\<lambda>(spec, _, _, _). length spec)")
     (auto simp: contains_char_def length_split_piece_less)

declare matchPart.simps [simp del]

definition matchMinute :: "string \<Rightarrow> int \<Rightarrow> bool" where
  "matchMinute spec val = matchPart spec val 0 59"

definition matchHour :: "string \<Rightarrow> int \<Rightarrow> bool" where
  "matchHour spec val = matchPart spec val 0 23"

definition matchDom :: "string \<Rightarrow> int \<Rightarrow> bool" where
  "matchDom spec val = matchPart spec val 1 31"

definition matchMonth :: "string \<Rightarrow> int \<Rightarrow> bool" where
  "matchMonth spec val = matchPart spec val 1 12"

definition matchDow :: "string \<Rightarrow> int \<Rightarrow> bool" where
  "matchDow spec val =
     (if val = 0 then matchPart spec 0 0 7 \<or> matchPart spec 7 0 7
      else matchPart spec val 0 7)"

definition MatchCron :: "string \<Rightarrow> civil \<Rightarrow> bool" where
  "MatchCron spec t =
     (case Fields spec of
        [f0, f1, f2, f3, f4] \<Rightarrow>
          matchMinute f0 (ct_Minute t) \<and> matchHour f1 (ct_Hour t) \<and> matchDom f2 (ct_Day t)
          \<and> matchMonth f3 (ct_Month t) \<and> matchDow f4 (ct_Weekday t)
      | _ \<Rightarrow> False)"

section \<open>What a cron field means\<close>

datatype cron_item = Star | Step nat | Span nat nat | Only nat

type_synonym cron_field = "cron_item list"

fun item_nums :: "cron_item \<Rightarrow> nat list" where
  "item_nums Star = []"
| "item_nums (Step k) = [k]"
| "item_nums (Span a b) = [a, b]"
| "item_nums (Only n) = [n]"

definition item_ok :: "cron_item \<Rightarrow> bool" where
  "item_ok i \<longleftrightarrow> list_all (\<lambda>n. int n \<le> max_int) (item_nums i)"

fun show_item :: "cron_item \<Rightarrow> string" where
  "show_item Star = ''*''"
| "show_item (Step k) = ''*/'' @ itoa_nat k"
| "show_item (Span a b) = itoa_nat a @ ''-'' @ itoa_nat b"
| "show_item (Only n) = itoa_nat n"

definition show_field :: "cron_field \<Rightarrow> string" where
  "show_field is = join_with CHR '','' (map show_item is)"

text \<open>The value \<open>val\<close> of a field whose smallest value is \<open>mn\<close>.\<close>

fun item_matches :: "int \<Rightarrow> int \<Rightarrow> cron_item \<Rightarrow> bool" where
  "item_matches mn val Star = True"
| "item_matches mn val (Step k) = (0 < k \<and> int k dvd val - mn)"
| "item_matches mn val (Span a b) = (int a \<le> val \<and> val \<le> int b)"
| "item_matches mn val (Only n) = (val = int n)"

definition field_matches :: "int \<Rightarrow> int \<Rightarrow> cron_field \<Rightarrow> bool" where
  "field_matches mn val is = list_ex (item_matches mn val) is"

text \<open>Sunday is written 0 or 7.\<close>

definition dow_matches :: "int \<Rightarrow> cron_field \<Rightarrow> bool" where
  "dow_matches val is = (field_matches 0 val is \<or> (val = 0 \<and> field_matches 0 7 is))"

definition field_ok :: "cron_field \<Rightarrow> bool" where
  "field_ok is \<longleftrightarrow> is \<noteq> [] \<and> list_all item_ok is"

section \<open>The matcher decides the meaning\<close>

lemma comma_not_itoa [simp]: "CHR '','' \<notin> set (itoa_nat n)"
  and dash_not_itoa [simp]: "CHR ''-'' \<notin> set (itoa_nat n)"
  and star_not_itoa [simp]: "CHR ''*'' \<notin> set (itoa_nat n)"
  by (auto intro!: itoa_nat_not_in)

lemma comma_not_item: "CHR '','' \<notin> set (show_item i)"
  by (cases i) auto

lemma itoa_not_star: "\<not> has_prefix (itoa_nat n @ s) ''*/''" "itoa_nat n @ s \<noteq> ''*''" "itoa_nat n \<noteq> ''*''"
proof -
  obtain c r where cr: "itoa_nat n = c # r" by (cases "itoa_nat n") auto
  then have "c \<noteq> CHR ''*''" using star_not_itoa[of n] by auto
  with cr show "\<not> has_prefix (itoa_nat n @ s) ''*/''" "itoa_nat n @ s \<noteq> ''*''" "itoa_nat n \<noteq> ''*''"
    by (auto simp: has_prefix_def)
qed

lemma matchRange_show:
  assumes "int a \<le> max_int" "int b \<le> max_int"
  shows "matchRange (itoa_nat a @ CHR ''-'' # itoa_nat b) v \<longleftrightarrow> int a \<le> v \<and> v \<le> int b"
  using assms
  by (simp add: matchRange_def split_on_append_sep split_on_no_sep Atoi_itoa_nat)

lemma matchStep_show:
  assumes "int k \<le> max_int"
  shows "matchStep (''*/'' @ itoa_nat k) v mn mx \<longleftrightarrow> 0 < k \<and> int k dvd v - mn"
  using assms
  by (auto simp: matchStep_def trim_prefix_def has_prefix_def Atoi_itoa_nat go_rem_zero_iff)

lemma matchPart_item:
  assumes "item_ok i"
  shows "matchPart (show_item i) v mn mx \<longleftrightarrow> item_matches mn v i"
proof (cases i)
  case Star
  then show ?thesis by (simp add: matchPart.simps)
next
  case (Step k)
  with assms comma_not_item[of i] matchStep_show[of k v mn mx] show ?thesis
    by (subst matchPart.simps) (simp add: contains_char_def has_prefix_def item_ok_def)
next
  case (Span a b)
  with assms comma_not_item[of i] matchRange_show[of a b v] itoa_not_star show ?thesis
    by (subst matchPart.simps) (simp add: contains_char_def item_ok_def)
next
  case (Only n)
  have "\<not> has_prefix (itoa_nat n) ''*/''" using itoa_not_star(1)[of n "[]"] by simp
  with Only assms comma_not_item[of i] itoa_not_star show ?thesis
    by (subst matchPart.simps)
       (auto simp: contains_char_def item_ok_def matchSingle_def Atoi_itoa_nat)
qed

lemma split_show_field:
  "is \<noteq> [] \<Longrightarrow> split_on CHR '','' (show_field is) = map show_item is"
  unfolding show_field_def by (rule split_join) (auto simp: comma_not_item)

lemma show_field_no_comma:
  "CHR '','' \<notin> set (show_field is) \<Longrightarrow> is \<noteq> [] \<Longrightarrow> \<exists>i. is = [i]"
  by (cases "is"; cases "tl is") (auto simp: show_field_def join_Cons_neq)

lemma matchPart_field:
  assumes "field_ok is"
  shows "matchPart (show_field is) v mn mx \<longleftrightarrow> field_matches mn v is"
proof (cases "CHR '','' \<in> set (show_field is)")
  case False
  with assms obtain i where "is = [i]" "item_ok i"
    by (auto simp: field_ok_def dest: show_field_no_comma)
  then show ?thesis by (simp add: show_field_def field_matches_def matchPart_item)
next
  case True
  then have "show_field is \<noteq> ''*''" by (intro notI) simp
  with True assms show ?thesis
    by (subst matchPart.simps)
       (auto simp: contains_char_def matchList_def split_show_field field_ok_def
          field_matches_def list_ex_iff list_all_iff matchPart_item)
qed

lemma matchDow_field: "field_ok is \<Longrightarrow> matchDow (show_field is) v \<longleftrightarrow> dow_matches v is"
  by (simp add: matchDow_def dow_matches_def matchPart_field)

lemma space_not_item: "c \<in> set (show_item i) \<Longrightarrow> \<not> is_space c"
  using itoa_nat_char_range[of c] by (cases i) (fastforce simp: is_space_def)+

lemma show_item_neq_Nil [simp]: "show_item i \<noteq> []"
  by (cases i) auto

lemma show_field_word: "is \<noteq> [] \<Longrightarrow> word_chars (show_field is)"
proof (induction "is")
  case (Cons i "is")
  have comma: "\<not> is_space CHR '',''" by (simp add: is_space_def)
  show ?case
  proof (cases "is = []")
    case True
    then show ?thesis
      using space_not_item[of _ i] by (auto simp: show_field_def word_chars_def list_all_iff)
  next
    case False
    with Cons comma show ?thesis
      using space_not_item[of _ i]
      by (auto simp: show_field_def word_chars_def list_all_iff join_Cons_neq)
  qed
qed simp

definition show_cron :: "cron_field list \<Rightarrow> string" where
  "show_cron fs = join_with CHR '' '' (map show_field fs)"

lemma Fields_show_cron: "list_all field_ok fs \<Longrightarrow> Fields (show_cron fs) = map show_field fs"
  unfolding show_cron_def
  by (rule Fields_join) (auto simp: list_all_iff field_ok_def show_field_word)

section \<open>Properties\<close>

text \<open>C14: on every printed five-field expression \<open>MatchCron\<close> decides the meaning of the
  fields: lists are disjunctions, \<open>*/k\<close> counts from the smallest value of the field,
  ranges are inclusive, and day-of-week 0 and 7 are both Sunday.\<close>

theorem MatchCron_decides_meaning:
  assumes "list_all field_ok [mi, ho, dm, mo, dw]"
  shows "MatchCron (show_cron [mi, ho, dm, mo, dw]) t \<longleftrightarrow>
    field_matches 0 (ct_Minute t) mi \<and> field_matches 0 (ct_Hour t) ho
    \<and> field_matches 1 (ct_Day t) dm \<and> field_matches 1 (ct_Month t) mo
    \<and> dow_matches (ct_Weekday t) dw"
  using assms
  by (simp add: MatchCron_def Fields_show_cron matchMinute_def matchHour_def matchDom_def
        matchMonth_def matchPart_field matchDow_field)

theorem MatchCron_decides_meaning_witness:
  "MatchCron (show_cron [[Step 15], [Span 9 17], [Star], [Only 1, Only 7], [Only 7]])
     \<lparr>ct_Minute = 30, ct_Hour = 9, ct_Day = 4, ct_Month = 7, ct_Weekday = 0\<rparr>"
proof -
  have ok: "list_all field_ok [[Step 15], [Span 9 17], [Star], [Only 1, Only 7], [Only 7]]"
    by (simp add: field_ok_def item_ok_def max_int_def)
  show ?thesis
    by (subst MatchCron_decides_meaning[OF ok]) (simp add: field_matches_def dow_matches_def)
qed

text \<open>An expression with fewer or more than five fields never matches, and neither does
  one with a field the parser cannot read as a number, a step or a range.\<close>

lemma MatchCron_rejects_malformed:
  assumes "length (Fields spec) \<noteq> 5
    \<or> (\<exists>f. f \<in> set (Fields spec) \<and> f \<noteq> ''*'' \<and> \<not> contains_char f CHR '',''
          \<and> \<not> has_prefix f ''*/'' \<and> \<not> contains_char f CHR ''-'' \<and> Atoi f = None)"
  shows "\<not> MatchCron spec t"
proof -
  have bad: "\<not> matchPart f v mn mx"
    if "f \<noteq> ''*''" "\<not> contains_char f CHR '',''" "\<not> has_prefix f ''*/''"
       "\<not> contains_char f CHR ''-''" "Atoi f = None" for f v mn mx
    using that by (subst matchPart.simps) (simp add: matchSingle_def)
  show ?thesis
    using assms
    by (auto simp: MatchCron_def matchMinute_def matchHour_def matchDom_def matchMonth_def
        matchDow_def bad split: list.splits)
qed

end
