(* ===== verification/Pool.thy ===== *)
theory Pool
  imports Storage Crypto Cron
begin

text \<open>
  The worker pool's data and configuration (\<open>worker.go\<close> to \<open>OnEvent\<close>, \<open>autoscaler.go\<close>'s
  config): the pool record, its options and registrations, and the world a worker's step
  changes: the pool, the storage and the events delivered so far. A job or handler is a function
  on the storage state, which it may change through clients of its own; it returns nil or an
  error text, or it panics, or the process dies in it (\<open>None\<close>). The types \<open>'s\<close> and \<open>'h\<close>
  are the storage state and the event handlers' identities. Loggers and tracers leave no trace
  in the world.
\<close>

section \<open>Data\<close>

datatype EventType = EventJobEnqueued | EventJobCompleted | EventJobFailed | EventJobDead

record Event =
  ev_Type :: EventType
  ev_Job :: JobEnvelope
  ev_Err :: "string option"

datatype run_end = Returned "string option" | Panicked string

type_synonym 's job = "bytes \<Rightarrow> ('s, run_end) act"
type_synonym 's handler = "JobEnvelope \<Rightarrow> ('s, run_end \<times> JobEnvelope) act"

text \<open>A \<open>*time.Location\<close>: its name and the civil time it gives an instant.\<close>

record location =
  loc_String :: string
  loc_In :: "time \<Rightarrow> civil"

definition utc_civil :: "time \<Rightarrow> civil" where
  "utc_civil t =
     (let secs = t div second; days = secs div 86400; sod = secs mod 86400; (y, m, d) = civil_of_days days
      in \<lparr>ct_Minute = sod div 60 mod 60, ct_Hour = sod div 3600, ct_Day = d, ct_Month = m,
          ct_Weekday = (days + 4) mod 7\<rparr>)"

definition UTC :: location where
  "UTC = \<lparr>loc_String = ''UTC'', loc_In = utc_civil\<rparr>"

record IntervalJob =
  ij_Payload :: bytes
  ij_Interval :: duration
  ij_Name :: string
  ij_Queue :: string

record handlerConfig =
  maxConcurrency :: int
  rateLimit :: int
  ratePeriod :: duration

record DynamicConcurrencyConfig =
  CheckInterval :: duration
  MinConcurrency :: int
  MaxConcurrency :: int
  QueueDepthLimit :: int
  ScaleUpStep :: int
  ScaleDownStep :: int

text \<open>
  The semaphore channel is the number of tokens in its buffer and the buffer's capacity;
  \<open>weights\<close> is a Go map in some iteration order; a missing entry of \<open>lastIntervalTicks\<close> reads
  as zero.
\<close>

record ('s, 'h) WorkerPool =
  wp_firstQueues :: "string list"
  wp_monitoredQueues :: "string list"
  wp_cronJobs :: "(CronJob \<times> location option) list"
  wp_middlewares :: "('s handler \<Rightarrow> 's handler) list"
  wp_processID :: string
  wp_autoscale :: "DynamicConcurrencyConfig option"
  wp_sem :: nat
  wp_semCap :: nat
  wp_registry :: "string \<Rightarrow> 's job option"
  wp_configs :: "string \<Rightarrow> handlerConfig option"
  wp_weights :: "(string \<times> int) list"
  wp_eventHandlers :: "EventType \<Rightarrow> 'h list"
  wp_fetchCounter :: "64 word"
  wp_concurrency :: int
  wp_currentConcurrency :: int
  wp_shutdownTimeout :: duration
  wp_dlqTTL :: duration
  wp_leaderTTL :: duration
  wp_archivalAge :: duration
  wp_archivalInterval :: duration
  wp_isLeader :: bool
  wp_encryptionKey :: bytes
  wp_intervalJobs :: "IntervalJob list"
  wp_lastIntervalTicks :: "string \<Rightarrow> int"
  wp_tags :: "string list"

section \<open>Construction\<close>

text \<open>The process id is a text of the host name, the process number and the clock.\<close>

definition getWorkerProcessID :: "string \<Rightarrow> int \<Rightarrow> time \<Rightarrow> string" where
  "getWorkerProcessID hostname pid now =
     (let hostname = (if hostname = '''' then ''unknown'' else hostname)
      in hostname @ '':'' @ Itoa pid @ '':'' @ Itoa (go_rem now 100000))"

definition NewWorkerPool :: "string \<Rightarrow> int \<Rightarrow> (('s, 'h) WorkerPool \<Rightarrow> ('s, 'h) WorkerPool) list \<Rightarrow> ('s, 'h) WorkerPool" where
  "NewWorkerPool processID concurrency opts = fold (\<lambda>opt w. opt w) opts
     \<lparr>wp_firstQueues = [], wp_monitoredQueues = [], wp_cronJobs = [], wp_middlewares = [],
      wp_processID = processID, wp_autoscale = None, wp_sem = 0, wp_semCap = 0,
      wp_registry = (\<lambda>_. None), wp_configs = (\<lambda>_. None), wp_weights = [],
      wp_eventHandlers = (\<lambda>_. []), wp_fetchCounter = 0, wp_concurrency = concurrency,
      wp_currentConcurrency = 0, wp_shutdownTimeout = 10 * second, wp_dlqTTL = 0, wp_leaderTTL = 0,
      wp_archivalAge = 0, wp_archivalInterval = 0, wp_isLeader = False, wp_encryptionKey = [],
      wp_intervalJobs = [], wp_lastIntervalTicks = (\<lambda>_. 0), wp_tags = []\<rparr>"

definition WithQueueWeights :: "(string \<times> int) list \<Rightarrow> ('s, 'h) WorkerPool \<Rightarrow> ('s, 'h) WorkerPool" where
  "WithQueueWeights weights w = w\<lparr>wp_weights := weights\<rparr>"

definition WithWorkerTags :: "string list \<Rightarrow> ('s, 'h) WorkerPool \<Rightarrow> ('s, 'h) WorkerPool" where
  "WithWorkerTags tags w = w\<lparr>wp_tags := tags\<rparr>"

definition WithShutdownTimeout :: "duration \<Rightarrow> ('s, 'h) WorkerPool \<Rightarrow> ('s, 'h) WorkerPool" where
  "WithShutdownTimeout timeout w = w\<lparr>wp_shutdownTimeout := timeout\<rparr>"

definition WithDLQTTL :: "duration \<Rightarrow> ('s, 'h) WorkerPool \<Rightarrow> ('s, 'h) WorkerPool" where
  "WithDLQTTL ttl w = w\<lparr>wp_dlqTTL := ttl\<rparr>"

definition WithLeaderElection :: "duration \<Rightarrow> ('s, 'h) WorkerPool \<Rightarrow> ('s, 'h) WorkerPool" where
  "WithLeaderElection ttl w = w\<lparr>wp_leaderTTL := ttl\<rparr>"

definition WithJobArchival :: "duration \<Rightarrow> duration \<Rightarrow> ('s, 'h) WorkerPool \<Rightarrow> ('s, 'h) WorkerPool" where
  "WithJobArchival age interval w = w\<lparr>wp_archivalAge := age, wp_archivalInterval := interval\<rparr>"

definition WithWorkerPayloadEncryption :: "bytes \<Rightarrow> ('s, 'h) WorkerPool \<Rightarrow> ('s, 'h) WorkerPool" where
  "WithWorkerPayloadEncryption key w = w\<lparr>wp_encryptionKey := key\<rparr>"

definition WithDynamicConcurrency :: "DynamicConcurrencyConfig \<Rightarrow> ('s, 'h) WorkerPool \<Rightarrow> ('s, 'h) WorkerPool" where
  "WithDynamicConcurrency cfg w = w\<lparr>wp_autoscale := Some cfg\<rparr>"

definition WithMaxConcurrency :: "int \<Rightarrow> handlerConfig \<Rightarrow> handlerConfig" where
  "WithMaxConcurrency mx cfg = cfg\<lparr>maxConcurrency := mx\<rparr>"

definition WithRateLimit :: "int \<Rightarrow> duration \<Rightarrow> handlerConfig \<Rightarrow> handlerConfig" where
  "WithRateLimit limit period cfg = cfg\<lparr>rateLimit := limit, ratePeriod := period\<rparr>"

section \<open>Registration\<close>

definition Pool_Register ::
  "string \<Rightarrow> 's job \<Rightarrow> (handlerConfig \<Rightarrow> handlerConfig) list \<Rightarrow> ('s, 'h) WorkerPool \<Rightarrow> ('s, 'h) WorkerPool" where
  "Pool_Register name job opts w =
     (let cfg = fold (\<lambda>opt c. opt c) opts \<lparr>maxConcurrency = 0, rateLimit = 0, ratePeriod = 0\<rparr>
      in w\<lparr>wp_registry := (wp_registry w)(name \<mapsto> job), wp_configs := (wp_configs w)(name \<mapsto> cfg)\<rparr>)"

text \<open>A cron option may set another location; the last one counts.\<close>

definition Pool_RegisterCron ::
  "string \<Rightarrow> string \<Rightarrow> string \<Rightarrow> bytes \<Rightarrow> location list \<Rightarrow> ('s, 'h) WorkerPool \<Rightarrow> ('s, 'h) WorkerPool" where
  "Pool_RegisterCron spec queue name payload opts w =
     (let loc = fold (\<lambda>l _. l) opts UTC
      in w\<lparr>wp_cronJobs := wp_cronJobs w @ [(\<lparr>cj_Payload = payload, cj_Spec = spec, cj_Name = name,
             cj_Queue = queue, cj_Timezone = loc_String loc, cj_Paused = False\<rparr>, Some loc)]\<rparr>)"

definition Pool_RegisterInterval ::
  "duration \<Rightarrow> string \<Rightarrow> string \<Rightarrow> bytes \<Rightarrow> ('s, 'h) WorkerPool \<Rightarrow> ('s, 'h) WorkerPool" where
  "Pool_RegisterInterval interval queueName name payload w =
     w\<lparr>wp_intervalJobs := wp_intervalJobs w @ [\<lparr>ij_Payload = payload, ij_Interval = interval,
          ij_Name = name, ij_Queue = queueName\<rparr>]\<rparr>"

definition Pool_Use :: "('s handler \<Rightarrow> 's handler) list \<Rightarrow> ('s, 'h) WorkerPool \<Rightarrow> ('s, 'h) WorkerPool" where
  "Pool_Use mws w = w\<lparr>wp_middlewares := wp_middlewares w @ mws\<rparr>"

definition Pool_OnEvent :: "EventType \<Rightarrow> 'h \<Rightarrow> ('s, 'h) WorkerPool \<Rightarrow> ('s, 'h) WorkerPool" where
  "Pool_OnEvent eventType h w =
     w\<lparr>wp_eventHandlers := (wp_eventHandlers w)(eventType := wp_eventHandlers w eventType @ [h])\<rparr>"

section \<open>The world of a worker\<close>

record ('s, 'h) world =
  w_pool :: "('s, 'h) WorkerPool"
  w_store :: 's
  w_delivered :: "('h \<times> Event) list"

definition on_store :: "('s, 'a) act \<Rightarrow> (('s, 'h) world, 'a) act" where
  "on_store m = (\<lambda>w. case m (w_store w) of None \<Rightarrow> None | Some (x, s) \<Rightarrow> Some (x, w\<lparr>w_store := s\<rparr>))"

definition with_pool :: "(('s, 'h) WorkerPool \<Rightarrow> (('s, 'h) world, 'a) act) \<Rightarrow> (('s, 'h) world, 'a) act" where
  "with_pool f = (\<lambda>w. f (w_pool w) w)"

definition set_pool :: "(('s, 'h) WorkerPool \<Rightarrow> ('s, 'h) WorkerPool) \<Rightarrow> (('s, 'h) world, unit) act" where
  "set_pool f = (\<lambda>w. Some ((), w\<lparr>w_pool := f (w_pool w)\<rparr>))"

definition forget :: "('s, 'a) act \<Rightarrow> ('s, unit) act" where
  "forget m = and_then m (\<lambda>_. done_with ())"

definition Pool_triggerEvent :: "EventType \<Rightarrow> JobEnvelope \<Rightarrow> string option \<Rightarrow> (('s, 'h) world, unit) act" where
  "Pool_triggerEvent eventType env err = (\<lambda>w. Some ((),
     w\<lparr>w_delivered := w_delivered w @
         map (\<lambda>h. (h, \<lparr>ev_Type = eventType, ev_Job = env, ev_Err = err\<rparr>))
           (wp_eventHandlers (w_pool w) eventType)\<rparr>))"

lemma on_store_run [run_simps]:
  "on_store m w = (case m (w_store w) of None \<Rightarrow> None | Some (x, s) \<Rightarrow> Some (x, w\<lparr>w_store := s\<rparr>))"
  by (simp add: on_store_def)

lemma with_pool_run [run_simps]: "with_pool f w = f (w_pool w) w"
  by (simp add: with_pool_def)

lemma set_pool_run [run_simps]: "set_pool f w = Some ((), w\<lparr>w_pool := f (w_pool w)\<rparr>)"
  by (simp add: set_pool_def)

lemma forget_run [run_simps]: "forget m w = (case m w of None \<Rightarrow> None | Some (x, w') \<Rightarrow> Some ((), w'))"
  by (simp add: forget_def and_then_run done_with_run split: option.splits)

end
