(* ===== verification/Autoscaler.thy ===== *)
theory Autoscaler
  imports Pool
begin

text \<open>
  The autoscaler of \<open>autoscaler.go\<close>. The semaphore is a buffered channel whose capacity is the
  largest concurrency; tokens that no worker holds keep it from growing past the current
  concurrency. \<open>adjustConcurrency\<close> says how many tokens \<open>scaleUp\<close> has to take out (it does so
  under the mutex and blocks while there is none) or how many the goroutine of \<open>scaleDown\<close> has to
  put in (it blocks while the buffer is full); the step relation below interleaves those single
  channel operations with the workers'.
\<close>

section \<open>The code\<close>

definition setupSemaphore :: "('s, 'h) WorkerPool \<Rightarrow> ('s, 'h) WorkerPool" where
  "setupSemaphore w =
     (case wp_autoscale w of
        None \<Rightarrow> w\<lparr>wp_semCap := nat (wp_concurrency w), wp_sem := 0, wp_currentConcurrency := wp_concurrency w\<rparr>
      | Some cfg \<Rightarrow> w\<lparr>wp_semCap := nat (MaxConcurrency cfg), wp_currentConcurrency := MinConcurrency cfg,
                      wp_sem := nat (MaxConcurrency cfg - MinConcurrency cfg)\<rparr>)"

definition clampTarget :: "DynamicConcurrencyConfig \<Rightarrow> int \<Rightarrow> int" where
  "clampTarget cfg target =
     (if target < MinConcurrency cfg then MinConcurrency cfg
      else if target > MaxConcurrency cfg then MaxConcurrency cfg
      else target)"

text \<open>The channel operations of \<open>scaleUp diff\<close> and \<open>scaleDown diff\<close> that are left to do.\<close>

record pending_ops =
  to_take :: nat
  to_put :: nat

definition scaleUp :: "int \<Rightarrow> pending_ops \<Rightarrow> pending_ops" where
  "scaleUp diff p = p\<lparr>to_take := to_take p + nat diff\<rparr>"

definition scaleDown :: "int \<Rightarrow> pending_ops \<Rightarrow> pending_ops" where
  "scaleDown diff p = p\<lparr>to_put := to_put p + nat diff\<rparr>"

definition adjustConcurrency ::
  "DynamicConcurrencyConfig \<Rightarrow> int \<Rightarrow> ('s, 'h) WorkerPool \<times> pending_ops \<Rightarrow> ('s, 'h) WorkerPool \<times> pending_ops" where
  "adjustConcurrency cfg target0 = (\<lambda>(w, p).
     let target = clampTarget cfg target0 in
     if target = wp_currentConcurrency w then (w, p)
     else
       let diff = target - wp_currentConcurrency w; w' = w\<lparr>wp_currentConcurrency := target\<rparr>
       in if diff > 0 then (w', scaleUp diff p) else (w', scaleDown (- diff) p))"

definition getMonitoredPendingCount :: "'s WorkerPoolStorage \<Rightarrow> (('s, 'h) world, err + int) act" where
  "getMonitoredPendingCount st =
     and_then (on_store (ws_GetStats st)) (\<lambda>r. with_pool (\<lambda>p. done_with (
     case r of
       Inl e \<Rightarrow> Inl e
     | Inr stats \<Rightarrow> Inr (foldl (\<lambda>total qs. if qs_Name qs \<in> set (wp_monitoredQueues p)
                                 then total + qs_Pending qs else total) 0 (st_Queues stats)))))"

definition getAutoscaleSteps :: "DynamicConcurrencyConfig \<Rightarrow> int \<times> int" where
  "getAutoscaleSteps cfg =
     (let up = (if ScaleUpStep cfg \<le> 0 then 1 else ScaleUpStep cfg);
          down = (if ScaleDownStep cfg \<le> 0 then 1 else ScaleDownStep cfg)
      in (up, down))"

text \<open>The target that one iteration hands to \<open>adjustConcurrency\<close>, if any.\<close>

definition runAutoscaleIteration ::
  "'s WorkerPoolStorage \<Rightarrow> DynamicConcurrencyConfig \<Rightarrow> (('s, 'h) world, int option) act" where
  "runAutoscaleIteration st cfg =
     and_then (getMonitoredPendingCount st) (\<lambda>r. with_pool (\<lambda>p. done_with (
     case r of
       Inl e \<Rightarrow> None
     | Inr pending \<Rightarrow>
         (let curr = wp_currentConcurrency p; (up, down) = getAutoscaleSteps cfg in
          if pending > QueueDepthLimit cfg then Some (curr + up)
          else if pending = 0 then Some (curr - down)
          else None))))"

section \<open>The semaphore\<close>

text \<open>
  A configuration: the pool, the channel operations left, and the tokens that the processing loop
  and the workers hold. The autoscaler, the only caller of \<open>adjustConcurrency\<close>, makes the next
  adjustment when \<open>scaleUp\<close> has returned.
\<close>

type_synonym ('s, 'h) scaler = "(('s, 'h) WorkerPool \<times> pending_ops) \<times> nat"

inductive scaler_step :: "DynamicConcurrencyConfig \<Rightarrow> ('s, 'h) scaler \<Rightarrow> ('s, 'h) scaler \<Rightarrow> bool" for cfg where
  adjust: "to_take p = 0 \<Longrightarrow> scaler_step cfg ((w, p), n) (adjustConcurrency cfg target (w, p), n)"
| take_token: "0 < wp_sem w \<Longrightarrow> 0 < to_take p \<Longrightarrow>
     scaler_step cfg ((w, p), n) ((w\<lparr>wp_sem := wp_sem w - 1\<rparr>, p\<lparr>to_take := to_take p - 1\<rparr>), n)"
| put_token: "wp_sem w < wp_semCap w \<Longrightarrow> 0 < to_put p \<Longrightarrow>
     scaler_step cfg ((w, p), n) ((w\<lparr>wp_sem := wp_sem w + 1\<rparr>, p\<lparr>to_put := to_put p - 1\<rparr>), n)"
| acquire: "wp_sem w < wp_semCap w \<Longrightarrow>
     scaler_step cfg ((w, p), n) ((w\<lparr>wp_sem := wp_sem w + 1\<rparr>, p), Suc n)"
| release: "0 < wp_sem w \<Longrightarrow> scaler_step cfg ((w, p), Suc n) ((w\<lparr>wp_sem := wp_sem w - 1\<rparr>, p), n)"

inductive scaler_reach :: "DynamicConcurrencyConfig \<Rightarrow> ('s, 'h) scaler \<Rightarrow> bool" for cfg where
  start: "wp_autoscale w = Some cfg \<Longrightarrow> scaler_reach cfg ((setupSemaphore w, \<lparr>to_take = 0, to_put = 0\<rparr>), 0)"
| step: "scaler_reach cfg s \<Longrightarrow> scaler_step cfg s t \<Longrightarrow> scaler_reach cfg t"

inductive_cases scaler_stepE: "scaler_step cfg s t"

text \<open>The tokens in the buffer and those still to be put in are those the workers hold, those that
  lower the concurrency and those still to be taken out.\<close>

fun scaler_inv :: "DynamicConcurrencyConfig \<Rightarrow> ('s, 'h) scaler \<Rightarrow> bool" where
  "scaler_inv cfg ((w, p), n) \<longleftrightarrow>
     wp_semCap w = nat (MaxConcurrency cfg) \<and> wp_sem w \<le> wp_semCap w
     \<and> MinConcurrency cfg \<le> wp_currentConcurrency w \<and> wp_currentConcurrency w \<le> MaxConcurrency cfg
     \<and> int (wp_sem w) + int (to_put p)
         = MaxConcurrency cfg - wp_currentConcurrency w + int n + int (to_take p)"

lemma clamp_bounds:
  "MinConcurrency cfg \<le> MaxConcurrency cfg \<Longrightarrow>
     MinConcurrency cfg \<le> clampTarget cfg t \<and> clampTarget cfg t \<le> MaxConcurrency cfg"
  by (simp add: clampTarget_def)

lemma scaler_inv_step:
  assumes "scaler_step cfg s t" "scaler_inv cfg s" "MinConcurrency cfg \<le> MaxConcurrency cfg"
  shows "scaler_inv cfg t"
  using assms(1)
proof cases
  case (adjust p w n target)
  then show ?thesis
    using assms(2) clamp_bounds[OF assms(3), of target]
    by (auto simp: adjustConcurrency_def scaleUp_def scaleDown_def Let_def)
qed (use assms(2) in auto)

lemma scaler_reach_inv:
  assumes "scaler_reach cfg s" "0 \<le> MinConcurrency cfg" "MinConcurrency cfg \<le> MaxConcurrency cfg"
  shows "scaler_inv cfg s"
  using assms(1)
proof induction
  case (start w)
  with assms(2,3) show ?case by (simp add: setupSemaphore_def)
next
  case (step s t)
  then show ?case by (blast intro: scaler_inv_step[OF _ _ assms(3)])
qed

section \<open>Properties\<close>

text \<open>C18: however the autoscaler's adjustments and the workers' acquiring and releasing interleave,
  the concurrency stays between its configured bounds, no more workers run than that concurrency
  and the tokens that scale-downs have not placed yet. No channel operation waits for ever: a
  release or a take of \<open>scaleUp\<close> finds a token in the buffer or one that a scale-down is putting
  into a free slot; when the buffer is full, the put of a scale-down, and an acquire of the loop
  while the concurrency is above zero, wait for a token that a worker holds or that \<open>scaleUp\<close> is
  taking out. At a concurrency of zero with no token held an acquire does wait, for the next
  scale-up.\<close>

theorem autoscaler_bounds:
  assumes "0 \<le> MinConcurrency cfg" "MinConcurrency cfg \<le> MaxConcurrency cfg" "0 < MaxConcurrency cfg"
    and "scaler_reach cfg ((w, p), n)"
  shows "MinConcurrency cfg \<le> wp_currentConcurrency w \<and> wp_currentConcurrency w \<le> MaxConcurrency cfg
    \<and> int n \<le> wp_currentConcurrency w + int (to_put p)
    \<and> (0 < n \<or> 0 < to_take p \<longrightarrow> 0 < wp_sem w \<or> (0 < to_put p \<and> wp_sem w < wp_semCap w))
    \<and> (0 < to_put p \<or> 0 < wp_currentConcurrency w \<longrightarrow> wp_sem w < wp_semCap w \<or> 0 < n \<or> 0 < to_take p)"
proof -
  have inv: "scaler_inv cfg ((w, p), n)" using scaler_reach_inv[OF assms(4,1,2)] .
  show ?thesis using inv assms(1,2,3) by auto
qed

definition demo_scaling :: DynamicConcurrencyConfig where
  "demo_scaling = \<lparr>CheckInterval = 0, MinConcurrency = 1, MaxConcurrency = 2, QueueDepthLimit = 0,
     ScaleUpStep = 1, ScaleDownStep = 1\<rparr>"

definition demo_pool :: "(unit, unit) WorkerPool" where
  "demo_pool = NewWorkerPool ''w'' 2 [WithDynamicConcurrency demo_scaling]"

text \<open>A reachable configuration by its numbers.\<close>

definition at_scale :: "nat \<Rightarrow> int \<Rightarrow> nat \<Rightarrow> nat \<Rightarrow> nat \<Rightarrow> bool" where
  "at_scale sm cu tk pt n \<longleftrightarrow> (\<exists>w :: (unit, unit) WorkerPool.
     scaler_reach demo_scaling ((w, \<lparr>to_take = tk, to_put = pt\<rparr>), n)
     \<and> wp_sem w = sm \<and> wp_currentConcurrency w = cu \<and> wp_semCap w = 2)"

lemma at_start: "at_scale 1 1 0 0 0"
proof -
  have w: "wp_autoscale demo_pool = Some demo_scaling"
    by (simp add: demo_pool_def NewWorkerPool_def WithDynamicConcurrency_def)
  from scaler_reach.start[OF w] show ?thesis
    unfolding at_scale_def
    by (intro exI[of _ "setupSemaphore demo_pool"]) (simp add: setupSemaphore_def w demo_scaling_def)
qed

lemma at_adjust:
  assumes "at_scale sm cu 0 pt n" "target = 1 \<or> target = 2"
  shows "at_scale sm target (nat (target - cu)) (pt + nat (cu - target)) n"
proof -
  from assms(1) obtain w :: "(unit, unit) WorkerPool" where
    w: "scaler_reach demo_scaling ((w, \<lparr>to_take = 0, to_put = pt\<rparr>), n)"
    "wp_sem w = sm" "wp_currentConcurrency w = cu" "wp_semCap w = 2" by (auto simp: at_scale_def)
  define w' where "w' = w\<lparr>wp_currentConcurrency := target\<rparr>"
  have clamp: "clampTarget demo_scaling target = target"
    using assms(2) by (auto simp: clampTarget_def demo_scaling_def)
  have next_s: "scaler_reach demo_scaling (adjustConcurrency demo_scaling target (w, \<lparr>to_take = 0, to_put = pt\<rparr>), n)"
    using scaler_reach.step[OF w(1) scaler_step.adjust] by simp
  show ?thesis
  proof (cases "target = cu")
    case True
    with assms(1) show ?thesis by simp
  next
    case False
    then have "adjustConcurrency demo_scaling target (w, \<lparr>to_take = 0, to_put = pt\<rparr>)
        = (w', \<lparr>to_take = nat (target - cu), to_put = pt + nat (cu - target)\<rparr>)"
      by (simp add: adjustConcurrency_def clamp w(3) w'_def[symmetric] scaleUp_def scaleDown_def Let_def)
    with next_s have "scaler_reach demo_scaling ((w', \<lparr>to_take = nat (target - cu), to_put = pt + nat (cu - target)\<rparr>), n)"
      by simp
    moreover have "wp_sem w' = sm" "wp_currentConcurrency w' = target" "wp_semCap w' = 2"
      using w(2,4) by (simp_all add: w'_def)
    ultimately show ?thesis unfolding at_scale_def by blast
  qed
qed

lemma at_take: "at_scale (Suc sm) cu (Suc tk) pt n \<Longrightarrow> at_scale sm cu tk pt n"
  unfolding at_scale_def
proof (elim exE conjE)
  fix w :: "(unit, unit) WorkerPool"
  assume w: "scaler_reach demo_scaling ((w, \<lparr>to_take = Suc tk, to_put = pt\<rparr>), n)"
    "wp_sem w = Suc sm" "wp_currentConcurrency w = cu" "wp_semCap w = 2"
  then show "\<exists>w :: (unit, unit) WorkerPool. scaler_reach demo_scaling ((w, \<lparr>to_take = tk, to_put = pt\<rparr>), n)
      \<and> wp_sem w = sm \<and> wp_currentConcurrency w = cu \<and> wp_semCap w = 2"
    using scaler_reach.step[OF w(1) scaler_step.take_token]
    by (intro exI[of _ "w\<lparr>wp_sem := sm\<rparr>"]) simp
qed

lemma at_acquire: "at_scale sm cu tk pt n \<Longrightarrow> sm < 2 \<Longrightarrow> at_scale (Suc sm) cu tk pt (Suc n)"
  unfolding at_scale_def
proof (elim exE conjE)
  fix w :: "(unit, unit) WorkerPool"
  assume w: "sm < 2" "scaler_reach demo_scaling ((w, \<lparr>to_take = tk, to_put = pt\<rparr>), n)"
    "wp_sem w = sm" "wp_currentConcurrency w = cu" "wp_semCap w = 2"
  then show "\<exists>w :: (unit, unit) WorkerPool. scaler_reach demo_scaling ((w, \<lparr>to_take = tk, to_put = pt\<rparr>), Suc n)
      \<and> wp_sem w = Suc sm \<and> wp_currentConcurrency w = cu \<and> wp_semCap w = 2"
    using scaler_reach.step[OF w(2) scaler_step.acquire]
    by (intro exI[of _ "w\<lparr>wp_sem := Suc sm\<rparr>"]) simp
qed

theorem autoscaler_bounds_witness:
  "\<exists>(w :: (unit, unit) WorkerPool) p. scaler_reach demo_scaling ((w, p), 1)
     \<and> (1::int) \<le> wp_currentConcurrency w + int (to_put p)"
proof -
  have "at_scale 2 1 0 0 1" using at_acquire[OF at_start] by (simp add: numeral_2_eq_2)
  then obtain w :: "(unit, unit) WorkerPool" and p where w: "scaler_reach demo_scaling ((w, p), 1)"
    by (auto simp: at_scale_def)
  have "(1::int) \<le> wp_currentConcurrency w + int (to_put p)"
    using autoscaler_bounds[OF _ _ _ w] by (simp add: demo_scaling_def)
  with w show ?thesis by blast
qed

text \<open>The maximum itself is not respected. A scale-down whose token does not fit the full buffer
  is still waiting when the next scale-up takes tokens out; the processing loop, waiting on the
  same channel, may get the free slot first. With a maximum of two, three workers run.\<close>

theorem autoscaler_exceeds_maximum:
  "\<exists>(w :: (unit, unit) WorkerPool) p. scaler_reach demo_scaling ((w, p), 3)
     \<and> wp_currentConcurrency w = 2 \<and> MaxConcurrency demo_scaling = 2 \<and> to_take p = 0"
proof -
  have "at_scale 1 2 1 0 0" using at_adjust[OF at_start, of 2] by simp
  then have "at_scale 0 2 0 0 0" using at_take[of 0 2 0 0 0] by simp
  then have "at_scale (Suc (Suc 0)) 2 0 0 (Suc (Suc 0))" by (intro at_acquire) simp_all
  then have "at_scale (Suc (Suc 0)) 1 0 1 (Suc (Suc 0))"
    using at_adjust[of "Suc (Suc 0)" 2 0 "Suc (Suc 0)" 1] by simp
  then have "at_scale (Suc (Suc 0)) 2 1 1 (Suc (Suc 0))"
    using at_adjust[of "Suc (Suc 0)" 1 1 "Suc (Suc 0)" 2] by simp
  then have "at_scale (Suc 0) 2 0 1 (Suc (Suc 0))" using at_take[of "Suc 0" 2 0 1 "Suc (Suc 0)"] by simp
  then have "at_scale (Suc (Suc 0)) 2 0 1 3" unfolding numeral_3_eq_3 by (rule at_acquire) simp_all
  then obtain w :: "(unit, unit) WorkerPool" where
    w: "scaler_reach demo_scaling ((w, \<lparr>to_take = 0, to_put = 1\<rparr>), 3)" "wp_currentConcurrency w = 2"
    unfolding at_scale_def by (elim exE conjE)
  have "MaxConcurrency demo_scaling = 2" "to_take \<lparr>to_take = 0, to_put = 1\<rparr> = 0"
    by (simp_all add: demo_scaling_def)
  with w show ?thesis by (rule_tac exI[of _ w], rule_tac exI[of _ "\<lparr>to_take = 0, to_put = 1\<rparr>"], intro conjI)
qed

end
