(* ===== verification/Worker.thy ===== *)
theory Worker
  imports Autoscaler
begin

text \<open>
  The worker of \<open>worker.go\<close>: starting, fetching under queue weights, pauses and throttling,
  executing a job through the middlewares and settling it, and the periodic work of the
  background loops (cron, intervals, polling, leader election, archival). A loop is its state and
  what it does at a tick. A goroutine that a step starts is returned as a value, to be run at any
  later point. Each storage call of a step sees the storage state left by the one before it.
\<close>

section \<open>Starting\<close>

definition Pool_setupWeightedQueues :: "string list \<Rightarrow> ('s, 'h) WorkerPool \<Rightarrow> ('s, 'h) WorkerPool" where
  "Pool_setupWeightedQueues queues w =
     (if wp_weights w = [] then w
      else w\<lparr>wp_firstQueues := concat (map (\<lambda>q.
             replicate (case map_of (wp_weights w) q of
                          Some val \<Rightarrow> if val > 0 then nat val else 1
                        | None \<Rightarrow> 1) q) queues)\<rparr>)"

definition Pool_registerProcess :: "'s WorkerPoolStorage \<Rightarrow> time \<Rightarrow> string list \<Rightarrow> (('s, 'h) world, unit) act" where
  "Pool_registerProcess st now queues = with_pool (\<lambda>w.
     let (conc, minC, maxC) = (case wp_autoscale w of
            None \<Rightarrow> (wp_concurrency w, 0, 0)
          | Some cfg \<Rightarrow> (wp_currentConcurrency w, MinConcurrency cfg, MaxConcurrency cfg))
     in forget (on_store (ws_RegisterProcess st
          \<lparr>pi_HeartbeatAt = now, pi_Queues = queues, pi_ProcessID = wp_processID w,
           pi_Concurrency = conc, pi_MinConcurrency = minC, pi_MaxConcurrency = maxC,
           pi_IsLeader = False\<rparr>)))"

datatype loop = Heartbeat | LeaderElector | CronScheduler | ScheduledPoller | DLQAutopurge
  | BatchTimeoutWatcher | JobArchiver | IntervalScheduler | AutoscalerLoop

definition Pool_startBackgroundLoops :: "('s, 'h) WorkerPool \<Rightarrow> loop list" where
  "Pool_startBackgroundLoops w =
     [Heartbeat] @ (if wp_leaderTTL w > 0 then [LeaderElector] else [])
     @ (if wp_cronJobs w \<noteq> [] then [CronScheduler] else [])
     @ [ScheduledPoller, DLQAutopurge, BatchTimeoutWatcher]
     @ (if wp_archivalAge w > 0 \<and> wp_archivalInterval w > 0 then [JobArchiver] else [])
     @ (if wp_intervalJobs w \<noteq> [] then [IntervalScheduler] else [])
     @ (if wp_autoscale w \<noteq> None then [AutoscalerLoop] else [])"

text \<open>\<open>Start\<close> up to the processing loop; the result is the loops it has started.\<close>

definition Pool_Start :: "'s WorkerPoolStorage \<Rightarrow> time \<Rightarrow> string list \<Rightarrow> (('s, 'h) world, loop list) act" where
  "Pool_Start st now queues =
     and_then (set_pool (\<lambda>w. Pool_setupWeightedQueues queues (setupSemaphore (w\<lparr>wp_monitoredQueues := queues\<rparr>)))) (\<lambda>_.
     and_then (Pool_registerProcess st now queues) (\<lambda>_.
     and_then (with_pool (\<lambda>w. if wp_cronJobs w \<noteq> []
                 then forget (on_store (ws_RegisterCronJobs st (map fst (wp_cronJobs w))))
                 else done_with ())) (\<lambda>_.
     with_pool (\<lambda>w. done_with (Pool_startBackgroundLoops w)))))"

text \<open>The deferred release of the leadership when \<open>Start\<close> returns.\<close>

definition Pool_stop :: "'s WorkerPoolStorage \<Rightarrow> (('s, 'h) world, unit) act" where
  "Pool_stop st = with_pool (\<lambda>w.
     if wp_leaderTTL w > 0 then forget (on_store (ws_ReleaseLeader st (wp_processID w))) else done_with ())"

section \<open>Fetching\<close>

definition Pool_dequeueFromQueue :: "'s WorkerPoolStorage \<Rightarrow> string \<Rightarrow> (('s, 'h) world, err + JobEnvelope option) act" where
  "Pool_dequeueFromQueue st q =
     and_then (on_store (ws_IsQueuePaused st q)) (\<lambda>paused.
     if paused = Inr True then done_with (Inr None)
     else with_pool (\<lambda>w. on_store (ws_Dequeue st q (wp_tags w))))"

definition postpone :: "'s WorkerPoolStorage \<Rightarrow> JobEnvelope \<Rightarrow> (('s, 'h) world, bool) act" where
  "postpone st env =
     and_then (on_store (ws_PostponeJob st (JobID env) (Queue env) (1 * second))) (\<lambda>_. done_with False)"

definition Pool_checkLimitsAndPostpone :: "'s WorkerPoolStorage \<Rightarrow> JobEnvelope \<Rightarrow> (('s, 'h) world, bool) act" where
  "Pool_checkLimitsAndPostpone st env = with_pool (\<lambda>w.
     case wp_configs w (Name env) of
       None \<Rightarrow> done_with True
     | Some cfg \<Rightarrow>
         and_then
           (if maxConcurrency cfg > 0
            then and_then (on_store (ws_GetRunningJobsCount st (Name env))) (\<lambda>r. done_with
              (case r of Inl e \<Rightarrow> False | Inr running \<Rightarrow> running > maxConcurrency cfg))
            else done_with False) (\<lambda>over.
         if over then postpone st env
         else and_then
           (if rateLimit cfg > 0 \<and> ratePeriod cfg > 0
            then and_then (on_store (ws_CheckRateLimit st (Name env) (rateLimit cfg) (ratePeriod cfg)))
              (\<lambda>ok. done_with (ok = Inr False))
            else done_with False) (\<lambda>limited.
         if limited then postpone st env else done_with True)))"

definition Pool_checkAndDequeue :: "'s WorkerPoolStorage \<Rightarrow> string \<Rightarrow> (('s, 'h) world, err + JobEnvelope option) act" where
  "Pool_checkAndDequeue st q =
     and_then (Pool_dequeueFromQueue st q) (\<lambda>r.
     case r of
       Inl e \<Rightarrow> done_with (Inl e)
     | Inr None \<Rightarrow> done_with (Inr None)
     | Inr (Some env) \<Rightarrow>
         and_then (Pool_checkLimitsAndPostpone st env) (\<lambda>allowed.
         done_with (if allowed then Inr (Some env) else Inr None)))"

fun Pool_fetchFromOrder :: "'s WorkerPoolStorage \<Rightarrow> string list \<Rightarrow> (('s, 'h) world, err + JobEnvelope option) act" where
  "Pool_fetchFromOrder st [] = done_with (Inr None)"
| "Pool_fetchFromOrder st (q # order) =
     and_then (Pool_checkAndDequeue st q) (\<lambda>r.
     if r = Inr None then Pool_fetchFromOrder st order else done_with r)"

definition Pool_fetchStrict :: "'s WorkerPoolStorage \<Rightarrow> string list \<Rightarrow> (('s, 'h) world, err + JobEnvelope option) act" where
  "Pool_fetchStrict st queues = Pool_fetchFromOrder st queues"

text \<open>The counter is incremented and the value before it, a 64-bit number, is the index.\<close>

definition Pool_buildSearchOrder :: "string list \<Rightarrow> ('s, 'h) WorkerPool \<Rightarrow> string list \<times> ('s, 'h) WorkerPool" where
  "Pool_buildSearchOrder queues w =
     (let w = w\<lparr>wp_fetchCounter := wp_fetchCounter w + 1\<rparr>;
          idx = unat ((wp_fetchCounter w - 1) mod of_nat (length (wp_firstQueues w)));
          primary = wp_firstQueues w ! idx
      in (primary # filter (\<lambda>q. q \<noteq> primary) queues, w))"

definition Pool_fetchNext :: "'s WorkerPoolStorage \<Rightarrow> string list \<Rightarrow> (('s, 'h) world, err + JobEnvelope option) act" where
  "Pool_fetchNext st queues = with_pool (\<lambda>w.
     if wp_firstQueues w = [] then Pool_fetchStrict st queues
     else let (searchOrder, w') = Pool_buildSearchOrder queues w
          in and_then (set_pool (\<lambda>_. w')) (\<lambda>_. Pool_fetchFromOrder st searchOrder))"

section \<open>Executing\<close>

text \<open>The texts of the errors of \<open>crypto.go\<close>.\<close>

fun crypto_error_text :: "err \<Rightarrow> string" where
  "crypto_error_text ErrInvalidKey = ''crypto: invalid key size, must be 16, 24, or 32 bytes''"
| "crypto_error_text ErrPayloadTooShort = ''crypto: payload is too short''"
| "crypto_error_text ErrNoHeader = ''crypto: missing encryption header''"
| "crypto_error_text (ErrMsg s) = s"
| "crypto_error_text _ = ''''"

definition Pool_finalizeJobFailure :: "'s WorkerPoolStorage \<Rightarrow> JobEnvelope \<Rightarrow> string \<Rightarrow> (('s, 'h) world, unit) act" where
  "Pool_finalizeJobFailure st env err =
     and_then (on_store (ws_Fail st (JobID env) err)) (\<lambda>_.
     let mx = (if MaxAttempts env \<le> 0 then 3 else MaxAttempts env)
     in if Attempts env + 1 < mx then Pool_triggerEvent EventJobFailed env (Some err)
        else Pool_triggerEvent EventJobDead env (Some err))"

definition Pool_finalizeJob :: "'s WorkerPoolStorage \<Rightarrow> JobEnvelope \<Rightarrow> string option \<Rightarrow> (('s, 'h) world, unit) act" where
  "Pool_finalizeJob st env err =
     (case err of
        Some e \<Rightarrow> Pool_finalizeJobFailure st env e
      | None \<Rightarrow> and_then (on_store (ws_Ack st (JobID env))) (\<lambda>_.
                Pool_triggerEvent EventJobCompleted env None))"

text \<open>The middlewares wrap the job's handler, the last one innermost; a panic anywhere inside is
  recovered and becomes the job's error.\<close>

definition run_error :: "run_end \<Rightarrow> string option" where
  "run_error r = (case r of Returned e \<Rightarrow> e | Panicked v \<Rightarrow> Some (''panic: '' @ v))"

definition base_handler :: "'s job \<Rightarrow> 's handler" where
  "base_handler job = (\<lambda>je. and_then (job (Args je)) (\<lambda>r. done_with (r, je)))"

definition Pool_runJobPerform :: "'s WorkerPoolStorage \<Rightarrow> JobEnvelope \<Rightarrow> 's job \<Rightarrow> (('s, 'h) world, unit) act" where
  "Pool_runJobPerform st env job = with_pool (\<lambda>w.
     let handler = foldr (\<lambda>mw h. mw h) (wp_middlewares w) (base_handler job)
     in and_then (on_store (handler env)) (\<lambda>(r, env').
        Pool_finalizeJob st env' (run_error r)))"

definition Pool_executeJob ::
  "'s WorkerPoolStorage \<Rightarrow> (bytes \<Rightarrow> bytes \<Rightarrow> bytes \<Rightarrow> bytes option) \<Rightarrow> JobEnvelope
    \<Rightarrow> (('s, 'h) world, unit) act" where
  "Pool_executeJob st unseal env = with_pool (\<lambda>w.
     case wp_registry w (Name env) of
       None \<Rightarrow> forget (on_store (ws_Fail st (JobID env) (''job type not registered: name='' @ go_quote (Name env))))
     | Some job \<Rightarrow>
         if IsEncrypted (Args env) then
           if wp_encryptionKey w = []
           then forget (on_store (ws_Fail st (JobID env) ''payload is encrypted but worker has no key configured''))
           else
             (case DecryptPayload unseal (Args env) (wp_encryptionKey w) of
                Inl e \<Rightarrow> forget (on_store (ws_Fail st (JobID env)
                  (''failed to decrypt payload: '' @ crypto_error_text e)))
              | Inr dec \<Rightarrow> Pool_runJobPerform st (env\<lparr>Args := dec\<rparr>) job)
         else Pool_runJobPerform st env job)"

text \<open>One round of the processing loop once it has a token: the fetched job, if any, is executed by
  a goroutine that gives the token back.\<close>

definition Pool_fetchAndSpawn :: "'s WorkerPoolStorage \<Rightarrow> string list \<Rightarrow> (('s, 'h) world, JobEnvelope option) act" where
  "Pool_fetchAndSpawn st queues =
     and_then (Pool_fetchNext st queues) (\<lambda>r.
     case r of
       Inr (Some job) \<Rightarrow> done_with (Some job)
     | _ \<Rightarrow> and_then (set_pool (\<lambda>w. w\<lparr>wp_sem := wp_sem w - 1\<rparr>)) (\<lambda>_. done_with None))"

text \<open>\<open>acquireAndProcess\<close> while the buffer has room; the loop waits as long as it has none.\<close>

definition Pool_acquireAndProcess :: "'s WorkerPoolStorage \<Rightarrow> string list \<Rightarrow> (('s, 'h) world, JobEnvelope option) act" where
  "Pool_acquireAndProcess st queues = with_pool (\<lambda>w.
     if wp_sem w < wp_semCap w
     then and_then (set_pool (\<lambda>w. w\<lparr>wp_sem := wp_sem w + 1\<rparr>)) (\<lambda>_. Pool_fetchAndSpawn st queues)
     else done_with None)"

definition Pool_runJobWithSemaphore ::
  "'s WorkerPoolStorage \<Rightarrow> (bytes \<Rightarrow> bytes \<Rightarrow> bytes \<Rightarrow> bytes option) \<Rightarrow> JobEnvelope
    \<Rightarrow> (('s, 'h) world, unit) act" where
  "Pool_runJobWithSemaphore st unseal env =
     and_then (Pool_executeJob st unseal env) (\<lambda>_. set_pool (\<lambda>w. w\<lparr>wp_sem := wp_sem w - 1\<rparr>))"

end
