(* ===== verification/WorkerLoops.thy ===== *)
theory WorkerLoops
  imports Worker
begin

text \<open>
  What the background loops of \<open>worker.go\<close> do at a tick: cron and interval scheduling, leader
  election, polling of scheduled jobs, purging, batch timeouts, archival, autoscaling.
  \<open>time.LoadLocation\<close> is the parameter \<open>load\<close>, \<open>None\<close> for an unknown zone.
\<close>

section \<open>Leadership\<close>

definition Pool_checkLeader :: "('s, 'h) WorkerPool \<Rightarrow> bool" where
  "Pool_checkLeader w = (if wp_leaderTTL w \<le> 0 then True else wp_isLeader w)"

definition Pool_electLeader :: "'s WorkerPoolStorage \<Rightarrow> (('s, 'h) world, unit) act" where
  "Pool_electLeader st = with_pool (\<lambda>w.
     and_then (on_store (ws_AcquireLeader st (wp_processID w) (wp_leaderTTL w))) (\<lambda>r.
     case r of
       Inl e \<Rightarrow> set_pool (\<lambda>w. w\<lparr>wp_isLeader := False\<rparr>)
     | Inr ok \<Rightarrow> if ok then set_pool (\<lambda>w. w\<lparr>wp_isLeader := True\<rparr>)
                else set_pool (\<lambda>w. w\<lparr>wp_isLeader := False\<rparr>)))"

definition if_leader :: "(('s, 'h) world, unit) act \<Rightarrow> (('s, 'h) world, unit) act" where
  "if_leader m = with_pool (\<lambda>w. if Pool_checkLeader w then m else done_with ())"

section \<open>Cron jobs\<close>

definition createCronEnvelope :: "CronJob \<Rightarrow> time \<Rightarrow> JobEnvelope" where
  "createCronEnvelope cron now =
     zero_envelope\<lparr>JobID := ''cron-'' @ cj_Name cron @ ''-'' @ Itoa (now div second),
       Queue := cj_Queue cron, Name := cj_Name cron, Args := cj_Payload cron, MaxAttempts := 3\<rparr>"

definition Pool_EnqueueCronJob :: "'s WorkerPoolStorage \<Rightarrow> CronJob \<Rightarrow> time \<Rightarrow> (('s, 'h) world, unit) act" where
  "Pool_EnqueueCronJob st cron now =
     and_then (on_store (ws_LockCronExecution st (cj_Name cron) now)) (\<lambda>r.
     if r \<noteq> Inr True then done_with ()
     else let env = createCronEnvelope cron now in
       and_then (on_store (ws_Enqueue st env)) (\<lambda>r.
       case r of Inl e \<Rightarrow> done_with () | Inr _ \<Rightarrow> Pool_triggerEvent EventJobEnqueued env None))"

definition getCronLocation :: "(string \<Rightarrow> location option) \<Rightarrow> string \<Rightarrow> location" where
  "getCronLocation load tz =
     (if tz = '''' then UTC else case load tz of Some loc \<Rightarrow> loc | None \<Rightarrow> UTC)"

type_synonym cron_map = "(string \<times> (CronJob \<times> location option)) list"

definition Pool_mergeCronJobs ::
  "(string \<Rightarrow> location option) \<Rightarrow> 's WorkerPoolStorage \<Rightarrow> (('s, 'h) world, cron_map) act" where
  "Pool_mergeCronJobs load st = with_pool (\<lambda>w.
     let m = fold (\<lambda>c. AList.update (cj_Name (fst c)) c) (wp_cronJobs w) []
     in and_then (on_store (ws_GetCronSchedules st)) (\<lambda>r.
        case r of
          Inl e \<Rightarrow> done_with m
        | Inr dyn \<Rightarrow> done_with (fold (\<lambda>c. AList.update (cj_Name c)
            (c, if cj_Timezone c \<noteq> '''' then Some (getCronLocation load (cj_Timezone c)) else None)) dyn m)))"

definition cron_due :: "time \<Rightarrow> CronJob \<times> location option \<Rightarrow> bool" where
  "cron_due now c =
     (if cj_Paused (fst c) then False
      else MatchCron (cj_Spec (fst c)) (case snd c of None \<Rightarrow> utc_civil now | Some loc \<Rightarrow> loc_In loc now))"

text \<open>The cron jobs for which \<open>ProcessCronJobs\<close> starts a goroutine running \<open>EnqueueCronJob\<close>, in
  the order of one iteration of the map; \<open>now\<close> is in UTC.\<close>

definition Pool_ProcessCronJobs ::
  "(string \<Rightarrow> location option) \<Rightarrow> 's WorkerPoolStorage \<Rightarrow> time \<Rightarrow> (('s, 'h) world, CronJob list) act" where
  "Pool_ProcessCronJobs load st now =
     and_then (Pool_mergeCronJobs load st) (\<lambda>m.
     done_with (map fst (filter (cron_due now) (map snd m))))"

text \<open>One tick of \<open>startCronScheduler\<close>: the last minute handled, \<open>-1\<close> at first, is the loop's
  own.\<close>

definition Pool_cronTick ::
  "(string \<Rightarrow> location option) \<Rightarrow> 's WorkerPoolStorage \<Rightarrow> time \<Rightarrow> int
    \<Rightarrow> (('s, 'h) world, CronJob list \<times> int) act" where
  "Pool_cronTick load st now lastMinute = with_pool (\<lambda>w.
     if Pool_checkLeader w \<and> ct_Minute (utc_civil now) \<noteq> lastMinute
     then and_then (Pool_ProcessCronJobs load st now) (\<lambda>due. done_with (due, ct_Minute (utc_civil now)))
     else done_with ([], lastMinute))"

section \<open>Interval jobs\<close>

definition Pool_EnqueueIntervalJob ::
  "'s WorkerPoolStorage \<Rightarrow> IntervalJob \<Rightarrow> time \<Rightarrow> (('s, 'h) world, unit) act" where
  "Pool_EnqueueIntervalJob st job blockTime =
     and_then (on_store (ws_LockCronExecution st (ij_Name job) blockTime)) (\<lambda>r.
     if r \<noteq> Inr True then done_with ()
     else let env = zero_envelope\<lparr>JobID := ''interval-'' @ ij_Name job @ ''-'' @ Itoa (blockTime div second),
            Queue := ij_Queue job, Name := ij_Name job, Args := ij_Payload job, MaxAttempts := 3\<rparr>
     in and_then (on_store (ws_Enqueue st env)) (\<lambda>r.
        case r of Inl e \<Rightarrow> done_with () | Inr _ \<Rightarrow> Pool_triggerEvent EventJobEnqueued env None))"

text \<open>The loop of \<open>ProcessIntervalJobs\<close>, with the goroutines it starts: a job and its block
  time. Whole seconds of a duration are \<open>int64(d.Seconds())\<close>.\<close>

fun interval_loop ::
  "time \<Rightarrow> IntervalJob list \<Rightarrow> (string \<Rightarrow> int) \<Rightarrow> (IntervalJob \<times> time) list \<times> (string \<Rightarrow> int)" where
  "interval_loop now [] ticks = ([], ticks)"
| "interval_loop now (job # js) ticks =
     (let intervalSec = go_div (ij_Interval job) second in
      if intervalSec \<le> 0 then interval_loop now js ticks
      else
        let blockIdx = go_div (now div second) intervalSec; lastIdx = ticks (ij_Name job) in
        if blockIdx > lastIdx
        then let (spawned, ticks') = interval_loop now js (ticks(ij_Name job := blockIdx))
             in ((job, blockIdx * intervalSec * second) # spawned, ticks')
        else interval_loop now js ticks)"

definition Pool_ProcessIntervalJobs :: "time \<Rightarrow> (('s, 'h) world, (IntervalJob \<times> time) list) act" where
  "Pool_ProcessIntervalJobs now = with_pool (\<lambda>w.
     let (spawned, ticks) = interval_loop now (wp_intervalJobs w) (wp_lastIntervalTicks w)
     in and_then (set_pool (\<lambda>w. w\<lparr>wp_lastIntervalTicks := ticks\<rparr>)) (\<lambda>_. done_with spawned))"

definition Pool_intervalTick :: "time \<Rightarrow> (('s, 'h) world, (IntervalJob \<times> time) list) act" where
  "Pool_intervalTick now = with_pool (\<lambda>w.
     if Pool_checkLeader w then Pool_ProcessIntervalJobs now else done_with [])"

section \<open>The other loops\<close>

definition Pool_heartbeatTick :: "'s WorkerPoolStorage \<Rightarrow> time \<Rightarrow> (('s, 'h) world, unit) act" where
  "Pool_heartbeatTick st now = with_pool (\<lambda>w. Pool_registerProcess st now (wp_monitoredQueues w))"

definition Pool_pollQueuesScheduled :: "'s WorkerPoolStorage \<Rightarrow> string list \<Rightarrow> (('s, 'h) world, unit) act" where
  "Pool_pollQueuesScheduled st queues =
     if_leader (each (\<lambda>q. forget (on_store (ws_PollScheduled st q))) queues)"

definition Pool_purgeDLQIfLeader :: "'s WorkerPoolStorage \<Rightarrow> (('s, 'h) world, unit) act" where
  "Pool_purgeDLQIfLeader st =
     if_leader (with_pool (\<lambda>w. forget (on_store (ws_PurgeExpiredDLQ st (wp_dlqTTL w)))))"

text \<open>\<open>startDLQAutopurge\<close> returns at once without a TTL, and purges at its start and every hour.\<close>

definition Pool_autopurgeTick :: "'s WorkerPoolStorage \<Rightarrow> (('s, 'h) world, unit) act" where
  "Pool_autopurgeTick st = with_pool (\<lambda>w. if wp_dlqTTL w \<le> 0 then done_with () else Pool_purgeDLQIfLeader st)"

definition Pool_failExpiredBatchesIfLeader :: "'s WorkerPoolStorage \<Rightarrow> (('s, 'h) world, unit) act" where
  "Pool_failExpiredBatchesIfLeader st = if_leader (forget (on_store (ws_FailExpiredBatches st)))"

definition Pool_runArchival :: "'s WorkerPoolStorage \<Rightarrow> (('s, 'h) world, unit) act" where
  "Pool_runArchival st =
     if_leader (with_pool (\<lambda>w. forget (on_store (ws_ArchiveJobs st (wp_archivalAge w)))))"

end
