(* ===== verification/SqliteLifecycle.thy ===== *)
theory SqliteLifecycle
  imports SqliteInv
begin

text \<open>
  The life cycle of a job: what an acknowledgement frees, when a failure retries and when it
  kills, and the failure cascade through the dependency graph. The cascade is shown to return
  on every acyclic graph, with a stack no deeper than the number of dependencies, and to mark
  exactly the transitive dependants dead; on a cycle it exhausts any stack.
\<close>

section \<open>Acknowledging\<close>

definition unblock :: "time \<Rightarrow> job_row \<Rightarrow> job_row" where
  "unblock now r = r\<lparr>j_status := Pending, j_updated_at := cur_ts now\<rparr>"

lemma unblock_simps [simp]: "j_id (unblock now r) = j_id r" "unblock now (unblock now r) = unblock now r"
  by (simp_all add: unblock_def)

lemma t_update_update_same:
  assumes "\<And>r. f (f r) = f r" "\<And>r. P (f r) = P r"
  shows "t_update P f (t_update Q f t) = t_update (\<lambda>r. Q r \<or> P r) f t"
  using assms by (auto simp: t_update_def)

lemma jobs_update_twice: "jobs_update f (jobs_update g d) = jobs_update (\<lambda>t. f (g t)) d"
  by (cases d) simp

lemma t_update_cong: "(\<And>r. r \<in> set t \<Longrightarrow> P r = Q r) \<Longrightarrow> t_update P f t = t_update Q f t"
  by (simp add: t_update_def)

lemma checkBlockedChildren_run [run_simps]:
  "Sqlite_checkBlockedChildren now cs (d, [])
     = Some (Inr (), (jobs_update (t_update (\<lambda>r. j_id r \<in> set cs \<and> \<not> waits (j_id r) d) (unblock now)) d, []))"
  unfolding Sqlite_checkBlockedChildren_def
proof (induction cs arbitrary: d)
  case Nil
  show ?case by (cases d) (simp add: run_simps t_update_def)
next
  case (Cons c cs)
  have count: "(length (filter (\<lambda>(x, p). x = c) (job_dependencies d)) = 0) = (\<not> waits c d)"
    by (force simp: waits_def filter_empty_conv)
  have "jobs_update (t_update (\<lambda>r. j_id r \<in> set cs \<and> \<not> waits (j_id r) d) (unblock now))
        (if \<not> waits c d then jobs_update (t_update (\<lambda>r. j_id r = c) (unblock now)) d else d)
      = jobs_update (t_update (\<lambda>r. j_id r \<in> set (c # cs) \<and> \<not> waits (j_id r) d) (unblock now)) d"
  proof (cases "waits c d")
    case True
    then have "t_update (\<lambda>r. j_id r \<in> set cs \<and> \<not> waits (j_id r) d) (unblock now)
        = t_update (\<lambda>r. j_id r \<in> set (c # cs) \<and> \<not> waits (j_id r) d) (unblock now)"
      by (intro ext t_update_cong) auto
    with True show ?thesis by simp
  next
    case False
    have "(\<lambda>t. t_update (\<lambda>r. j_id r \<in> set cs \<and> \<not> waits (j_id r) d) (unblock now)
          (t_update (\<lambda>r. j_id r = c) (unblock now) t))
        = t_update (\<lambda>r. j_id r \<in> set (c # cs) \<and> \<not> waits (j_id r) d) (unblock now)"
      using False by (intro ext) (subst t_update_update_same, auto intro!: t_update_cong)
    with False show ?thesis by (simp add: jobs_update_twice)
  qed
  with Cons.IH[of "if \<not> waits c d then jobs_update (t_update (\<lambda>r. j_id r = c) (unblock now)) d else d"]
  show ?case using count
    by (cases "waits c d") (simp_all add: run_simps unblock_def[abs_def])
qed

definition children :: "string \<Rightarrow> db \<Rightarrow> string list" where
  "children p d = map fst (filter (\<lambda>(c, q). q = p) (job_dependencies d))"

lemma children_iff: "c \<in> set (children p d) \<longleftrightarrow> (c, p) \<in> set (job_dependencies d)"
  by (force simp: children_def)

lemma set_children: "set (children p d) = {c. (c, p) \<in> set (job_dependencies d)}"
  by (auto simp: children_iff)

lemma queryChild_run [run_simps]: "Sqlite_queryChildJobIDs p (d, []) = Some (Inr (children p d), (d, []))"
  by (simp add: Sqlite_queryChildJobIDs_def children_def run_simps)

definition drop_parent :: "string \<Rightarrow> db \<Rightarrow> db" where
  "drop_parent p = job_dependencies_update (t_delete (\<lambda>(c, q). q = p))"

text \<open>The children an acknowledged parent frees: those with no other parent left.\<close>

definition freed_by :: "string \<Rightarrow> db \<Rightarrow> string \<Rightarrow> bool" where
  "freed_by p d c \<longleftrightarrow> (c, p) \<in> set (job_dependencies d)
     \<and> list_all (\<lambda>(x, q). x = c \<longrightarrow> q = p) (job_dependencies d)"

lemma freed_by_iff: "freed_by p d c \<longleftrightarrow> c \<in> set (children p d) \<and> \<not> waits c (drop_parent p d)"
  by (force simp: freed_by_def children_iff waits_def drop_parent_def t_delete_def list_all_iff)

lemma resolve_run [run_simps]:
  "Sqlite_resolveDependencies now p (d, [])
     = Some (Inr (), (jobs_update (t_update (\<lambda>r. freed_by p d (j_id r)) (unblock now)) (drop_parent p d), []))"
  by (simp add: Sqlite_resolveDependencies_def run_simps drop_parent_def[symmetric] freed_by_iff)

lemma deleteUniqueLock_run:
  "\<exists>u. Sqlite_deleteUniqueLock q k (d, []) = Some (Inr (), (unique_locks_update (\<lambda>_. u) d, []))
     \<and> (k \<noteq> '''' \<longrightarrow> t_find (\<lambda>l. l_key l = lock_key q k) u = None)"
proof (cases "k = ''''")
  case True
  then show ?thesis
    by (intro exI[of _ "unique_locks d"]) (simp add: Sqlite_deleteUniqueLock_def run_simps)
next
  case False
  then show ?thesis
    using locks_t.find_after_delete[of "lock_key q k" d]
    by (intro exI[of _ "t_delete (\<lambda>l. l_key l = lock_key q k) (unique_locks d)"])
      (simp add: Sqlite_deleteUniqueLock_def run_simps)
qed

definition acked :: "time \<Rightarrow> job_row \<Rightarrow> job_row" where
  "acked now r = r\<lparr>j_status := Processed, j_locked_at := None, j_updated_at := cur_ts now\<rparr>"

text \<open>The jobs after the acknowledgement of \<open>j\<close>.\<close>

definition jobs_after_ack :: "time \<Rightarrow> string \<Rightarrow> db \<Rightarrow> job_row list" where
  "jobs_after_ack now j d =
     t_update (\<lambda>r. freed_by j d (j_id r)) (unblock now) (t_update (\<lambda>r. j_id r = j) (acked now) (jobs d))"

lemma performAck_run:
  "\<exists>u. Sqlite_performAck now rnd j q k b (d, []) =
      (if b \<noteq> '''' then Sqlite_handleBatchAck now rnd b else ret ())
        (d\<lparr>jobs := jobs_after_ack now j d, unique_locks := u,
           job_dependencies := job_dependencies (drop_parent j d)\<rparr>, [])
     \<and> (k \<noteq> '''' \<longrightarrow> t_find (\<lambda>l. l_key l = lock_key q k) u = None)"
proof -
  let ?d1 = "jobs_update (t_update (\<lambda>r. j_id r = j) (acked now)) d"
  obtain u where u: "Sqlite_deleteUniqueLock q k (?d1, []) = Some (Inr (), (unique_locks_update (\<lambda>_. u) ?d1, []))"
    "k \<noteq> '''' \<longrightarrow> t_find (\<lambda>l. l_key l = lock_key q k) u = None"
    using deleteUniqueLock_run by blast
  have ak: "(\<lambda>r. r\<lparr>j_status := Processed, j_locked_at := None, j_updated_at := cur_ts now\<rparr>) = acked now"
    by (simp add: acked_def fun_eq_iff)
  let ?d2 = "unique_locks_update (\<lambda>_. u) ?d1"
  have "jobs_update (t_update (\<lambda>r. freed_by j ?d2 (j_id r)) (unblock now)) (drop_parent j ?d2)
      = d\<lparr>jobs := jobs_after_ack now j d, unique_locks := u,
           job_dependencies := job_dependencies (drop_parent j d)\<rparr>"
    by (cases d) (simp add: jobs_after_ack_def drop_parent_def freed_by_def)
  with u show ?thesis
    by (intro exI[of _ u]) (simp add: Sqlite_performAck_def ak run_simps)
qed

section \<open>The cascade\<close>

definition dep_rel :: "db \<Rightarrow> (string \<times> string) set" where
  "dep_rel d = set (job_dependencies d)"

text \<open>The transitive dependants of a job.\<close>

definition below :: "(string \<times> string) set \<Rightarrow> string \<Rightarrow> string set" where
  "below R j = {c. (c, j) \<in> R\<^sup>+}"

lemma below_unfold: "below R j = (\<Union>c\<in>{c. (c, j) \<in> R}. insert c (below R c))"
proof (intro equalityI subsetI)
  fix x assume "x \<in> below R j"
  then obtain z where "(x, z) \<in> R\<^sup>*" "(z, j) \<in> R" by (auto simp: below_def dest: tranclD2)
  then show "x \<in> (\<Union>c\<in>{c. (c, j) \<in> R}. insert c (below R c))"
    by (auto simp: below_def rtrancl_eq_or_trancl)
qed (auto simp: below_def)

lemma below_closed: "(x, y) \<in> R \<Longrightarrow> y \<in> insert c (below R c) \<Longrightarrow> x \<in> insert c (below R c)"
  by (auto simp: below_def intro: trancl_into_trancl2)

text \<open>Removing the rows of a set closed under dependants loses no path outside it.\<close>

lemma below_filter:
  assumes "\<And>x y. (x, y) \<in> R \<Longrightarrow> y \<in> S \<Longrightarrow> x \<in> S"
  shows "S \<union> below {(x, y) \<in> R. x \<notin> S} c = S \<union> below R c"
proof -
  have "(x, c) \<in> R\<^sup>+ \<Longrightarrow> x \<in> S \<or> (x, c) \<in> {(x, y) \<in> R. x \<notin> S}\<^sup>+" for x
  proof (induction rule: converse_trancl_induct)
    case (step x y)
    then show ?case using assms by (cases "x \<in> S") (auto intro: trancl_into_trancl2)
  qed auto
  moreover have "{(x, y) \<in> R. x \<notin> S}\<^sup>+ \<subseteq> R\<^sup>+" by (auto elim: trancl_mono)
  ultimately show ?thesis by (auto simp: below_def)
qed

definition died :: "job_row \<Rightarrow> job_row \<Rightarrow> bool" where
  "died r r' \<longleftrightarrow> (\<exists>e a u. r' = r\<lparr>j_status := Dead, j_error_message := e, j_attempts := a,
     j_locked_at := None, j_updated_at := u\<rparr>)"

lemma died_trans: "died r s \<Longrightarrow> died s t \<Longrightarrow> died r t"
  unfolding died_def by (elim exE, simp, intro exI, rule refl)

lemma died_id: "died r s \<Longrightarrow> j_id s = j_id r"
  by (auto simp: died_def)

text \<open>What a cascade does: the jobs in \<open>S\<close> are marked dead, every other job stays, and the
  dependency rows of \<open>S\<close> are gone.\<close>

definition row_cascaded :: "string set \<Rightarrow> job_row \<Rightarrow> job_row \<Rightarrow> bool" where
  "row_cascaded S r r' \<longleftrightarrow> (if j_id r \<in> S then died r r' else r' = r)"

definition cascaded :: "string set \<Rightarrow> db \<Rightarrow> db \<Rightarrow> bool" where
  "cascaded S d d' \<longleftrightarrow> list_all2 (row_cascaded S) (jobs d) (jobs d')
     \<and> job_dependencies d' = filter (\<lambda>(c, p). c \<notin> S) (job_dependencies d)"

lemma row_cascaded_trans: "row_cascaded S r s \<Longrightarrow> row_cascaded T s t \<Longrightarrow> row_cascaded (S \<union> T) r t"
  by (auto simp: row_cascaded_def split: if_splits dest: died_id died_trans)

lemma rows_trans:
  "list_all2 (row_cascaded S) t u \<Longrightarrow> list_all2 (row_cascaded T) u v \<Longrightarrow> list_all2 (row_cascaded (S \<union> T)) t v"
  by (rule list_all2_trans[of "row_cascaded S" "row_cascaded T"])
    (auto intro: row_cascaded_trans)

lemma cascaded_trans: "cascaded S d d1 \<Longrightarrow> cascaded T d1 d2 \<Longrightarrow> cascaded (S \<union> T) d d2"
  unfolding cascaded_def by (auto intro!: filter_cong elim: rows_trans)

lemma cascaded_empty: "cascaded {} d d"
  by (simp add: cascaded_def list.rel_refl row_cascaded_def)

lemma cascaded_rel: "cascaded S d d' \<Longrightarrow> dep_rel d' = {(x, y) \<in> dep_rel d. x \<notin> S}"
  by (auto simp: cascaded_def dep_rel_def)

lemma cascaded_frame:
  "cascaded S d d1 \<Longrightarrow> jobs d2 = jobs d1 \<Longrightarrow> job_dependencies d2 = job_dependencies d1 \<Longrightarrow> cascaded S d d2"
  by (simp add: cascaded_def)

definition mark_dead :: "time \<Rightarrow> string \<Rightarrow> job_row \<Rightarrow> job_row" where
  "mark_dead now e r = r\<lparr>j_status := Dead, j_error_message := e, j_attempts := j_attempts r + 1,
     j_locked_at := None, j_updated_at := cur_ts now\<rparr>"

lemma mark_dead_eq: "(\<lambda>r. r\<lparr>j_status := Dead, j_error_message := e, j_attempts := j_attempts r + 1,
     j_locked_at := None, j_updated_at := cur_ts now\<rparr>) = mark_dead now e"
  by (simp add: mark_dead_def fun_eq_iff)

lemma died_mark: "died r (mark_dead now e r)"
  by (auto simp: died_def mark_dead_def)

lemma rows_marked:
  "list_all2 (row_cascaded {c}) t (t_update (\<lambda>r. j_id r = c) (mark_dead now e) t)"
  by (auto simp: t_update_def list_all2_map2 row_cascaded_def died_mark intro!: list.rel_refl_strong)

text \<open>One child: marked, its own dependants cascaded, its dependency rows deleted.\<close>

lemma transitionToDead_run:
  assumes "\<And>d1. jobs d1 = t_update (\<lambda>r. j_id r = c) (mark_dead now e) (jobs d)
      \<Longrightarrow> job_dependencies d1 = job_dependencies d
      \<Longrightarrow> \<exists>d2. casc c (d1, []) = Some (Inr (), (d2, [])) \<and> cascaded S d1 d2"
  shows "\<exists>d3. Sqlite_transitionToDead casc now c e k q b (d, []) = Some (Inr (), (d3, []))
    \<and> list_all2 (row_cascaded (insert c S)) (jobs d) (jobs d3)
    \<and> job_dependencies d3 = filter (\<lambda>(x, p). x \<notin> S) (job_dependencies d)"
proof -
  let ?d1 = "jobs_update (t_update (\<lambda>r. j_id r = c) (mark_dead now e)) d"
  obtain u where u: "Sqlite_deleteUniqueLock q k (?d1, []) = Some (Inr (), (unique_locks_update (\<lambda>_. u) ?d1, []))"
    using deleteUniqueLock_run by blast
  let ?d1' = "unique_locks_update (\<lambda>_. u) ?d1"
  obtain d2 where d2: "casc c (?d1', []) = Some (Inr (), (d2, []))" "cascaded S ?d1' d2"
    using assms[of ?d1'] by auto
  have "list_all2 (row_cascaded (insert c S)) (jobs d) (jobs d2)"
    using rows_trans[OF rows_marked[of c "jobs d" now e], of S "jobs d2"] d2(2)
    by (simp add: cascaded_def)
  with u d2 show ?thesis
    by (auto simp: Sqlite_transitionToDead_def run_simps mark_dead_eq set_batch_status_def cascaded_def)
qed

lemma failChildren_Cons_run:
  assumes "\<And>d1. job_dependencies d1 = job_dependencies d
      \<Longrightarrow> \<exists>d2. casc c (d1, []) = Some (Inr (), (d2, [])) \<and> cascaded S d1 d2"
  shows "\<exists>d3. Sqlite_failChildren casc now p (c # cs) (d, []) = Sqlite_failChildren casc now p cs (d3, [])
    \<and> cascaded (insert c S) d d3"
proof -
  let ?e = "''Dependency '' @ p @ '' failed''"
  obtain d3 where d3: "(case job_by_id c d of
        None \<Rightarrow> Sqlite_transitionToDead casc now c ?e '''' '''' ''''
      | Some r \<Rightarrow> Sqlite_transitionToDead casc now c ?e (j_unique_key r) (j_queue r) (j_batch_id r)) (d, [])
      = Some (Inr (), (d3, []))"
    "list_all2 (row_cascaded (insert c S)) (jobs d) (jobs d3)"
    "job_dependencies d3 = filter (\<lambda>(x, p). x \<notin> S) (job_dependencies d)"
    using transitionToDead_run[of c now ?e d casc S] assms by (cases "job_by_id c d") fastforce+
  let ?d4 = "job_dependencies_update (t_delete (\<lambda>(x, p). x = c)) d3"
  have "Sqlite_failChildren casc now p (c # cs) (d, []) = Sqlite_failChildren casc now p cs (?d4, [])"
    using d3(1) by (cases "job_by_id c d") (simp_all add: Sqlite_failChildren_def run_simps Let_def)
  moreover have "cascaded (insert c S) d ?d4"
    using d3(2,3) by (auto simp: cascaded_def t_delete_def intro!: filter_cong)
  ultimately show ?thesis by blast
qed

lemma cascade_returns:
  assumes "\<And>x y. (x, y) \<in> dep_rel d \<Longrightarrow> rk x < (rk y :: nat)" "rk j < n"
  shows "\<exists>d'. Sqlite_cascadeDependencyFailure n now j (d, []) = Some (Inr (), (d', []))
    \<and> cascaded (below (dep_rel d) j) d d'"
  using assms
proof (induction n arbitrary: d j)
  case (Suc n)
  have loop: "\<exists>d'. Sqlite_failChildren (Sqlite_cascadeDependencyFailure n now) now j cs (d, []) = Some (Inr (), (d', []))
      \<and> cascaded (\<Union>c\<in>set cs. insert c (below (dep_rel d) c)) d d'"
    if "\<And>x y. (x, y) \<in> dep_rel d \<Longrightarrow> rk x < rk y" "\<And>c. c \<in> set cs \<Longrightarrow> rk c < n" for cs d
    using that
  proof (induction cs arbitrary: d)
    case Nil
    show ?case by (simp add: Sqlite_failChildren_def run_simps cascaded_empty)
  next
    case (Cons c cs)
    let ?S = "insert c (below (dep_rel d) c)"
    obtain d3 where d3: "Sqlite_failChildren (Sqlite_cascadeDependencyFailure n now) now j (c # cs) (d, [])
        = Sqlite_failChildren (Sqlite_cascadeDependencyFailure n now) now j cs (d3, [])" "cascaded ?S d d3"
    proof -
      have "\<exists>d2. Sqlite_cascadeDependencyFailure n now c (d1, []) = Some (Inr (), (d2, []))
          \<and> cascaded (below (dep_rel d) c) d1 d2" if "job_dependencies d1 = job_dependencies d" for d1
      proof -
        from that have "dep_rel d1 = dep_rel d" by (simp add: dep_rel_def)
        with Suc.IH[of d1 c] Cons.prems show ?thesis by simp
      qed
      then have "\<exists>d3. Sqlite_failChildren (Sqlite_cascadeDependencyFailure n now) now j (c # cs) (d, [])
          = Sqlite_failChildren (Sqlite_cascadeDependencyFailure n now) now j cs (d3, []) \<and> cascaded ?S d d3"
        by (rule failChildren_Cons_run)
      with that show ?thesis by blast
    qed
    have rel: "dep_rel d3 = {(x, y) \<in> dep_rel d. x \<notin> ?S}" using cascaded_rel[OF d3(2)] .
    from Cons.IH[of d3] Cons.prems rel obtain d' where
      d': "Sqlite_failChildren (Sqlite_cascadeDependencyFailure n now) now j cs (d3, []) = Some (Inr (), (d', []))"
      "cascaded (\<Union>x\<in>set cs. insert x (below (dep_rel d3) x)) d3 d'" by auto
    have "?S \<union> below (dep_rel d3) x = ?S \<union> below (dep_rel d) x" for x
      unfolding rel by (rule below_filter) (rule below_closed)
    then have "?S \<union> (\<Union>x\<in>set cs. insert x (below (dep_rel d3) x))
        = (\<Union>x\<in>set (c # cs). insert x (below (dep_rel d) x))" by auto
    with cascaded_trans[OF d3(2) d'(2)] d'(1) d3(1) show ?case by metis
  qed
  have "\<And>c. c \<in> set (children j d) \<Longrightarrow> rk c < n"
    using Suc.prems by (fastforce simp: children_iff dep_rel_def)
  with loop[of d "children j d"] Suc.prems(1) have
    "\<exists>d'. Sqlite_failChildren (Sqlite_cascadeDependencyFailure n now) now j (children j d) (d, []) = Some (Inr (), (d', []))
      \<and> cascaded (\<Union>c\<in>set (children j d). insert c (below (dep_rel d) c)) d d'" by blast
  moreover have "(\<Union>c\<in>set (children j d). insert c (below (dep_rel d) c)) = below (dep_rel d) j"
    unfolding set_children dep_rel_def by (rule below_unfold[symmetric])
  ultimately show ?case by (simp add: run_simps)
qed simp

text \<open>On an acyclic graph the number of dependants is such a rank, and it is below the number of
  dependency rows plus one.\<close>

lemma below_card:
  assumes "acyclic (dep_rel d)" "(x, y) \<in> dep_rel d"
  shows "card (below (dep_rel d) x) < card (below (dep_rel d) y)"
proof (rule psubset_card_mono)
  have "below (dep_rel d) y \<subseteq> fst ` dep_rel d"
    by (force simp: below_def dest!: tranclD)
  then show "finite (below (dep_rel d) y)" by (rule finite_subset) (simp add: dep_rel_def)
  have "x \<in> below (dep_rel d) y" "x \<notin> below (dep_rel d) x"
    using assms by (auto simp: below_def acyclic_def)
  moreover have "below (dep_rel d) x \<subseteq> below (dep_rel d) y"
    using assms(2) by (auto simp: below_def)
  ultimately show "below (dep_rel d) x \<subset> below (dep_rel d) y" by blast
qed

lemma below_card_le: "card (below (dep_rel d) j) \<le> length (job_dependencies d)"
proof -
  have "card (below (dep_rel d) j) \<le> card (fst ` dep_rel d)"
    by (rule card_mono) (simp add: dep_rel_def, force simp: below_def dest!: tranclD)
  also have "\<dots> \<le> length (job_dependencies d)"
    by (metis card_image_le card_length dep_rel_def finite_set order.trans)
  finally show ?thesis .
qed

lemma cascade_acyclic:
  assumes "acyclic (dep_rel d)" "length (job_dependencies d) < n"
  shows "\<exists>d'. Sqlite_cascadeDependencyFailure n now j (d, []) = Some (Inr (), (d', []))
    \<and> cascaded (below (dep_rel d) j) d d'"
  using cascade_returns[of d "\<lambda>x. card (below (dep_rel d) x)" j n now] below_card[OF assms(1)]
    le_less_trans[OF below_card_le[of d j] assms(2)] by simp

subsection \<open>Cycles\<close>

text \<open>A set of jobs in which each has a dependant in the set: what a cycle is part of.\<close>

definition endless :: "string set \<Rightarrow> db \<Rightarrow> bool" where
  "endless B d \<longleftrightarrow> (\<forall>b\<in>B. \<exists>c\<in>B. (c, b) \<in> dep_rel d)"

definition kept_edges :: "string set \<Rightarrow> db \<Rightarrow> db \<Rightarrow> bool" where
  "kept_edges B d d' \<longleftrightarrow> (\<forall>c\<in>B. \<forall>p. (c, p) \<in> dep_rel d \<longrightarrow> (c, p) \<in> dep_rel d')"

lemma kept_endless: "kept_edges B d d' \<Longrightarrow> endless B d \<Longrightarrow> endless B d'"
  by (fastforce simp: kept_edges_def endless_def)

lemma kept_trans: "kept_edges B d d1 \<Longrightarrow> kept_edges B d1 d2 \<Longrightarrow> kept_edges B d d2"
  by (fastforce simp: kept_edges_def)

text \<open>Without failures: an action that, if it returns, has succeeded and kept the edges of \<open>B\<close>;
  and one that never returns.\<close>

definition spares :: "string set \<Rightarrow> unit sql \<Rightarrow> bool" where
  "spares B m \<longleftrightarrow> (\<forall>d r d' fs. endless B d \<longrightarrow> m (d, []) = Some (r, (d', fs))
     \<longrightarrow> r = Inr () \<and> fs = [] \<and> kept_edges B d d')"

definition hangs :: "string set \<Rightarrow> unit sql \<Rightarrow> bool" where
  "hangs B m \<longleftrightarrow> (\<forall>d. endless B d \<longrightarrow> m (d, []) = None)"

lemma hangs_spares: "hangs B m \<Longrightarrow> spares B m"
  by (auto simp: hangs_def spares_def)

lemma spares_cases:
  assumes "spares B m" "endless B d"
  obtains "m (d, []) = None" | d' where "m (d, []) = Some (Inr (), (d', []))" "kept_edges B d d'" "endless B d'"
proof (cases "m (d, [])")
  case (Some p)
  obtain r d' fs where "p = (r, (d', fs))" by (cases p) auto
  with Some assms have "m (d, []) = Some (Inr (), (d', []))" "kept_edges B d d'"
    by (auto simp: spares_def)
  with assms(2) that show ?thesis by (blast intro: kept_endless)
qed (use that in blast)

lemma spares_then:
  assumes "spares B m" "spares B n"
  shows "spares B (thenS m n)"
  unfolding spares_def
proof (intro allI impI)
  fix d r d' fs assume e: "endless B d" and r: "thenS m n (d, []) = Some (r, (d', fs))"
  from assms(1) e show "r = Inr () \<and> fs = [] \<and> kept_edges B d d'"
  proof (cases rule: spares_cases)
    case (2 d1)
    with r have n: "n (d1, []) = Some (r, (d', fs))" by (simp add: run_simps)
    from assms(2) 2(3) n 2(2) show ?thesis by (auto simp: spares_def intro: kept_trans)
  qed (use r in \<open>simp add: run_simps\<close>)
qed

lemma hangs_then1: "hangs B m \<Longrightarrow> hangs B (thenS m n)"
  by (simp add: hangs_def run_simps)

lemma hangs_then2:
  assumes "spares B m" "hangs B n"
  shows "hangs B (thenS m n)"
  unfolding hangs_def
proof (intro allI impI)
  fix d assume "endless B d"
  with assms(1) show "thenS m n (d, []) = None"
    by (cases rule: spares_cases) (use assms(2) in \<open>auto simp: run_simps hangs_def\<close>)
qed

lemma spares_exec: "(\<And>d. kept_edges B d (g d)) \<Longrightarrow> spares B (exec g)"
  by (auto simp: spares_def run_simps)

lemma spares_ret: "spares B (ret ())"
  by (auto simp: spares_def run_simps kept_edges_def)

lemma kept_frame: "job_dependencies d' = job_dependencies d \<Longrightarrow> kept_edges B d d'"
  by (simp add: kept_edges_def dep_rel_def)

lemma spares_deleteUniqueLock: "spares B (Sqlite_deleteUniqueLock q k)"
  unfolding Sqlite_deleteUniqueLock_def by (auto intro!: spares_exec spares_ret kept_frame)

lemma spares_transitionToDead:
  "spares B (casc c) \<Longrightarrow> spares B (Sqlite_transitionToDead casc now c e k q b)"
  unfolding Sqlite_transitionToDead_def set_batch_status_def
  by (auto intro!: spares_then spares_exec spares_ret kept_frame spares_deleteUniqueLock)

lemma hangs_transitionToDead:
  "hangs B (casc c) \<Longrightarrow> hangs B (Sqlite_transitionToDead casc now c e k q b)"
  unfolding Sqlite_transitionToDead_def
  by (intro hangs_then2 hangs_then1) (auto intro!: spares_exec kept_frame spares_deleteUniqueLock)

lemma spares_read_row:
  "spares B (f (Inl ErrNoRows)) \<Longrightarrow> (\<And>x. spares B (f (Inr x))) \<Longrightarrow> spares B (bindS (tryS (query_row g)) f)"
  unfolding spares_def by (auto simp: run_simps split: option.splits)

lemma hangs_read_row:
  "hangs B (f (Inl ErrNoRows)) \<Longrightarrow> (\<And>x. hangs B (f (Inr x))) \<Longrightarrow> hangs B (bindS (tryS (query_row g)) f)"
  unfolding hangs_def by (auto simp: run_simps split: option.splits)

lemma failChildren_Cons:
  "Sqlite_failChildren casc now p (c # cs) = thenS (Sqlite_failChildren casc now p [c]) (Sqlite_failChildren casc now p cs)"
  by (rule ext) (simp add: Sqlite_failChildren_def run_simps split: option.splits sum.splits)

lemma kept_dep_delete: "c \<notin> B \<Longrightarrow> kept_edges B d (job_dependencies_update (t_delete (\<lambda>(x, p). x = c)) d)"
  by (auto simp: kept_edges_def dep_rel_def t_delete_def)

lemma spares_failChild:
  assumes "c \<notin> B" "spares B (casc c)"
  shows "spares B (Sqlite_failChildren casc now p [c])"
  unfolding Sqlite_failChildren_def forS.simps Let_def
  by (intro spares_then spares_read_row spares_ret)
    (use assms in \<open>auto intro!: spares_exec kept_dep_delete spares_transitionToDead\<close>)

lemma hangs_failChild:
  assumes "hangs B (casc c)"
  shows "hangs B (Sqlite_failChildren casc now p [c])"
  unfolding Sqlite_failChildren_def forS.simps Let_def
  by (intro hangs_then1 hangs_read_row) (use assms in \<open>auto intro!: hangs_transitionToDead\<close>)

lemma failChildren_endless:
  assumes "\<And>c. spares B (casc c)" "\<And>c. c \<in> B \<Longrightarrow> hangs B (casc c)"
  shows "spares B (Sqlite_failChildren casc now p cs)
    \<and> (set cs \<inter> B \<noteq> {} \<longrightarrow> hangs B (Sqlite_failChildren casc now p cs))"
proof (induction cs)
  case Nil
  show ?case by (simp add: Sqlite_failChildren_def spares_ret)
next
  case (Cons c cs)
  have one: "spares B (Sqlite_failChildren casc now p [c])"
    using spares_failChild[of c B casc] assms hangs_spares[OF hangs_failChild] by blast
  show ?case
    unfolding failChildren_Cons[of casc now p c cs]
  proof (intro conjI impI)
    show "spares B (thenS (Sqlite_failChildren casc now p [c]) (Sqlite_failChildren casc now p cs))"
      using one Cons.IH by (blast intro: spares_then)
    assume "set (c # cs) \<inter> B \<noteq> {}"
    then consider "c \<in> B" | "set cs \<inter> B \<noteq> {}" by auto
    then show "hangs B (thenS (Sqlite_failChildren casc now p [c]) (Sqlite_failChildren casc now p cs))"
      by cases (use one Cons.IH assms(2) in \<open>blast intro: hangs_then1 hangs_then2 hangs_failChild\<close>)+
  qed
qed

lemma cascade_endless:
  "spares B (Sqlite_cascadeDependencyFailure n now j)
    \<and> (j \<in> B \<longrightarrow> hangs B (Sqlite_cascadeDependencyFailure n now j))"
proof (induction n arbitrary: j)
  case 0
  show ?case by (simp add: spares_def hangs_def run_simps)
next
  case (Suc n)
  let ?F = "Sqlite_failChildren (Sqlite_cascadeDependencyFailure n now) now j"
  have F: "spares B (?F cs) \<and> (set cs \<inter> B \<noteq> {} \<longrightarrow> hangs B (?F cs))" for cs
    using failChildren_endless[of B "Sqlite_cascadeDependencyFailure n now"] Suc.IH by blast
  show ?case
  proof (intro conjI impI)
    show "spares B (Sqlite_cascadeDependencyFailure (Suc n) now j)"
      unfolding spares_def by (auto simp: run_simps dest: F[THEN conjunct1, unfolded spares_def, rule_format, rotated])
    assume j: "j \<in> B"
    show "hangs B (Sqlite_cascadeDependencyFailure (Suc n) now j)"
      unfolding hangs_def
    proof (intro allI impI)
      fix d assume e: "endless B d"
      with j have "set (children j d) \<inter> B \<noteq> {}"
        by (fastforce simp: endless_def dep_rel_def children_iff)
      with F e have "?F (children j d) (d, []) = None" by (simp add: hangs_def)
      then show "Sqlite_cascadeDependencyFailure (Suc n) now j (d, []) = None" by (simp add: run_simps)
    qed
  qed
qed

section \<open>The operations without failures\<close>

lemma Ack_run:
  assumes "job_by_id j d = Some r" "j_batch_id r = ''''"
  shows "\<exists>u. Sqlite_Ack now rnd j (d, []) = Some (Inr (), (d\<lparr>jobs := jobs_after_ack now j d,
      unique_locks := u, job_dependencies := job_dependencies (drop_parent j d)\<rparr>, []))
    \<and> (j_unique_key r \<noteq> '''' \<longrightarrow> t_find (\<lambda>l. l_key l = lock_key (j_queue r) (j_unique_key r)) u = None)"
proof -
  from performAck_run[of now rnd j "j_queue r" "j_unique_key r" "''''" d] obtain u where
    u: "Sqlite_performAck now rnd j (j_queue r) (j_unique_key r) '''' (d, [])
      = Some (Inr (), (d\<lparr>jobs := jobs_after_ack now j d, unique_locks := u,
          job_dependencies := job_dependencies (drop_parent j d)\<rparr>, []))"
    "j_unique_key r \<noteq> '''' \<longrightarrow> t_find (\<lambda>l. l_key l = lock_key (j_queue r) (j_unique_key r)) u = None"
    by (auto simp: run_simps)
  then show ?thesis
    using assms by (intro exI[of _ u]) (simp add: Sqlite_Ack_def run_simps with_tx_unfold u(1))
qed

definition retry_row :: "time \<Rightarrow> string \<Rightarrow> job_row \<Rightarrow> job_row" where
  "retry_row now e r = r\<lparr>j_status := Pending, j_attempts := j_attempts r + 1,
     j_run_at := Some (now + ComputeBackoffDelay (j_attempts r) now), j_error_message := e,
     j_locked_at := None, j_updated_at := cur_ts now\<rparr>"

lemma t_update_key_row:
  "distinct (map key t) \<Longrightarrow> r \<in> set t \<Longrightarrow> f r = g r
    \<Longrightarrow> t_update (\<lambda>x. key x = key r) f t = t_update (\<lambda>x. key x = key r) g t"
  by (auto simp: t_update_def dest: distinct_map_eq)

lemma job_by_id_SomeD: "job_by_id j d = Some r \<Longrightarrow> r \<in> set (jobs d) \<and> j_id r = j"
  unfolding job_by_id_def by (drule t_find_SomeD) simp

lemma Fail_retry_run:
  assumes "pk_ok d" "job_by_id j d = Some r" "j_attempts r + 1 < getMaxAttempts (j_max_attempts r)"
  shows "Sqlite_Fail stack now j e (d, [])
    = Some (Inr (), (jobs_update (t_update (\<lambda>x. j_id x = j) (retry_row now e)) d, []))"
proof -
  let ?f = "\<lambda>x. x\<lparr>j_status := Pending, j_attempts := j_attempts x + 1,
      j_run_at := Some (now + ComputeBackoffDelay (j_attempts r) now), j_error_message := e,
      j_locked_at := None, j_updated_at := cur_ts now\<rparr>"
  have "t_update (\<lambda>x. j_id x = j) ?f (jobs d) = t_update (\<lambda>x. j_id x = j) (retry_row now e) (jobs d)"
    using t_update_key_row[of j_id "jobs d" r ?f "retry_row now e"] assms(1) job_by_id_SomeD[OF assms(2)]
    by (simp add: pk_ok_def retry_row_def)
  then have eq: "jobs_update (t_update (\<lambda>x. j_id x = j) ?f) d
      = jobs_update (t_update (\<lambda>x. j_id x = j) (retry_row now e)) d" by (cases d) simp
  have "Sqlite_performFail stack now j e (j_attempts r) (getMaxAttempts (j_max_attempts r))
      (j_unique_key r) (j_queue r) (j_batch_id r) (d, [])
      = Some (Inr (), (jobs_update (t_update (\<lambda>x. j_id x = j) (retry_row now e)) d, []))"
    using assms(3) eq by (simp add: Sqlite_performFail_def run_simps Let_def)
  with assms(2) show ?thesis
    by (simp add: Sqlite_Fail_def Sqlite_beginAndPerformFail_def run_simps with_tx_unfold Let_def getMaxAttempts_def)
qed

lemma Fail_dead_run:
  assumes "acyclic (dep_rel d)" "length (job_dependencies d) < stack"
    "job_by_id j d = Some r" "\<not> j_attempts r + 1 < getMaxAttempts (j_max_attempts r)"
  shows "\<exists>d'. Sqlite_Fail stack now j e (d, []) = Some (Inr (), (d', []))
    \<and> list_all2 (row_cascaded (insert j (below (dep_rel d) j))) (jobs d) (jobs d')
    \<and> job_dependencies d' = filter (\<lambda>(c, p). c \<notin> below (dep_rel d) j) (job_dependencies d)"
proof -
  have "\<exists>d2. Sqlite_cascadeDependencyFailure stack now j (d1, []) = Some (Inr (), (d2, []))
      \<and> cascaded (below (dep_rel d) j) d1 d2" if "job_dependencies d1 = job_dependencies d" for d1
    using cascade_acyclic[of d1 stack now j] assms(1,2) that by (simp add: dep_rel_def)
  with transitionToDead_run[of j now e d "Sqlite_cascadeDependencyFailure stack now" "below (dep_rel d) j"
      "j_unique_key r" "j_queue r" "j_batch_id r"]
  obtain d' where d': "Sqlite_transitionToDead (Sqlite_cascadeDependencyFailure stack now) now j e
        (j_unique_key r) (j_queue r) (j_batch_id r) (d, []) = Some (Inr (), (d', []))"
    "list_all2 (row_cascaded (insert j (below (dep_rel d) j))) (jobs d) (jobs d')"
    "job_dependencies d' = filter (\<lambda>(c, p). c \<notin> below (dep_rel d) j) (job_dependencies d)" by auto
  have "Sqlite_performFail stack now j e (j_attempts r) (getMaxAttempts (j_max_attempts r))
      (j_unique_key r) (j_queue r) (j_batch_id r) (d, []) = Some (Inr (), (d', []))"
    using assms(4) d'(1) by (simp add: Sqlite_performFail_def)
  with d'(2,3) assms(3) show ?thesis
    by (simp add: Sqlite_Fail_def Sqlite_beginAndPerformFail_def run_simps with_tx_unfold Let_def getMaxAttempts_def)
qed

lemma Cancel_run:
  assumes "acyclic (dep_rel d)" "length (job_dependencies d) < stack"
  shows "\<exists>d'. Sqlite_Cancel stack now j (d, []) = Some (Inr (), (d', []))
    \<and> list_all2 (row_cascaded (below (dep_rel d) j)) (filter (\<lambda>r. j_id r \<noteq> j) (jobs d)) (jobs d')
    \<and> job_dependencies d' = filter (\<lambda>(c, p). c \<notin> below (dep_rel d) j) (job_dependencies d)"
proof -
  define kq where "kq = (case map_option (\<lambda>r. (j_unique_key r, j_queue r)) (job_by_id j d) of
    None \<Rightarrow> ('''', '''') | Some x \<Rightarrow> x)"
  let ?d1 = "jobs_update (t_delete (\<lambda>r. j_id r = j)) d"
  obtain u where u: "Sqlite_deleteUniqueLock (snd kq) (fst kq) (?d1, [])
      = Some (Inr (), (unique_locks_update (\<lambda>_. u) ?d1, []))"
    using deleteUniqueLock_run by blast
  let ?d2 = "unique_locks_update (\<lambda>_. u) ?d1"
  have "dep_rel ?d2 = dep_rel d" by (simp add: dep_rel_def)
  with cascade_acyclic[of ?d2 stack now j] assms obtain d' where d':
    "Sqlite_cascadeDependencyFailure stack now j (?d2, []) = Some (Inr (), (d', []))"
    "cascaded (below (dep_rel d) j) ?d2 d'" by auto
  have "thenS (exec (jobs_update (t_delete (\<lambda>r. j_id r = j))))
       (thenS (Sqlite_deleteUniqueLock (snd kq) (fst kq))
          (Sqlite_cascadeDependencyFailure stack now j)) (d, []) = Some (Inr (), (d', []))"
    using u d'(1) by (simp add: run_simps)
  then have "Sqlite_Cancel stack now j (d, []) = Some (Inr (), (d', []))"
    by (cases "job_by_id j d") (simp_all add: Sqlite_Cancel_def run_simps with_tx_unfold Let_def kq_def)
  with d'(2) show ?thesis by (auto simp: cascaded_def t_delete_def)
qed

lemma BulkCancel_loop:
  "\<exists>u. forS Sqlite_cancelOneJob js (d, [])
     = Some (Inr (), (d\<lparr>jobs := filter (\<lambda>r. j_id r \<notin> set js) (jobs d), unique_locks := u\<rparr>, []))"
proof (induction js arbitrary: d)
  case Nil
  show ?case by (intro exI[of _ "unique_locks d"]) (cases d, simp add: run_simps)
next
  case (Cons j js)
  let ?d1 = "jobs_update (t_delete (\<lambda>r. j_id r = j)) d"
  have "\<exists>u. Sqlite_cancelOneJob j (d, []) = Some (Inr (), (unique_locks_update (\<lambda>_. u) ?d1, []))"
    using deleteUniqueLock_run[of "''''" "''''" ?d1]
      deleteUniqueLock_run[of "j_queue (the (job_by_id j d))" "j_unique_key (the (job_by_id j d))" ?d1]
    by (cases "job_by_id j d") (auto simp: Sqlite_cancelOneJob_def run_simps)
  then obtain u where u: "Sqlite_cancelOneJob j (d, []) = Some (Inr (), (unique_locks_update (\<lambda>_. u) ?d1, []))" ..
  from Cons.IH[of "unique_locks_update (\<lambda>_. u) ?d1"] obtain v where
    "forS Sqlite_cancelOneJob js (unique_locks_update (\<lambda>_. u) ?d1, []) = Some (Inr (),
       ((unique_locks_update (\<lambda>_. u) ?d1)\<lparr>jobs := filter (\<lambda>r. j_id r \<notin> set js) (jobs ?d1), unique_locks := v\<rparr>, []))"
    by auto
  with u show ?case
    by (intro exI[of _ v]) (cases d, auto simp: run_simps t_delete_def intro!: filter_cong)
qed

lemma BulkCancel_run:
  "\<exists>u. Sqlite_BulkCancel js (d, [])
     = Some (Inr (), (d\<lparr>jobs := filter (\<lambda>r. j_id r \<notin> set js) (jobs d), unique_locks := u\<rparr>, []))"
proof (cases "js = []")
  case True
  then show ?thesis
    by (intro exI[of _ "unique_locks d"]) (cases d, simp add: Sqlite_BulkCancel_def run_simps)
next
  case False
  from BulkCancel_loop[of js d] obtain u where u: "forS Sqlite_cancelOneJob js (d, [])
     = Some (Inr (), (d\<lparr>jobs := filter (\<lambda>r. j_id r \<notin> set js) (jobs d), unique_locks := u\<rparr>, []))" ..
  with False show ?thesis
    by (intro exI[of _ u]) (simp add: Sqlite_BulkCancel_def with_tx_unfold)
qed

section \<open>Properties\<close>



lemma demo_parent_row:
  "job_by_id ''p'' demo_db = Some ((default_job_row 0 ''p'' ''q'' ''A'' [])\<lparr>j_run_at := Some 0\<rparr>)"
  by (simp add: job_by_id_def demo_db_def default_job_row_def t_find_def)



text \<open>C2: a failed job is retried or dies. While attempts remain it becomes pending again, one
  attempt later and not before the backoff delay has passed, and nothing else changes. On its
  last attempt it is marked dead together with exactly its transitive dependants, whose
  dependency rows go; every other job keeps its row. On an acyclic dependency graph the
  operation always returns, with a stack deeper than the number of dependency rows.\<close>

theorem fail_retries_or_dies:
  assumes "pk_ok d" "job_by_id j d = Some r" "acyclic (dep_rel d)" "length (job_dependencies d) < stack"
  shows "\<exists>d'. Sqlite_Fail stack now j e (d, []) = Some (Inr (), (d', [])) \<and>
    (if j_attempts r + 1 < getMaxAttempts (j_max_attempts r)
     then d' = jobs_update (t_update (\<lambda>x. j_id x = j) (retry_row now e)) d
     else list_all2 (\<lambda>x x'. if j_id x = j \<or> j_id x \<in> below (dep_rel d) j then died x x' else x' = x)
            (jobs d) (jobs d')
          \<and> job_dependencies d' = filter (\<lambda>(c, p). c \<notin> below (dep_rel d) j) (job_dependencies d))"
proof (cases "j_attempts r + 1 < getMaxAttempts (j_max_attempts r)")
  case True
  with Fail_retry_run[OF assms(1,2)] show ?thesis by simp
next
  case False
  with Fail_dead_run[OF assms(3,4,2)] show ?thesis
    by (simp add: row_cascaded_def[abs_def])
qed

lemma demo_acyclic: "acyclic (dep_rel demo_db)"
  by (simp add: dep_rel_def demo_db_def acyclic_insert) (simp add: acyclic_def)

lemma demo_below: "below (dep_rel demo_db) ''p'' = {''c''}"
  by (auto simp: below_def dep_rel_def demo_db_def elim: tranclE)

theorem fail_retries_or_dies_witness:
  "\<exists>d'. Sqlite_Fail 2 0 ''p'' ''boom'' (demo_db, []) = Some (Inr (), (d', []))
     \<and> d' = jobs_update (t_update (\<lambda>x. j_id x = ''p'') (retry_row 0 ''boom'')) demo_db"
  using fail_retries_or_dies[OF reachable_pk[OF demo_reachable] demo_parent_row demo_acyclic, of 2 0 "''boom''"]
  by (simp add: default_job_row_def getMaxAttempts_def demo_db_def)

text \<open>C12: cancelling a job deletes its row and marks exactly its transitive dependants dead, on
  every acyclic dependency graph and with a stack deeper than the number of dependency rows;
  all other jobs keep their rows.\<close>

theorem cancel_kills_dependants:
  assumes "acyclic (dep_rel d)" "length (job_dependencies d) < stack"
  shows "\<exists>d'. Sqlite_Cancel stack now j (d, []) = Some (Inr (), (d', []))
    \<and> list_all2 (\<lambda>x x'. if j_id x \<in> below (dep_rel d) j then died x x' else x' = x)
        (filter (\<lambda>r. j_id r \<noteq> j) (jobs d)) (jobs d')
    \<and> job_dependencies d' = filter (\<lambda>(c, p). c \<notin> below (dep_rel d) j) (job_dependencies d)"
  using Cancel_run[OF assms] by (simp add: row_cascaded_def[abs_def])

theorem cancel_kills_dependants_witness:
  "\<exists>d'. Sqlite_Cancel 2 0 ''p'' (demo_db, []) = Some (Inr (), (d', [])) \<and> job_dependencies d' = []
     \<and> map j_id (jobs d') = [''c''] \<and> map j_status (jobs d') = [Dead]"
  using cancel_kills_dependants[OF demo_acyclic, of 2 0 "''p''"]
  by (auto simp: demo_below) (auto simp: demo_db_def default_job_row_def list_all2_Cons1 died_def)

text \<open>C19: on a dependency cycle the cascade never ends. If each job of a set has a dependant in
  the set, cancelling one of them exhausts the stack, however deep it is, and the process dies;
  \<open>EnqueueWorkflow\<close> accepts such cycles.\<close>

theorem cancel_on_cycle_crashes:
  assumes "\<forall>b\<in>B. \<exists>c\<in>B. (c, b) \<in> set (job_dependencies d)" "j \<in> B"
  shows "Sqlite_Cancel stack now j (d, []) = None"
proof -
  define kq where "kq = (case map_option (\<lambda>r. (j_unique_key r, j_queue r)) (job_by_id j d) of
    None \<Rightarrow> ('''', '''') | Some x \<Rightarrow> x)"
  let ?d1 = "jobs_update (t_delete (\<lambda>r. j_id r = j)) d"
  obtain u where u: "Sqlite_deleteUniqueLock (snd kq) (fst kq) (?d1, [])
      = Some (Inr (), (unique_locks_update (\<lambda>_. u) ?d1, []))"
    using deleteUniqueLock_run by blast
  have "endless B (unique_locks_update (\<lambda>_. u) ?d1)"
    using assms(1) by (simp add: endless_def dep_rel_def)
  with cascade_endless[of B stack now j] assms(2)
  have "Sqlite_cascadeDependencyFailure stack now j (unique_locks_update (\<lambda>_. u) ?d1, []) = None"
    by (simp add: hangs_def)
  with u show ?thesis
    by (cases "job_by_id j d") (simp_all add: Sqlite_Cancel_def run_simps with_tx_unfold Let_def kq_def)
qed

definition cyclic_db :: db where
  "cyclic_db = empty_db\<lparr>
     jobs := [(default_job_row 0 ''p'' ''q'' ''A'' [])\<lparr>j_run_at := Some 0, j_status := Blocked\<rparr>,
              (default_job_row 0 ''c'' ''q'' ''B'' [])\<lparr>j_run_at := Some 0, j_status := Blocked\<rparr>],
     job_dependencies := [(''p'', ''c''), (''c'', ''p'')]\<rparr>"

theorem cancel_on_cycle_crashes_witness:
  "Sqlite_EnqueueWorkflow 0 [demo_parent\<lparr>Dependencies := [''c'']\<rparr>, demo_child] (empty_db, [])
     = Some (Inr (), (cyclic_db, []))
   \<and> Sqlite_Cancel 1000000 0 ''p'' (cyclic_db, []) = None"
proof
  show "Sqlite_EnqueueWorkflow 0 [demo_parent\<lparr>Dependencies := [''c'']\<rparr>, demo_child] (empty_db, [])
     = Some (Inr (), (cyclic_db, []))" by code_simp
  show "Sqlite_Cancel 1000000 0 ''p'' (cyclic_db, []) = None"
    by (rule cancel_on_cycle_crashes[of "{''p'', ''c''}"]) (simp_all add: cyclic_db_def)
qed

text \<open>Unlike \<open>Cancel\<close>, the bulk cancellation does not cascade: it deletes the given jobs
  and leaves every dependency row and every dependant as it was, so that a dependant of a
  cancelled job stays blocked on a job that no longer exists.\<close>

theorem bulk_cancel_strands_dependants:
  assumes "c \<in> set (jobs d)" "j_status c = Blocked" "(j_id c, p) \<in> set (job_dependencies d)"
    "p \<in> set js" "j_id c \<notin> set js"
  shows "\<exists>d'. Sqlite_BulkCancel js (d, []) = Some (Inr (), (d', [])) \<and> c \<in> set (jobs d')
    \<and> (j_id c, p) \<in> set (job_dependencies d') \<and> job_by_id p d' = None"
proof -
  from BulkCancel_run[of js d] obtain u where "Sqlite_BulkCancel js (d, [])
     = Some (Inr (), (d\<lparr>jobs := filter (\<lambda>r. j_id r \<notin> set js) (jobs d), unique_locks := u\<rparr>, []))" ..
  with assms show ?thesis
    by (auto simp: job_by_id_def t_find_def find_None_iff)
qed

theorem bulk_cancel_strands_dependants_witness:
  "\<exists>d'. Sqlite_BulkCancel [''p''] (demo_db, []) = Some (Inr (), (d', [])) \<and> job_by_id ''p'' d' = None
    \<and> (default_job_row 0 ''c'' ''q'' ''B'' [])\<lparr>j_run_at := Some 0, j_status := Blocked\<rparr> \<in> set (jobs d')"
  using bulk_cancel_strands_dependants[of "(default_job_row 0 ''c'' ''q'' ''B'' [])\<lparr>j_run_at := Some 0, j_status := Blocked\<rparr>"
      demo_db "''p''" "[''p'']"]
  by (auto simp: demo_db_def default_job_row_def)

text \<open>The acknowledgement of a parent makes a dependant pending whatever its status: a
  dependant that was retried by hand and has already been processed is queued to run again.\<close>

theorem ack_reruns_processed_dependant:
  assumes "job_by_id j d = Some r" "j_batch_id r = ''''" "c \<in> set (jobs d)" "j_status c = Processed"
    "j_id c \<noteq> j" "freed_by j d (j_id c)"
  shows "\<exists>d'. Sqlite_Ack now rnd j (d, []) = Some (Inr (), (d', [])) \<and> unblock now c \<in> set (jobs d')"
proof -
  have "unblock now c \<in> set (jobs_after_ack now j d)"
    using assms(3,5,6) by (force simp: jobs_after_ack_def t_update_def)
  with Ack_run[OF assms(1,2), of now rnd] show ?thesis by auto
qed

definition rerun_db :: db where
  "rerun_db = demo_db\<lparr>jobs :=
     [(default_job_row 0 ''p'' ''q'' ''A'' [])\<lparr>j_run_at := Some 0\<rparr>,
      (default_job_row 0 ''c'' ''q'' ''B'' [])\<lparr>j_run_at := Some 0, j_status := Processed\<rparr>]\<rparr>"

theorem ack_reruns_processed_dependant_witness:
  "reachable rerun_db \<and> (\<exists>d'. Sqlite_Ack 0 [] ''p'' (rerun_db, []) = Some (Inr (), (d', []))
     \<and> unblock 0 ((default_job_row 0 ''c'' ''q'' ''B'' [])\<lparr>j_run_at := Some 0, j_status := Processed\<rparr>) \<in> set (jobs d'))"
proof
  have "run_call (CRetry 0 ''c'') (demo_db, []) = Some (Inr (),
      (jobs_update (t_update (\<lambda>r. j_id r = ''c'') (reset_row 0)) demo_db, []))"
    by (simp add: Sqlite_Retry_def run_simps)
  from reachable_run[OF demo_reachable this]
  have r1: "reachable (jobs_update (t_update (\<lambda>r. j_id r = ''c'') (reset_row 0)) demo_db)" .
  have "run_call (CAck 0 [] ''c'') (jobs_update (t_update (\<lambda>r. j_id r = ''c'') (reset_row 0)) demo_db, [])
      = Some (Inr (), (rerun_db, []))" by code_simp
  from reachable_run[OF r1 this] show "reachable rerun_db" .
  have "job_by_id ''p'' rerun_db = Some ((default_job_row 0 ''p'' ''q'' ''A'' [])\<lparr>j_run_at := Some 0\<rparr>)"
    by (simp add: job_by_id_def rerun_db_def default_job_row_def t_find_def)
  from ack_reruns_processed_dependant[OF this, of "(default_job_row 0 ''c'' ''q'' ''B'' [])\<lparr>j_run_at := Some 0, j_status := Processed\<rparr>" 0 "[]"]
  show "\<exists>d'. Sqlite_Ack 0 [] ''p'' (rerun_db, []) = Some (Inr (), (d', []))
     \<and> unblock 0 ((default_job_row 0 ''c'' ''q'' ''B'' [])\<lparr>j_run_at := Some 0, j_status := Processed\<rparr>) \<in> set (jobs d')"
    by (simp add: rerun_db_def demo_db_def default_job_row_def freed_by_def)
qed

end
