(* ===== verification/SqliteBatch.thy ===== *)
theory SqliteBatch
  imports SqliteLifecycle
begin

text \<open>
  What \<open>Ack\<close> does to any job, of a batch or not. Job batches: how \<open>Ack\<close> and \<open>SubmitBatch\<close> count a
  batch down and when they enqueue its callback. A batch whose jobs are each acknowledged once and that is submitted once, in any
  order, enqueues the callback exactly once; a second submission enqueues it again.
\<close>

section \<open>The batch row\<close>

definition batch_by_id :: "string \<Rightarrow> db \<Rightarrow> batch_row option" where
  "batch_by_id b d = t_find (\<lambda>x. b_id x = b) (batches d)"

definition update_batch :: "string \<Rightarrow> (batch_row \<Rightarrow> batch_row) \<Rightarrow> db \<Rightarrow> db" where
  "update_batch b f = batches_update (t_update (\<lambda>x. b_id x = b) f)"

lemma batch_after_update:
  assumes "\<And>x. b_id (f x) = b_id x"
  shows "batch_by_id b (update_batch b f d) = map_option f (batch_by_id b d)"
  using batches_t.find_after_update[of f b d] assms by (simp add: batch_by_id_def update_batch_def)

lemma update_batch_frame [simp]:
  "jobs (update_batch b f d) = jobs d" "job_dependencies (update_batch b f d) = job_dependencies d"
  "unique_locks (update_batch b f d) = unique_locks d"
  by (simp_all add: update_batch_def)

lemma update_batch_twice:
  "(\<And>x. b_id (f x) = b_id x) \<Longrightarrow> update_batch b g (update_batch b f d) = update_batch b (\<lambda>x. g (f x)) d"
  by (cases d) (simp add: update_batch_def t_update_def)

definition set_status :: "batch_status \<Rightarrow> batch_row \<Rightarrow> batch_row" where
  "set_status st x = x\<lparr>b_status := st\<rparr>"

definition count_down :: "batch_row \<Rightarrow> batch_row" where
  "count_down x = x\<lparr>b_pending_jobs := b_pending_jobs x - 1\<rparr>"

lemma batch_row_simps [simp]:
  "b_id (set_status st x) = b_id x" "b_id (count_down x) = b_id x"
  "b_expires_at (set_status st x) = b_expires_at x" "b_expires_at (count_down x) = b_expires_at x"
  "b_status (set_status st x) = st" "b_status (count_down x) = b_status x"
  "b_pending_jobs (set_status st x) = b_pending_jobs x" "b_pending_jobs (count_down x) = b_pending_jobs x - 1"
  "b_callback_queue (set_status st x) = b_callback_queue x" "b_callback_queue (count_down x) = b_callback_queue x"
  "b_callback_name (set_status st x) = b_callback_name x" "b_callback_name (count_down x) = b_callback_name x"
  "b_callback_args (set_status st x) = b_callback_args x" "b_callback_args (count_down x) = b_callback_args x"
  "set_status st (set_status st' x) = set_status st x"
  by (simp_all add: set_status_def count_down_def)

lemma set_batch_status_run [run_simps]:
  "set_batch_status b st (d, []) = Some (Inr (), (update_batch b (set_status st) d, []))"
  by (simp add: set_batch_status_def run_simps update_batch_def set_status_def[abs_def])

definition expired :: "time \<Rightarrow> batch_row \<Rightarrow> bool" where
  "expired now x = (case b_expires_at x of None \<Rightarrow> False | Some t \<Rightarrow> t < now)"

definition callback_row :: "time \<Rightarrow> bytes \<Rightarrow> batch_row \<Rightarrow> job_row" where
  "callback_row now rnd x = default_job_row now (generateJobID rnd) (b_callback_queue x)
     (b_callback_name x) (b_callback_args x)"

definition add_callback :: "time \<Rightarrow> bytes \<Rightarrow> batch_row \<Rightarrow> db \<Rightarrow> db" where
  "add_callback now rnd x = jobs_update (\<lambda>t. t @ [callback_row now rnd x])"

lemma insert_callback_run [run_simps]:
  "\<not> has_key j_id (generateJobID rnd) (jobs d) \<Longrightarrow>
     insert_callback_job now rnd (b_callback_queue x) (b_callback_name x) (b_callback_args x) (d, [])
       = Some (Inr (), (add_callback now rnd x d, []))"
  by (simp add: insert_callback_job_def run_simps add_callback_def callback_row_def Let_def)

lemma update_returning_batch:
  assumes "\<And>x. b_id (f x) = b_id x"
  shows "update_returning (\<lambda>d. map_option h (t_find (\<lambda>x. b_id x = b) (batches d)))
      (batches_update (t_update (\<lambda>x. b_id x = b) f)) (d, [])
    = (case batch_by_id b d of None \<Rightarrow> Some (Inl ErrNoRows, (update_batch b f d, []))
       | Some x \<Rightarrow> Some (Inr (h (f x)), (update_batch b f d, [])))"
  using batch_after_update[OF assms, of b d]
  by (simp add: run_simps batch_by_id_def update_batch_def split: option.splits)

text \<open>What one acknowledgement does to a batch, and what a submission does.\<close>

definition batch_acked :: "time \<Rightarrow> bytes \<Rightarrow> string \<Rightarrow> batch_row \<Rightarrow> db \<Rightarrow> db" where
  "batch_acked now rnd b x d =
     (if expired now x then update_batch b (\<lambda>x. set_status BatchFailed (count_down x)) d
      else if b_status x = BatchSealed \<and> b_pending_jobs x = 1
      then add_callback now rnd x (update_batch b (\<lambda>x. set_status BatchCompleted (count_down x)) d)
      else update_batch b count_down d)"

definition batch_submitted :: "time \<Rightarrow> bytes \<Rightarrow> string \<Rightarrow> batch_row \<Rightarrow> db \<Rightarrow> db" where
  "batch_submitted now rnd b x d =
     (if expired now x then update_batch b (set_status BatchFailed) d
      else if b_pending_jobs x = 0
      then add_callback now rnd x (update_batch b (set_status BatchCompleted) d)
      else update_batch b (set_status BatchSealed) d)"

lemma callback_same_fields:
  "b_callback_queue y = b_callback_queue x \<Longrightarrow> b_callback_name y = b_callback_name x
    \<Longrightarrow> b_callback_args y = b_callback_args x \<Longrightarrow> add_callback now rnd y = add_callback now rnd x"
  by (simp add: add_callback_def callback_row_def)

lemma handleBatchAck_run:
  assumes "batch_by_id b d = Some x" "\<not> has_key j_id (generateJobID rnd) (jobs d)"
  shows "Sqlite_handleBatchAck now rnd b (d, []) = Some (Inr (), (batch_acked now rnd b x d, []))"
proof -
  have ur: "update_returning (\<lambda>d. t_find (\<lambda>x. b_id x = b) (batches d))
      (batches_update (t_update (\<lambda>x. b_id x = b) (\<lambda>x. x\<lparr>b_pending_jobs := b_pending_jobs x - 1\<rparr>))) (d, [])
    = Some (Inr (count_down x), (update_batch b count_down d, []))"
    using update_returning_batch[of count_down "\<lambda>x. x" b d] assms(1)
    by (simp add: count_down_def[abs_def] option.map_ident)
  show ?thesis
    using assms(2) insert_callback_run[of rnd "update_batch b (\<lambda>x. set_status BatchCompleted (count_down x)) d" now x]
    by (auto simp: Sqlite_handleBatchAck_def Sqlite_updateBatchPending_def run_simps ur expired_def
        batch_acked_def update_batch_twice simp del: update_returning_run split: option.splits)
qed

lemma handleBatchAck_missing_run:
  "batch_by_id b d = None \<Longrightarrow> \<exists>d'. Sqlite_handleBatchAck now rnd b (d, []) = Some (Inl ErrNoRows, (d', []))"
  using update_returning_batch[of count_down "\<lambda>x. x" b d]
  by (simp add: Sqlite_handleBatchAck_def Sqlite_updateBatchPending_def run_simps count_down_def[abs_def]
      option.map_ident del: update_returning_run)

lemma SubmitBatch_run:
  assumes "batch_by_id b d = Some x" "\<not> has_key j_id (generateJobID rnd) (jobs d)"
  shows "Sqlite_SubmitBatch now rnd b (d, []) = Some (Inr (), (batch_submitted now rnd b x d, []))"
proof -
  let ?h = "\<lambda>x. (b_pending_jobs x, b_callback_queue x, b_callback_name x, b_callback_args x)"
  have seal: "Sqlite_sealBatch b (d, []) = Some (Inr (?h x), (update_batch b (set_status BatchSealed) d, []))"
    using update_returning_batch[of "set_status BatchSealed" ?h b d] assms(1)
    by (simp add: Sqlite_sealBatch_def set_status_def[abs_def])
  have chk: "Sqlite_checkBatchExpired now b (d, []) = Some (Inr (expired now x),
      (if expired now x then update_batch b (set_status BatchFailed) d else d, []))"
    using assms(1) by (auto simp: Sqlite_checkBatchExpired_def run_simps batch_by_id_def expired_def split: option.splits)
  show ?thesis
    using assms(2) insert_callback_run[of rnd "update_batch b (set_status BatchCompleted) d" now x]
    by (auto simp: Sqlite_SubmitBatch_def with_tx_unfold run_simps chk seal batch_submitted_def
        Sqlite_completeBatchAndEnqueue_def update_batch_twice)
qed

section \<open>A whole batch\<close>

lemma jobs_after_ack_ids: "map j_id (jobs_after_ack now j d) = map j_id (jobs d)"
  by (simp add: jobs_after_ack_def t_update_keys acked_def)

lemma jobs_after_ack_batch:
  assumes "t_find (\<lambda>r. j_id r = i) (jobs d) = Some r"
  shows "\<exists>r'. t_find (\<lambda>r. j_id r = i) (jobs_after_ack now j d) = Some r' \<and> j_batch_id r' = j_batch_id r"
  using assms by (auto simp: jobs_after_ack_def t_find_update acked_def unblock_def)

lemma has_key_ids: "has_key j_id k t \<longleftrightarrow> k \<in> set (map j_id t)"
  by (auto simp: has_key_def)

lemma Ack_batch_run:
  assumes "job_by_id j d = Some r" "j_batch_id r = b" "b \<noteq> ''''" "batch_by_id b d = Some x"
    "generateJobID rnd \<notin> set (map j_id (jobs d))"
  shows "\<exists>d1. Sqlite_Ack now rnd j (d, []) = Some (Inr (), (batch_acked now rnd b x d1, []))
    \<and> jobs d1 = jobs_after_ack now j d \<and> batches d1 = batches d"
proof -
  obtain u where u: "Sqlite_performAck now rnd j (j_queue r) (j_unique_key r) b (d, []) =
      Sqlite_handleBatchAck now rnd b (d\<lparr>jobs := jobs_after_ack now j d, unique_locks := u,
           job_dependencies := job_dependencies (drop_parent j d)\<rparr>, [])"
    using performAck_run[of now rnd j "j_queue r" "j_unique_key r" b d] assms(3) by auto
  let ?d1 = "d\<lparr>jobs := jobs_after_ack now j d, unique_locks := u,
           job_dependencies := job_dependencies (drop_parent j d)\<rparr>"
  have "batch_by_id b ?d1 = Some x" using assms(4) by (simp add: batch_by_id_def)
  moreover have "\<not> has_key j_id (generateJobID rnd) (jobs ?d1)"
  proof -
    have "jobs ?d1 = jobs_after_ack now j d" by simp
    with assms(5) show ?thesis unfolding has_key_ids by (simp only: jobs_after_ack_ids not_False_eq_True)
  qed
  ultimately have "Sqlite_performAck now rnd j (j_queue r) (j_unique_key r) b (d, [])
      = Some (Inr (), (batch_acked now rnd b x ?d1, []))" unfolding u by (rule handleBatchAck_run)
  with assms(1,2) have "Sqlite_Ack now rnd j (d, []) = Some (Inr (), (batch_acked now rnd b x ?d1, []))"
    by (simp add: Sqlite_Ack_def run_simps with_tx_unfold)
  then show ?thesis by (intro exI[of _ ?d1]) simp
qed

text \<open>The database after the acknowledgement of \<open>j\<close>, whose row is \<open>r\<close>, before its batch is counted.\<close>

definition settled :: "time \<Rightarrow> string \<Rightarrow> job_row \<Rightarrow> db \<Rightarrow> db" where
  "settled now j r d = d\<lparr>jobs := jobs_after_ack now j d,
     unique_locks := filter (\<lambda>l. j_unique_key r = '''' \<or> l_key l \<noteq> lock_key (j_queue r) (j_unique_key r)) (unique_locks d),
     job_dependencies := filter (\<lambda>(c, p). p \<noteq> j) (job_dependencies d)\<rparr>"

lemma performAck_settled:
  "Sqlite_performAck now rnd j (j_queue r) (j_unique_key r) b (d, []) =
     (if b \<noteq> '''' then Sqlite_handleBatchAck now rnd b else ret ()) (settled now j r d, [])"
proof -
  have ak: "(\<lambda>r. r\<lparr>j_status := Processed, j_locked_at := None, j_updated_at := cur_ts now\<rparr>) = acked now"
    by (simp add: acked_def fun_eq_iff)
  have drop: "t_delete (\<lambda>(c, p). p = j) t = filter (\<lambda>(c, p). p \<noteq> j) t" for t :: "(string \<times> string) list"
    by (auto simp: t_delete_def intro: filter_cong)
  show ?thesis
    by (cases "j_unique_key r = ''''"; cases d)
      (simp_all add: Sqlite_performAck_def Sqlite_deleteUniqueLock_def run_simps ak settled_def
        jobs_after_ack_def drop_parent_def freed_by_def drop t_delete_def[of "\<lambda>l. l_key l = _"])
qed

lemma settled_row: "jobs (settled now j r d) = map (\<lambda>x.
    let y = (if j_id x = j then acked now x else x) in
    if freed_by j d (j_id x) then unblock now y else y) (jobs d)"
  by (auto simp: settled_def jobs_after_ack_def t_update_def acked_def Let_def)

lemma Ack_settled:
  assumes "job_by_id j d = Some r" "j_batch_id r = '''' \<or> generateJobID rnd \<notin> set (map j_id (jobs d))"
  shows "Sqlite_Ack now rnd j (d, []) =
    (if j_batch_id r = '''' then Some (Inr (), (settled now j r d, []))
     else case batch_by_id (j_batch_id r) d of
         None \<Rightarrow> Some (Inl ErrNoRows, (d, []))
       | Some x \<Rightarrow> Some (Inr (), (batch_acked now rnd (j_batch_id r) x (settled now j r d), [])))"
proof -
  let ?s = "settled now j r d" and ?b = "j_batch_id r"
  have ids: "map j_id (jobs ?s) = map j_id (jobs d)" by (simp add: settled_def jobs_after_ack_ids)
  have same: "batch_by_id ?b ?s = batch_by_id ?b d" by (simp add: batch_by_id_def settled_def)
  have new: "?b = '''' \<or> \<not> has_key j_id (generateJobID rnd) (jobs ?s)"
    using assms(2) unfolding has_key_ids ids .
  have run: "Sqlite_Ack now rnd j (d, []) = with_tx (Sqlite_performAck now rnd j (j_queue r) (j_unique_key r) ?b) (d, [])"
    using assms(1) by (simp add: Sqlite_Ack_def run_simps)
  show ?thesis
  proof (cases "?b = ''''")
    case True
    then show ?thesis by (simp add: run with_tx_unfold performAck_settled run_simps)
  next
    case False
    show ?thesis
    proof (cases "batch_by_id ?b d")
      case None
      with handleBatchAck_missing_run[of ?b ?s now rnd] same False show ?thesis
        by (auto simp: run with_tx_unfold performAck_settled)
    next
      case (Some x)
      with handleBatchAck_run[of ?b ?s x rnd now] same new False show ?thesis
        by (simp add: run with_tx_unfold performAck_settled)
    qed
  qed
qed

datatype batch_op = BAck string bytes | BSubmit bytes

fun batch_trace :: "string \<Rightarrow> (time \<times> batch_op) list \<Rightarrow> db \<Rightarrow> db option" where
  "batch_trace b [] d = Some d"
| "batch_trace b ((now, BAck j rnd) # ops) d =
     (case Sqlite_Ack now rnd j (d, []) of Some (Inr _, (d', fs)) \<Rightarrow> batch_trace b ops d' | _ \<Rightarrow> None)"
| "batch_trace b ((now, BSubmit rnd) # ops) d =
     (case Sqlite_SubmitBatch now rnd b (d, []) of Some (Inr _, (d', fs)) \<Rightarrow> batch_trace b ops d' | _ \<Rightarrow> None)"

fun is_ack :: "time \<times> batch_op \<Rightarrow> bool" where
  "is_ack (now, BAck j rnd) = True"
| "is_ack (now, BSubmit rnd) = False"

definition acks :: "(time \<times> batch_op) list \<Rightarrow> nat" where
  "acks ops = length (filter is_ack ops)"

definition submits :: "(time \<times> batch_op) list \<Rightarrow> nat" where
  "submits ops = length (filter (\<lambda>x. \<not> is_ack x) ops)"

lemma ops_counts [simp]:
  "acks [] = 0" "submits [] = 0"
  "acks ((now, BAck j rnd) # ops) = Suc (acks ops)" "submits ((now, BAck j rnd) # ops) = submits ops"
  "acks ((now, BSubmit rnd) # ops) = acks ops" "submits ((now, BSubmit rnd) # ops) = Suc (submits ops)"
  by (simp_all add: acks_def submits_def)

lemma no_ops: "acks ops = 0 \<Longrightarrow> submits ops = 0 \<Longrightarrow> ops = []"
  by (cases ops) (auto simp: acks_def submits_def split: if_splits)

text \<open>Each operation fits the batch: an acknowledged job belongs to it, a callback id is new.\<close>

fun op_fits :: "string \<Rightarrow> db \<Rightarrow> time \<times> batch_op \<Rightarrow> bool" where
  "op_fits b d (now, BAck j rnd) \<longleftrightarrow> generateJobID rnd \<notin> set (map j_id (jobs d))
     \<and> (case job_by_id j d of None \<Rightarrow> False | Some r \<Rightarrow> j_batch_id r = b)"
| "op_fits b d (now, BSubmit rnd) \<longleftrightarrow> generateJobID rnd \<notin> set (map j_id (jobs d))"

definition batch_running :: "string \<Rightarrow> (time \<times> batch_op) list \<Rightarrow> batch_row \<Rightarrow> bool" where
  "batch_running b ops x \<longleftrightarrow> b_expires_at x = None \<and> b_pending_jobs x = int (acks ops)
     \<and> (b_status x = BatchOpen \<and> submits ops = 1
        \<or> b_status x = BatchSealed \<and> submits ops = 0 \<and> acks ops > 0)"

definition callback_added :: "batch_row \<Rightarrow> db \<Rightarrow> db \<Rightarrow> bool" where
  "callback_added x d d' \<longleftrightarrow> (\<exists>js r. jobs d' = js @ [r] \<and> map j_id js = map j_id (jobs d)
     \<and> j_queue r = b_callback_queue x \<and> j_name r = b_callback_name x \<and> j_args r = b_callback_args x
     \<and> j_status r = Pending)"

lemma op_fits_after_ack:
  assumes "op_fits b d op" "jobs d1 = jobs_after_ack now j d"
  shows "op_fits b d1 op"
  using assms jobs_after_ack_batch[of _ d _ now j]
  by (cases op rule: is_ack.cases)
    (fastforce simp: job_by_id_def jobs_after_ack_ids simp del: set_map split: option.splits)+

lemma callback_added_last:
  assumes "map j_id (jobs d1) = map j_id (jobs d)"
  shows "callback_added x d (add_callback now rnd x d1)"
  using assms by (simp add: callback_added_def add_callback_def callback_row_def default_job_row_def)

lemma callback_added_ids:
  "callback_added x d1 d2 \<Longrightarrow> map j_id (jobs d1) = map j_id (jobs d) \<Longrightarrow> callback_added x d d2"
  by (simp add: callback_added_def)

lemma batch_by_id_add [simp]: "batch_by_id b (add_callback now rnd x d) = batch_by_id b d"
  by (simp add: batch_by_id_def add_callback_def)

lemma callback_added_row:
  "b_callback_queue y = b_callback_queue x \<Longrightarrow> b_callback_name y = b_callback_name x
    \<Longrightarrow> b_callback_args y = b_callback_args x \<Longrightarrow> callback_added y d d' \<Longrightarrow> callback_added x d d'"
  by (simp add: callback_added_def)

lemma batch_trace_completes:
  assumes "batch_by_id b d = Some x" "batch_running b ops x" "b \<noteq> ''''" "list_all (op_fits b d) ops"
  shows "\<exists>d' x'. batch_trace b ops d = Some d' \<and> callback_added x d d'
    \<and> batch_by_id b d' = Some x' \<and> b_status x' = BatchCompleted \<and> b_pending_jobs x' = 0"
  using assms
proof (induction ops arbitrary: d x)
  case Nil
  then show ?case by (simp add: batch_running_def)
next
  case (Cons op ops)
  note nexp = Cons.prems(2)[unfolded batch_running_def, THEN conjunct1]
  show ?case
  proof (cases op rule: is_ack.cases)
    case (1 now j rnd)
    from Cons.prems(4) obtain r where r: "job_by_id j d = Some r" "j_batch_id r = b"
      "generateJobID rnd \<notin> set (map j_id (jobs d))" and fits: "list_all (op_fits b d) ops"
      by (auto simp: 1 split: option.splits)
    from Ack_batch_run[OF r(1,2) Cons.prems(3,1) r(3)] obtain d1 where
      d1: "Sqlite_Ack now rnd j (d, []) = Some (Inr (), (batch_acked now rnd b x d1, []))"
      "jobs d1 = jobs_after_ack now j d" "batches d1 = batches d" by blast
    have x1: "batch_by_id b d1 = Some x" using Cons.prems(1) d1(3) by (simp add: batch_by_id_def)
    have ids: "map j_id (jobs d1) = map j_id (jobs d)" by (simp add: d1(2) jobs_after_ack_ids)
    show ?thesis
    proof (cases "b_status x = BatchSealed \<and> b_pending_jobs x = 1")
      case True
      with Cons.prems(2) have "ops = []" by (auto simp: batch_running_def 1 intro: no_ops)
      then show ?thesis
        using d1(1) True nexp x1 ids
        by (auto simp: 1 batch_acked_def expired_def batch_after_update intro!: callback_added_last)
    next
      case False
      let ?d2 = "update_batch b count_down d1"
      have acked: "batch_acked now rnd b x d1 = ?d2" using False nexp by (auto simp: batch_acked_def expired_def)
      have x2: "batch_by_id b ?d2 = Some (count_down x)" by (simp add: batch_after_update x1)
      have run: "batch_running b ops (count_down x)"
        using Cons.prems(2) False by (auto simp: batch_running_def 1)
      have f2: "list_all (op_fits b ?d2) ops"
        using fits op_fits_after_ack[of b d _ ?d2 now j] d1(2) by (auto simp: list_all_iff)
      from Cons.IH[OF x2 run Cons.prems(3) f2] obtain d' x' where "batch_trace b ops ?d2 = Some d'"
        "callback_added (count_down x) ?d2 d'" "batch_by_id b d' = Some x'"
        "b_status x' = BatchCompleted" "b_pending_jobs x' = 0" by blast
      with d1(1) acked ids show ?thesis
        by (auto simp: 1 intro!: callback_added_row[of "count_down x" x] elim: callback_added_ids)
    qed
  next
    case (2 now rnd)
    from Cons.prems(4) have fr: "generateJobID rnd \<notin> set (map j_id (jobs d))" and fits: "list_all (op_fits b d) ops"
      by (auto simp: 2)
    have S: "Sqlite_SubmitBatch now rnd b (d, []) = Some (Inr (), (batch_submitted now rnd b x d, []))"
      using SubmitBatch_run[OF Cons.prems(1)] fr by (simp only: has_key_ids)
    show ?thesis
    proof (cases "b_pending_jobs x = 0")
      case True
      with Cons.prems(2) have "ops = []" by (auto simp: batch_running_def 2 intro: no_ops)
      then show ?thesis
        using S True nexp Cons.prems(1)
        by (auto simp: 2 batch_submitted_def expired_def batch_after_update intro!: callback_added_last)
    next
      case False
      let ?d2 = "update_batch b (set_status BatchSealed) d"
      have sub: "batch_submitted now rnd b x d = ?d2" using False nexp by (simp add: batch_submitted_def expired_def)
      have x2: "batch_by_id b ?d2 = Some (set_status BatchSealed x)" by (simp add: batch_after_update Cons.prems(1))
      have run: "batch_running b ops (set_status BatchSealed x)"
        using Cons.prems(2) False by (auto simp: batch_running_def 2)
      have "op_fits b ?d2 op = op_fits b d op" for op
        by (cases op rule: is_ack.cases) (simp_all add: job_by_id_def)
      with fits have f2: "list_all (op_fits b ?d2) ops" by (simp add: list_all_iff)
      from Cons.IH[OF x2 run Cons.prems(3) f2] obtain d' x' where "batch_trace b ops ?d2 = Some d'"
        "callback_added (set_status BatchSealed x) ?d2 d'" "batch_by_id b d' = Some x'"
        "b_status x' = BatchCompleted" "b_pending_jobs x' = 0" by blast
      with S sub show ?thesis
        by (auto simp: 2 intro!: callback_added_row[of "set_status BatchSealed x" x] elim: callback_added_ids)
    qed
  qed
qed

section \<open>Properties\<close>

text \<open>C1: a batch calls back exactly once. If an open batch without expiry is submitted once and
  its pending jobs are each acknowledged, in any order of the submission and the
  acknowledgements, every operation succeeds and, at the last of them and not before, one job
  with the callback's queue, name and arguments is added; the batch ends completed with
  nothing pending.\<close>

theorem batch_callback_exactly_once:
  assumes "batch_by_id b d = Some x" "b_expires_at x = None" "b_status x = BatchOpen" "b \<noteq> ''''"
    "b_pending_jobs x = int (acks ops)" "submits ops = 1" "list_all (op_fits b d) ops"
  shows "\<exists>d' x'. batch_trace b ops d = Some d' \<and> callback_added x d d'
    \<and> batch_by_id b d' = Some x' \<and> b_status x' = BatchCompleted \<and> b_pending_jobs x' = 0"
  using batch_trace_completes[OF assms(1) _ assms(4,7)] assms(2,3,5,6) by (simp add: batch_running_def)

definition demo_batch :: batch_row where
  "demo_batch = \<lparr>b_id = ''b'', b_callback_queue = ''q'', b_callback_name = ''Done'', b_callback_args = ''{}'',
     b_total_jobs = 2, b_pending_jobs = 2, b_status = BatchOpen, b_expires_at = None, b_created_at = 0\<rparr>"

definition batch_db :: db where
  "batch_db = empty_db\<lparr>batches := [demo_batch],
     jobs := [(default_job_row 0 ''j1'' ''q'' ''A'' [])\<lparr>j_batch_id := ''b''\<rparr>,
              (default_job_row 0 ''j2'' ''q'' ''A'' [])\<lparr>j_batch_id := ''b''\<rparr>]\<rparr>"

definition batch_ops :: "(time \<times> batch_op) list" where
  "batch_ops = [(1, BAck ''j1'' ''r1''), (2, BSubmit ''r2''), (3, BAck ''j2'' ''r3'')]"

theorem batch_callback_exactly_once_witness:
  "\<exists>d'. batch_trace ''b'' batch_ops batch_db = Some d' \<and> callback_added demo_batch batch_db d'"
proof -
  have "batch_by_id ''b'' batch_db = Some demo_batch"
    by (simp add: batch_by_id_def batch_db_def t_find_def demo_batch_def)
  moreover have "list_all (op_fits ''b'' batch_db) batch_ops" by code_simp
  ultimately show ?thesis
    using batch_callback_exactly_once[of "''b''" batch_db demo_batch batch_ops]
    by (auto simp: demo_batch_def batch_ops_def acks_def submits_def)
qed

text \<open>C3: what an acknowledgement does, whatever the job's batch is. The job is marked processed,
  the lock of its unique key is deleted and no other, the dependencies on it are dropped, and
  exactly those dependants become pending that wait for no other job; no other row changes. A
  job of a batch then counts the batch down, as \<open>batch_acked\<close> says: at the last job of a sealed
  batch the callback, whose id is fresh, is added. If the job names a batch that has no row, the
  acknowledgement fails and changes nothing.\<close>

theorem ack_frees_ready_children:
  assumes "job_by_id j d = Some r" "j_batch_id r = '''' \<or> generateJobID rnd \<notin> set (map j_id (jobs d))"
  shows "Sqlite_Ack now rnd j (d, []) = (let
      d1 = d\<lparr>jobs := map (\<lambda>x. let y = (if j_id x = j then acked now x else x) in
               if freed_by j d (j_id x) then unblock now y else y) (jobs d),
             unique_locks := filter (\<lambda>l. j_unique_key r = ''''
               \<or> l_key l \<noteq> lock_key (j_queue r) (j_unique_key r)) (unique_locks d),
             job_dependencies := filter (\<lambda>(c, p). p \<noteq> j) (job_dependencies d)\<rparr> in
      if j_batch_id r = '''' then Some (Inr (), (d1, []))
      else case batch_by_id (j_batch_id r) d of
          None \<Rightarrow> Some (Inl ErrNoRows, (d, []))
        | Some x \<Rightarrow> Some (Inr (), (batch_acked now rnd (j_batch_id r) x d1, [])))"
proof -
  have "settled now j r d = d\<lparr>jobs := jobs (settled now j r d),
      unique_locks := filter (\<lambda>l. j_unique_key r = '''' \<or> l_key l \<noteq> lock_key (j_queue r) (j_unique_key r)) (unique_locks d),
      job_dependencies := filter (\<lambda>(c, p). p \<noteq> j) (job_dependencies d)\<rparr>"
    by (simp add: settled_def)
  then show ?thesis
    unfolding Ack_settled[OF assms] settled_row by (simp add: Let_def split: option.splits)
qed

text \<open>A job of a batch, with a unique key, and a dependant that waits for nothing else.\<close>

definition member_row :: job_row where
  "member_row = (default_job_row 0 ''j1'' ''q'' ''A'' [])\<lparr>j_batch_id := ''b'', j_unique_key := ''k''\<rparr>"

definition member_db :: db where
  "member_db = empty_db\<lparr>batches := [demo_batch],
     jobs := [member_row, (default_job_row 0 ''c'' ''q'' ''B'' [])\<lparr>j_status := Blocked\<rparr>],
     unique_locks := [\<lparr>l_key = ''q:k'', l_job_id = ''j1'', l_expires_at = 9\<rparr>],
     job_dependencies := [(''c'', ''j1'')]\<rparr>"

theorem ack_frees_ready_children_witness:
  "\<exists>d'. Sqlite_Ack 5 ''r1'' ''j1'' (member_db, []) = Some (Inr (), (d', []))
     \<and> map j_status (jobs d') = [Processed, Pending] \<and> unique_locks d' = [] \<and> job_dependencies d' = []
     \<and> map b_pending_jobs (batches d') = [1]"
proof -
  have r: "job_by_id ''j1'' member_db = Some member_row"
    "batch_by_id ''b'' member_db = Some demo_batch" by (code_simp, code_simp)
  have f: "generateJobID ''r1'' \<notin> set (map j_id (jobs member_db))" by code_simp
  have "freed_by ''j1'' member_db ''c''" "\<not> freed_by ''j1'' member_db ''j1''"
    by (simp_all add: freed_by_def member_db_def)
  then show ?thesis
    using ack_frees_ready_children[OF r(1), of "''r1''" 5] f r(2)
    by (simp add: Let_def member_row_def batch_acked_def expired_def demo_batch_def)
      (simp add: member_db_def member_row_def demo_batch_def default_job_row_def acked_def unblock_def
        lock_key_def update_batch_def t_update_def count_down_def)
qed

text \<open>Submitting is not idempotent: a batch that is completed already, its callback
  enqueued, enqueues the callback again on every further submission.\<close>

theorem batch_resubmit_calls_back_again:
  assumes "batch_by_id b d = Some x" "b_status x = BatchCompleted" "b_pending_jobs x = 0"
    "\<not> expired now x" "\<not> has_key j_id (generateJobID rnd) (jobs d)"
  shows "\<exists>d'. Sqlite_SubmitBatch now rnd b (d, []) = Some (Inr (), (d', [])) \<and> callback_added x d d'"
  using SubmitBatch_run[OF assms(1,5)] assms(3,4)
  by (auto simp: batch_submitted_def intro!: callback_added_last)

definition completed_db :: db where
  "completed_db = empty_db\<lparr>batches := [demo_batch\<lparr>b_pending_jobs := 0, b_status := BatchCompleted\<rparr>]\<rparr>"

theorem batch_resubmit_calls_back_again_witness:
  "\<exists>d'. Sqlite_SubmitBatch 9 ''r'' ''b'' (completed_db, []) = Some (Inr (), (d', []))
     \<and> callback_added (demo_batch\<lparr>b_pending_jobs := 0, b_status := BatchCompleted\<rparr>) completed_db d'"
proof -
  have "batch_by_id ''b'' completed_db = Some (demo_batch\<lparr>b_pending_jobs := 0, b_status := BatchCompleted\<rparr>)"
    by (simp add: batch_by_id_def completed_db_def t_find_def demo_batch_def)
  from batch_resubmit_calls_back_again[OF this, of 9 "''r''"] show ?thesis
    by (simp add: demo_batch_def expired_def completed_db_def has_key_def empty_db_def)
qed

text \<open>A job enqueued into a batch that does not exist is accepted but can never be
  acknowledged: the acknowledgement fails for want of the batch row and is rolled back, so that
  the job keeps its status for good.\<close>

theorem batch_orphan_never_acked:
  assumes "batch_by_id b d = None" "b \<noteq> ''''" "job_by_id j d = Some r" "j_batch_id r = b"
  shows "Sqlite_Ack now rnd j (d, []) = Some (Inl ErrNoRows, (d, []))"
proof -
  obtain u where u: "Sqlite_performAck now rnd j (j_queue r) (j_unique_key r) b (d, []) =
      Sqlite_handleBatchAck now rnd b (d\<lparr>jobs := jobs_after_ack now j d, unique_locks := u,
           job_dependencies := job_dependencies (drop_parent j d)\<rparr>, [])"
    using performAck_run[of now rnd j "j_queue r" "j_unique_key r" b d] assms(2) by auto
  have "batch_by_id b (d\<lparr>jobs := jobs_after_ack now j d, unique_locks := u,
           job_dependencies := job_dependencies (drop_parent j d)\<rparr>) = None"
    using assms(1) by (simp add: batch_by_id_def)
  from handleBatchAck_missing_run[OF this, of now rnd] u assms(3,4) show ?thesis
    by (auto simp: Sqlite_Ack_def run_simps with_tx_unfold)
qed

theorem batch_orphan_never_acked_witness:
  "\<exists>d1. Sqlite_EnqueueInBatch 0 ''nope'' demo_parent (empty_db, []) = Some (Inr (), (d1, []))
     \<and> Sqlite_Ack 5 [] ''p'' (d1, []) = Some (Inl ErrNoRows, (d1, []))"
proof (intro exI conjI)
  let ?r = "(default_job_row 0 ''p'' ''q'' ''A'' [])\<lparr>j_run_at := Some 0, j_batch_id := ''nope''\<rparr>"
  let ?d1 = "empty_db\<lparr>jobs := [?r]\<rparr>"
  show "Sqlite_EnqueueInBatch 0 ''nope'' demo_parent (empty_db, []) = Some (Inr (), (?d1, []))" by code_simp
  show "Sqlite_Ack 5 [] ''p'' (?d1, []) = Some (Inl ErrNoRows, (?d1, []))"
    by (rule batch_orphan_never_acked[of "''nope''" _ _ ?r])
      (simp_all add: batch_by_id_def t_find_def empty_db_def job_by_id_def default_job_row_def)
qed

end
