(* ===== verification/WorkerSettles.thy ===== *)
theory WorkerSettles
  imports Worker SqliteBatch
begin

text \<open>
  How a worker settles a job: what a storage promises of \<open>Ack\<close> and \<open>Fail\<close> is a locale, the
  worker's part is proved in it once, and the SQLite backend is shown to keep the promise.
\<close>

section \<open>What the run of a job comes to\<close>

text \<open>The arguments the job gets to see; \<open>None\<close> if the worker cannot open the payload.\<close>

definition opened :: "(bytes \<Rightarrow> bytes \<Rightarrow> bytes \<Rightarrow> bytes option) \<Rightarrow> bytes \<Rightarrow> bytes \<Rightarrow> bytes option" where
  "opened unseal key args =
     (if \<not> IsEncrypted args then Some args
      else if key = [] then None
      else case DecryptPayload unseal args key of Inl _ \<Rightarrow> None | Inr p \<Rightarrow> Some p)"

text \<open>The outcome of the job inside its middlewares; a job that cannot run has failed.\<close>

definition run_result ::
  "(bytes \<Rightarrow> bytes \<Rightarrow> bytes \<Rightarrow> bytes option) \<Rightarrow> ('s, 'h) WorkerPool \<Rightarrow> JobEnvelope
    \<Rightarrow> ('s, run_end \<times> JobEnvelope) act" where
  "run_result unseal w env =
     (case (wp_registry w (Name env), opened unseal (wp_encryptionKey w) (Args env)) of
        (Some job, Some args) \<Rightarrow>
          foldr (\<lambda>mw h. mw h) (wp_middlewares w) (base_handler job) (env\<lparr>Args := args\<rparr>)
      | _ \<Rightarrow> done_with (Returned (Some ''''), env))"

section \<open>Settling on any storage\<close>

locale settling =
  fixes st :: "'s WorkerPoolStorage"
    and status :: "'s \<Rightarrow> string \<Rightarrow> job_status option"
    and ready :: "'s \<Rightarrow> bool"
  assumes ack_settles: "ready s \<Longrightarrow> status s j = Some Running
      \<Longrightarrow> \<exists>s'. ws_Ack st j s = Some (Inr (), s') \<and> status s' j = Some Processed"
    and fail_settles: "ready s \<Longrightarrow> status s j = Some Running
      \<Longrightarrow> \<exists>s'. ws_Fail st j e s = Some (Inr (), s') \<and> status s' j \<in> {Some Pending, Some Dead}"
begin

lemma fail_run:
  assumes "ready (w_store w)" "status (w_store w) j = Some Running"
  obtains s where "ws_Fail st j e (w_store w) = Some (Inr (), s)" "status s j \<in> {Some Pending, Some Dead}"
  using fail_settles[OF assms] by blast

lemma refused_run:
  assumes "ready (w_store w)" "status (w_store w) j = Some Running"
  shows "\<exists>w'. forget (on_store (ws_Fail st j e)) w = Some ((), w')
    \<and> status (w_store w') j \<in> {Some Pending, Some Dead}"
proof -
  obtain s where "ws_Fail st j e (w_store w) = Some (Inr (), s)" "status s j \<in> {Some Pending, Some Dead}"
    using fail_run[OF assms] .
  then show ?thesis by (auto simp: run_simps)
qed

lemma finalize_run:
  assumes "ready (w_store w)" "status (w_store w) (JobID env) = Some Running"
  shows "\<exists>w'. Pool_finalizeJob st env err w = Some ((), w')
    \<and> status (w_store w') (JobID env) \<in> (if err = None then {Some Processed} else {Some Pending, Some Dead})"
proof (cases err)
  case None
  with ack_settles[OF assms] show ?thesis
    by (auto simp: Pool_finalizeJob_def Pool_triggerEvent_def run_simps)
next
  case (Some e)
  obtain s where "ws_Fail st (JobID env) e (w_store w) = Some (Inr (), s)"
    "status s (JobID env) \<in> {Some Pending, Some Dead}" using fail_run[OF assms] .
  with Some show ?thesis
    by (auto simp: Pool_finalizeJob_def Pool_finalizeJobFailure_def Pool_triggerEvent_def run_simps Let_def)
qed

lemma execute_settles:
  assumes "ready (w_store w)" "status (w_store w) (JobID env) = Some Running"
    and "run_result unseal (w_pool w) env (w_store w) = Some ((r, env'), s)"
    and "JobID env' = JobID env" "ready s" "status s (JobID env) = Some Running"
  shows "\<exists>w'. Pool_executeJob st unseal env w = Some ((), w')
    \<and> status (w_store w') (JobID env)
        \<in> (if run_error r = None then {Some Processed} else {Some Pending, Some Dead})"
proof (cases "wp_registry (w_pool w) (Name env)")
  case None
  with assms(3) have "run_error r \<noteq> None" by (auto simp: run_result_def run_simps run_error_def)
  with None refused_run[OF assms(1,2)] show ?thesis by (auto simp: Pool_executeJob_def with_pool_run)
next
  case (Some job)
  show ?thesis
  proof (cases "opened unseal (wp_encryptionKey (w_pool w)) (Args env)")
    case None
    with Some assms(3) have "run_error r \<noteq> None" by (auto simp: run_result_def run_simps run_error_def)
    with Some None refused_run[OF assms(1,2)] show ?thesis
      by (auto simp: Pool_executeJob_def with_pool_run opened_def split: if_splits sum.splits)
  next
    case (Some args)
    with \<open>wp_registry (w_pool w) (Name env) = Some job\<close>
    have "Pool_executeJob st unseal env w = Pool_runJobPerform st (env\<lparr>Args := args\<rparr>) job w"
      by (auto simp: Pool_executeJob_def with_pool_run opened_def split: if_splits sum.splits)
    moreover from Some \<open>wp_registry (w_pool w) (Name env) = Some job\<close> assms(3)
    have "Pool_runJobPerform st (env\<lparr>Args := args\<rparr>) job w = Pool_finalizeJob st env' (run_error r) (w\<lparr>w_store := s\<rparr>)"
      by (simp add: Pool_runJobPerform_def run_result_def run_simps Let_def)
    ultimately show ?thesis
      using finalize_run[of "w\<lparr>w_store := s\<rparr>" env' "run_error r"] assms(4-6) by simp
  qed
qed

end

section \<open>SQLite\<close>

definition sqlite_status :: "conn \<Rightarrow> string \<Rightarrow> job_status option" where
  "sqlite_status c j = map_option j_status (job_by_id j (fst c))"

text \<open>A database on which settling cannot go wrong: no failures to come, acyclic dependencies and
  stack room for them, an unused id for a callback, and every job's batch on record.\<close>

definition sqlite_ready :: "nat \<Rightarrow> bytes \<Rightarrow> conn \<Rightarrow> bool" where
  "sqlite_ready stack rnd c \<longleftrightarrow> snd c = [] \<and> pk_ok (fst c) \<and> acyclic (dep_rel (fst c))
     \<and> length (job_dependencies (fst c)) < stack
     \<and> generateJobID rnd \<notin> set (map j_id (jobs (fst c)))
     \<and> list_all (\<lambda>r. j_batch_id r = '''' \<or> batch_by_id (j_batch_id r) (fst c) \<noteq> None) (jobs (fst c))"

lemma batch_acked_row: "job_by_id j d = Some r \<Longrightarrow> job_by_id j (batch_acked now rnd b x d) = Some r"
  by (simp add: batch_acked_def job_by_id_def add_callback_def t_find_append)

lemma acked_status:
  assumes "job_by_id j d = Some r" "acyclic (dep_rel d)" "jobs d' = jobs_after_ack now j d"
  shows "\<exists>r'. job_by_id j d' = Some r' \<and> j_status r' = Processed"
proof -
  have "(j, j) \<notin> set (job_dependencies d)" using assms(2) by (auto simp: acyclic_def dep_rel_def)
  then have nf: "\<not> freed_by j d j" by (simp add: freed_by_def)
  have id: "j_id r = j" using job_by_id_SomeD[OF assms(1)] by simp
  with assms(1,3) nf show ?thesis
    by (simp add: job_by_id_def jobs_after_ack_def t_find_update acked_def)
qed

lemma sqlite_ack_settles:
  assumes "sqlite_ready stack rnd c" "sqlite_status c j = Some Running"
  shows "\<exists>c'. Sqlite_Ack now rnd j c = Some (Inr (), c') \<and> sqlite_status c' j = Some Processed"
proof -
  obtain d where c: "c = (d, [])" using assms(1) by (cases c) (auto simp: sqlite_ready_def)
  from assms(2) c obtain r where r: "job_by_id j d = Some r" by (auto simp: sqlite_status_def)
  have acy: "acyclic (dep_rel d)" using assms(1) by (simp add: sqlite_ready_def c)
  show ?thesis
  proof (cases "j_batch_id r = ''''")
    case True
    from Ack_run[OF r True, of now rnd] obtain u where
      u: "Sqlite_Ack now rnd j (d, []) = Some (Inr (), (d\<lparr>jobs := jobs_after_ack now j d,
        unique_locks := u, job_dependencies := job_dependencies (drop_parent j d)\<rparr>, []))" (is "_ = Some (_, (?d', _))")
      by blast
    from acked_status[OF r acy, of ?d' now] show ?thesis by (auto simp: c u sqlite_status_def)
  next
    case False
    with assms(1) job_by_id_SomeD[OF r] obtain x where x: "batch_by_id (j_batch_id r) d = Some x"
      by (auto simp: sqlite_ready_def c list_all_iff)
    have "generateJobID rnd \<notin> set (map j_id (jobs d))" using assms(1) by (simp add: sqlite_ready_def c)
    from Ack_batch_run[OF r refl False x this, of now] obtain d1 where
      d1: "Sqlite_Ack now rnd j (d, []) = Some (Inr (), (batch_acked now rnd (j_batch_id r) x d1, []))"
      "jobs d1 = jobs_after_ack now j d" by blast
    from acked_status[OF r acy d1(2)] d1(1) batch_acked_row show ?thesis by (auto simp: c sqlite_status_def)
  qed
qed

lemma cascaded_row:
  assumes "list_all2 (row_cascaded (insert j S)) t t'" "t_find (\<lambda>r. j_id r = j) t = Some r"
  shows "\<exists>r'. t_find (\<lambda>r. j_id r = j) t' = Some r' \<and> died r r'"
  using assms
  by (induction rule: list_all2_induct)
    (auto simp: t_find_def row_cascaded_def split: if_splits dest: died_id)

lemma sqlite_fail_settles:
  assumes "sqlite_ready stack rnd c" "sqlite_status c j = Some Running"
  shows "\<exists>c'. Sqlite_Fail stack now j e c = Some (Inr (), c') \<and> sqlite_status c' j \<in> {Some Pending, Some Dead}"
proof -
  obtain d where c: "c = (d, [])" using assms(1) by (cases c) (auto simp: sqlite_ready_def)
  from assms(2) c obtain r where r: "job_by_id j d = Some r" by (auto simp: sqlite_status_def)
  have rd: "pk_ok d" "acyclic (dep_rel d)" "length (job_dependencies d) < stack"
    using assms(1) by (simp_all add: sqlite_ready_def c)
  show ?thesis
  proof (cases "j_attempts r + 1 < getMaxAttempts (j_max_attempts r)")
    case True
    from Fail_retry_run[OF rd(1) r True] r job_by_id_SomeD[OF r] show ?thesis
      by (simp add: c sqlite_status_def job_by_id_def t_find_update retry_row_def)
  next
    case False
    from Fail_dead_run[OF rd(2,3) r False, of now e] obtain d' where
      d': "Sqlite_Fail stack now j e (d, []) = Some (Inr (), (d', []))"
      "list_all2 (row_cascaded (insert j (below (dep_rel d) j))) (jobs d) (jobs d')" by blast
    from cascaded_row[OF d'(2)] r have "\<exists>r'. job_by_id j d' = Some r' \<and> died r r'"
      by (simp add: job_by_id_def)
    with d'(1) show ?thesis by (auto simp: c sqlite_status_def died_def)
  qed
qed

interpretation sqlite_settling: settling "sqlite_worker stack now rnd" sqlite_status "sqlite_ready stack rnd"
  for stack now rnd
proof
  fix c j e
  assume "sqlite_ready stack rnd c" "sqlite_status c j = Some Running"
  then show "\<exists>c'. ws_Ack (sqlite_worker stack now rnd) j c = Some (Inr (), c') \<and> sqlite_status c' j = Some Processed"
    and "\<exists>c'. ws_Fail (sqlite_worker stack now rnd) j e c = Some (Inr (), c')
      \<and> sqlite_status c' j \<in> {Some Pending, Some Dead}"
    using sqlite_ack_settles sqlite_fail_settles by (simp_all add: sqlite_worker_def)
qed

section \<open>Properties\<close>

text \<open>C9: a worker settles the job it runs, in orderly databases. Suppose that before the run and after it
  \<open>sqlite_ready\<close> holds (no statement is to fail, ids are unique, dependencies have no cycle and the
  stack room for them, the id of a callback is new, the batch of every job is on record), and that the
  run, whatever else it does, leaves the job's row running. Then executing the job ends with it
  processed if the run returned nil, and pending again or dead otherwise (an error, a panic, an
  unregistered name, a payload that cannot be opened).\<close>

theorem executeJob_settles:
  assumes "sqlite_ready stack rnd (w_store w)" "sqlite_status (w_store w) (JobID env) = Some Running"
    and "run_result unseal (w_pool w) env (w_store w) = Some ((r, env'), c)"
    and "JobID env' = JobID env" "sqlite_ready stack rnd c" "sqlite_status c (JobID env) = Some Running"
  shows "\<exists>w'. Pool_executeJob (sqlite_worker stack now rnd) unseal env w = Some ((), w')
    \<and> sqlite_status (w_store w') (JobID env)
        \<in> (if run_error r = None then {Some Processed} else {Some Pending, Some Dead})"
  using assms by (rule sqlite_settling.execute_settles)

definition settle_row :: job_row where
  "settle_row = (default_job_row 0 ''j'' ''q'' ''A'' ''x'')\<lparr>j_status := Running, j_max_attempts := 3\<rparr>"

definition settle_world :: "run_end \<Rightarrow> (conn, unit) world" where
  "settle_world r = \<lparr>w_pool = NewWorkerPool ''w'' 1 [Pool_Register ''A'' (\<lambda>args. done_with r) []],
     w_store = (empty_db\<lparr>jobs := [settle_row]\<rparr>, []), w_delivered = []\<rparr>"

lemma settle_world_ready:
  "sqlite_ready 1 ''0'' (w_store (settle_world r))"
  "sqlite_status (w_store (settle_world r)) (JobID (Sqlite_scanJobFrom settle_row)) = Some Running"
  "run_result unseal (w_pool (settle_world r)) (Sqlite_scanJobFrom settle_row) (w_store (settle_world r))
     = Some ((r, Sqlite_scanJobFrom settle_row), w_store (settle_world r))"
  by (simp_all add: settle_world_def settle_row_def sqlite_ready_def sqlite_status_def run_result_def
      Pool_Register_def NewWorkerPool_def opened_def IsEncrypted_def EncryptionHeader_def base_handler_def
      run_simps Sqlite_scanJobFrom_def default_job_row_def zero_envelope_def empty_db_def pk_ok_def
      dep_rel_def acyclic_def job_by_id_def t_find_def generateJobID_def hex_byte_def)

theorem executeJob_settles_witness:
  "(\<exists>w'. Pool_executeJob (sqlite_worker 1 0 ''0'') (\<lambda>_ _ _. None) (Sqlite_scanJobFrom settle_row) (settle_world (Returned None))
      = Some ((), w') \<and> sqlite_status (w_store w') ''j'' = Some Processed)
   \<and> (\<exists>w'. Pool_executeJob (sqlite_worker 1 0 ''0'') (\<lambda>_ _ _. None) (Sqlite_scanJobFrom settle_row) (settle_world (Panicked ''nil map''))
      = Some ((), w') \<and> sqlite_status (w_store w') ''j'' \<in> {Some Pending, Some Dead})"
proof -
  have id: "JobID (Sqlite_scanJobFrom settle_row) = ''j''" by (simp add: settle_row_def default_job_row_def Sqlite_scanJobFrom_def)
  note run = executeJob_settles[OF settle_world_ready refl settle_world_ready(1,2)]
  show ?thesis
    using run[where r = "Returned None" and unseal = "\<lambda>_ _ _. None" and now = 0]
      run[where r = "Panicked ''nil map''" and unseal = "\<lambda>_ _ _. None" and now = 0]
    by (simp add: id run_error_def)
qed

end
