(* ===== verification/SqliteGuards.thy ===== *)
theory SqliteGuards
  imports SqliteInv
begin

text \<open>
  The distributed guards of the SQLite backend: the leader lease (\<open>AcquireLeader\<close>,
  \<open>ReleaseLeader\<close>), the cron execution locks and the sliding-window rate limit. The lease is
  an interface, the locale \<open>lease\<close>, which any backend's lease can be an instance of; that no two
  clients hold it at once is proved from its laws.
\<close>

section \<open>Leases\<close>

datatype lease_event = Attempt time string duration bool | Release string

fun lease_trace :: "(time \<Rightarrow> string \<Rightarrow> duration \<Rightarrow> 's \<Rightarrow> bool \<Rightarrow> 's \<Rightarrow> bool) \<Rightarrow> (string \<Rightarrow> 's \<Rightarrow> 's \<Rightarrow> bool)
    \<Rightarrow> lease_event list \<Rightarrow> 's \<Rightarrow> 's \<Rightarrow> bool" where
  "lease_trace att rel [] s s' \<longleftrightarrow> s' = s"
| "lease_trace att rel (Attempt now c ttl ok # es) s s' \<longleftrightarrow>
     (\<exists>s1. att now c ttl s ok s1 \<and> lease_trace att rel es s1 s')"
| "lease_trace att rel (Release c # es) s s' \<longleftrightarrow> (\<exists>s1. rel c s s1 \<and> lease_trace att rel es s1 s')"

text \<open>What the others do while a lease runs: attempts before it expires, and releases.\<close>

fun by_others :: "string \<Rightarrow> time \<Rightarrow> lease_event \<Rightarrow> bool" where
  "by_others h e (Attempt now c ttl ok) \<longleftrightarrow> c \<noteq> h \<and> now < e"
| "by_others h e (Release c) \<longleftrightarrow> c \<noteq> h"

fun granted :: "lease_event \<Rightarrow> bool" where
  "granted (Attempt now c ttl ok) = ok"
| "granted (Release c) = False"

locale lease =
  fixes attempt :: "time \<Rightarrow> string \<Rightarrow> duration \<Rightarrow> 's \<Rightarrow> bool \<Rightarrow> 's \<Rightarrow> bool"
    and release :: "string \<Rightarrow> 's \<Rightarrow> 's \<Rightarrow> bool"
    and holder :: "'s \<Rightarrow> (string \<times> time) option"
  assumes granted_holds: "attempt now c ttl s True s' \<Longrightarrow> holder s' = Some (c, now + ttl)"
    and granted_free: "attempt now c ttl s True s' \<Longrightarrow> holder s = Some (h, e) \<Longrightarrow> h = c \<or> e \<le> now"
    and refused_keeps: "attempt now c ttl s False s' \<Longrightarrow> holder s' = holder s"
    and release_own: "release c s s' \<Longrightarrow> holder s = Some (h, e) \<Longrightarrow> h \<noteq> c \<Longrightarrow> holder s' = Some (h, e)"
begin

lemma held_while_running:
  assumes "holder s = Some (h, e)" "lease_trace attempt release es s s'" "list_all (by_others h e) es"
  shows "holder s' = Some (h, e) \<and> list_all (\<lambda>ev. \<not> granted ev) es"
  using assms
proof (induction es arbitrary: s)
  case (Cons ev es)
  show ?case
  proof (cases ev)
    case (Attempt now c ttl ok)
    with Cons.prems obtain s1 where s1: "attempt now c ttl s ok s1" "lease_trace attempt release es s1 s'"
      and o: "c \<noteq> h" "now < e" "list_all (by_others h e) es" by auto
    have "\<not> ok" using granted_free[of now c ttl s s1 h e] s1(1) o Cons.prems(1) by (cases ok) auto
    with refused_keeps[of now c ttl s s1] s1 Cons.prems(1) have "holder s1 = Some (h, e)" by simp
    from Cons.IH[OF this s1(2) o(3)] \<open>\<not> ok\<close> Attempt show ?thesis by simp
  next
    case (Release c)
    with Cons.prems obtain s1 where s1: "release c s s1" "lease_trace attempt release es s1 s'"
      and o: "c \<noteq> h" "list_all (by_others h e) es" by auto
    from release_own[OF s1(1) Cons.prems(1)] o have "holder s1 = Some (h, e)" by simp
    from Cons.IH[OF this s1(2) o(2)] Release show ?thesis by simp
  qed
qed simp

end

subsection \<open>The lease of the SQLite backend\<close>

definition leader_of :: "db \<Rightarrow> (string \<times> time) option" where
  "leader_of d = map_option snd (t_find (\<lambda>r. fst r = ''leader'') (leader_leases d))"

definition lease_free :: "time \<Rightarrow> string \<Rightarrow> db \<Rightarrow> bool" where
  "lease_free now c d = (case leader_of d of None \<Rightarrow> True | Some (h, e) \<Rightarrow> h = c \<or> e \<le> now)"

definition set_leader :: "string \<Rightarrow> time \<Rightarrow> db \<Rightarrow> db" where
  "set_leader c e d = (case leader_of d of
     None \<Rightarrow> leader_leases_update (\<lambda>t. t @ [(''leader'', (c, e))]) d
   | Some h \<Rightarrow> leader_leases_update (t_update (\<lambda>r. fst r = ''leader'') (\<lambda>r. (fst r, (c, e)))) d)"

lemma leader_of_None: "leader_of d = None \<longleftrightarrow> \<not> has_key fst ''leader'' (leader_leases d)"
  using t_find_None_key[of fst "''leader''" "leader_leases d"] by (simp add: leader_of_def)

lemma leader_of_set: "leader_of (set_leader c e d) = Some (c, e)"
proof (cases "leader_of d")
  case None
  then have "\<not> has_key fst (fst (''leader'', (c, e))) (leader_leases d)" by (simp add: leader_of_None)
  from leases_t.find_after_insert[OF this] None show ?thesis by (simp add: set_leader_def leader_of_def)
next
  case (Some h)
  then show ?thesis
    using leases_t.find_after_update[of "\<lambda>r. (fst r, (c, e))" "''leader''" d]
    by (auto simp: set_leader_def leader_of_def)
qed

lemma AcquireLeader_run [run_simps]:
  "Sqlite_AcquireLeader now c ttl (d, [])
     = Some (Inr (lease_free now c d), (if lease_free now c d then set_leader c (now + ttl) d else d, []))"
proof (cases "leader_of d")
  case None
  then have "\<not> has_key fst ''leader'' (leader_leases d)" by (simp add: leader_of_None)
  with None show ?thesis
    by (simp add: Sqlite_AcquireLeader_def Sqlite_tryAcquire_def run_simps lease_free_def set_leader_def
        flip: leader_of_def)
next
  case (Some he)
  then show ?thesis
    by (cases he) (auto simp: Sqlite_AcquireLeader_def Sqlite_tryAcquire_def run_simps lease_free_def
        set_leader_def simp flip: leader_of_def)
qed

lemma tryAcquire_triple:
  "triple (\<lambda>x. x = d) (Sqlite_tryAcquire now c ttl)
     (\<lambda>ok d'. ok \<longrightarrow> lease_free now c d \<and> leader_of d' = Some (c, now + ttl)) (\<lambda>_ _. True)"
proof -
  let ?Q = "\<lambda>ok d'. ok \<longrightarrow> lease_free now c d \<and> leader_of d' = Some (c, now + ttl)"
  have upd: "leader_of d = Some x \<Longrightarrow> leader_of (leader_leases_update (t_update (\<lambda>r. fst r = ''leader'')
      (\<lambda>r. (fst r, (c, now + ttl)))) d) = Some (c, now + ttl)" for x
    using leader_of_set[of c "now + ttl" d] by (simp add: set_leader_def)
  have ins: "\<not> has_key fst ''leader'' (leader_leases d) \<Longrightarrow>
      leader_of (leader_leases_update (\<lambda>t. t @ [(''leader'', (c, now + ttl))]) d) = Some (c, now + ttl)"
    using leader_of_set[of c "now + ttl" d] by (simp add: set_leader_def leader_of_None[symmetric])
  have fre: "\<not> has_key fst ''leader'' (leader_leases d) \<Longrightarrow> lease_free now c d"
    using leader_of_None[of d] by (simp add: lease_free_def)
  show ?thesis
    unfolding Sqlite_tryAcquire_def leader_of_def[symmetric]
  proof (rule triple_bind[where R = "\<lambda>row x. x = d \<and> (case row of Inl e \<Rightarrow> True | Inr l \<Rightarrow> leader_of d = Some l)"])
    show "triple (\<lambda>x. x = d) (tryS (query_row leader_of))
        (\<lambda>row x. x = d \<and> (case row of Inl e \<Rightarrow> True | Inr l \<Rightarrow> leader_of d = Some l)) (\<lambda>_ _. True)"
      by (intro triple_try triple_query_row) auto
    fix row :: "err + string \<times> time"
    show "triple (\<lambda>x. x = d \<and> (case row of Inl e \<Rightarrow> True | Inr l \<Rightarrow> leader_of d = Some l))
      (case row of Inl e \<Rightarrow> if e = ErrNoRows
         then thenS (exec_unique (\<lambda>d. \<not> has_key fst ''leader'' (leader_leases d))
                (leader_leases_update (\<lambda>t. t @ [(''leader'', (c, now + ttl))]))) (ret True)
         else throw e
       | Inr (h, e) \<Rightarrow> if h \<noteq> c \<and> now < e then ret False
         else thenS (exec (leader_leases_update (t_update (\<lambda>r. fst r = ''leader'')
                (\<lambda>r. (fst r, (c, now + ttl)))))) (ret True)) ?Q (\<lambda>_ _. True)"
    proof (cases row)
      case (Inl e)
      then show ?thesis
        by (auto intro!: triple_throw triple_ret triple_then[where R = "?Q True"] triple_exec_unique
            simp: ins fre)
    next
      case (Inr l)
      then show ?thesis
        by (cases l) (auto intro!: triple_ret triple_then[where R = "?Q True"] triple_exec
            simp: upd lease_free_def)
    qed
  qed
qed

lemma AcquireLeader_triple:
  "triple (\<lambda>x. x = d) (Sqlite_AcquireLeader now c ttl)
     (\<lambda>ok d'. if ok then lease_free now c d \<and> leader_of d' = Some (c, now + ttl) else d' = d)
     (\<lambda>_ d'. d' = d)"
proof -
  let ?b = "bindS (Sqlite_tryAcquire now c ttl) (\<lambda>ok. ret (ok, ok))"
  let ?R = "\<lambda>(ok, eo) d'. if ok \<and> eo = None then lease_free now c d \<and> leader_of d' = Some (c, now + ttl) else d' = d"
  have body: "triple (\<lambda>x. x = d) ?b
      (\<lambda>(ok, cm) d'. ok = cm \<and> (ok \<longrightarrow> lease_free now c d \<and> leader_of d' = Some (c, now + ttl))) (\<lambda>_ _. True)"
    by (rule triple_bind[OF tryAcquire_triple]) (auto intro!: triple_ret)
  have "triple (\<lambda>x. x = d) (run_tx ?b) ?R (\<lambda>_ d'. d' = d)"
  proof (rule triple_run_tx[OF triple_weaken[OF body]])
    fix d0 d1 :: db and fs fs' x
    assume "d0 = d" "?b (d0, fs) = Some (Inr (x, False), (d1, fs'))"
    with tripleD_ok[OF body] have "\<not> x" by fastforce
    with \<open>d0 = d\<close> show "?R (x, None) d0" by simp
  qed auto
  then show ?thesis
    unfolding Sqlite_AcquireLeader_def
    by (rule triple_bind) (auto intro!: triple_ret)
qed

definition sqlite_attempt :: "time \<Rightarrow> string \<Rightarrow> duration \<Rightarrow> db \<Rightarrow> bool \<Rightarrow> db \<Rightarrow> bool" where
  "sqlite_attempt now c ttl d ok d' \<longleftrightarrow>
     (\<exists>fs r fs'. Sqlite_AcquireLeader now c ttl (d, fs) = Some (r, (d', fs')) \<and> ok = (r = Inr True))"

definition sqlite_release :: "string \<Rightarrow> db \<Rightarrow> db \<Rightarrow> bool" where
  "sqlite_release c d d' \<longleftrightarrow> (\<exists>fs r fs'. Sqlite_ReleaseLeader c (d, fs) = Some (r, (d', fs')))"

lemma sqlite_attempt_cases:
  assumes "sqlite_attempt now c ttl d ok d'"
  shows "if ok then lease_free now c d \<and> leader_of d' = Some (c, now + ttl) else d' = d"
proof -
  from assms obtain fs r fs' where r: "Sqlite_AcquireLeader now c ttl (d, fs) = Some (r, (d', fs'))"
    "ok = (r = Inr True)" by (auto simp: sqlite_attempt_def)
  from tripleD[OF AcquireLeader_triple r(1) refl] r(2) show ?thesis
    by (cases r) (auto split: if_splits)
qed

lemma ReleaseLeader_triple:
  "triple (\<lambda>x. leader_of x = Some (h, e) \<and> h \<noteq> c) (Sqlite_ReleaseLeader c)
     (\<lambda>_ x. leader_of x = Some (h, e)) (\<lambda>_ x. leader_of x = Some (h, e))"
proof -
  have del: "t_find (\<lambda>r. fst r = ''leader'') t = Some (k, h, e) \<Longrightarrow> h \<noteq> c \<Longrightarrow>
      t_find (\<lambda>r. fst r = ''leader'') (t_delete (\<lambda>r. fst r = ''leader'' \<and> fst (snd r) = c) t) = Some (k, h, e)"
    for t :: "(string \<times> string \<times> time) list" and k
    by (induction t) (auto simp: t_find_def t_delete_def split: if_splits)
  show ?thesis
    unfolding Sqlite_ReleaseLeader_def
    by (rule triple_exec) (auto simp: leader_of_def dest: del)
qed

interpretation sqlite_lease: lease sqlite_attempt sqlite_release leader_of
proof
  fix now c ttl s s' h e
  show "sqlite_attempt now c ttl s True s' \<Longrightarrow> leader_of s' = Some (c, now + ttl)"
    by (drule sqlite_attempt_cases) simp
  show "sqlite_attempt now c ttl s True s' \<Longrightarrow> leader_of s = Some (h, e) \<Longrightarrow> h = c \<or> e \<le> now"
    by (drule sqlite_attempt_cases) (simp add: lease_free_def)
  show "sqlite_attempt now c ttl s False s' \<Longrightarrow> leader_of s' = leader_of s"
    by (drule sqlite_attempt_cases) simp
  assume "sqlite_release c s s'" "leader_of s = Some (h, e)" "h \<noteq> c"
  then show "leader_of s' = Some (h, e)"
    using tripleD[OF ReleaseLeader_triple[of h e c]] by (fastforce simp: sqlite_release_def split: sum.splits)
qed

section \<open>Rate limits\<close>

definition stamps :: "string \<Rightarrow> db \<Rightarrow> time list" where
  "stamps n d = map snd (filter (\<lambda>(m, t). m = n) (rate_limits d))"

lemma stamps_cleaned:
  "stamps n (rate_limits_update (\<lambda>t. t @ [(n, now)]) (rate_limits_update (t_delete (\<lambda>(m, ts). m = n \<and> ts < c)) d))
     = filter (\<lambda>t. c \<le> t) (stamps n d) @ [now]"
proof -
  have "map snd (filter (\<lambda>(m, t). m = n) (t_delete (\<lambda>(m, ts). m = n \<and> ts < c) l))
      = filter (\<lambda>t. c \<le> t) (map snd (filter (\<lambda>(m, t). m = n) l))" for l :: "(string \<times> int) list"
    by (induction l) (auto simp: t_delete_def)
  then show ?thesis by (simp add: stamps_def)
qed

lemma count_cleaned:
  "length (filter (\<lambda>(m, t). m = n) (t_delete (\<lambda>(m, ts). m = n \<and> ts < (c :: int)) l))
     = length (filter (\<lambda>t. c \<le> t) (map snd (filter (\<lambda>(m, t). m = n) l)))"
  by (induction l) (auto simp: t_delete_def)

lemma CheckRateLimit_triple:
  "triple (\<lambda>x. x = d) (Sqlite_CheckRateLimit now n limit period)
     (\<lambda>ok d'. if ok then int (length (filter (\<lambda>t. now - period \<le> t) (stamps n d))) < limit
        \<and> stamps n d' = filter (\<lambda>t. now - period \<le> t) (stamps n d) @ [now] else d' = d)
     (\<lambda>_ d'. d' = d)"
proof -
  let ?b = "bindS (Sqlite_evaluateRateLimit now n limit period) (\<lambda>allowed. ret (allowed, allowed))"
  let ?G = "\<lambda>d'. int (length (filter (\<lambda>t. now - period \<le> t) (stamps n d))) < limit
        \<and> stamps n d' = filter (\<lambda>t. now - period \<le> t) (stamps n d) @ [now]"
  let ?R = "\<lambda>(ok, eo) d'. case eo of None \<Rightarrow> if ok then ?G d' else d' = d | Some e \<Rightarrow> d' = d"
  let ?d1 = "rate_limits_update (t_delete (\<lambda>(m, ts). m = n \<and> ts < now - period)) d"
  have ev: "triple (\<lambda>x. x = d) (Sqlite_evaluateRateLimit now n limit period) (\<lambda>ok d'. ok \<longrightarrow> ?G d') (\<lambda>_ _. True)"
    unfolding Sqlite_evaluateRateLimit_def Let_def
  proof (rule triple_then[where R = "\<lambda>x. x = ?d1"])
    show "triple (\<lambda>x. x = ?d1)
        (bindS (query (\<lambda>d. int (length (filter (\<lambda>(m, ts). m = n) (rate_limits d))))) (\<lambda>count.
          if limit \<le> count then ret False
          else thenS (exec (rate_limits_update (\<lambda>t. t @ [(n, now)]))) (ret True)))
        (\<lambda>ok d'. ok \<longrightarrow> ?G d') (\<lambda>_ _. True)"
    proof (rule triple_bind)
      let ?C = "\<lambda>count x. x = ?d1 \<and> count = int (length (filter (\<lambda>t. now - period \<le> t) (stamps n d)))"
      show "triple (\<lambda>x. x = ?d1) (query (\<lambda>d. int (length (filter (\<lambda>(m, ts). m = n) (rate_limits d))))) ?C (\<lambda>_ _. True)"
        by (rule triple_query) (auto simp: count_cleaned stamps_def)
      show "triple (?C count) (if limit \<le> count then ret False
          else thenS (exec (rate_limits_update (\<lambda>t. t @ [(n, now)]))) (ret True))
          (\<lambda>ok d'. ok \<longrightarrow> ?G d') (\<lambda>_ _. True)" for count
        using stamps_cleaned[of n now "now - period" d]
        by (auto intro!: triple_ret triple_then[where R = ?G] triple_exec)
    qed
  qed (auto intro!: triple_exec)
  have body: "triple (\<lambda>x. x = d) ?b (\<lambda>(ok, cm) d'. ok = cm \<and> (ok \<longrightarrow> ?G d')) (\<lambda>_ _. True)"
    by (rule triple_bind[OF ev]) (auto intro!: triple_ret)
  have "triple (\<lambda>x. x = d) (run_tx ?b) ?R (\<lambda>_ d'. d' = d)"
  proof (rule triple_run_tx[OF triple_weaken[OF body]])
    fix d0 d1 :: db and fs fs' x
    assume "d0 = d" "?b (d0, fs) = Some (Inr (x, False), (d1, fs'))"
    with tripleD_ok[OF body] have "\<not> x" by fastforce
    with \<open>d0 = d\<close> show "?R (x, None) d0" by simp
  qed auto
  then show ?thesis
    unfolding Sqlite_CheckRateLimit_def with_tx_if_def
    by (rule triple_bind) (auto intro!: triple_ret triple_throw split: option.splits)
qed

text \<open>A series of checks of one name; the result is the times of those that were allowed.\<close>

fun rate_run :: "string \<Rightarrow> int \<Rightarrow> duration \<Rightarrow> (time \<times> bool list) list \<Rightarrow> db \<Rightarrow> time list" where
  "rate_run n limit period [] d = []"
| "rate_run n limit period ((now, fs) # cs) d =
     (case Sqlite_CheckRateLimit now n limit period (d, fs) of
        Some (Inr ok, (d', fs')) \<Rightarrow>
          if ok then now # rate_run n limit period cs d' else rate_run n limit period cs d'
      | Some (Inl e, (d', fs')) \<Rightarrow> rate_run n limit period cs d'
      | None \<Rightarrow> rate_run n limit period cs d)"

lemma rate_run_cases:
  obtains (rejected) "rate_run n limit period ((now, fs) # cs) d = rate_run n limit period cs d"
  | (allowed) d' where "rate_run n limit period ((now, fs) # cs) d = now # rate_run n limit period cs d'"
      "int (length (filter (\<lambda>t. now - period \<le> t) (stamps n d))) < limit"
      "stamps n d' = filter (\<lambda>t. now - period \<le> t) (stamps n d) @ [now]"
proof (cases "Sqlite_CheckRateLimit now n limit period (d, fs)")
  case (Some p)
  obtain r d' fs' where p: "p = (r, (d', fs'))" by (cases p) auto
  from tripleD[OF CheckRateLimit_triple Some[unfolded p] refl] show ?thesis
    using Some p that by (cases r) (auto split: if_splits)
qed (use that in simp)

lemma rate_run_times: "set (rate_run n limit period cs d) \<subseteq> fst ` set cs"
proof (induction cs arbitrary: d)
  case (Cons c cs)
  show ?case
    by (cases c, rule rate_run_cases[of n limit period "fst c" "snd c" cs d]) (use Cons.IH in force)+
qed simp

abbreviation in_window :: "time \<Rightarrow> duration \<Rightarrow> time \<Rightarrow> bool" where
  "in_window s period t \<equiv> s \<le> t \<and> t \<le> s + period"

lemma length_filter_imp:
  "(\<And>x. P x \<Longrightarrow> Q x) \<Longrightarrow> length (filter P xs) \<le> length (filter Q xs)"
  by (induction xs) auto

lemma rate_run_window:
  assumes "sorted (map fst cs)" "0 \<le> period" "filter (in_window s period) (rate_run n limit period cs d) \<noteq> []"
  shows "int (length (filter (\<lambda>t. s \<le> t) (stamps n d)))
    + int (length (filter (in_window s period) (rate_run n limit period cs d))) \<le> limit"
  using assms
proof (induction cs arbitrary: d)
  case (Cons c cs)
  obtain now fs where c: "c = (now, fs)" by (cases c)
  from Cons.prems(1) have srt: "sorted (map fst cs)" "\<And>t. t \<in> fst ` set cs \<Longrightarrow> now \<le> t" by (auto simp: c)
  show ?case
  proof (cases rule: rate_run_cases[of n limit period now fs cs d])
    case rejected
    with Cons.IH[OF srt(1) Cons.prems(2)] Cons.prems(3) show ?thesis by (simp add: c del: rate_run.simps)
  next
    case (allowed d')
    let ?A = "rate_run n limit period cs d'"
    have later: "\<And>t. t \<in> set ?A \<Longrightarrow> now \<le> t" using rate_run_times srt(2) by blast
    have after: "int (length (filter (\<lambda>t. s \<le> t) (stamps n d')))
        = int (length (filter (\<lambda>t. s \<le> t) (stamps n d))) + (if s \<le> now then 1 else 0)" if "now - period \<le> s"
      using allowed(3) that by (auto simp: intro!: arg_cong[where f = length] filter_cong)
    consider "now < s" | "s + period < now" | "in_window s period now" by linarith
    then show ?thesis
    proof cases
      case 1
      with Cons.prems(2,3) allowed(1) Cons.IH[OF srt(1) Cons.prems(2), of d'] after show ?thesis by (simp add: c del: rate_run.simps)
    next
      case 2
      have "\<not> in_window s period t" if "t \<in> set (rate_run n limit period (c # cs) d)" for t
      proof -
        from that have "t = now \<or> t \<in> set ?A" unfolding c allowed(1) by simp
        with later[of t] 2 show ?thesis by linarith
      qed
      then have "filter (in_window s period) (rate_run n limit period (c # cs) d) = []"
        by (simp only: filter_empty_conv) blast
      with Cons.prems(3) show ?thesis by simp
    next
      case 3
      have "length (filter (\<lambda>t. s \<le> t) (stamps n d)) \<le> length (filter (\<lambda>t. now - period \<le> t) (stamps n d))"
        using 3 by (intro length_filter_imp) auto
      then have room: "int (length (filter (\<lambda>t. s \<le> t) (stamps n d))) + 1 \<le> limit" using allowed(2) by linarith
      show ?thesis
      proof (cases "filter (in_window s period) ?A = []")
        case True
        with room 3 show ?thesis by (simp add: c allowed(1) del: rate_run.simps)
      next
        case False
        with Cons.IH[OF srt(1) Cons.prems(2), of d'] after 3 show ?thesis by (simp add: c allowed(1) del: rate_run.simps)
      qed
    qed
  qed
qed simp

section \<open>Cron locks\<close>

abbreviation cron_locked :: "string \<times> time \<Rightarrow> db \<Rightarrow> bool" where
  "cron_locked k d \<equiv> has_key fst k (cron_locks d)"

lemma cron_locked_insert:
  "has_key fst k (t_insert_ignore fst (l, now) t) \<longleftrightarrow> has_key fst k t \<or> k = l"
  by (force simp: t_insert_ignore_def has_key_def)

lemma LockCron_triple:
  "triple (\<lambda>x. x = d) (Sqlite_LockCronExecution now n t)
     (\<lambda>ok d'. (ok \<longrightarrow> cron_locked (n, trunc_minute t) d'
                  \<and> (now - hour \<le> trunc_minute t \<longrightarrow> \<not> cron_locked (n, trunc_minute t) d))
        \<and> (\<forall>k. cron_locked k d \<and> now - hour \<le> snd k \<longrightarrow> cron_locked k d'))
     (\<lambda>_ d'. \<forall>k. cron_locked k d \<and> now - hour \<le> snd k \<longrightarrow> cron_locked k d')"
  unfolding Sqlite_LockCronExecution_def
proof (rule triple_then)
  let ?P = "\<lambda>x. \<forall>k. now - hour \<le> snd k \<longrightarrow> cron_locked k x = cron_locked k d"
  show "triple (\<lambda>x. x = d) (ignoreS (exec (cron_locks_update (t_delete (\<lambda>l. snd (fst l) < now - 1 * hour)))))
      (\<lambda>_. ?P) (\<lambda>_ d'. \<forall>k. cron_locked k d \<and> now - hour \<le> snd k \<longrightarrow> cron_locked k d')"
    by (intro triple_ignore triple_exec) (force simp: has_key_def t_delete_def)+
  let ?K = "(n, trunc_minute t)"
  show "triple ?P (bindS (exec_count (\<lambda>d. if cron_locked ?K d then 0 else 1)
         (cron_locks_update (t_insert_ignore fst (?K, now)))) (\<lambda>rows. ret (0 < rows)))
      (\<lambda>ok d'. (ok \<longrightarrow> cron_locked ?K d' \<and> (now - hour \<le> trunc_minute t \<longrightarrow> \<not> cron_locked ?K d))
        \<and> (\<forall>k. cron_locked k d \<and> now - hour \<le> snd k \<longrightarrow> cron_locked k d'))
      (\<lambda>_ d'. \<forall>k. cron_locked k d \<and> now - hour \<le> snd k \<longrightarrow> cron_locked k d')"
    by (rule triple_bind[where R = "\<lambda>rows d'. (0 < rows \<longrightarrow> cron_locked ?K d'
          \<and> (now - hour \<le> trunc_minute t \<longrightarrow> \<not> cron_locked ?K d))
        \<and> (\<forall>k. cron_locked k d \<and> now - hour \<le> snd k \<longrightarrow> cron_locked k d')"])
      (auto intro!: triple_exec_count triple_ret simp: cron_locked_insert
        simp del: split_paired_All split: if_splits)
qed

lemma LockCron_run [run_simps]:
  "Sqlite_LockCronExecution now n t (d, []) =
     (let d1 = cron_locks_update (t_delete (\<lambda>l. snd (fst l) < now - hour)) d in
      Some (Inr (\<not> cron_locked (n, trunc_minute t) d1),
        (cron_locks_update (t_insert_ignore fst ((n, trunc_minute t), now)) d1, [])))"
  by (simp add: Sqlite_LockCronExecution_def run_simps Let_def)

text \<open>A series of lock attempts; the result lists the locks granted.\<close>

fun cron_run :: "(time \<times> string \<times> time \<times> bool list) list \<Rightarrow> db \<Rightarrow> (string \<times> time) list" where
  "cron_run [] d = []"
| "cron_run ((now, n, t, fs) # cs) d =
     (case Sqlite_LockCronExecution now n t (d, fs) of
        Some (Inr ok, (d', fs')) \<Rightarrow> if ok then (n, trunc_minute t) # cron_run cs d' else cron_run cs d'
      | Some (Inl e, (d', fs')) \<Rightarrow> cron_run cs d'
      | None \<Rightarrow> cron_run cs d)"

lemma cron_run_once:
  assumes "list_all (\<lambda>c. fst c - hour \<le> snd k) cs"
  shows "count_list (cron_run cs d) k \<le> (if cron_locked k d then 0 else 1)"
  using assms
proof (induction cs arbitrary: d)
  case (Cons c cs)
  obtain now n t fs where c: "c = (now, n, t, fs)" by (cases c) auto
  from Cons.prems have now: "now - hour \<le> snd k" and rest: "list_all (\<lambda>c. fst c - hour \<le> snd k) cs"
    by (auto simp: c)
  note IH = Cons.IH[OF rest]
  show ?case
  proof (cases "Sqlite_LockCronExecution now n t (d, fs)")
    case None
    with IH show ?thesis by (simp add: c)
  next
    case (Some p)
    obtain r d' fs' where p: "p = (r, (d', fs'))" by (cases p) auto
    note T = tripleD[OF LockCron_triple Some[unfolded p] refl]
    from T have keep: "cron_locked k d \<Longrightarrow> cron_locked k d'"
      using now by (cases r) (auto simp del: split_paired_All)
    show ?thesis
    proof (cases "r = Inr True \<and> k = (n, trunc_minute t)")
      case True
      with T now have "cron_locked k d'" "\<not> cron_locked k d" by auto
      with True IH[of d'] Some p show ?thesis by (simp add: c)
    next
      case False
      then have "count_list (cron_run (c # cs) d) k = count_list (cron_run cs d') k"
        using Some p by (cases r) (auto simp: c)
      with keep IH[of d'] show ?thesis by (auto split: if_splits)
    qed
  qed
qed simp

section \<open>Properties\<close>

text \<open>Whether a client becomes leader is decided by the lease alone: when no failure occurs
  it is granted, until \<open>ttl\<close> from now, exactly if no lease is stored, the client holds it
  itself or it has expired; a refused attempt changes nothing.\<close>

lemma leader_lease_decision:
  "\<exists>d'. Sqlite_AcquireLeader now c ttl (d, []) = Some (Inr (lease_free now c d), (d', []))
     \<and> leader_of d' = (if lease_free now c d then Some (c, now + ttl) else leader_of d)
     \<and> (lease_free now c d \<or> d' = d)"
  by (simp add: AcquireLeader_run leader_of_set)

text \<open>C6: there is never more than one leader. Once a client has been granted the lease, no
  other client is granted it before it expires, in any series of attempts and releases by the
  others and whatever statements or commits fail; the client still holds it at the end.\<close>

theorem leader_exclusive:
  assumes "sqlite_attempt now h ttl d True d1"
    "lease_trace sqlite_attempt sqlite_release es d1 d2" "list_all (by_others h (now + ttl)) es"
  shows "list_all (\<lambda>ev. \<not> granted ev) es \<and> leader_of d2 = Some (h, now + ttl)"
  using sqlite_lease.held_while_running[OF sqlite_lease.granted_holds[OF assms(1)] assms(2,3)] by blast

theorem leader_exclusive_witness:
  "\<exists>d1. sqlite_attempt 0 ''w1'' (30 * second) empty_db True d1
     \<and> Sqlite_AcquireLeader (10 * second) ''w2'' hour (d1, []) = Some (Inr False, (d1, []))"
proof -
  have free: "lease_free 0 ''w1'' empty_db" by (simp add: lease_free_def leader_of_def empty_db_def t_find_def)
  let ?d1 = "set_leader ''w1'' (30 * second) empty_db"
  have a1: "sqlite_attempt 0 ''w1'' (30 * second) empty_db True ?d1"
    unfolding sqlite_attempt_def
    by (intro exI[of _ "[]"] exI[of _ "Inr True"]) (simp add: AcquireLeader_run free)
  have run: "Sqlite_AcquireLeader (10 * second) ''w2'' hour (?d1, [])
      = Some (Inr (lease_free (10 * second) ''w2'' ?d1),
          (if lease_free (10 * second) ''w2'' ?d1 then set_leader ''w2'' (10 * second + hour) ?d1 else ?d1, []))"
    by (rule AcquireLeader_run)
  have "\<not> lease_free (10 * second) ''w2'' ?d1"
  proof
    assume fr: "lease_free (10 * second) ''w2'' ?d1"
    have "sqlite_attempt (10 * second) ''w2'' hour ?d1 True (set_leader ''w2'' (10 * second + hour) ?d1)"
      unfolding sqlite_attempt_def
      by (intro exI[of _ "[]"] exI[of _ "Inr True"]) (use run fr in simp)
    with leader_exclusive[OF a1, of "[Attempt (10 * second) ''w2'' hour True]"] show False by simp
  qed
  with a1 run show ?thesis by auto
qed

text \<open>C7: in any series of rate-limit checks of a job name, with the clock not going back and
  whatever fails in between, every window as long as the period contains at most the limit of
  allowed executions.\<close>

theorem rate_limit_sliding_window:
  assumes "sorted (map fst calls)" "0 \<le> period"
  shows "length (filter (in_window s period) (rate_run n limit period calls d)) \<le> nat limit"
proof (cases "filter (in_window s period) (rate_run n limit period calls d) = []")
  case False
  from rate_run_window[OF assms this] show ?thesis by linarith
qed simp

theorem rate_limit_sliding_window_witness:
  "length (filter (in_window 0 10) (rate_run ''sms'' 2 10 [(0, []), (4, []), (5, []), (11, [])] empty_db)) \<le> 2"
  using rate_limit_sliding_window[of "[(0, []), (4, []), (5, []), (11, [])]" 10 0 "''sms''" 2 empty_db] by simp

text \<open>A cron job runs once per minute. In any series of lock attempts by any number of
  schedulers, within the hour that a lock is kept and whatever fails, the lock of one name and
  minute is granted at most once, and not at all if it was held before.\<close>

theorem cron_lock_once:
  assumes "list_all (\<lambda>c. fst c - hour \<le> minute_start) calls"
  shows "count_list (cron_run calls d) (name, minute_start)
    \<le> (if has_key fst (name, minute_start) (cron_locks d) then 0 else 1)"
  using cron_run_once[of "(name, minute_start)" calls d] assms by simp

theorem cron_lock_once_witness:
  "count_list (cron_run [(60 * second, ''c'', 60 * second, []), (70 * second, ''c'', 70 * second, [])] empty_db)
     (''c'', 60 * second) \<le> 1"
  using cron_lock_once[where minute_start = "60 * second" and name = "''c''" and d = empty_db
      and calls = "[(60 * second, ''c'', 60 * second, []), (70 * second, ''c'', 70 * second, [])]"]
  by (simp add: empty_db_def has_key_def)

text \<open>The lock of a time more than an hour ago does not protect: its row is deleted by the
  next attempt, which is granted again. An interval job whose interval exceeds an hour is
  locked by the start of its interval and so can be enqueued by every worker.\<close>

theorem cron_lock_forgotten:
  assumes "trunc_minute t < now - hour"
  shows "\<exists>d1 d2. Sqlite_LockCronExecution now n t (d, []) = Some (Inr True, (d1, []))
    \<and> Sqlite_LockCronExecution now n t (d1, []) = Some (Inr True, (d2, []))"
  using assms by (simp add: LockCron_run Let_def has_key_def t_delete_def)

theorem cron_lock_forgotten_witness:
  "\<exists>d1 d2. Sqlite_LockCronExecution (3 * hour) ''i'' 0 (empty_db, []) = Some (Inr True, (d1, []))
    \<and> Sqlite_LockCronExecution (3 * hour) ''i'' 0 (d1, []) = Some (Inr True, (d2, []))"
  using cron_lock_forgotten[of 0 "3 * hour" "''i''" empty_db] by (simp add: trunc_minute_def)

end
