(* ===== verification/EndToEnd.thy ===== *)
theory EndToEnd
  imports Client WorkerLoops WorkerSettles SqliteQueue SqliteGuards
begin

text \<open>
  The client, the SQLite backend and the worker together: encryption from the client's call to the
  job's arguments, queue weights over a round of fetches, and interval jobs against the cron lock.
\<close>

section \<open>The client on SQLite\<close>

definition admits :: "circuitBreaker option \<Rightarrow> bool" where
  "admits cb = (case cb of None \<Rightarrow> True | Some b \<Rightarrow> state b \<noteq> cbStateOpen)"

lemma execute_admitted:
  assumes "admits cb" "fn s = Some (r, s')"
  shows "\<exists>cb'. Client_execute ck fn (cb, s) = Some (r, (cb', s'))"
  using assms by (auto simp: Client_execute_def admits_def beforeCall_def split: option.splits)

lemma encrypt_run:
  assumes "aes_key_ok (cl_encryptionKey c)" "Args env \<noteq> []"
  shows "encryptEnvelope c (Some nonce) env
    = Inr (env\<lparr>Args := EncryptionHeader @ nonce @ cl_seal c (cl_encryptionKey c) nonce (Args env)\<rparr>)"
proof -
  have "cl_encryptionKey c \<noteq> []" using assms(1) by (auto simp: aes_key_ok_def)
  with assms show ?thesis
    by (simp add: encryptEnvelope_def EncryptPayload_def buildEncryptedBytes_eq)
qed

text \<open>What a worker with the same key makes of a sealed payload.\<close>

lemma opened_sealed:
  assumes "\<And>k n p. unseal k n (seal k n p) = Some p" "aes_key_ok key" "length nonce = nonceSize"
  shows "IsEncrypted (EncryptionHeader @ nonce @ seal key nonce p)"
    and "opened unseal key (EncryptionHeader @ nonce @ seal key nonce p) = Some p"
proof -
  show enc: "IsEncrypted (EncryptionHeader @ nonce @ seal key nonce p)" by (auto simp: IsEncrypted_iff)
  have "key \<noteq> []" using assms(2) by (auto simp: aes_key_ok_def)
  then show "opened unseal key (EncryptionHeader @ nonce @ seal key nonce p) = Some p"
    using assms enc by (simp add: opened_def decrypt_built)
qed

lemma execute_opened:
  assumes "wp_registry (w_pool w) (Name env) = Some job"
    "opened unseal (wp_encryptionKey (w_pool w)) (Args env) = Some args"
  shows "Pool_executeJob st unseal env w = Pool_runJobPerform st (env\<lparr>Args := args\<rparr>) job w"
  using assms by (auto simp: Pool_executeJob_def with_pool_run opened_def split: if_splits sum.splits)

text \<open>A worker without weights or limits fetches what SQLite dequeues from an unpaused queue.\<close>

lemma fetch_single:
  assumes "wp_firstQueues (w_pool w) = []" "w_store w = (d, [])" "q \<notin> set (paused_queues d)"
    "Sqlite_Dequeue now q (wp_tags (w_pool w)) (d, []) = Some (Inr (Some env), c)"
    "wp_configs (w_pool w) (Name env) = None"
  shows "Pool_fetchNext (sqlite_worker stack now rnd) [q] w = Some (Inr (Some env), w\<lparr>w_store := c\<rparr>)"
  using assms
  by (simp add: Pool_fetchNext_def Pool_fetchStrict_def Pool_checkAndDequeue_def Pool_dequeueFromQueue_def
      Pool_checkLimitsAndPostpone_def sqlite_worker_def Sqlite_IsQueuePaused_def run_simps has_key_def)

text \<open>C10: encryption is transparent from end to end. A client with a key enqueues arguments on a SQLite
  backend; the row holds them only sealed; a worker with the same key that fetches the queue gets
  that job, and what it runs is the registered job on exactly the client's arguments.\<close>

theorem encrypted_job_end_to_end:
  assumes seal: "\<And>k n p. unseal k n (cl_seal c k n p) = Some p"
    and key: "aes_key_ok (cl_encryptionKey c)" "ce_nonces ev 0 = Some nonce" "length nonce = nonceSize"
    and client: "cl_storage c = sqlite_client now rnd" "admits cb" "args \<noteq> []"
    and store: "\<not> has_key j_id (generateJobID (ce_id ev)) (jobs d)" "filter (eligible now' q) (jobs d) = []"
      "q \<notin> set (paused_queues d)" "now \<le> now'"
    and pool: "wp_encryptionKey (w_pool w) = cl_encryptionKey c" "wp_firstQueues (w_pool w) = []"
      "wp_configs (w_pool w) name = None" "wp_registry (w_pool w) name = Some job"
  shows "\<exists>cb' d1 r env w'.
     Client_Enqueue c ev q name args (cb, (d, [])) = Some (Inr (), (cb', (d1, [])))
   \<and> job_by_id (generateJobID (ce_id ev)) d1 = Some r
   \<and> j_args r = EncryptionHeader @ nonce @ cl_seal c (cl_encryptionKey c) nonce args
   \<and> Pool_fetchNext (sqlite_worker stack now' rnd') [q] (w\<lparr>w_store := (d1, [])\<rparr>) = Some (Inr (Some env), w')
   \<and> JobID env = generateJobID (ce_id ev)
   \<and> Pool_executeJob st unseal env w' = Pool_runJobPerform st (env\<lparr>Args := args\<rparr>) job w'"
proof -
  let ?env0 = "zero_envelope\<lparr>JobID := generateJobID (ce_id ev), Queue := q, Name := name,
       Args := args, MaxAttempts := 3, TraceCtx := ce_trace ev\<rparr>"
  let ?sealed = "EncryptionHeader @ nonce @ cl_seal c (cl_encryptionKey c) nonce args"
  define env1 where "env1 = ?env0\<lparr>Args := ?sealed\<rparr>"
  have fields: "UniqueKey env1 = ''''" "Tags env1 = []" "JobID env1 = generateJobID (ce_id ev)"
    "Queue env1 = q" "Name env1 = name" "Args env1 = ?sealed" "RunAt env1 = None" "MaxAttempts env1 = 3"
    by (simp_all add: env1_def zero_envelope_def)
  have sent: "send c ev ?env0 = Client_execute (ce_clock ev) (Sqlite_Enqueue now env1)"
    using encrypt_run[OF key(1), of ?env0 nonce] client(1,3) key(2)
    by (simp add: send_def env1_def sqlite_client_def)
  let ?d1 = "store_job now env1 d"
  let ?env = "env1\<lparr>Dependencies := [], BatchID := '''', RunAt := None, UniqueTTL := 0, Attempts := 0,
      MaxAttempts := getMaxAttempts (MaxAttempts env1)\<rparr>"
  have "now div second \<le> now' div second" using store(4) by (intro zdiv_mono1) auto
  then obtain d2 where
    enq: "Sqlite_Enqueue now env1 (d, []) = Some (Inr (), (?d1, []))" and
    deq: "Sqlite_Dequeue now' q (wp_tags (w_pool w)) (?d1, []) = Some (Inr (Some ?env), (d2, []))"
    using enqueue_then_dequeue[of env1 now d now' "wp_tags (w_pool w)"] store(1,2) fields
    by (auto simp: commaless_def getRunAt_def matchTags_def)
  obtain cb' where call: "Client_Enqueue c ev q name args (cb, (d, [])) = Some (Inr (), (cb', (?d1, [])))"
    using execute_admitted[where fn = "Sqlite_Enqueue now env1" and s = "(d, [])", OF client(2) enq] sent by (auto simp: Client_Enqueue_def)
  have row: "job_by_id (generateJobID (ce_id ev)) ?d1 = Some (enqueued_row now env1)"
    using store_job_row[of env1 now d] store(1) t_find_None_key[of j_id "JobID env1" "jobs d"]
    by (simp add: fields job_by_id_def)
  have args: "j_args (enqueued_row now env1) = ?sealed"
    by (simp add: enqueued_row_def default_job_row_def fields)
  have fetch: "Pool_fetchNext (sqlite_worker stack now' rnd') [q] (w\<lparr>w_store := (?d1, [])\<rparr>)
      = Some (Inr (Some ?env), w\<lparr>w_store := (d2, [])\<rparr>)"
    using fetch_single[of "w\<lparr>w_store := (?d1, [])\<rparr>" ?d1 q now' ?env "(d2, [])" stack rnd'] pool(2,3) store(3) deq
    by (simp add: fields store_job_def)
  have "Pool_executeJob st unseal ?env (w\<lparr>w_store := (d2, [])\<rparr>)
      = Pool_runJobPerform st (?env\<lparr>Args := args\<rparr>) job (w\<lparr>w_store := (d2, [])\<rparr>)"
    using opened_sealed(2)[of unseal "cl_seal c", OF seal key(1,3)] pool(1,4)
    by (intro execute_opened) (simp_all add: fields)
  with call row args fetch show ?thesis
    by (intro exI[of _ cb'] exI[of _ ?d1] exI[of _ "enqueued_row now env1"] exI[of _ ?env]
        exI[of _ "w\<lparr>w_store := (d2, [])\<rparr>"]) (simp add: fields)
qed

text \<open>A stand-in for the cipher keeps the key and the nonce in front.\<close>

definition demo_client :: "conn Client" where
  "demo_client = \<lparr>cl_storage = sqlite_client 0 '''', cl_seal = toy_seal, cl_encryptionKey = ''0123456789abcdef''\<rparr>"

definition demo_call :: call_env where
  "demo_call = \<lparr>ce_id = ''ab'', ce_nonces = (\<lambda>i. Some ''abcdefghijkl''), ce_trace = \<lparr>TraceID = '''', SpanID = ''''\<rparr>,
     ce_now = 0, ce_clock = \<lparr>at_before = 0, at_start = 0, at_end = 0, at_after = 0\<rparr>\<rparr>"

definition demo_world :: "(conn, unit) world" where
  "demo_world = \<lparr>w_pool = NewWorkerPool ''w'' 1 [WithWorkerPayloadEncryption ''0123456789abcdef'',
       (\<lambda>w. w\<lparr>wp_registry := (wp_registry w)(''A'' \<mapsto> (\<lambda>args. done_with (Returned None)))\<rparr>)],
     w_store = (empty_db, []), w_delivered = []\<rparr>"

lemma toy_unseal_seal: "toy_unseal k n (toy_seal k n p) = Some p"
  by (simp add: toy_unseal_def toy_seal_def)

theorem encrypted_job_end_to_end_witness:
  "\<exists>cb' d1 r env w'.
     Client_Enqueue demo_client demo_call ''q'' ''A'' ''secret'' (None, (empty_db, [])) = Some (Inr (), (cb', (d1, [])))
   \<and> job_by_id (generateJobID ''ab'') d1 = Some r
   \<and> j_args r = ''runiq:enc:abcdefghijkl0123456789abcdefabcdefghijklsecret''
   \<and> Pool_fetchNext (sqlite_worker 1 second '''') [''q''] (demo_world\<lparr>w_store := (d1, [])\<rparr>) = Some (Inr (Some env), w')
   \<and> JobID env = generateJobID ''ab''
   \<and> Pool_executeJob (sqlite_worker 1 second '''') toy_unseal env w'
       = Pool_runJobPerform (sqlite_worker 1 second '''') (env\<lparr>Args := ''secret''\<rparr>) (\<lambda>args. done_with (Returned None)) w'"
proof -
  have "EncryptionHeader @ ''abcdefghijkl'' @ toy_seal ''0123456789abcdef'' ''abcdefghijkl'' ''secret''
      = ''runiq:enc:abcdefghijkl0123456789abcdefabcdefghijklsecret''"
    by (simp add: EncryptionHeader_def toy_seal_def)
  then show ?thesis
    using encrypted_job_end_to_end[of toy_unseal demo_client demo_call "''abcdefghijkl''" 0 "''''" None "''secret''"
        empty_db second "''q''" demo_world "''A''" "\<lambda>args. done_with (Returned None)" 1 "''''" "sqlite_worker 1 second ''''"]
    by (simp add: demo_client_def demo_call_def demo_world_def toy_unseal_seal aes_key_ok_def nonceSize_def admits_def
        empty_db_def has_key_def NewWorkerPool_def WithWorkerPayloadEncryption_def)
qed

text \<open>Jobs added to a batch are not encrypted. Whatever key the client has, \<open>Batch.Enqueue\<close> on a
  SQLite backend stores the arguments as they are.\<close>

theorem batch_enqueue_stores_plaintext:
  assumes "cl_storage c = sqlite_client now rnd" "admits cb"
    and "\<not> has_key j_id (generateJobID (ce_id ev)) (jobs d)"
  shows "\<exists>cb' d1 r. Batch_Enqueue c ev b q name args (cb, (d, [])) = Some (Inr (), (cb', (d1, [])))
    \<and> job_by_id (generateJobID (ce_id ev)) d1 = Some r \<and> j_args r = args \<and> j_batch_id r = bt_ID b"
proof -
  let ?env = "zero_envelope\<lparr>JobID := generateJobID (ce_id ev), Queue := q, Name := name,
     Args := args, MaxAttempts := 3, BatchID := bt_ID b, TraceCtx := ce_trace ev\<rparr>"
  have "\<exists>d1 r. Sqlite_EnqueueInBatch now (bt_ID b) ?env (d, []) = Some (Inr (), (d1, []))
      \<and> job_by_id (generateJobID (ce_id ev)) d1 = Some r \<and> j_args r = args \<and> j_batch_id r = bt_ID b"
    using assms(3) t_find_None_key[of j_id "generateJobID (ce_id ev)" "jobs d"]
    by (simp add: Sqlite_EnqueueInBatch_def with_tx_unfold Sqlite_updateBatchCount_def Sqlite_acquireUniqueLock_def
        Sqlite_insertBatchJob_def run_simps zero_envelope_def job_by_id_def t_find_append t_find_single
        default_job_row_def)
  then obtain d1 r where d1: "Sqlite_EnqueueInBatch now (bt_ID b) ?env (d, []) = Some (Inr (), (d1, []))"
    "job_by_id (generateJobID (ce_id ev)) d1 = Some r" "j_args r = args" "j_batch_id r = bt_ID b" by blast
  from execute_admitted[where fn = "Sqlite_EnqueueInBatch now (bt_ID b) ?env" and s = "(d, [])", OF assms(2) d1(1)]
  obtain cb' where "Client_execute (ce_clock ev) (Sqlite_EnqueueInBatch now (bt_ID b) ?env) (cb, (d, []))
      = Some (Inr (), (cb', (d1, [])))" by blast
  with d1 assms(1) show ?thesis by (auto simp: Batch_Enqueue_def sqlite_client_def)
qed

theorem batch_enqueue_stores_plaintext_witness:
  "\<exists>cb' d1 r. Batch_Enqueue demo_client demo_call \<lparr>bt_ID = ''b'', bt_callback = zero_envelope\<rparr> ''q'' ''A'' ''secret'' (None, (empty_db, []))
      = Some (Inr (), (cb', (d1, [])))
    \<and> job_by_id (generateJobID ''ab'') d1 = Some r \<and> j_args r = ''secret'' \<and> j_batch_id r = ''b''"
  using batch_enqueue_stores_plaintext[of demo_client 0 "''''" None demo_call empty_db
      "\<lparr>bt_ID = ''b'', bt_callback = zero_envelope\<rparr>" "''q''" "''A''" "''secret''"]
  by (simp add: demo_client_def demo_call_def admits_def empty_db_def has_key_def)

text \<open>\<open>EnqueueJob\<close> encrypts into the caller's envelope before it calls the storage. If that call
  fails and the caller enqueues the same envelope again, the payload is sealed twice, and the
  worker, which opens it once, runs the job on ciphertext.\<close>

theorem enqueue_job_retry_seals_twice:
  assumes seal: "\<And>k n p. unseal k n (cl_seal c k n p) = Some p"
    and key: "aes_key_ok (cl_encryptionKey c)" "ce_nonces ev 0 = Some nonce" "length nonce = nonceSize"
    and client: "cl_storage c = sqlite_client now rnd"
    and job: "JobID env \<noteq> ''''" "UniqueKey env = ''''" "Args env \<noteq> []" "\<not> IsEncrypted (Args env)"
      "\<not> has_key j_id (JobID env) (jobs d)"
  shows "\<exists>env1 env2 d2 r.
     Client_EnqueueJob c ev env (None, (d, [True])) = Some ((Inl ErrEngine, env1), (None, (d, [])))
   \<and> Client_EnqueueJob c ev env1 (None, (d, [])) = Some ((Inr (), env2), (None, (d2, [])))
   \<and> job_by_id (JobID env) d2 = Some r
   \<and> opened unseal (cl_encryptionKey c) (j_args r) = Some (Args env1)
   \<and> IsEncrypted (Args env1) \<and> Args env1 \<noteq> Args env"
proof -
  let ?k = "cl_encryptionKey c"
  let ?s = "\<lambda>p. EncryptionHeader @ nonce @ cl_seal c ?k nonce p"
  define env0 where "env0 = add_trace ev (if MaxAttempts env \<le> 0 then env\<lparr>MaxAttempts := 3\<rparr> else env)"
  have f0: "JobID env0 = JobID env" "Args env0 = Args env" "UniqueKey env0 = ''''" "0 < MaxAttempts env0"
    using job(2) by (auto simp: env0_def add_trace_def)
  define env1 where "env1 = env0\<lparr>Args := ?s (Args env)\<rparr>"
  define env2 where "env2 = (add_trace ev env1)\<lparr>Args := ?s (?s (Args env))\<rparr>"
  have f1: "JobID env1 = JobID env" "Args env1 = ?s (Args env)" "UniqueKey env1 = ''''" "0 < MaxAttempts env1"
    using f0 by (auto simp: env1_def)
  have f2: "JobID env2 = JobID env" "Args env2 = ?s (?s (Args env))" "UniqueKey env2 = ''''"
    using f1 by (auto simp: env2_def add_trace_def)
  have "encryptEnvelope c (Some nonce) env0 = Inr env1"
    using encrypt_run[OF key(1), of env0 nonce] f0(2) job(3) by (simp add: env1_def)
  moreover have "Sqlite_Enqueue now env1 (d, [True]) = Some (Inl ErrEngine, (d, []))"
    using f1(3) by (simp add: Sqlite_Enqueue_def Sqlite_acquireUniqueLock_def insertJob_store run_simps
        exec_def engine_def)
  ultimately have first: "Client_EnqueueJob c ev env (None, (d, [True])) = Some ((Inl ErrEngine, env1), (None, (d, [])))"
    using job(1) key(2) client
    by (simp add: Client_EnqueueJob_def env0_def[symmetric] Client_execute_def sqlite_client_def run_simps)
  have "Args (add_trace ev env1) = ?s (Args env)" by (simp add: add_trace_def f1(2))
  then have "encryptEnvelope c (Some nonce) (add_trace ev env1) = Inr env2"
    using encrypt_run[OF key(1), of "add_trace ev env1" nonce] by (simp add: env2_def EncryptionHeader_def)
  moreover have "Sqlite_Enqueue now env2 (d, []) = Some (Inr (), (store_job now env2 d, []))"
    using f2(3) by (rule Enqueue_plain_run)
  ultimately have second_call: "Client_EnqueueJob c ev env1 (None, (d, []))
      = Some ((Inr (), env2), (None, (store_job now env2 d, [])))"
    using job(1) f1(1,4) key(2) client
    by (simp add: Client_EnqueueJob_def Client_execute_def sqlite_client_def run_simps)
  have row: "job_by_id (JobID env) (store_job now env2 d) = Some (enqueued_row now env2)"
    using store_job_row[of env2 now d] job(5) t_find_None_key[of j_id "JobID env" "jobs d"]
    by (simp add: f2 job_by_id_def)
  have "j_args (enqueued_row now env2) = ?s (?s (Args env))"
    by (simp add: enqueued_row_def default_job_row_def f2)
  moreover note opened_sealed[of unseal "cl_seal c", OF seal key(1,3)]
  moreover from this(1) job(4) have "?s (Args env) \<noteq> Args env" by metis
  ultimately show ?thesis
    using first second_call row f1(2)
    by (intro exI[of _ env1] exI[of _ env2] exI[of _ "store_job now env2 d"] exI[of _ "enqueued_row now env2"]) simp
qed

theorem enqueue_job_retry_seals_twice_witness:
  "\<exists>env1 env2 d2 r.
     Client_EnqueueJob demo_client demo_call (NewJob ''x'' ''q'' ''A'' ''secret'') (None, (empty_db, [True]))
       = Some ((Inl ErrEngine, env1), (None, (empty_db, [])))
   \<and> Client_EnqueueJob demo_client demo_call env1 (None, (empty_db, [])) = Some ((Inr (), env2), (None, (d2, [])))
   \<and> job_by_id (generateJobID ''x'') d2 = Some r
   \<and> opened toy_unseal ''0123456789abcdef'' (j_args r) = Some (Args env1)
   \<and> IsEncrypted (Args env1) \<and> Args env1 \<noteq> ''secret''"
proof -
  have job: "JobID (NewJob ''x'' ''q'' ''A'' ''secret'') = generateJobID ''x''"
    "UniqueKey (NewJob ''x'' ''q'' ''A'' ''secret'') = ''''" "Args (NewJob ''x'' ''q'' ''A'' ''secret'') = ''secret''"
    by (simp_all add: NewJob_def zero_envelope_def)
  show ?thesis
    using enqueue_job_retry_seals_twice[of toy_unseal demo_client demo_call "''abcdefghijkl''" 0 "''''"
        "NewJob ''x'' ''q'' ''A'' ''secret''" empty_db]
    by (simp add: job demo_client_def demo_call_def toy_unseal_seal aes_key_ok_def nonceSize_def
        generateJobID_def hex_byte_def IsEncrypted_def EncryptionHeader_def empty_db_def has_key_def)
qed

section \<open>Interval jobs against the cron lock\<close>

lemma EnqueueIntervalJob_run:
  fixes d :: db and now t :: time
  defines "dl \<equiv> cron_locks_update (t_delete (\<lambda>l. snd (fst l) < now - hour)) d"
  assumes "w_store w = (d, [])"
  shows "\<exists>w'. Pool_EnqueueIntervalJob (sqlite_worker stack now rnd) job t w = Some ((), w')
    \<and> snd (w_store w') = [] \<and> cron_locked (ij_Name job, trunc_minute t) (fst (w_store w'))
    \<and> (cron_locked (ij_Name job, trunc_minute t) dl
        \<longrightarrow> jobs (fst (w_store w')) = jobs d \<and> w_delivered w' = w_delivered w)"
proof -
  have "cron_locked k (cron_locks_update (t_insert_ignore fst (k, now)) dl)" for k
    by (simp add: cron_locked_insert)
  moreover have "jobs dl = jobs d" by (simp add: dl_def)
  ultimately show ?thesis
    using assms(2)
    by (cases "cron_locked (ij_Name job, trunc_minute t) dl")
      (simp_all add: Pool_EnqueueIntervalJob_def sqlite_worker_def run_simps dl_def[symmetric] Let_def
        Pool_triggerEvent_def zero_envelope_def store_job_def)
qed

text \<open>An interval shorter than a minute does not run at its interval. Whatever blocks two runs of
  an interval job belong to, if they lie in the same minute, then after the first run the second
  finds the cron lock of that minute taken and enqueues nothing, on this worker or another.\<close>

theorem interval_blocks_share_minute:
  assumes "w_store w = (d, [])" "trunc_minute t1 = trunc_minute t2" "now2 - hour \<le> trunc_minute t2"
  shows "\<exists>w1 w2. Pool_EnqueueIntervalJob (sqlite_worker stack now1 rnd1) job t1 w = Some ((), w1)
    \<and> Pool_EnqueueIntervalJob (sqlite_worker stack now2 rnd2) job t2 w1 = Some ((), w2)
    \<and> jobs (fst (w_store w2)) = jobs (fst (w_store w1)) \<and> w_delivered w2 = w_delivered w1"
proof -
  obtain w1 where w1: "Pool_EnqueueIntervalJob (sqlite_worker stack now1 rnd1) job t1 w = Some ((), w1)"
    "snd (w_store w1) = []" "cron_locked (ij_Name job, trunc_minute t2) (fst (w_store w1))"
    using EnqueueIntervalJob_run[OF assms(1), of stack now1 rnd1 job t1] assms(2) by auto
  let ?d1 = "fst (w_store w1)"
  have "cron_locked (ij_Name job, trunc_minute t2)
      (cron_locks_update (t_delete (\<lambda>l. snd (fst l) < now2 - hour)) ?d1)"
    using w1(3) assms(3) by (force simp: has_key_def t_delete_def)
  moreover have "w_store w1 = (?d1, [])" using w1(2) by (cases "w_store w1") simp
  ultimately show ?thesis
    using EnqueueIntervalJob_run[of w1 ?d1 stack now2 rnd2 job t2] w1(1) by blast
qed

definition ten_seconds_job :: IntervalJob where
  "ten_seconds_job = \<lparr>ij_Payload = '''', ij_Interval = 10 * second, ij_Name = ''A'', ij_Queue = ''q''\<rparr>"

theorem interval_blocks_share_minute_witness:
  "fst (interval_loop (12 * second) [ten_seconds_job] (\<lambda>_. 0)) = [(ten_seconds_job, 10 * second)]
   \<and> fst (interval_loop (22 * second) [ten_seconds_job] ((\<lambda>_. 0)(''A'' := 1))) = [(ten_seconds_job, 20 * second)]
   \<and> (\<exists>w1 w2. Pool_EnqueueIntervalJob (sqlite_worker 1 (12 * second) '''') ten_seconds_job (10 * second) demo_world = Some ((), w1)
    \<and> Pool_EnqueueIntervalJob (sqlite_worker 1 (22 * second) '''') ten_seconds_job (20 * second) w1 = Some ((), w2)
    \<and> jobs (fst (w_store w2)) = jobs (fst (w_store w1)) \<and> w_delivered w2 = w_delivered w1)"
proof (intro conjI)
  show "\<exists>w1 w2. Pool_EnqueueIntervalJob (sqlite_worker 1 (12 * second) '''') ten_seconds_job (10 * second) demo_world = Some ((), w1)
    \<and> Pool_EnqueueIntervalJob (sqlite_worker 1 (22 * second) '''') ten_seconds_job (20 * second) w1 = Some ((), w2)
    \<and> jobs (fst (w_store w2)) = jobs (fst (w_store w1)) \<and> w_delivered w2 = w_delivered w1"
    by (rule interval_blocks_share_minute[of demo_world empty_db]) (simp_all add: demo_world_def trunc_minute_def)
qed (simp_all add: ten_seconds_job_def Let_def)

section \<open>Queue weights\<close>

fun search_orders :: "nat \<Rightarrow> string list \<Rightarrow> ('s, 'h) WorkerPool \<Rightarrow> string list list" where
  "search_orders 0 queues w = []"
| "search_orders (Suc n) queues w =
     (let (order, w') = Pool_buildSearchOrder queues w in order # search_orders n queues w')"

definition queue_weight :: "('s, 'h) WorkerPool \<Rightarrow> string \<Rightarrow> nat" where
  "queue_weight w q = (case map_of (wp_weights w) q of Some v \<Rightarrow> if v > 0 then nat v else 1 | None \<Rightarrow> 1)"

lemma queue_weight_pos: "0 < queue_weight w q"
  by (simp add: queue_weight_def split: option.split)

lemma firstQueues_setup:
  "wp_weights w \<noteq> [] \<Longrightarrow> wp_firstQueues (Pool_setupWeightedQueues queues w)
     = concat (map (\<lambda>q. replicate (queue_weight w q) q) queues)"
  by (simp add: Pool_setupWeightedQueues_def queue_weight_def)

lemma count_weighted:
  "distinct queues \<Longrightarrow> q \<in> set queues \<Longrightarrow>
     length (filter (\<lambda>x. x = q) (concat (map (\<lambda>q. replicate (queue_weight w q) q) queues))) = queue_weight w q"
proof (induction queues)
  case (Cons a queues)
  have none: "q \<notin> set queues \<Longrightarrow> filter (\<lambda>x. x = q) (concat (map (\<lambda>q. replicate (queue_weight w q) q) queues)) = []"
    by (auto simp: filter_empty_conv)
  from Cons none show ?case by (auto simp: filter_replicate)
qed simp

lemma search_orders_eq:
  assumes "unat (wp_fetchCounter w) + n \<le> 2 ^ 64" "0 < length (wp_firstQueues w)" "length (wp_firstQueues w) < 2 ^ 64"
  shows "search_orders n queues w = map (\<lambda>i.
      let primary = wp_firstQueues w ! ((unat (wp_fetchCounter w) + i) mod length (wp_firstQueues w))
      in primary # filter (\<lambda>q. q \<noteq> primary) queues) [0..<n]"
  using assms
proof (induction n arbitrary: w)
  case (Suc n)
  let ?c = "wp_fetchCounter w" and ?l = "length (wp_firstQueues w)"
  let ?w' = "w\<lparr>wp_fetchCounter := ?c + 1\<rparr>"
  let ?o = "\<lambda>k. let primary = wp_firstQueues w ! (k mod ?l) in primary # filter (\<lambda>q. q \<noteq> primary) queues"
  have idx: "unat (?c mod of_nat ?l) = unat ?c mod ?l"
    using Suc.prems(3) by (simp add: unat_mod unat_of_nat)
  show ?case
  proof (cases "n = 0")
    case True
    then show ?thesis by (simp add: Pool_buildSearchOrder_def Let_def idx)
  next
    case False
    then have "unat ?c + 1 < 2 ^ 64" using Suc.prems(1) by simp
    then have succ: "unat (?c + 1) = unat ?c + 1" by (simp add: unat_word_ariths(1))
    have "search_orders n queues ?w' = map (\<lambda>i. ?o (unat ?c + 1 + i)) [0..<n]"
      using Suc.IH[of ?w'] Suc.prems by (simp add: succ)
    also have "\<dots> = map (\<lambda>i. ?o (unat ?c + i)) (map Suc [0..<n])" by (simp add: comp_def)
    finally have rest: "search_orders n queues ?w' = map (\<lambda>i. ?o (unat ?c + i)) (map Suc [0..<n])" .
    have "search_orders (Suc n) queues w = ?o (unat ?c) # search_orders n queues ?w'"
      by (simp add: Pool_buildSearchOrder_def Let_def idx)
    also have "\<dots> = map (\<lambda>i. ?o (unat ?c + i)) (0 # map Suc [0..<n])" unfolding rest by simp
    also have "0 # map Suc [0..<n] = [0..<Suc n]" by (simp only: map_Suc_upt upt_conv_Cons[OF zero_less_Suc])
    finally show ?thesis .
  qed
qed simp

lemma length_filter_rotate: "length (filter P (rotate n xs)) = length (filter P xs)"
proof -
  have "length (filter P (drop k xs)) + length (filter P (take k xs)) = length (filter P xs)" for k
    by (metis add.commute append_take_drop_id filter_append length_append)
  then show ?thesis by (simp add: rotate_drop_take)
qed

lemma round_is_rotation:
  "map (\<lambda>i. xs ! ((c + i) mod length xs)) [0..<length xs] = rotate c xs"
  by (rule nth_equalityI) (simp_all add: nth_rotate add.commute)

text \<open>C13: queue weights are exact. Over any round of as many consecutive fetches as the weights add up
  to (short of the 64-bit counter wrapping), every queue is searched first as often as its weight
  says, a missing or non-positive weight counting as one; and every single fetch searches each
  queue exactly once, so no weight starves a queue.\<close>

theorem weighted_round_is_fair:
  assumes "distinct queues" "queues \<noteq> []" "wp_weights w \<noteq> []"
    and "w' = Pool_setupWeightedQueues queues w" "n = length (wp_firstQueues w')"
    and "unat (wp_fetchCounter w) + n \<le> 2 ^ 64" "n < 2 ^ 64"
  shows "(\<forall>q\<in>set queues. length (filter (\<lambda>order. hd order = q) (search_orders n queues w')) = queue_weight w q)
    \<and> list_all (\<lambda>order. mset order = mset queues) (search_orders n queues w')"
proof -
  let ?fq = "wp_firstQueues w'" and ?c = "unat (wp_fetchCounter w)"
  have fq: "?fq = concat (map (\<lambda>q. replicate (queue_weight w q) q) queues)"
    using firstQueues_setup[OF assms(3)] assms(4) by simp
  have cnt: "wp_fetchCounter w' = wp_fetchCounter w" by (simp add: assms(4) Pool_setupWeightedQueues_def)
  obtain a qs where "queues = a # qs" using assms(2) by (cases queues) auto
  then have pos: "0 < n" using queue_weight_pos[of w a] by (simp add: assms(5) fq)
  let ?p = "\<lambda>i. ?fq ! ((?c + i) mod n)"
  have orders: "search_orders n queues w' = map (\<lambda>i. ?p i # filter (\<lambda>q. q \<noteq> ?p i) queues) [0..<n]"
    using search_orders_eq[of w' n queues] assms(5-7) pos by (simp add: cnt Let_def)
  have "length (filter (\<lambda>order. hd order = q) (search_orders n queues w')) = queue_weight w q"
    if "q \<in> set queues" for q
  proof -
    have "filter (\<lambda>order. hd order = q) (search_orders n queues w')
        = map (\<lambda>i. ?p i # filter (\<lambda>q. q \<noteq> ?p i) queues) (filter (\<lambda>i. ?p i = q) [0..<n])"
      by (simp add: orders filter_map comp_def)
    then have "length (filter (\<lambda>order. hd order = q) (search_orders n queues w'))
        = length (filter (\<lambda>x. x = q) (map ?p [0..<n]))" by (simp add: filter_map comp_def)
    also have "\<dots> = length (filter (\<lambda>x. x = q) (rotate ?c ?fq))"
      using round_is_rotation[of ?fq ?c] assms(5) by simp
    also have "\<dots> = length (filter (\<lambda>x. x = q) ?fq)"
      by (rule length_filter_rotate)
    finally show ?thesis by (simp add: fq count_weighted[OF assms(1) that])
  qed
  moreover have "mset (?p i # filter (\<lambda>q. q \<noteq> ?p i) queues) = mset queues" if "i < n" for i
  proof -
    have "?p i \<in> set ?fq" using pos assms(5) by (intro nth_mem) simp
    then have "?p i \<in> set queues" by (auto simp: fq)
    with assms(1) have "set (?p i # filter (\<lambda>q. q \<noteq> ?p i) queues) = set queues" by auto
    moreover have "distinct (?p i # filter (\<lambda>q. q \<noteq> ?p i) queues)" using assms(1) by simp
    ultimately show ?thesis using assms(1) set_eq_iff_mset_eq_distinct by blast
  qed
  ultimately show ?thesis by (auto simp: orders list_all_iff)
qed

theorem weighted_round_is_fair_witness:
  "let w = NewWorkerPool ''w'' 1 [WithQueueWeights [(''critical'', 3)]] :: (conn, unit) WorkerPool;
       w' = Pool_setupWeightedQueues [''critical'', ''default''] w
   in length (wp_firstQueues w') = 4 \<and> queue_weight w ''critical'' = 3
     \<and> length (filter (\<lambda>order. hd order = ''critical'') (search_orders 4 [''critical'', ''default''] w')) = 3"
proof -
  define w :: "(conn, unit) WorkerPool" where "w = NewWorkerPool ''w'' 1 [WithQueueWeights [(''critical'', 3)]]"
  define w' where "w' = Pool_setupWeightedQueues [''critical'', ''default''] w"
  have w: "wp_weights w = [(''critical'', 3)]" "wp_fetchCounter w = 0"
    by (simp_all add: w_def NewWorkerPool_def WithQueueWeights_def)
  have qw: "queue_weight w ''critical'' = 3" "queue_weight w ''default'' = 1" by (simp_all add: queue_weight_def w)
  have len: "length (wp_firstQueues w') = 4" using firstQueues_setup[of w] by (simp add: w'_def w qw)
  from weighted_round_is_fair[of "[''critical'', ''default'']" w w' 4] w w'_def len qw
  have "length (filter (\<lambda>order. hd order = ''critical'') (search_orders 4 [''critical'', ''default''] w')) = 3"
    by simp
  with len qw show ?thesis by (simp add: Let_def w_def[symmetric] w'_def[symmetric])
qed

end
