(* ===== verification/PostgresJobs.thy ===== *)
theory PostgresJobs
  imports SqliteFlow
begin

text \<open>
  \<open>postgres.go\<close>: unique locks, enqueueing, dequeueing, the leader lease and archival. The
  methods work on the tables of \<open>postgresTables\<close>, which have the columns of the SQLite schema,
  so the database is the same record. What differs is the engine: \<open>CURRENT_TIMESTAMP\<close> keeps
  the full precision of the clock, a failed statement aborts the transaction it is part of,
  rows can be locked by other transactions, and \<open>job_dependencies\<close> has a foreign key that
  cascades. Instants are taken at the resolution of the columns.
\<close>

section \<open>The engine\<close>

text \<open>
  The executor \<open>q\<close> of \<open>acquireUniqueLock\<close>: the pool or a transaction. An error that the code
  drops on a transaction has still aborted it: the next call of the transaction, a statement
  or the \<open>COMMIT\<close>, is refused. The code returns at that refusal, so one more failure in the
  schedule is what the aborted state amounts to. A query that finds no row is not a failure.
\<close>

datatype sqlExecutor = OnDB | OnTx

definition tryX :: "sqlExecutor \<Rightarrow> ('s, 'a) eff \<Rightarrow> ('s, err + 'a) eff" where
  "tryX q m = (\<lambda>c. case m c of
       None \<Rightarrow> None
     | Some (r, (d, fs)) \<Rightarrow>
         Some (Inr r, (d, case r of
             Inl e \<Rightarrow> if q = OnTx \<and> e \<noteq> ErrNoRows then True # fs else fs
           | Inr x \<Rightarrow> fs)))"

text \<open>
  \<open>DELETE FROM runiq_jobs\<close>: the foreign key of \<open>runiq_job_dependencies\<close> is declared
  \<open>ON DELETE CASCADE\<close>, so the rows of the deleted children go too.
\<close>

definition pg_delete_jobs :: "(job_row \<Rightarrow> bool) \<Rightarrow> db \<Rightarrow> db" where
  "pg_delete_jobs P d =
     job_dependencies_update (t_delete (\<lambda>(c, p). \<exists>r\<in>set (jobs d). P r \<and> j_id r = c))
       (jobs_update (t_delete P) d)"

text \<open>
  \<open>LIKE\<close> of PostgreSQL heeds the case of letters, and a backslash takes the next character
  literally. (The patterns of the code end in a percent sign, never in a lone backslash.)
\<close>

fun pg_like :: "string \<Rightarrow> string \<Rightarrow> bool" where
  "pg_like [] s = (s = [])"
| "pg_like (p # ps) [] = (p = CHR ''%'' \<and> pg_like ps [])"
| "pg_like (p # ps) (c # s) =
     (if p = CHR ''%'' then pg_like ps (c # s) \<or> pg_like (p # ps) s
      else if p = CHR ''_'' then pg_like ps s
      else if p = CHR 0x5C then (case ps of [] \<Rightarrow> False | e # ps' \<Rightarrow> e = c \<and> pg_like ps' s)
      else p = c \<and> pg_like ps s)"

section \<open>Unique locks\<close>

definition Postgres_getLockExpires :: "time \<Rightarrow> JobEnvelope \<Rightarrow> time" where
  "Postgres_getLockExpires now env =
     (let ttl = UniqueTTL env;
          ttl = (if ttl \<le> 0 then 24 * hour else ttl)
      in now + ttl)"

definition Postgres_tryInsertLock :: "string \<Rightarrow> string \<Rightarrow> time \<Rightarrow> unit sql" where
  "Postgres_tryInsertLock lockKey jobID expiresAt =
     exec (unique_locks_update (t_insert_ignore l_key
       \<lparr>l_key = lockKey, l_job_id = jobID, l_expires_at = expiresAt\<rparr>))"

definition Postgres_handleLockCollision ::
  "sqlExecutor \<Rightarrow> time \<Rightarrow> JobEnvelope \<Rightarrow> string \<Rightarrow> string \<Rightarrow> time \<Rightarrow> time \<Rightarrow> unit sql" where
  "Postgres_handleLockCollision q now env lockKey existingJobID expiresAt existingExpiresAt =
     bindS (tryX q (query (\<lambda>d. has_key j_id existingJobID (jobs d)))) (\<lambda>r.
     let exists = (case r of Inr b \<Rightarrow> b | Inl e \<Rightarrow> False) in
     if now < existingExpiresAt \<and> exists
     then throw (ErrDuplicateJob lockKey existingJobID)
     else exec (unique_locks_update (t_upsert l_key
            \<lparr>l_key = lockKey, l_job_id = JobID env, l_expires_at = expiresAt\<rparr>
            (l_job_id_update (\<lambda>_. JobID env) \<circ> l_expires_at_update (\<lambda>_. expiresAt)))))"

definition Postgres_checkLockCollision ::
  "sqlExecutor \<Rightarrow> time \<Rightarrow> JobEnvelope \<Rightarrow> string \<Rightarrow> time \<Rightarrow> unit sql" where
  "Postgres_checkLockCollision q now env lockKey expiresAt =
     bindS (query_row (\<lambda>d. t_find (\<lambda>l. l_key l = lockKey) (unique_locks d))) (\<lambda>l.
     if l_job_id l = JobID env then ret ()
     else Postgres_handleLockCollision q now env lockKey (l_job_id l) expiresAt (l_expires_at l))"

definition Postgres_acquireUniqueLock :: "sqlExecutor \<Rightarrow> time \<Rightarrow> JobEnvelope \<Rightarrow> unit sql" where
  "Postgres_acquireUniqueLock q now env =
     (if UniqueKey env = '''' then ret ()
      else let lockKey = lock_key (Queue env) (UniqueKey env);
               expiresAt = Postgres_getLockExpires now env
           in thenS (Postgres_tryInsertLock lockKey (JobID env) expiresAt)
                (Postgres_checkLockCollision q now env lockKey expiresAt))"

section \<open>Enqueue\<close>

text \<open>A row of \<open>runiq_jobs\<close> with the defaults of \<open>postgresTables\<close>.\<close>

definition pg_default_job_row :: "time \<Rightarrow> string \<Rightarrow> string \<Rightarrow> string \<Rightarrow> bytes \<Rightarrow> job_row" where
  "pg_default_job_row now jobID queue name args =
     \<lparr>j_id = jobID, j_queue = queue, j_name = name, j_args = args, j_trace_id = '''',
      j_span_id = '''', j_status = Pending, j_attempts = 0, j_max_attempts = 3,
      j_error_message = '''', j_created_at = now, j_updated_at = now,
      j_locked_at = None, j_run_at = Some now, j_unique_key = '''', j_batch_id = '''',
      j_priority = 0, j_tags = ''''\<rparr>"

definition Postgres_insertJob :: "time \<Rightarrow> JobEnvelope \<Rightarrow> time \<Rightarrow> int \<Rightarrow> unit sql" where
  "Postgres_insertJob now env runAt maxAttempts =
     (let tagsStr = join_with CHR '','' (Tags env) in
      exec (jobs_update (t_upsert j_id
        ((pg_default_job_row now (JobID env) (Queue env) (Name env) (Args env))
           \<lparr>j_trace_id := TraceID (TraceCtx env), j_span_id := SpanID (TraceCtx env),
            j_max_attempts := maxAttempts, j_run_at := Some runAt,
            j_unique_key := UniqueKey env, j_priority := Priority env, j_tags := tagsStr\<rparr>)
        (\<lambda>r. r\<lparr>j_status := Pending, j_attempts := 0, j_max_attempts := maxAttempts,
               j_run_at := Some runAt, j_unique_key := UniqueKey env,
               j_priority := Priority env, j_tags := tagsStr, j_updated_at := now\<rparr>))))"

definition Postgres_Enqueue :: "time \<Rightarrow> JobEnvelope \<Rightarrow> unit sql" where
  "Postgres_Enqueue now env =
     (let runAt = (case RunAt env of Some t \<Rightarrow> t | None \<Rightarrow> now);
          maxAttempts = (if MaxAttempts env \<le> 0 then 3 else MaxAttempts env)
      in thenS (Postgres_acquireUniqueLock OnDB now env)
           (Postgres_insertJob now env runAt maxAttempts))"

section \<open>Dequeue\<close>

text \<open>
  \<open>locked\<close> says which job rows another transaction holds a row lock on: the \<open>FOR UPDATE SKIP
  LOCKED\<close> of \<open>tryLockJob\<close> passes over them. \<open>pipelined\<close> says whether the driver accepts a
  statement on a connection whose earlier query still has rows to be read: \<open>lockFirstMatch\<close>
  runs its \<open>UPDATE\<close> on the transaction inside the loop over the rows of the \<open>SELECT\<close>. A driver
  that does not refuses the statement.
\<close>

definition pg_due :: "time \<Rightarrow> job_row \<Rightarrow> bool" where
  "pg_due now r = (case j_run_at r of None \<Rightarrow> True | Some t \<Rightarrow> t \<le> now)"

definition Postgres_candidates :: "time \<Rightarrow> string \<Rightarrow> db \<Rightarrow> job_row list" where
  "Postgres_candidates now queueName d =
     take 100 (sort_key dequeue_key
       (filter (\<lambda>r. j_queue r = queueName \<and> j_status r = Pending \<and> pg_due now r) (jobs d)))"

definition Postgres_tryLockJob ::
  "bool \<Rightarrow> (string \<Rightarrow> bool) \<Rightarrow> time \<Rightarrow> string \<Rightarrow> JobEnvelope option sql" where
  "Postgres_tryLockJob pipelined locked now jobID =
     (if \<not> pipelined then throw ErrEngine
      else bindS (tryS (engine (\<lambda>d.
             let free = (\<lambda>r. j_id r = jobID \<and> j_status r = Pending \<and> \<not> locked jobID);
                 lock = (\<lambda>r. r\<lparr>j_status := Running, j_locked_at := Some now\<rparr>)
             in case t_find free (jobs d) of
                  None \<Rightarrow> (Inl ErrNoRows, d)
                | Some r \<Rightarrow> (Inr (Sqlite_scanJobFrom (lock r)), jobs_update (t_update free lock) d))))
           (\<lambda>row. case row of
              Inl e \<Rightarrow> if e = ErrNoRows then ret None else throw e
            | Inr env \<Rightarrow> ret (Some env)))"

fun Postgres_lockFirstMatch ::
  "bool \<Rightarrow> (string \<Rightarrow> bool) \<Rightarrow> time \<Rightarrow> job_row list \<Rightarrow> string list \<Rightarrow> JobEnvelope option sql" where
  "Postgres_lockFirstMatch pipelined locked now [] workerTags = ret None"
| "Postgres_lockFirstMatch pipelined locked now (r # rows) workerTags =
     (let env = Sqlite_scanJobFrom r in
      if matchTags (Tags env) workerTags
      then bindS (Postgres_tryLockJob pipelined locked now (JobID env)) (\<lambda>l.
           case l of
             Some e \<Rightarrow> ret (Some e)
           | None \<Rightarrow> Postgres_lockFirstMatch pipelined locked now rows workerTags)
      else Postgres_lockFirstMatch pipelined locked now rows workerTags)"

definition Postgres_dequeueTx ::
  "bool \<Rightarrow> (string \<Rightarrow> bool) \<Rightarrow> time \<Rightarrow> string \<Rightarrow> string list \<Rightarrow> JobEnvelope option sql" where
  "Postgres_dequeueTx pipelined locked now queueName workerTags =
     bindS (query (Postgres_candidates now queueName)) (\<lambda>rows.
     Postgres_lockFirstMatch pipelined locked now rows workerTags)"

definition Postgres_Dequeue ::
  "bool \<Rightarrow> (string \<Rightarrow> bool) \<Rightarrow> time \<Rightarrow> string \<Rightarrow> string list \<Rightarrow> JobEnvelope option sql" where
  "Postgres_Dequeue pipelined locked now queueName workerTags =
     with_tx_if (bindS (Postgres_dequeueTx pipelined locked now queueName workerTags)
       (\<lambda>env. ret (env, env \<noteq> None)))"

definition Postgres_PollScheduled :: "string \<Rightarrow> unit sql" where
  "Postgres_PollScheduled queue = ret ()"

section \<open>The leader lease\<close>

text \<open>One upsert: the number of rows it changed says whether the lease was taken.\<close>

definition Postgres_AcquireLeader :: "time \<Rightarrow> string \<Rightarrow> duration \<Rightarrow> bool sql" where
  "Postgres_AcquireLeader now clientID ttl =
     (let expiresAt = now + ttl;
          free = (\<lambda>d. case t_find (\<lambda>r. fst r = ''leader'') (leader_leases d) of
                   None \<Rightarrow> True
                 | Some (k, holder, expires) \<Rightarrow> holder = clientID \<or> expires \<le> now)
      in bindS (exec_count (\<lambda>d. if free d then 1 else 0)
           (\<lambda>d. if free d
                then leader_leases_update (t_upsert fst (''leader'', clientID, expiresAt)
                       (\<lambda>r. (fst r, clientID, expiresAt))) d
                else d)) (\<lambda>rows.
         ret (rows > 0)))"

definition Postgres_ReleaseLeader :: "string \<Rightarrow> unit sql" where
  "Postgres_ReleaseLeader clientID =
     exec (leader_leases_update (t_delete (\<lambda>r. fst r = ''leader'' \<and> fst (snd r) = clientID)))"

section \<open>Archival\<close>

text \<open>The \<open>INSERT ... SELECT ... ON CONFLICT (job_id) DO NOTHING\<close> passes over archived ids.\<close>

definition Postgres_ArchiveJobs :: "time \<Rightarrow> duration \<Rightarrow> int sql" where
  "Postgres_ArchiveJobs now age =
     (let cutoff = now - age in
      with_tx
        (thenS (exec (\<lambda>d. archived_jobs_update
                  (fold (t_insert_ignore j_id) (filter (archivable cutoff) (jobs d))) d))
           (exec_count (\<lambda>d. int (length (filter (archivable cutoff) (jobs d))))
              (pg_delete_jobs (archivable cutoff)))))"

end
