(* ===== verification/PostgresFlow.thy ===== *)
theory PostgresFlow
  imports PostgresJobs
begin

text \<open>
  \<open>postgres_workflow.go\<close>, \<open>postgres_batch.go\<close> and the job life cycle of
  \<open>postgres_admin.go\<close>, method by method. The random bytes \<open>rnd\<close> and the stack depth of the
  failure cascade are as in the SQLite backend.
\<close>

section \<open>Workflows\<close>

definition Postgres_execInsertJob :: "time \<Rightarrow> JobEnvelope \<Rightarrow> job_status \<Rightarrow> unit sql" where
  "Postgres_execInsertJob now job status =
     (let runAt = getRunAt now (RunAt job);
          maxAttempts = getMaxAttempts (MaxAttempts job)
      in exec (jobs_update (t_upsert j_id
           ((pg_default_job_row now (JobID job) (Queue job) (Name job) (Args job))
              \<lparr>j_trace_id := TraceID (TraceCtx job), j_span_id := SpanID (TraceCtx job),
               j_status := status, j_max_attempts := maxAttempts, j_run_at := Some runAt,
               j_unique_key := UniqueKey job\<rparr>)
           (\<lambda>r. r\<lparr>j_status := status, j_attempts := 0, j_max_attempts := maxAttempts,
                  j_run_at := Some runAt, j_unique_key := UniqueKey job,
                  j_updated_at := now\<rparr>))))"

text \<open>The foreign key: the child must be a job.\<close>

definition Postgres_insertJobDependencies :: "JobEnvelope \<Rightarrow> unit sql" where
  "Postgres_insertJobDependencies job =
     forS (\<lambda>parentID. exec_unique (\<lambda>d. has_key j_id (JobID job) (jobs d))
              (job_dependencies_update (t_insert_ignore (\<lambda>q. q) (JobID job, parentID))))
       (Dependencies job)"

definition Postgres_insertWorkflowJob :: "time \<Rightarrow> JobEnvelope \<Rightarrow> unit sql" where
  "Postgres_insertWorkflowJob now job =
     thenS (Postgres_acquireUniqueLock OnTx now job)
    (let status = (if length (Dependencies job) > 0 then Blocked else Pending) in
     thenS (Postgres_execInsertJob now job status)
       (Postgres_insertJobDependencies job))"

definition Postgres_insertWorkflowJobs :: "time \<Rightarrow> JobEnvelope list \<Rightarrow> unit sql" where
  "Postgres_insertWorkflowJobs now js = forS (Postgres_insertWorkflowJob now) js"

definition Postgres_EnqueueWorkflow :: "time \<Rightarrow> JobEnvelope list \<Rightarrow> unit sql" where
  "Postgres_EnqueueWorkflow now js =
     (if length js = 0 then ret () else with_tx (Postgres_insertWorkflowJobs now js))"

definition Postgres_queryChildJobIDs :: "string \<Rightarrow> string list sql" where
  "Postgres_queryChildJobIDs parentJobID =
     query (\<lambda>d. map fst (filter (\<lambda>(c, p). p = parentJobID) (job_dependencies d)))"

definition Postgres_checkBlockedChildren :: "time \<Rightarrow> string list \<Rightarrow> unit sql" where
  "Postgres_checkBlockedChildren now childIDs =
     forS (\<lambda>cid.
        bindS (query (\<lambda>d. length (filter (\<lambda>(c, p). c = cid) (job_dependencies d)))) (\<lambda>count.
        if count = 0
        then exec (jobs_update (t_update (\<lambda>r. j_id r = cid)
               (\<lambda>r. r\<lparr>j_status := Pending, j_updated_at := now\<rparr>)))
        else ret ()))
       childIDs"

definition Postgres_resolveDependencies :: "time \<Rightarrow> string \<Rightarrow> unit sql" where
  "Postgres_resolveDependencies now parentJobID =
     bindS (Postgres_queryChildJobIDs parentJobID) (\<lambda>childIDs.
     thenS (exec (job_dependencies_update (t_delete (\<lambda>(c, p). p = parentJobID))))
       (Postgres_checkBlockedChildren now childIDs))"

section \<open>Batches\<close>

definition Postgres_CreateBatch ::
  "time \<Rightarrow> string \<Rightarrow> JobEnvelope \<Rightarrow> time option \<Rightarrow> unit sql" where
  "Postgres_CreateBatch now batchID callback expiresAt =
     exec_unique (\<lambda>d. \<not> has_key b_id batchID (batches d))
       (batches_update (\<lambda>t. t @
          [\<lparr>b_id = batchID, b_callback_queue = Queue callback, b_callback_name = Name callback,
            b_callback_args = Args callback, b_total_jobs = 0, b_pending_jobs = 0,
            b_status = BatchOpen, b_expires_at = expiresAt, b_created_at = now\<rparr>]))"

definition Postgres_updateBatchCount :: "string \<Rightarrow> unit sql" where
  "Postgres_updateBatchCount batchID =
     exec (batches_update (t_update (\<lambda>b. b_id b = batchID)
       (\<lambda>b. b\<lparr>b_total_jobs := b_total_jobs b + 1, b_pending_jobs := b_pending_jobs b + 1\<rparr>)))"

definition Postgres_insertBatchJob :: "time \<Rightarrow> string \<Rightarrow> JobEnvelope \<Rightarrow> unit sql" where
  "Postgres_insertBatchJob now batchID env =
     (let runAt = (case RunAt env of Some t \<Rightarrow> t | None \<Rightarrow> now);
          maxAttempts = (if MaxAttempts env \<le> 0 then 3 else MaxAttempts env)
      in exec_unique (\<lambda>d. \<not> has_key j_id (JobID env) (jobs d))
           (jobs_update (\<lambda>t. t @
              [(pg_default_job_row now (JobID env) (Queue env) (Name env) (Args env))
                 \<lparr>j_trace_id := TraceID (TraceCtx env), j_span_id := SpanID (TraceCtx env),
                  j_max_attempts := maxAttempts, j_run_at := Some runAt,
                  j_unique_key := UniqueKey env, j_batch_id := batchID\<rparr>])))"

definition Postgres_EnqueueInBatch :: "time \<Rightarrow> string \<Rightarrow> JobEnvelope \<Rightarrow> unit sql" where
  "Postgres_EnqueueInBatch now batchID env =
     with_tx
       (thenS (Postgres_updateBatchCount batchID)
       (thenS (Postgres_acquireUniqueLock OnTx now env)
          (Postgres_insertBatchJob now batchID env)))"

text \<open>Here a batch that does not exist is an error (in SQLite it is not expired).\<close>

definition Postgres_checkBatchExpired :: "time \<Rightarrow> string \<Rightarrow> bool sql" where
  "Postgres_checkBatchExpired now batchID =
     bindS (query_row (\<lambda>d. map_option b_expires_at
              (t_find (\<lambda>b. b_id b = batchID) (batches d)))) (\<lambda>expiresAt.
     case expiresAt of
       None \<Rightarrow> ret False
     | Some t \<Rightarrow> if t < now then thenS (set_batch_status batchID BatchFailed) (ret True)
                 else ret False)"

definition Postgres_sealBatch :: "string \<Rightarrow> (int \<times> string \<times> string \<times> bytes) sql" where
  "Postgres_sealBatch batchID =
     update_returning
       (\<lambda>d. map_option (\<lambda>b. (b_pending_jobs b, b_callback_queue b, b_callback_name b, b_callback_args b))
              (t_find (\<lambda>b. b_id b = batchID) (batches d)))
       (batches_update (t_update (\<lambda>b. b_id b = batchID) (\<lambda>b. b\<lparr>b_status := BatchSealed\<rparr>)))"

definition Postgres_enqueueCallback :: "time \<Rightarrow> bytes \<Rightarrow> string \<Rightarrow> string \<Rightarrow> bytes \<Rightarrow> unit sql" where
  "Postgres_enqueueCallback now rnd queue name args =
     (let callbackJobID = generateJobID rnd in
      exec_unique (\<lambda>d. \<not> has_key j_id callbackJobID (jobs d))
        (jobs_update (\<lambda>t. t @ [pg_default_job_row now callbackJobID queue name args])))"

definition Postgres_completeBatchAndEnqueue ::
  "time \<Rightarrow> bytes \<Rightarrow> string \<Rightarrow> string \<Rightarrow> string \<Rightarrow> bytes \<Rightarrow> unit sql" where
  "Postgres_completeBatchAndEnqueue now rnd batchID cq cn ca =
     thenS (set_batch_status batchID BatchCompleted)
       (let callbackJobID = generateJobID rnd in
        exec_unique (\<lambda>d. \<not> has_key j_id callbackJobID (jobs d))
          (jobs_update (\<lambda>t. t @ [pg_default_job_row now callbackJobID cq cn ca])))"

definition Postgres_processSubmit :: "time \<Rightarrow> bytes \<Rightarrow> string \<Rightarrow> unit sql" where
  "Postgres_processSubmit now rnd batchID =
     bindS (Postgres_checkBatchExpired now batchID) (\<lambda>expired.
     if expired then ret ()
     else bindS (Postgres_sealBatch batchID) (\<lambda>(pending, cq, cn, ca).
          if pending = 0 then Postgres_completeBatchAndEnqueue now rnd batchID cq cn ca
          else ret ()))"

definition Postgres_SubmitBatch :: "time \<Rightarrow> bytes \<Rightarrow> string \<Rightarrow> unit sql" where
  "Postgres_SubmitBatch now rnd batchID = with_tx (Postgres_processSubmit now rnd batchID)"

section \<open>Acknowledging a job\<close>

definition Postgres_deleteUniqueLock :: "string \<Rightarrow> string \<Rightarrow> unit sql" where
  "Postgres_deleteUniqueLock queueName uniqueKey =
     (if uniqueKey = '''' then ret ()
      else exec (unique_locks_update (t_delete (\<lambda>l. l_key l = lock_key queueName uniqueKey))))"

text \<open>The dropped error of marking an expired batch failed still aborts the transaction.\<close>

definition Postgres_updateBatchPending ::
  "time \<Rightarrow> string \<Rightarrow> (int \<times> batch_status \<times> string \<times> string \<times> bytes) sql" where
  "Postgres_updateBatchPending now batchID =
     bindS (update_returning
       (\<lambda>d. t_find (\<lambda>b. b_id b = batchID) (batches d))
       (batches_update (t_update (\<lambda>b. b_id b = batchID)
          (\<lambda>b. b\<lparr>b_pending_jobs := b_pending_jobs b - 1\<rparr>)))) (\<lambda>b.
     let res = (\<lambda>status. (b_pending_jobs b, status, b_callback_queue b, b_callback_name b, b_callback_args b))
     in case b_expires_at b of
       Some t \<Rightarrow>
         if t < now
         then bindS (tryX OnTx (set_batch_status batchID BatchFailed)) (\<lambda>_. ret (res BatchFailed))
         else ret (res (b_status b))
     | None \<Rightarrow> ret (res (b_status b)))"

definition Postgres_markBatchCompleted :: "string \<Rightarrow> unit sql" where
  "Postgres_markBatchCompleted batchID =
     exec (batches_update (t_update (\<lambda>b. b_id b = batchID) (\<lambda>b. b\<lparr>b_status := BatchCompleted\<rparr>)))"

definition Postgres_handleBatchAck :: "time \<Rightarrow> bytes \<Rightarrow> string \<Rightarrow> unit sql" where
  "Postgres_handleBatchAck now rnd batchID =
     bindS (Postgres_updateBatchPending now batchID) (\<lambda>(pending, status, cq, cn, ca).
     if status \<noteq> BatchSealed \<or> pending \<noteq> 0 then ret ()
     else thenS (Postgres_markBatchCompleted batchID) (Postgres_enqueueCallback now rnd cq cn ca))"

definition Postgres_finishAck :: "time \<Rightarrow> bytes \<Rightarrow> string \<Rightarrow> unit sql" where
  "Postgres_finishAck now rnd batchID =
     (if batchID \<noteq> '''' then Postgres_handleBatchAck now rnd batchID else ret ())"

definition Postgres_performAck ::
  "time \<Rightarrow> bytes \<Rightarrow> string \<Rightarrow> string \<Rightarrow> string \<Rightarrow> string \<Rightarrow> unit sql" where
  "Postgres_performAck now rnd jobID queueName uniqueKey batchID =
     thenS (exec (jobs_update (t_update (\<lambda>r. j_id r = jobID)
              (\<lambda>r. r\<lparr>j_status := Processed, j_locked_at := None, j_updated_at := now\<rparr>))))
    (thenS (Postgres_deleteUniqueLock queueName uniqueKey)
    (thenS (Postgres_resolveDependencies now jobID)
       (Postgres_finishAck now rnd batchID)))"

text \<open>Every error of reading the row is dropped, not only that there is none.\<close>

definition Postgres_Ack :: "time \<Rightarrow> bytes \<Rightarrow> string \<Rightarrow> unit sql" where
  "Postgres_Ack now rnd jobID =
     bindS (tryX OnDB (query_row (\<lambda>d. map_option (\<lambda>r. (j_unique_key r, j_queue r, j_batch_id r))
                                  (job_by_id jobID d)))) (\<lambda>row.
     let (uniqueKey, queueName, batchID) = (case row of Inr kqb \<Rightarrow> kqb | Inl e \<Rightarrow> ('''', '''', '''')) in
     with_tx (Postgres_performAck now rnd jobID queueName uniqueKey batchID))"

section \<open>Failing a job\<close>

definition Postgres_transitionToDead ::
  "(string \<Rightarrow> unit sql) \<Rightarrow> time \<Rightarrow> string \<Rightarrow> string \<Rightarrow> string \<Rightarrow> string \<Rightarrow> string \<Rightarrow> unit sql" where
  "Postgres_transitionToDead casc now jobID errMsg uniqueKey queueName batchID =
     thenS (exec (jobs_update (t_update (\<lambda>r. j_id r = jobID)
              (\<lambda>r. r\<lparr>j_status := Dead, j_error_message := errMsg, j_attempts := j_attempts r + 1,
                     j_locked_at := None, j_updated_at := now\<rparr>))))
    (thenS (Postgres_deleteUniqueLock queueName uniqueKey)
    (thenS (casc jobID)
       (if batchID \<noteq> '''' then set_batch_status batchID BatchFailed else ret ())))"

definition Postgres_failChildren ::
  "(string \<Rightarrow> unit sql) \<Rightarrow> time \<Rightarrow> string \<Rightarrow> string list \<Rightarrow> unit sql" where
  "Postgres_failChildren casc now parentID childIDs =
     forS (\<lambda>cid.
       bindS (tryX OnTx (query_row (\<lambda>d. map_option (\<lambda>r. (j_unique_key r, j_queue r, j_batch_id r))
                                    (job_by_id cid d)))) (\<lambda>row.
       let errMsg = ''Dependency '' @ parentID @ '' failed'' in
       thenS (case row of
           Inl e \<Rightarrow> if e \<noteq> ErrNoRows then throw e
                    else Postgres_transitionToDead casc now cid errMsg '''' '''' ''''
         | Inr (uniqueKey, queueName, batchID) \<Rightarrow>
             Postgres_transitionToDead casc now cid errMsg uniqueKey queueName batchID)
         (exec (job_dependencies_update (t_delete (\<lambda>(c, p). c = cid))))))
     childIDs"

primrec Postgres_cascadeDependencyFailure :: "nat \<Rightarrow> time \<Rightarrow> string \<Rightarrow> unit sql" where
  "Postgres_cascadeDependencyFailure 0 now failedJobID = crash"
| "Postgres_cascadeDependencyFailure (Suc n) now failedJobID =
     bindS (Postgres_queryChildJobIDs failedJobID) (\<lambda>childIDs.
     Postgres_failChildren (Postgres_cascadeDependencyFailure n now) now failedJobID childIDs)"

definition Postgres_performFail ::
  "nat \<Rightarrow> time \<Rightarrow> string \<Rightarrow> string \<Rightarrow> int \<Rightarrow> int \<Rightarrow> string \<Rightarrow> string \<Rightarrow> string \<Rightarrow> unit sql" where
  "Postgres_performFail stack now jobID errMsg attempts maxAttempts uniqueKey queueName batchID =
     (let limit = (if maxAttempts \<le> 0 then 3 else maxAttempts) in
      if attempts + 1 < limit
      then let nextRun = now + ComputeBackoffDelay attempts now in
           exec (jobs_update (t_update (\<lambda>r. j_id r = jobID)
             (\<lambda>r. r\<lparr>j_status := Pending, j_attempts := j_attempts r + 1, j_run_at := Some nextRun,
                    j_error_message := errMsg, j_locked_at := None, j_updated_at := now\<rparr>)))
      else Postgres_transitionToDead (Postgres_cascadeDependencyFailure stack now) now jobID errMsg
             uniqueKey queueName batchID)"

definition Postgres_Fail :: "nat \<Rightarrow> time \<Rightarrow> string \<Rightarrow> string \<Rightarrow> unit sql" where
  "Postgres_Fail stack now jobID runErr =
     bindS (query_row (\<lambda>d. map_option
              (\<lambda>r. (j_attempts r, j_max_attempts r, j_unique_key r, j_queue r, j_batch_id r))
              (job_by_id jobID d))) (\<lambda>(attempts, maxAttempts, uniqueKey, queueName, batchID).
     with_tx (Postgres_performFail stack now jobID runErr attempts maxAttempts uniqueKey queueName batchID))"

section \<open>Retrying, cancelling and clearing\<close>

definition pg_reset_row :: "time \<Rightarrow> job_row \<Rightarrow> job_row" where
  "pg_reset_row now r = r\<lparr>j_status := Pending, j_attempts := 0, j_run_at := Some now,
     j_error_message := ''''\<rparr>"

definition Postgres_Retry :: "time \<Rightarrow> string \<Rightarrow> unit sql" where
  "Postgres_Retry now jobID = exec (jobs_update (t_update (\<lambda>r. j_id r = jobID) (pg_reset_row now)))"

definition Postgres_Cancel :: "nat \<Rightarrow> time \<Rightarrow> string \<Rightarrow> unit sql" where
  "Postgres_Cancel stack now jobID =
     bindS (tryX OnDB (query_row (\<lambda>d. map_option (\<lambda>r. (j_unique_key r, j_queue r)) (job_by_id jobID d)))) (\<lambda>row.
     let (uniqueKey, queueName) = (case row of Inr kq \<Rightarrow> kq | Inl e \<Rightarrow> ('''', '''')) in
     with_tx
       (thenS (exec (pg_delete_jobs (\<lambda>r. j_id r = jobID)))
       (thenS (Postgres_deleteUniqueLock queueName uniqueKey)
          (Postgres_cascadeDependencyFailure stack now jobID))))"

definition Postgres_ClearQueue :: "string \<Rightarrow> unit sql" where
  "Postgres_ClearQueue queue =
     with_tx
       (thenS (exec (pg_delete_jobs (\<lambda>r. j_queue r = queue)))
          (exec (unique_locks_update (t_delete (\<lambda>l. pg_like (queue @ '':%'') (l_key l))))))"

definition Postgres_RetryAllFailed :: "time \<Rightarrow> unit sql" where
  "Postgres_RetryAllFailed now =
     exec (jobs_update (t_update (\<lambda>r. j_status r = Dead \<or> j_status r = Failed) (pg_reset_row now)))"

definition Postgres_PurgeAllFailed :: "unit sql" where
  "Postgres_PurgeAllFailed =
     exec (pg_delete_jobs (\<lambda>r. j_status r = Dead \<or> j_status r = Failed))"

definition Postgres_PurgeExpiredDLQ :: "time \<Rightarrow> duration \<Rightarrow> unit sql" where
  "Postgres_PurgeExpiredDLQ now ttl =
     (let cutoff = now - ttl in
      exec (pg_delete_jobs (\<lambda>r. j_status r = Dead \<and> j_updated_at r < cutoff)))"

definition Postgres_FailExpiredBatches :: "time \<Rightarrow> unit sql" where
  "Postgres_FailExpiredBatches now =
     exec (batches_update (t_update
       (\<lambda>b. (b_status b = BatchOpen \<or> b_status b = BatchSealed)
            \<and> (case b_expires_at b of None \<Rightarrow> False | Some t \<Rightarrow> t < now))
       (\<lambda>b. b\<lparr>b_status := BatchFailed\<rparr>)))"

end
