(* ===== verification/PostgresAdmin.thy ===== *)
theory PostgresAdmin
  imports PostgresFlow SqliteAdmin
begin

text \<open>
  The rest of the PostgreSQL backend: statistics, paused queues and cron listings
  (\<open>postgres_admin.go\<close>), worker processes, cron locks, rate limits and postponing
  (\<open>postgres_process.go\<close>), cron schedules (\<open>postgres_cron.go\<close>), job search and the bulk
  operations (\<open>postgres_search.go\<close>). How an instant prints depends on the time zone of the
  session, which the driver gives to the \<open>time.Time\<close> it returns: \<open>fmt\<close> is its RFC 3339 form.
\<close>

section \<open>Statistics\<close>

definition Postgres_getOrCreateQueueStats :: "queue_map \<Rightarrow> string \<Rightarrow> QueueStats" where
  "Postgres_getOrCreateQueueStats queueMap qName =
     (case map_of queueMap qName of Some qs \<Rightarrow> qs | None \<Rightarrow> zero_QueueStats qName)"

definition pg_update_queue_stats ::
  "(QueueStats \<Rightarrow> QueueStats) \<Rightarrow> string \<Rightarrow> queue_map \<Rightarrow> queue_map" where
  "pg_update_queue_stats f qName queueMap =
     AList.update qName (f (Postgres_getOrCreateQueueStats queueMap qName)) queueMap"

definition Postgres_accumulateStats ::
  "Stats \<times> queue_map \<Rightarrow> (string \<times> job_status \<times> int) \<Rightarrow> Stats \<times> queue_map" where
  "Postgres_accumulateStats acc row =
     (let (stats, queueMap) = acc; (qName, status, count) = row in
      case status of
        Pending \<Rightarrow> (stats\<lparr>st_Pending := st_Pending stats + count\<rparr>,
          pg_update_queue_stats (\<lambda>q. q\<lparr>qs_Pending := qs_Pending q + count\<rparr>) qName queueMap)
      | Running \<Rightarrow> (stats\<lparr>st_Running := st_Running stats + count\<rparr>,
          pg_update_queue_stats (\<lambda>q. q\<lparr>qs_Running := qs_Running q + count\<rparr>) qName queueMap)
      | Failed \<Rightarrow> (stats\<lparr>st_Failed := st_Failed stats + count\<rparr>,
          pg_update_queue_stats (\<lambda>q. q\<lparr>qs_Failed := qs_Failed q + count\<rparr>) qName queueMap)
      | Dead \<Rightarrow> (stats\<lparr>st_Failed := st_Failed stats + count\<rparr>,
          pg_update_queue_stats (\<lambda>q. q\<lparr>qs_Failed := qs_Failed q + count\<rparr>) qName queueMap)
      | Processed \<Rightarrow> (stats\<lparr>st_Processed := st_Processed stats + count\<rparr>,
          pg_update_queue_stats (\<lambda>q. q\<lparr>qs_Processed := qs_Processed q + count\<rparr>) qName queueMap)
      | Blocked \<Rightarrow> (stats, pg_update_queue_stats (\<lambda>q. q) qName queueMap))"

definition Postgres_scanQueueStatsRows ::
  "(string \<times> job_status \<times> int) list \<Rightarrow> Stats \<Rightarrow> Stats \<times> queue_map" where
  "Postgres_scanQueueStatsRows rows stats = foldl Postgres_accumulateStats (stats, []) rows"

definition Postgres_fetchQueueStats :: "Stats \<Rightarrow> (Stats \<times> queue_map) sql" where
  "Postgres_fetchQueueStats stats =
     bindS (query (\<lambda>d. group_counts (jobs d))) (\<lambda>rows. ret (Postgres_scanQueueStatsRows rows stats))"

definition Postgres_applyPausedQueues :: "queue_map \<Rightarrow> queue_map sql" where
  "Postgres_applyPausedQueues queueMap =
     bindS (tryX OnDB (query paused_queues)) (\<lambda>rows.
     case rows of
       Inl e \<Rightarrow> ret queueMap
     | Inr qs \<Rightarrow> ret (fold (pg_update_queue_stats (\<lambda>q. q\<lparr>qs_Paused := True\<rparr>)) qs queueMap))"

definition Postgres_scanOneJobDetail :: "(time \<Rightarrow> string) \<Rightarrow> job_row \<Rightarrow> JobDetail" where
  "Postgres_scanOneJobDetail fmt r = \<lparr>jd_JobID = j_id r, jd_Queue = j_queue r, jd_Name = j_name r,
     jd_Status = status_text (j_status r), jd_TraceID = j_trace_id r,
     jd_ErrorMessage = j_error_message r, jd_CreatedAt = fmt (j_created_at r)\<rparr>"

definition Postgres_scanRecentJobsRows :: "(time \<Rightarrow> string) \<Rightarrow> job_row list \<Rightarrow> Stats \<Rightarrow> Stats" where
  "Postgres_scanRecentJobsRows fmt rows stats =
     fold (\<lambda>r stats. stats\<lparr>st_Jobs := st_Jobs stats @ [Postgres_scanOneJobDetail fmt r]\<rparr>) rows stats"

definition Postgres_fetchRecentJobs :: "(time \<Rightarrow> string) \<Rightarrow> Stats \<Rightarrow> Stats sql" where
  "Postgres_fetchRecentJobs fmt stats =
     bindS (query (\<lambda>d. take 100 (newest_first (jobs d)))) (\<lambda>rows.
     ret (Postgres_scanRecentJobsRows fmt rows stats))"

definition Postgres_loadStaticCrons :: "(string \<times> CronJobDetail) list \<Rightarrow> (string \<times> CronJobDetail) list sql" where
  "Postgres_loadStaticCrons m =
     bindS (tryX OnDB (query cron_jobs)) (\<lambda>rows.
     case rows of
       Inl e \<Rightarrow> ret m
     | Inr cs \<Rightarrow> ret (fold (\<lambda>c. AList.update (c_name c)
         \<lparr>cd_Name = c_name c, cd_Expression = c_expression c, cd_Queue = c_queue c,
          cd_Payload = c_payload c, cd_Timezone = c_timezone c, cd_Source = ''static'',
          cd_Paused = False\<rparr>) cs m))"

definition Postgres_loadDynamicCrons :: "(string \<times> CronJobDetail) list \<Rightarrow> (string \<times> CronJobDetail) list sql" where
  "Postgres_loadDynamicCrons m =
     bindS (tryX OnDB (query cron_schedules)) (\<lambda>rows.
     case rows of
       Inl e \<Rightarrow> ret m
     | Inr cs \<Rightarrow> ret (fold (\<lambda>c. AList.update (s_name c)
         \<lparr>cd_Name = s_name c, cd_Expression = s_spec c, cd_Queue = s_queue c,
          cd_Payload = s_payload c, cd_Timezone = s_timezone c, cd_Source = ''dynamic'',
          cd_Paused = (s_paused c \<noteq> 0)\<rparr>) cs m))"

definition Postgres_fetchCronJobs :: "Stats \<Rightarrow> Stats sql" where
  "Postgres_fetchCronJobs stats =
     bindS (Postgres_loadStaticCrons []) (\<lambda>m.
     bindS (Postgres_loadDynamicCrons m) (\<lambda>m.
     ret (stats\<lparr>st_CronJobs := sortCronJobs m\<rparr>)))"

section \<open>Worker processes\<close>

definition Postgres_RegisterProcess :: "ProcessInfo \<Rightarrow> unit sql" where
  "Postgres_RegisterProcess info =
     (let queuesJSON = json_strings (pi_Queues info) in
      exec (processes_update (t_upsert p_id
        \<lparr>p_id = pi_ProcessID info, p_concurrency = pi_Concurrency info, p_queues = queuesJSON,
         p_heartbeat_at = pi_HeartbeatAt info, p_min_concurrency = pi_MinConcurrency info,
         p_max_concurrency = pi_MaxConcurrency info\<rparr>
        (\<lambda>p. p\<lparr>p_concurrency := pi_Concurrency info, p_queues := queuesJSON,
               p_heartbeat_at := pi_HeartbeatAt info, p_min_concurrency := pi_MinConcurrency info,
               p_max_concurrency := pi_MaxConcurrency info\<rparr>))))"

definition Postgres_HeartbeatProcess :: "time \<Rightarrow> string \<Rightarrow> unit sql" where
  "Postgres_HeartbeatProcess now processID =
     exec (processes_update (t_update (\<lambda>p. p_id p = processID) (\<lambda>p. p\<lparr>p_heartbeat_at := now\<rparr>)))"

definition Postgres_scanPgProcesses :: "process_row list \<Rightarrow> ProcessInfo list" where
  "Postgres_scanPgProcesses rows =
     map (\<lambda>p. \<lparr>pi_HeartbeatAt = p_heartbeat_at p, pi_Queues = un_json_strings (p_queues p),
               pi_ProcessID = p_id p, pi_Concurrency = p_concurrency p,
               pi_MinConcurrency = p_min_concurrency p, pi_MaxConcurrency = p_max_concurrency p,
               pi_IsLeader = False\<rparr>) rows"

definition Postgres_markLeader :: "time \<Rightarrow> ProcessInfo list \<Rightarrow> ProcessInfo list sql" where
  "Postgres_markLeader now list =
     bindS (tryX OnDB (query_row (\<lambda>d. map_option snd
              (t_find (\<lambda>r. fst r = ''leader'') (leader_leases d))))) (\<lambda>row.
     case row of
       Inl e \<Rightarrow> if e \<noteq> ErrNoRows then throw e else ret list
     | Inr (leader, expires) \<Rightarrow>
         if expires < now then ret list
         else ret (map (\<lambda>p. if pi_ProcessID p = leader then p\<lparr>pi_IsLeader := True\<rparr> else p) list))"

definition Postgres_GetActiveProcesses :: "time \<Rightarrow> ProcessInfo list sql" where
  "Postgres_GetActiveProcesses now =
     (let dead = now + (- 15) * second in
      thenS (ignoreS (exec (processes_update (t_delete (\<lambda>p. p_heartbeat_at p < dead)))))
     (bindS (query (\<lambda>d. sort_key (\<lambda>p. - p_heartbeat_at p) (processes d))) (\<lambda>rows.
      Postgres_markLeader now (Postgres_scanPgProcesses rows))))"

definition Postgres_loadActiveProcesses :: "time \<Rightarrow> Stats \<Rightarrow> Stats sql" where
  "Postgres_loadActiveProcesses now stats =
     bindS (tryX OnDB (Postgres_GetActiveProcesses now)) (\<lambda>r.
     case r of Inr ps \<Rightarrow> ret (stats\<lparr>st_Processes := ps\<rparr>) | Inl e \<Rightarrow> ret stats)"

definition Postgres_GetStats :: "(time \<Rightarrow> string) \<Rightarrow> time \<Rightarrow> Stats sql" where
  "Postgres_GetStats fmt now =
     bindS (Postgres_fetchQueueStats zero_Stats) (\<lambda>(stats, queueMap).
     bindS (Postgres_applyPausedQueues queueMap) (\<lambda>queueMap.
     bindS (Postgres_fetchRecentJobs fmt (stats\<lparr>st_Queues := map snd queueMap\<rparr>)) (\<lambda>stats.
     bindS (Postgres_fetchCronJobs stats) (\<lambda>stats.
     Postgres_loadActiveProcesses now stats))))"

section \<open>Paused queues and cron tables\<close>

definition Postgres_IsQueuePaused :: "string \<Rightarrow> bool sql" where
  "Postgres_IsQueuePaused queue = query (\<lambda>d. has_key (\<lambda>q. q) queue (paused_queues d))"

definition Postgres_PauseQueue :: "string \<Rightarrow> unit sql" where
  "Postgres_PauseQueue queue = exec (paused_queues_update (t_insert_ignore (\<lambda>q. q) queue))"

definition Postgres_ResumeQueue :: "string \<Rightarrow> unit sql" where
  "Postgres_ResumeQueue queue = exec (paused_queues_update (t_delete (\<lambda>q. q = queue)))"

definition Postgres_insertCronJobsTx :: "time \<Rightarrow> CronJob list \<Rightarrow> unit sql" where
  "Postgres_insertCronJobsTx now crons =
     forS (\<lambda>c. exec (cron_jobs_update (t_upsert c_name
        \<lparr>c_name = cj_Name c, c_expression = cj_Spec c, c_queue = cj_Queue c,
         c_payload = cj_Payload c, c_timezone = cj_Timezone c, c_updated_at = now\<rparr>
        (\<lambda>r. r\<lparr>c_expression := cj_Spec c, c_queue := cj_Queue c, c_payload := cj_Payload c,
               c_timezone := cj_Timezone c, c_updated_at := now\<rparr>)))) crons"

definition Postgres_RegisterCronJobs :: "time \<Rightarrow> CronJob list \<Rightarrow> unit sql" where
  "Postgres_RegisterCronJobs now crons = with_tx (Postgres_insertCronJobsTx now crons)"

definition Postgres_GetCronSchedules :: "CronJob list sql" where
  "Postgres_GetCronSchedules =
     query (\<lambda>d. map (\<lambda>s. \<lparr>cj_Payload = s_payload s, cj_Spec = s_spec s, cj_Name = s_name s,
                          cj_Queue = s_queue s, cj_Timezone = s_timezone s,
                          cj_Paused = (s_paused s \<noteq> 0)\<rparr>)
                  (sort_key s_name (cron_schedules d)))"

definition Postgres_SaveCronSchedule :: "time \<Rightarrow> CronJob \<Rightarrow> unit sql" where
  "Postgres_SaveCronSchedule now cron =
     exec (cron_schedules_update (t_upsert s_name
        \<lparr>s_name = cj_Name cron, s_spec = cj_Spec cron, s_queue = cj_Queue cron,
         s_payload = cj_Payload cron, s_timezone = cj_Timezone cron,
         s_paused = of_bool (cj_Paused cron), s_created_at = now, s_updated_at = now\<rparr>
        (\<lambda>r. r\<lparr>s_spec := cj_Spec cron, s_queue := cj_Queue cron, s_payload := cj_Payload cron,
               s_timezone := cj_Timezone cron, s_paused := of_bool (cj_Paused cron),
               s_updated_at := now\<rparr>)))"

definition Postgres_DeleteCronSchedule :: "string \<Rightarrow> unit sql" where
  "Postgres_DeleteCronSchedule name = exec (cron_schedules_update (t_delete (\<lambda>s. s_name s = name)))"

definition Postgres_LockCronExecution :: "time \<Rightarrow> string \<Rightarrow> time \<Rightarrow> bool sql" where
  "Postgres_LockCronExecution now cronName executionMinute =
     thenS (ignoreS (exec (cron_locks_update (t_delete (\<lambda>l. snd (fst l) < now + (- 1) * hour)))))
    (bindS (exec_count
       (\<lambda>d. if has_key fst (cronName, trunc_minute executionMinute) (cron_locks d) then 0 else 1)
       (cron_locks_update (t_insert_ignore fst ((cronName, trunc_minute executionMinute), now))))
     (\<lambda>rows. ret (rows > 0)))"

section \<open>Throttling\<close>

definition Postgres_GetRunningJobsCount :: "string \<Rightarrow> int sql" where
  "Postgres_GetRunningJobsCount jobName =
     query (\<lambda>d. int (length (filter (\<lambda>r. j_name r = jobName \<and> j_status r = Running) (jobs d))))"

definition Postgres_evaluateRateLimit :: "time \<Rightarrow> string \<Rightarrow> int \<Rightarrow> duration \<Rightarrow> bool sql" where
  "Postgres_evaluateRateLimit now jobName limit period =
     (let clearBefore = now - period in
      thenS (exec (rate_limits_update (t_delete (\<lambda>(n, ts). n = jobName \<and> ts < clearBefore))))
     (bindS (query (\<lambda>d. int (length (filter (\<lambda>(n, ts). n = jobName) (rate_limits d))))) (\<lambda>count.
      if count \<ge> limit then ret False
      else thenS (exec (rate_limits_update (\<lambda>t. t @ [(jobName, now)]))) (ret True))))"

definition Postgres_CheckRateLimit :: "time \<Rightarrow> string \<Rightarrow> int \<Rightarrow> duration \<Rightarrow> bool sql" where
  "Postgres_CheckRateLimit now jobName limit period =
     with_tx_if (bindS (Postgres_evaluateRateLimit now jobName limit period)
       (\<lambda>allowed. ret (allowed, allowed)))"

definition Postgres_PostponeJob :: "time \<Rightarrow> string \<Rightarrow> string \<Rightarrow> duration \<Rightarrow> unit sql" where
  "Postgres_PostponeJob now jobID queueName delay =
     (let runAt = now + delay in
      exec (jobs_update (t_update (\<lambda>r. j_id r = jobID)
        (\<lambda>r. r\<lparr>j_status := Pending, j_run_at := Some runAt, j_locked_at := None\<rparr>))))"

section \<open>Search and bulk operations\<close>

definition Postgres_GetJobDetail :: "string \<Rightarrow> JobEnvelope option sql" where
  "Postgres_GetJobDetail jobID =
     bindS (tryX OnDB (query_row (job_by_id jobID))) (\<lambda>row.
     case row of
       Inl e \<Rightarrow> if e = ErrNoRows then ret None else throw e
     | Inr r \<Rightarrow>
         (case j_run_at r of
            None \<Rightarrow> throw (ErrMsg ''sql: Scan error on column index 10'')
          | Some runAt \<Rightarrow> ret (Some (zero_envelope\<lparr>JobID := j_id r, Queue := j_queue r,
              Name := j_name r, Args := j_args r,
              TraceCtx := \<lparr>TraceID = j_trace_id r, SpanID = j_span_id r\<rparr>,
              Attempts := j_attempts r, MaxAttempts := j_max_attempts r,
              UniqueKey := j_unique_key r, BatchID := j_batch_id r, RunAt := Some runAt\<rparr>))))"

text \<open>The WHERE clause built by \<open>buildPostgresSearchQuery\<close>, as the condition on a row.\<close>

definition buildPostgresSearchQuery :: "string \<Rightarrow> string \<Rightarrow> job_row \<Rightarrow> bool" where
  "buildPostgresSearchQuery q status r \<longleftrightarrow>
     (if status \<noteq> '''' then status_text (j_status r) = status else True)
     \<and> (if q \<noteq> '''' then let likePat = ''%'' @ q @ ''%'' in
          pg_like likePat (j_id r) \<or> pg_like likePat (j_name r) \<or> pg_like likePat (j_trace_id r)
        else True)"

definition Postgres_scanPgJobDetails :: "(time \<Rightarrow> string) \<Rightarrow> job_row list \<Rightarrow> JobDetail list" where
  "Postgres_scanPgJobDetails fmt rows = map (Postgres_scanOneJobDetail fmt) rows"

text \<open>The offset is a 64-bit product; PostgreSQL refuses a negative OFFSET.\<close>

definition Postgres_GetJobs ::
  "(time \<Rightarrow> string) \<Rightarrow> string \<Rightarrow> string \<Rightarrow> int \<Rightarrow> int \<Rightarrow> (JobDetail list \<times> int) sql" where
  "Postgres_GetJobs fmt q status page limit =
     (let (limit, page) = Sqlite_sanitizePageLimit limit page;
          offset = sint ((word_of_int (page - 1) :: 64 word) * word_of_int limit);
          whr = buildPostgresSearchQuery q status
      in bindS (query (\<lambda>d. int (length (filter whr (jobs d))))) (\<lambda>total.
         bindS (engine (\<lambda>d. (if offset < 0 then Inl ErrEngine
                    else Inr (take (nat limit) (drop (nat offset) (newest_first (filter whr (jobs d))))), d)))
           (\<lambda>rows. ret (Postgres_scanPgJobDetails fmt rows, total))))"

definition Postgres_BulkRetry :: "time \<Rightarrow> string list \<Rightarrow> unit sql" where
  "Postgres_BulkRetry now jobIDs =
     (if length jobIDs = 0 then ret ()
      else with_tx (forS (\<lambda>id. exec (jobs_update (t_update (\<lambda>r. j_id r = id) (pg_reset_row now)))) jobIDs))"

definition Postgres_cancelOneJob :: "string \<Rightarrow> unit sql" where
  "Postgres_cancelOneJob jobID =
     bindS (tryX OnTx (query_row (\<lambda>d. map_option (\<lambda>r. (j_unique_key r, j_queue r)) (job_by_id jobID d)))) (\<lambda>row.
     case row of
       Inl e \<Rightarrow> if e \<noteq> ErrNoRows then throw e
                else thenS (exec (pg_delete_jobs (\<lambda>r. j_id r = jobID))) (Postgres_deleteUniqueLock '''' '''')
     | Inr (uniqueKey, queueName) \<Rightarrow>
         thenS (exec (pg_delete_jobs (\<lambda>r. j_id r = jobID))) (Postgres_deleteUniqueLock queueName uniqueKey))"

definition Postgres_BulkCancel :: "string list \<Rightarrow> unit sql" where
  "Postgres_BulkCancel jobIDs =
     (if length jobIDs = 0 then ret () else with_tx (forS Postgres_cancelOneJob jobIDs))"

definition Postgres_BulkPurge :: "string list \<Rightarrow> unit sql" where
  "Postgres_BulkPurge jobIDs =
     (if length jobIDs = 0 then ret ()
      else with_tx (forS (\<lambda>id. exec (pg_delete_jobs (\<lambda>r. j_id r = id))) jobIDs))"

definition Postgres_RetryModified :: "time \<Rightarrow> string \<Rightarrow> bytes \<Rightarrow> unit sql" where
  "Postgres_RetryModified now jobID args =
     exec (jobs_update (t_update (\<lambda>r. j_id r = jobID) (\<lambda>r. (pg_reset_row now r)\<lparr>j_args := args\<rparr>)))"

end
