(* ===== verification/PostgresAgree.thy ===== *)
theory PostgresAgree
  imports PostgresAdmin SqliteInv SqliteQueue SqliteGuards
begin

text \<open>
  Where the two SQL backends do the same. On a whole second of the clock the columns that
  \<open>CURRENT_TIMESTAMP\<close> fills agree, and most methods of the PostgreSQL backend are equal to those
  of the SQLite backend as actions, whatever statements fail. Those that drop an error inside a
  transaction agree on runs without failures, and \<open>Dequeue\<close> agrees if the jobs are scheduled
  at whole seconds, no row is locked and the driver pipelines. The methods that delete jobs
  differ: PostgreSQL deletes the dependency rows of the children with them.
\<close>

named_theorems same_sql \<open>methods of the two backends that are the same action\<close>
named_theorems same_run \<open>methods of the two backends with the same runs without failures\<close>

definition whole :: "time \<Rightarrow> bool" where
  "whole t \<longleftrightarrow> cur_ts t = t"

lemma whole_iff: "whole t \<longleftrightarrow> second dvd t"
  by (metis whole_def cur_ts_def dvd_div_mult_self dvd_triv_right)

lemma wholeD [simp]: "whole t \<Longrightarrow> cur_ts t = t"
  by (simp add: whole_def)

section \<open>The same actions\<close>

lemma tryX_OnDB [same_sql]: "tryX OnDB m = tryS m"
  by (rule ext) (simp add: tryX_def tryS_def split: option.splits sum.splits prod.splits)

lemma pg_default_job_row_same [same_sql]:
  "whole now \<Longrightarrow> pg_default_job_row now j q n a = default_job_row now j q n a"
  by (simp add: pg_default_job_row_def default_job_row_def)

lemma pg_reset_row_same [same_sql]: "whole now \<Longrightarrow> pg_reset_row now = reset_row now"
  by (rule ext) (simp add: pg_reset_row_def reset_row_def)

lemma locks_same [same_sql]:
  "Postgres_acquireUniqueLock OnDB now env = Sqlite_acquireUniqueLock now env"
  "Postgres_deleteUniqueLock q k = Sqlite_deleteUniqueLock q k"
  unfolding Postgres_acquireUniqueLock_def Postgres_getLockExpires_def Postgres_tryInsertLock_def
    Postgres_checkLockCollision_def Postgres_handleLockCollision_def Postgres_deleteUniqueLock_def
    sqlite_lock_defs Sqlite_getLockExpires_def tryX_OnDB
  by (rule refl)+

lemma enqueue_same [same_sql]:
  "whole now \<Longrightarrow> Postgres_Enqueue now env = Sqlite_Enqueue now env"
  by (simp add: Postgres_Enqueue_def Postgres_insertJob_def Sqlite_Enqueue_def Sqlite_insertJob_def
      Let_def locks_same pg_default_job_row_same)

lemma lifecycle_same [same_sql]:
  "whole now \<Longrightarrow> Postgres_Retry now j = Sqlite_Retry now j"
  "whole now \<Longrightarrow> Postgres_RetryAllFailed now = Sqlite_RetryAllFailed now"
  "whole now \<Longrightarrow> Postgres_RetryModified now j args = Sqlite_RetryModified now j args"
  "whole now \<Longrightarrow> Postgres_BulkRetry now js = Sqlite_BulkRetry now js"
  "Postgres_PostponeJob now j q delay = Sqlite_PostponeJob now j q delay"
  "Postgres_FailExpiredBatches now = Sqlite_FailExpiredBatches now"
  "whole now \<Longrightarrow> Postgres_CreateBatch now b cb ex = Sqlite_CreateBatch now b cb ex"
  "Postgres_PollScheduled q = Sqlite_PollScheduled q"
  "Postgres_ReleaseLeader c = Sqlite_ReleaseLeader c"
  by (simp_all add: Postgres_Retry_def Postgres_RetryAllFailed_def Postgres_RetryModified_def
      Postgres_BulkRetry_def Postgres_PostponeJob_def Postgres_FailExpiredBatches_def
      Postgres_CreateBatch_def Postgres_PollScheduled_def Postgres_ReleaseLeader_def
      Sqlite_Retry_def Sqlite_RetryAllFailed_def Sqlite_RetryModified_def Sqlite_BulkRetry_def
      Sqlite_PostponeJob_def Sqlite_FailExpiredBatches_def Sqlite_CreateBatch_def
      Sqlite_PollScheduled_def Sqlite_ReleaseLeader_def pg_reset_row_same)

lemma admin_same [same_sql]:
  "Postgres_RegisterProcess info = Sqlite_RegisterProcess info"
  "Postgres_HeartbeatProcess now p = Sqlite_HeartbeatProcess now p"
  "Postgres_GetActiveProcesses now = Sqlite_GetActiveProcesses now"
  "Postgres_IsQueuePaused q = Sqlite_IsQueuePaused q"
  "Postgres_PauseQueue q = Sqlite_PauseQueue q" "Postgres_ResumeQueue q = Sqlite_ResumeQueue q"
  "whole now \<Longrightarrow> Postgres_RegisterCronJobs now cs = Sqlite_RegisterCronJobs now cs"
  "Postgres_GetCronSchedules = Sqlite_GetCronSchedules"
  "whole now \<Longrightarrow> Postgres_SaveCronSchedule now c = Sqlite_SaveCronSchedule now c"
  "Postgres_DeleteCronSchedule n = Sqlite_DeleteCronSchedule n"
  "Postgres_LockCronExecution now n t = Sqlite_LockCronExecution now n t"
  "Postgres_GetRunningJobsCount n = Sqlite_GetRunningJobsCount n"
  "Postgres_CheckRateLimit now n l per = Sqlite_CheckRateLimit now n l per"
  "Postgres_GetJobDetail j = Sqlite_GetJobDetail j"
  by (simp_all add: Postgres_RegisterProcess_def Postgres_HeartbeatProcess_def
      Postgres_GetActiveProcesses_def Postgres_markLeader_def Postgres_scanPgProcesses_def
      Postgres_IsQueuePaused_def Postgres_PauseQueue_def Postgres_ResumeQueue_def
      Postgres_RegisterCronJobs_def Postgres_insertCronJobsTx_def Postgres_GetCronSchedules_def
      Postgres_SaveCronSchedule_def Postgres_DeleteCronSchedule_def Postgres_LockCronExecution_def
      Postgres_GetRunningJobsCount_def Postgres_CheckRateLimit_def Postgres_evaluateRateLimit_def
      Postgres_GetJobDetail_def
      Sqlite_RegisterProcess_def Sqlite_HeartbeatProcess_def
      Sqlite_GetActiveProcesses_def Sqlite_markLeader_def Sqlite_scanProcesses_def
      Sqlite_IsQueuePaused_def Sqlite_PauseQueue_def Sqlite_ResumeQueue_def
      Sqlite_RegisterCronJobs_def Sqlite_insertCronJobsTx_def Sqlite_GetCronSchedules_def
      Sqlite_SaveCronSchedule_def Sqlite_DeleteCronSchedule_def Sqlite_LockCronExecution_def
      Sqlite_GetRunningJobsCount_def Sqlite_CheckRateLimit_def Sqlite_evaluateRateLimit_def
      Sqlite_GetJobDetail_def tryX_OnDB of_bool_def cong: if_cong)

text \<open>The statistics are the same up to how the creation times print.\<close>

lemma stats_parts_same [same_sql]:
  "Postgres_fetchQueueStats st = Sqlite_fetchQueueStats st"
  "Postgres_applyPausedQueues qm = Sqlite_applyPausedQueues qm"
  "Postgres_fetchCronJobs st = Sqlite_fetchCronJobs st"
  "Postgres_loadActiveProcesses now st = Sqlite_loadActiveProcesses now st"
proof -
  have upd: "pg_update_queue_stats = update_queue_stats"
    by (intro ext) (simp add: pg_update_queue_stats_def update_queue_stats_def
        Postgres_getOrCreateQueueStats_def Sqlite_getOrCreateQueueStats_def)
  have acc: "Postgres_accumulateStats = Sqlite_accumulateStats"
    unfolding Postgres_accumulateStats_def[abs_def] upd Sqlite_accumulateStats_def[abs_def] by (rule refl)
  show "Postgres_fetchQueueStats st = Sqlite_fetchQueueStats st"
    by (simp add: Postgres_fetchQueueStats_def Sqlite_fetchQueueStats_def
        Postgres_scanQueueStatsRows_def Sqlite_scanQueueStatsRows_def acc)
  show "Postgres_applyPausedQueues qm = Sqlite_applyPausedQueues qm"
    unfolding Postgres_applyPausedQueues_def Sqlite_applyPausedQueues_def upd tryX_OnDB by (rule refl)
qed (simp_all add: Postgres_fetchCronJobs_def Sqlite_fetchCronJobs_def
    Postgres_loadStaticCrons_def Sqlite_loadStaticCrons_def Postgres_loadDynamicCrons_def
    Sqlite_loadDynamicCrons_def Postgres_loadActiveProcesses_def Sqlite_loadActiveProcesses_def
    tryX_OnDB admin_same)

lemma scanRecent_same: "Postgres_scanRecentJobsRows fmt rows st
    = st\<lparr>st_Jobs := st_Jobs st @ map (Postgres_scanOneJobDetail fmt) rows\<rparr>"
  unfolding Postgres_scanRecentJobsRows_def by (induction rows arbitrary: st) simp_all

lemma job_detail_same [same_sql]: "Postgres_scanOneJobDetail rfc3339 = job_detail"
  by (rule ext) (simp add: Postgres_scanOneJobDetail_def job_detail_def)

lemma GetStats_same [same_sql]: "Postgres_GetStats rfc3339 now = Sqlite_GetStats now"
  by (simp add: Postgres_GetStats_def Sqlite_GetStats_def Postgres_fetchRecentJobs_def
      Sqlite_fetchRecentJobs_def scanRecent_same job_detail_same stats_parts_same)


section \<open>The same runs\<close>

text \<open>
  \<open>agree m n\<close>: on a run without engine failures, \<open>m\<close> and \<open>n\<close> give the same result and
  database, and schedule no failure.
\<close>

definition agree :: "('s, 'a) eff \<Rightarrow> ('s, 'a) eff \<Rightarrow> bool" where
  "agree m n \<longleftrightarrow> (\<forall>d. m (d, []) = n (d, [])) \<and> quiet m"

lemma agreeD: "agree m n \<Longrightarrow> m (d, []) = n (d, [])"
  by (simp add: agree_def)

lemma agree_ret: "agree (ret x) (ret x)" by (simp add: agree_def quiet_def ret_def)
lemma agree_throw: "agree (throw e) (throw e)" by (simp add: agree_def quiet_def throw_def)
lemma agree_crash: "agree crash crash" by (simp add: agree_def quiet_def crash_def)

lemma agree_engine: "agree (engine g) (engine g)"
  by (auto simp: agree_def quiet_def engine_def split: prod.splits)

lemma agree_exec: "agree (exec g) (exec g)" unfolding exec_def by (rule agree_engine)
lemma agree_exec_unique: "agree (exec_unique ok g) (exec_unique ok g)"
  unfolding exec_unique_def by (rule agree_engine)
lemma agree_query: "agree (query g) (query g)" unfolding query_def by (rule agree_engine)
lemma agree_query_row: "agree (query_row g) (query_row g)" unfolding query_row_def by (rule agree_engine)
lemma agree_update_returning: "agree (update_returning g u) (update_returning g u)"
  unfolding update_returning_def by (rule agree_engine)

lemma agree_bind:
  assumes "agree m n" "\<And>x. agree (f x) (g x)"
  shows "agree (bindS m f) (bindS n g)"
  unfolding agree_def quiet_def
proof (intro conjI allI impI)
  fix d
  have q: "quiet m" and mn: "m (d, []) = n (d, [])" using assms(1) by (auto simp: agree_def)
  show "bindS m f (d, []) = bindS n g (d, [])"
    using quietD[OF q, of d] mn agreeD[OF assms(2)]
    by (auto simp: bindS_def split: option.splits sum.splits)
next
  fix d r d' fs assume r: "bindS m f (d, []) = Some (r, d', fs)"
  have q: "quiet m" "\<And>x. quiet (f x)" using assms by (auto simp: agree_def)
  from r show "fs = []"
    by (cases rule: bindS_cases) (auto dest: quietD[OF q(1)] quietD[OF q(2)])
qed

lemma agree_then: "agree m n \<Longrightarrow> agree m' n' \<Longrightarrow> agree (thenS m m') (thenS n n')"
  unfolding thenS_def by (rule agree_bind)

lemma agree_try: "agree m n \<Longrightarrow> agree (tryS m) (tryS n)"
  by (auto simp: agree_def quiet_def tryS_def split: option.splits)

lemma agree_ignore: "agree m n \<Longrightarrow> agree (ignoreS m) (ignoreS n)"
  unfolding ignoreS_def by (intro agree_bind agree_try agree_ret)

lemma agree_for: "(\<And>x. x \<in> set xs \<Longrightarrow> agree (f x) (g x)) \<Longrightarrow> agree (forS f xs) (forS g xs)"
  by (induction xs) (auto intro: agree_ret agree_then)

lemma agree_with_tx_if:
  assumes "agree m n"
  shows "agree (with_tx_if m) (with_tx_if n)"
proof -
  have "agree (run_tx m) (run_tx n)"
    using assms unfolding agree_def quiet_def run_tx_def
    by (fastforce split: option.splits sum.splits if_splits list.splits bool.splits)
  then show ?thesis
    unfolding with_tx_if_def by (rule agree_bind) (auto intro: agree_ret agree_throw split: option.splits)
qed

lemma agree_with_tx: "agree m n \<Longrightarrow> agree (with_tx m) (with_tx n)"
  unfolding with_tx_def by (intro agree_with_tx_if agree_bind agree_ret)

lemma agree_tryX_query: "agree (tryX q (query g)) (tryS (query g))"
  by (auto simp: agree_def quiet_def tryX_def run_simps)

lemma agree_tryX_query_row: "agree (tryX q (query_row g)) (tryS (query_row g))"
  by (auto simp: agree_def quiet_def tryX_def run_simps split: option.splits)

lemma agree_tryX_exec: "agree (tryX q (exec g)) (tryS (exec g))"
  by (auto simp: agree_def quiet_def tryX_def run_simps)

lemmas agree_rules = agree_ret agree_throw agree_crash agree_exec agree_exec_unique agree_query
  agree_query_row agree_update_returning agree_bind agree_then agree_try agree_ignore agree_for
  agree_with_tx_if agree_with_tx agree_tryX_query agree_tryX_query_row agree_tryX_exec

lemma agree_acquireUniqueLock:
  "agree (Postgres_acquireUniqueLock q now env) (Sqlite_acquireUniqueLock now env)"
  unfolding Postgres_acquireUniqueLock_def Postgres_getLockExpires_def
      Postgres_tryInsertLock_def Postgres_checkLockCollision_def Postgres_handleLockCollision_def
      sqlite_lock_defs Sqlite_getLockExpires_def
  by (auto intro!: agree_rules)

lemma batch_same_sql:
  "Postgres_updateBatchCount b = Sqlite_updateBatchCount b"
  "Postgres_sealBatch b = Sqlite_sealBatch b"
  "whole now \<Longrightarrow> Postgres_insertBatchJob now b env = Sqlite_insertBatchJob now b env"
  "whole now \<Longrightarrow> Postgres_completeBatchAndEnqueue now rnd b cq cn ca = Sqlite_completeBatchAndEnqueue now rnd b cq cn ca"
  "whole now \<Longrightarrow> Postgres_enqueueCallback now rnd cq cn ca = insert_callback_job now rnd cq cn ca"
  "Postgres_markBatchCompleted b = set_batch_status b BatchCompleted"
  by (simp_all add: Postgres_updateBatchCount_def Sqlite_updateBatchCount_def
      Postgres_sealBatch_def Sqlite_sealBatch_def Postgres_insertBatchJob_def
      Sqlite_insertBatchJob_def Postgres_completeBatchAndEnqueue_def Postgres_markBatchCompleted_def
      set_batch_status_def Sqlite_completeBatchAndEnqueue_def insert_callback_job_def
      Postgres_enqueueCallback_def pg_default_job_row_same Let_def)

lemma agree_EnqueueInBatch:
  assumes "whole now"
  shows "agree (Postgres_EnqueueInBatch now b env) (Sqlite_EnqueueInBatch now b env)"
  unfolding Postgres_EnqueueInBatch_def Sqlite_EnqueueInBatch_def batch_same_sql(1)
    batch_same_sql(3)[OF assms]
  by (intro agree_with_tx agree_then agree_acquireUniqueLock)
    (auto simp: Sqlite_updateBatchCount_def Sqlite_insertBatchJob_def Let_def intro: agree_rules)


lemma agree_SubmitBatch:
  assumes "whole now"
  shows "agree (Postgres_SubmitBatch now rnd b) (Sqlite_SubmitBatch now rnd b)"
proof -
  have rest: "agree (Sqlite_sealBatch b) (Sqlite_sealBatch b)"
    "agree (Sqlite_completeBatchAndEnqueue now rnd b cq cn ca) (Sqlite_completeBatchAndEnqueue now rnd b cq cn ca)"
    "agree (set_batch_status b st) (set_batch_status b st)" for cq cn ca st
    by (simp_all add: Sqlite_sealBatch_def Sqlite_completeBatchAndEnqueue_def insert_callback_job_def
        set_batch_status_def Let_def agree_rules)
  define tail where "tail = (\<lambda>expired. if expired then ret ()
     else bindS (Sqlite_sealBatch b) (\<lambda>(pending, cq, cn, ca).
          if pending = 0 then Sqlite_completeBatchAndEnqueue now rnd b cq cn ca else ret ()))"
  have pg: "Postgres_processSubmit now rnd b = bindS (Postgres_checkBatchExpired now b) tail"
    unfolding Postgres_processSubmit_def tail_def batch_same_sql(2) batch_same_sql(4)[OF assms]
    by (rule refl)
  have tail: "agree (tail x) (tail x)" for x
    unfolding tail_def by (auto intro!: agree_rules rest)
  have "agree (bindS (Postgres_checkBatchExpired now b) tail) (bindS (Sqlite_checkBatchExpired now b) tail)"
    unfolding agree_def
  proof (intro conjI allI)
    fix d
    show "bindS (Postgres_checkBatchExpired now b) tail (d, [])
        = bindS (Sqlite_checkBatchExpired now b) tail (d, [])"
    proof (cases "t_find (\<lambda>x. b_id x = b) (batches d)")
      case None
      then have "t_find (\<lambda>x. b_id x = b) (t_update (\<lambda>x. b_id x = b) (b_status_update (\<lambda>_. BatchSealed)) (batches d)) = None"
        by (simp add: t_find_update)
      moreover have "t_update (\<lambda>x. b_id x = b) (b_status_update (\<lambda>_. BatchSealed)) (batches d) = batches d"
        by (rule t_update_none) (use t_find_NoneD[OF None] in simp)
      then have "batches_update (t_update (\<lambda>x. b_id x = b) (b_status_update (\<lambda>_. BatchSealed))) d = d"
        by (cases d) simp
      ultimately show ?thesis using None
        by (simp add: Postgres_checkBatchExpired_def Sqlite_checkBatchExpired_def run_simps tail_def Sqlite_sealBatch_def)
    qed (simp add: Postgres_checkBatchExpired_def Sqlite_checkBatchExpired_def run_simps split: option.splits)
    have "agree (Postgres_checkBatchExpired now b) (Postgres_checkBatchExpired now b)"
      unfolding Postgres_checkBatchExpired_def by (auto intro!: agree_rules rest split: option.splits)
    from agree_bind[OF this tail] show "quiet (bindS (Postgres_checkBatchExpired now b) tail)"
      by (simp add: agree_def)
  qed
  then show ?thesis
    unfolding Postgres_SubmitBatch_def Sqlite_SubmitBatch_def pg tail_def by (rule agree_with_tx)
qed

lemma agree_batchAck:
  assumes "whole now"
  shows "agree (Postgres_finishAck now rnd b)
    (if b \<noteq> '''' then Sqlite_handleBatchAck now rnd b else ret ())"
proof -
  have drop: "agree (bindS (tryX OnTx (set_batch_status b BatchFailed)) (\<lambda>_. ret x))
      (thenS (ignoreS (set_batch_status b BatchFailed)) (ret x))"
    for x :: "int \<times> batch_status \<times> string \<times> string \<times> bytes"
    unfolding set_batch_status_def agree_def quiet_def by (simp add: tryX_def run_simps)
  have "agree (Postgres_updateBatchPending now b) (Sqlite_updateBatchPending now b)"
    unfolding Postgres_updateBatchPending_def Sqlite_updateBatchPending_def Let_def
    by (intro agree_bind agree_update_returning) (auto intro!: agree_ret drop split: option.splits)
  then show ?thesis
    unfolding Postgres_finishAck_def Postgres_handleBatchAck_def Sqlite_handleBatchAck_def
      batch_same_sql(5)[OF assms] batch_same_sql(6)
    by (auto intro!: agree_rules simp: insert_callback_job_def set_batch_status_def Let_def)
qed

lemma agree_performAck:
  assumes "whole now"
  shows "agree (Postgres_performAck now rnd j q k b) (Sqlite_performAck now rnd j q k b)"
  unfolding Postgres_performAck_def Sqlite_performAck_def locks_same(2)
      Postgres_resolveDependencies_def Sqlite_resolveDependencies_def Postgres_queryChildJobIDs_def
      Sqlite_queryChildJobIDs_def Postgres_checkBlockedChildren_def Sqlite_checkBlockedChildren_def
      wholeD[OF assms] Sqlite_deleteUniqueLock_def
  by (intro agree_then agree_bind agree_for agree_batchAck assms) (auto intro: agree_rules)

lemma agree_Ack:
  assumes "whole now"
  shows "agree (Postgres_Ack now rnd j) (Sqlite_Ack now rnd j)"
proof -
  note pa = agree_with_tx[OF agree_performAck[OF assms]]
  have "Postgres_Ack now rnd j (d, []) = Sqlite_Ack now rnd j (d, [])" for d
    using agreeD[OF pa]
    by (simp add: Postgres_Ack_def Sqlite_Ack_def tryX_OnDB bind_run try_run query_row_run
          split: option.splits)
  moreover have "quiet (Postgres_Ack now rnd j)"
  proof -
    let ?f = "\<lambda>perf row. let (uniqueKey, queueName, batchID) =
        (case row of Inr kqb \<Rightarrow> kqb | Inl (e :: err) \<Rightarrow> ('''', '''', ''''))
      in with_tx (perf now rnd j queueName uniqueKey batchID)"
    have "agree (?f Postgres_performAck row) (?f Sqlite_performAck row)" for row
      using pa by (simp split: prod.splits)
    from agree_bind[where f = "?f Postgres_performAck" and g = "?f Sqlite_performAck", OF agree_tryX_query_row this]
    show ?thesis
      unfolding Postgres_Ack_def agree_def by blast
  qed
  ultimately show ?thesis by (simp add: agree_def)
qed

lemma agree_cascade:
  assumes "whole now"
  shows "agree (Postgres_cascadeDependencyFailure n now j) (Sqlite_cascadeDependencyFailure n now j)"
proof (induction n arbitrary: j)
  case (Suc n)
  have dead: "agree (Postgres_transitionToDead (Postgres_cascadeDependencyFailure n now) now i e k q b)
      (Sqlite_transitionToDead (Sqlite_cascadeDependencyFailure n now) now i e k q b)" for i e k q b
    unfolding Postgres_transitionToDead_def Sqlite_transitionToDead_def locks_same(2)
      Sqlite_deleteUniqueLock_def set_batch_status_def wholeD[OF assms]
    by (intro agree_then Suc.IH) (auto intro: agree_rules)
  show ?case
    unfolding Postgres_cascadeDependencyFailure.simps Sqlite_cascadeDependencyFailure.simps
      Postgres_failChildren_def Sqlite_failChildren_def Postgres_queryChildJobIDs_def
      Sqlite_queryChildJobIDs_def Let_def
    by (intro agree_bind agree_query agree_for agree_tryX_query_row)
      (auto intro!: agree_then agree_exec agree_throw dead split: sum.splits)
qed (simp add: agree_crash)

lemma agree_transitionToDead:
  assumes "whole now"
  shows "agree (Postgres_transitionToDead (Postgres_cascadeDependencyFailure n now) now i e k q b)
      (Sqlite_transitionToDead (Sqlite_cascadeDependencyFailure n now) now i e k q b)"
  unfolding Postgres_transitionToDead_def Sqlite_transitionToDead_def locks_same(2)
      Sqlite_deleteUniqueLock_def set_batch_status_def wholeD[OF assms]
  by (intro agree_then agree_cascade[OF assms]) (auto intro: agree_rules)

lemma agree_Fail:
  assumes "whole now"
  shows "agree (Postgres_Fail n now j e) (Sqlite_Fail n now j e)"
  unfolding Postgres_Fail_def Sqlite_Fail_def Sqlite_beginAndPerformFail_def Postgres_performFail_def
    Sqlite_performFail_def Let_def wholeD[OF assms]
  by (intro agree_bind agree_query_row)
    (auto intro!: agree_with_tx agree_exec agree_transitionToDead[OF assms])


lemma deps_checked:
  "has_key j_id c (jobs d) \<Longrightarrow>
     forS (\<lambda>p. exec_unique (\<lambda>d. has_key j_id c (jobs d))
              (job_dependencies_update (t_insert_ignore (\<lambda>q. q) (c, p)))) ps (d, [])
     = forS (\<lambda>p. exec (job_dependencies_update (t_insert_ignore (\<lambda>q. q) (c, p)))) ps (d, [])"
  by (induction ps arbitrary: d) (simp_all add: run_simps)

lemma quiet_deps:
  "quiet (forS (\<lambda>p. exec_unique ok (g p)) ps)"
  using agree_for[of ps "\<lambda>p. exec_unique ok (g p)" "\<lambda>p. exec_unique ok (g p)"]
  by (simp add: agree_exec_unique) (simp add: agree_def)

lemma has_key_upsert: "has_key key (key r) (t_upsert key r f t)" if "\<And>x. key (f x) = key x"
  using t_update_key_set[of key f, OF that] by (auto simp: t_upsert_def has_key_iff)

lemma agree_insertWorkflowJob:
  assumes "whole now"
  shows "agree (Postgres_insertWorkflowJob now job) (Sqlite_insertWorkflowJob now job)"
proof -
  have ins: "Postgres_execInsertJob now job st = Sqlite_execInsertJob now job st" for st
    by (simp add: Postgres_execInsertJob_def Sqlite_execInsertJob_def pg_default_job_row_same assms Let_def)
  have step: "agree (thenS (Sqlite_execInsertJob now job st) (Postgres_insertJobDependencies job))
      (thenS (Sqlite_execInsertJob now job st) (Sqlite_insertJobDependencies job))" for st
  proof -
    define row where "row = (default_job_row now (JobID job) (Queue job) (Name job) (Args job))
              \<lparr>j_trace_id := TraceID (TraceCtx job), j_span_id := SpanID (TraceCtx job),
               j_status := st, j_max_attempts := getMaxAttempts (MaxAttempts job),
               j_run_at := Some (getRunAt now (RunAt job)), j_unique_key := UniqueKey job\<rparr>"
    define upd :: "job_row \<Rightarrow> job_row" where "upd = (\<lambda>r. r\<lparr>j_status := st, j_attempts := 0,
                  j_max_attempts := getMaxAttempts (MaxAttempts job),
                  j_run_at := Some (getRunAt now (RunAt job)), j_unique_key := UniqueKey job,
                  j_updated_at := cur_ts now\<rparr>)"
    have e: "Sqlite_execInsertJob now job st = exec (jobs_update (t_upsert j_id row upd))"
      by (simp add: Sqlite_execInsertJob_def row_def upd_def Let_def)
    have "has_key j_id (j_id row) (t_upsert j_id row upd (jobs d))" for d
      by (rule has_key_upsert) (simp add: upd_def)
    moreover have "j_id row = JobID job" by (simp add: row_def default_job_row_def)
    ultimately have h: "has_key j_id (JobID job) (t_upsert j_id row upd (jobs d))" for d by metis
    have "quiet (thenS (exec (jobs_update (t_upsert j_id row upd))) (Postgres_insertJobDependencies job))"
      unfolding quiet_def Postgres_insertJobDependencies_def
      by (auto simp: then_run exec_run dest: quietD[OF quiet_deps])
    then show ?thesis
      unfolding agree_def e
      by (simp add: then_run exec_run Postgres_insertJobDependencies_def
          Sqlite_insertJobDependencies_def deps_checked h)
  qed
  show ?thesis
    unfolding Postgres_insertWorkflowJob_def Sqlite_insertWorkflowJob_def Let_def ins
    by (intro agree_then agree_acquireUniqueLock step)
qed

lemma agree_EnqueueWorkflow:
  assumes "whole now"
  shows "agree (Postgres_EnqueueWorkflow now js) (Sqlite_EnqueueWorkflow now js)"
  unfolding Postgres_EnqueueWorkflow_def Sqlite_EnqueueWorkflow_def
    Postgres_insertWorkflowJobs_def Sqlite_insertWorkflowJobs_def
  by (auto intro!: agree_ret agree_with_tx agree_for agree_insertWorkflowJob assms)

section \<open>The lease and the queue\<close>

lemma Postgres_AcquireLeader_run [run_simps]:
  "Postgres_AcquireLeader now c ttl (d, [])
     = Some (Inr (lease_free now c d), (if lease_free now c d then set_leader c (now + ttl) d else d, []))"
proof -
  have free: "(case t_find (\<lambda>r. fst r = ''leader'') (leader_leases d) of None \<Rightarrow> True
      | Some (k, holder, expires) \<Rightarrow> holder = c \<or> expires \<le> now) = lease_free now c d"
    by (auto simp: lease_free_def leader_of_def split: option.splits prod.splits)
  have "leader_leases_update (t_upsert fst (''leader'', c, now + ttl) (\<lambda>r. (fst r, c, now + ttl))) d
      = set_leader c (now + ttl) d"
    using leader_of_None[of d]
    by (cases d) (auto simp: set_leader_def t_upsert_def split: option.splits)
  then show ?thesis
    by (simp add: Postgres_AcquireLeader_def Let_def run_simps free)
qed

lemma AcquireLeader_same_run:
  "Postgres_AcquireLeader now c ttl (d, []) = Sqlite_AcquireLeader now c ttl (d, [])"
  by (simp only: Postgres_AcquireLeader_run AcquireLeader_run)

definition whole_db :: "db \<Rightarrow> bool" where
  "whole_db d \<longleftrightarrow> (\<forall>r\<in>set (jobs d). case j_run_at r of None \<Rightarrow> True | Some t \<Rightarrow> whole t)"

lemma pg_due_same:
  assumes "whole now" "case j_run_at r of None \<Rightarrow> True | Some t \<Rightarrow> whole t"
  shows "pg_due now r = due now r"
  using assms
  by (auto simp: pg_due_def due_def whole_iff dvd_def split: option.splits)

lemma candidates_same:
  assumes "whole now" "whole_db d"
  shows "Postgres_candidates now q d = Sqlite_candidates now q d"
proof -
  have "filter (\<lambda>r. j_queue r = q \<and> j_status r = Pending \<and> pg_due now r) (jobs d)
      = filter (\<lambda>r. j_queue r = q \<and> j_status r = Pending \<and> due now r) (jobs d)"
    using assms by (intro filter_cong) (auto simp: whole_db_def pg_due_same)
  then show ?thesis by (simp add: Postgres_candidates_def Sqlite_candidates_def)
qed

text \<open>The row lock of the first matching candidate is free, so it is taken.\<close>

lemma tryLockJob_run:
  assumes "distinct (map j_id (jobs d))" "r \<in> set (jobs d)" "j_status r = Pending"
  shows "Postgres_tryLockJob True (\<lambda>_. False) now (j_id r) (d, [])
    = Some (Inr (Some (Sqlite_scanJobFrom r)), (jobs_update (t_update (\<lambda>x. j_id x = j_id r)
        (\<lambda>r. r\<lparr>j_status := Running, j_locked_at := Some now\<rparr>)) d, []))"
proof -
  have f: "t_find (\<lambda>x. j_id x = j_id r \<and> j_status x = Pending) (jobs d) = Some r"
    using assms by (auto simp: t_find_def find_Some_iff distinct_map inj_on_def in_set_conv_nth
        nth_eq_iff_index_eq)
       (metis (no_types, lifting) assms(1) distinct_conv_nth length_map less_trans nth_map order_less_irrefl)
  have u: "t_update (\<lambda>x. j_id x = j_id r \<and> j_status x = Pending) g (jobs d)
      = t_update (\<lambda>x. j_id x = j_id r) g (jobs d)" for g
    using assms unfolding t_update_def by (intro map_cong) (auto simp: distinct_map inj_on_def)
  have sc: "Sqlite_scanJobFrom (r\<lparr>j_status := Running, j_locked_at := Some now\<rparr>) = Sqlite_scanJobFrom r"
    by (simp add: Sqlite_scanJobFrom_def Let_def)
  show ?thesis
    by (cases d) (use f u in \<open>simp add: Postgres_tryLockJob_def run_simps engine_def Let_def sc\<close>)
qed

lemma lockFirstMatch_run:
  assumes "distinct (map j_id (jobs d))" "\<forall>r\<in>set rows. r \<in> set (jobs d) \<and> j_status r = Pending"
  shows "Postgres_lockFirstMatch True (\<lambda>_. False) now rows ws (d, [])
    = (case Sqlite_findMatchingJob rows ws of
         None \<Rightarrow> Some (Inr None, (d, []))
       | Some env \<Rightarrow> Some (Inr (Some env), (jobs_update (t_update (\<lambda>x. j_id x = JobID env)
           (\<lambda>r. r\<lparr>j_status := Running, j_locked_at := Some now\<rparr>)) d, [])))"
  using assms(2)
proof (induction rows)
  case (Cons r rows)
  then show ?case
    by (simp add: Let_def run_simps tryLockJob_run[OF assms(1)] del: Postgres_tryLockJob_def)
qed (simp add: run_simps)

lemma Dequeue_same_run:
  assumes "whole now" "whole_db d" "distinct (map j_id (jobs d))"
  shows "Postgres_Dequeue True (\<lambda>_. False) now q ws (d, []) = Sqlite_Dequeue now q ws (d, [])"
proof -
  have "\<forall>r\<in>set (Sqlite_candidates now q d). r \<in> set (jobs d) \<and> j_status r = Pending"
    by (auto simp: Sqlite_candidates_def dest: in_set_takeD)
  note l = lockFirstMatch_run[OF assms(3) this]
  show ?thesis
    using wholeD[OF assms(1)]
    by (simp add: Postgres_Dequeue_def Postgres_dequeueTx_def Sqlite_Dequeue_def Sqlite_dequeueTx_def
        with_tx_if_def run_simps candidates_same[OF assms(1,2)] l split: option.splits)
qed

end
