(* ===== verification/PostgresInv.thy ===== *)
theory PostgresInv
  imports PostgresAgree
begin

text \<open>
  The PostgreSQL backend as a transition system over the calls of a client, a worker or the
  dashboard: in every database that some sequence of calls leads to, whatever statements fail,
  whatever rows other transactions hold and whatever the driver does, the primary keys hold and
  every dependency row belongs to a job, as the foreign key of the schema demands.
\<close>

section \<open>Calls\<close>

fun pg_call :: "bool \<Rightarrow> (string \<Rightarrow> bool) \<Rightarrow> (time \<Rightarrow> string) \<Rightarrow> call \<Rightarrow> unit sql" where
  "pg_call pl locked fmt (CEnqueue now env) = Postgres_Enqueue now env"
| "pg_call pl locked fmt (CDequeue now q ws) = voidS (Postgres_Dequeue pl locked now q ws)"
| "pg_call pl locked fmt (CPollScheduled q) = Postgres_PollScheduled q"
| "pg_call pl locked fmt (CAck now rnd j) = Postgres_Ack now rnd j"
| "pg_call pl locked fmt (CFail stack now j e) = Postgres_Fail stack now j e"
| "pg_call pl locked fmt (CPostponeJob now j q delay) = Postgres_PostponeJob now j q delay"
| "pg_call pl locked fmt (CAcquireLeader now c ttl) = voidS (Postgres_AcquireLeader now c ttl)"
| "pg_call pl locked fmt (CReleaseLeader c) = Postgres_ReleaseLeader c"
| "pg_call pl locked fmt (CArchiveJobs now age) = voidS (Postgres_ArchiveJobs now age)"
| "pg_call pl locked fmt (CEnqueueWorkflow now js) = Postgres_EnqueueWorkflow now js"
| "pg_call pl locked fmt (CCreateBatch now b cb ex) = Postgres_CreateBatch now b cb ex"
| "pg_call pl locked fmt (CEnqueueInBatch now b env) = Postgres_EnqueueInBatch now b env"
| "pg_call pl locked fmt (CSubmitBatch now rnd b) = Postgres_SubmitBatch now rnd b"
| "pg_call pl locked fmt (CFailExpiredBatches now) = Postgres_FailExpiredBatches now"
| "pg_call pl locked fmt (CRetry now j) = Postgres_Retry now j"
| "pg_call pl locked fmt (CCancel stack now j) = Postgres_Cancel stack now j"
| "pg_call pl locked fmt (CClearQueue q) = Postgres_ClearQueue q"
| "pg_call pl locked fmt (CRetryAllFailed now) = Postgres_RetryAllFailed now"
| "pg_call pl locked fmt CPurgeAllFailed = Postgres_PurgeAllFailed"
| "pg_call pl locked fmt (CPurgeExpiredDLQ now ttl) = Postgres_PurgeExpiredDLQ now ttl"
| "pg_call pl locked fmt (CBulkRetry now js) = Postgres_BulkRetry now js"
| "pg_call pl locked fmt (CBulkCancel js) = Postgres_BulkCancel js"
| "pg_call pl locked fmt (CBulkPurge js) = Postgres_BulkPurge js"
| "pg_call pl locked fmt (CRetryModified now j args) = Postgres_RetryModified now j args"
| "pg_call pl locked fmt (CGetStats now) = voidS (Postgres_GetStats fmt now)"
| "pg_call pl locked fmt (CGetActiveProcesses now) = voidS (Postgres_GetActiveProcesses now)"
| "pg_call pl locked fmt (CGetJobs q s p l) = voidS (Postgres_GetJobs fmt q s p l)"
| "pg_call pl locked fmt (CGetJobDetail j) = voidS (Postgres_GetJobDetail j)"
| "pg_call pl locked fmt (CRegisterProcess info) = Postgres_RegisterProcess info"
| "pg_call pl locked fmt (CHeartbeatProcess now p) = Postgres_HeartbeatProcess now p"
| "pg_call pl locked fmt (CIsQueuePaused q) = voidS (Postgres_IsQueuePaused q)"
| "pg_call pl locked fmt (CPauseQueue q) = Postgres_PauseQueue q"
| "pg_call pl locked fmt (CResumeQueue q) = Postgres_ResumeQueue q"
| "pg_call pl locked fmt (CRegisterCronJobs now cs) = Postgres_RegisterCronJobs now cs"
| "pg_call pl locked fmt CGetCronSchedules = voidS Postgres_GetCronSchedules"
| "pg_call pl locked fmt (CSaveCronSchedule now c) = Postgres_SaveCronSchedule now c"
| "pg_call pl locked fmt (CDeleteCronSchedule n) = Postgres_DeleteCronSchedule n"
| "pg_call pl locked fmt (CLockCronExecution now n t) = voidS (Postgres_LockCronExecution now n t)"
| "pg_call pl locked fmt (CGetRunningJobsCount n) = voidS (Postgres_GetRunningJobsCount n)"
| "pg_call pl locked fmt (CCheckRateLimit now n l per) = voidS (Postgres_CheckRateLimit now n l per)"

inductive postgres_step :: "db \<Rightarrow> db \<Rightarrow> bool" where
  "pg_call pl locked fmt c (d, fs) = Some (r, (d', fs')) \<Longrightarrow> postgres_step d d'"

inductive pg_reachable :: "db \<Rightarrow> bool" where
  start: "pg_reachable empty_db"
| step: "pg_reachable d \<Longrightarrow> postgres_step d d' \<Longrightarrow> pg_reachable d'"

inductive_cases postgres_stepE: "postgres_step d d'"

lemma pg_reachable_run:
  "pg_reachable d \<Longrightarrow> pg_call pl locked fmt c (d, fs) = Some (r, (d', fs')) \<Longrightarrow> pg_reachable d'"
  by (blast intro: pg_reachable.step postgres_step.intros)

section \<open>The constraints of the schema\<close>

definition fk_ok :: "db \<Rightarrow> bool" where
  "fk_ok d \<longleftrightarrow> (\<forall>(c, p)\<in>set (job_dependencies d). has_key j_id c (jobs d))"

definition schema_ok :: "db \<Rightarrow> bool" where
  "schema_ok d \<longleftrightarrow> pk_ok d \<and> fk_ok d"

lemma fk_iff: "fk_ok d \<longleftrightarrow> fst ` set (job_dependencies d) \<subseteq> j_id ` set (jobs d)"
  by (auto simp: fk_ok_def has_key_iff)

lemma key_set_upsert:
  assumes "\<And>x. key (f x) = key x"
  shows "key ` set (t_upsert key r f t) = insert (key r) (key ` set t)"
  using t_update_key_set[of key f, OF assms] by (auto simp: t_upsert_def has_key_iff)

lemmas schema_simps = schema_ok_def fk_iff pk_simps key_set_upsert t_update_key_set image_Un

lemma keeps_tryX:
  assumes "keeps I m"
  shows "keeps I (tryX q m)"
  unfolding keeps_def
proof (rule tripleI)
  fix d fs e d' fs' assume "tryX q m (d, fs) = Some (Inl e, (d', fs'))"
  then show "I d'" by (auto simp: tryX_def split: option.splits)
next
  fix d fs x d' fs' assume "I d" "tryX q m (d, fs) = Some (Inr x, (d', fs'))"
  then obtain r fs1 where "m (d, fs) = Some (r, (d', fs1))"
    by (auto simp: tryX_def split: option.splits)
  from keepsD[OF assms this] \<open>I d\<close> show "I d'" by blast
qed

lemma keeps_engine:
  assumes "\<And>d. I d \<Longrightarrow> I (snd (g d))"
  shows "keeps I (engine g)"
  unfolding keeps_def
proof (rule triple_engine)
  fix d assume "I d"
  then have "I (snd (g d))" by (rule assms)
  then show "case g d of (Inl e, d') \<Rightarrow> I d' | (Inr x, d') \<Rightarrow> I d'"
    by (cases "g d"; cases "fst (g d)") auto
qed

lemmas pg_keeps = keeps_rules keeps_tryX keeps_engine

lemma schema_delete:
  assumes "schema_ok d"
  shows "schema_ok (pg_delete_jobs P d)"
proof -
  have "has_key j_id c (t_delete P (jobs d))"
    if "(c, p) \<in> set (job_dependencies d)" "\<not> (\<exists>r\<in>set (jobs d). P r \<and> j_id r = c)" for c p
    using assms that by (fastforce simp: schema_ok_def fk_ok_def has_key_def t_delete_def)
  then have "fk_ok (pg_delete_jobs P d)"
    by (fastforce simp: fk_ok_def pg_delete_jobs_def t_delete_def)
  moreover have "pk_ok (pg_delete_jobs P d)"
    using assms by (simp add: schema_ok_def pk_simps pg_delete_jobs_def)
  ultimately show ?thesis by (simp add: schema_ok_def)
qed

lemma schema_acquireUniqueLock: "keeps schema_ok (Postgres_acquireUniqueLock q now env)"
  unfolding Postgres_acquireUniqueLock_def Postgres_tryInsertLock_def
    Postgres_checkLockCollision_def Postgres_handleLockCollision_def Let_def
  by (intro pg_keeps) (simp_all add: schema_simps)

lemma schema_deleteUniqueLock: "keeps schema_ok (Postgres_deleteUniqueLock q k)"
  unfolding Postgres_deleteUniqueLock_def by (intro pg_keeps) (simp_all add: schema_simps)

lemma schema_Enqueue: "keeps schema_ok (Postgres_Enqueue now env)"
  unfolding Postgres_Enqueue_def Postgres_insertJob_def Let_def
  by (intro pg_keeps schema_acquireUniqueLock)
    (auto simp: schema_simps pg_default_job_row_def)

lemma schema_lockFirstMatch: "keeps schema_ok (Postgres_lockFirstMatch pl locked now rows ws)"
proof (induction rows)
  case (Cons r rows)
  have "keeps schema_ok (Postgres_tryLockJob pl locked now j)" for j
    unfolding Postgres_tryLockJob_def Let_def
    by (intro pg_keeps) (auto simp: schema_simps split: option.splits)
  then show ?case
    unfolding Postgres_lockFirstMatch.simps Let_def by (intro pg_keeps Cons.IH)
qed (simp add: keeps_ret)

lemma schema_Dequeue: "keeps schema_ok (Postgres_Dequeue pl locked now q ws)"
  unfolding Postgres_Dequeue_def Postgres_dequeueTx_def
  by (intro pg_keeps schema_lockFirstMatch)

lemma schema_leader:
  "keeps schema_ok (Postgres_AcquireLeader now c ttl)" "keeps schema_ok (Postgres_ReleaseLeader c)"
  unfolding Postgres_AcquireLeader_def Postgres_ReleaseLeader_def Let_def
  by (intro pg_keeps; simp add: schema_simps)+

lemma distinct_fold_insert_ignore:
  "distinct (map key t) \<Longrightarrow> distinct (map key (fold (t_insert_ignore key) rs t))"
  by (induction rs arbitrary: t) (auto intro: t_insert_ignore_keys)

lemma schema_ArchiveJobs: "keeps schema_ok (Postgres_ArchiveJobs now age)"
  unfolding Postgres_ArchiveJobs_def Let_def
  by (intro pg_keeps schema_delete) (auto simp: schema_ok_def pk_ok_def fk_iff distinct_fold_insert_ignore)

lemma schema_EnqueueWorkflow: "keeps schema_ok (Postgres_EnqueueWorkflow now js)"
proof -
  have dep: "schema_ok d \<Longrightarrow> has_key j_id c (jobs d)
      \<Longrightarrow> schema_ok (job_dependencies_update (t_insert_ignore (\<lambda>q. q) (c, p)) d)" for d c p
    by (auto simp: schema_simps t_insert_ignore_def)
  show ?thesis
    unfolding Postgres_EnqueueWorkflow_def Postgres_insertWorkflowJobs_def Postgres_insertWorkflowJob_def
      Postgres_execInsertJob_def Postgres_insertJobDependencies_def Let_def
    by (intro pg_keeps schema_acquireUniqueLock dep) (auto simp: schema_simps pg_default_job_row_def)
qed

lemma schema_batch:
  "keeps schema_ok (Postgres_CreateBatch now b cb ex)"
  "keeps schema_ok (Postgres_EnqueueInBatch now b env)"
  "keeps schema_ok (Postgres_SubmitBatch now rnd b)"
  "keeps schema_ok (Postgres_finishAck now rnd b)"
  unfolding Postgres_CreateBatch_def Postgres_EnqueueInBatch_def Postgres_updateBatchCount_def
    Postgres_insertBatchJob_def Postgres_SubmitBatch_def Postgres_processSubmit_def
    Postgres_checkBatchExpired_def Postgres_sealBatch_def Postgres_completeBatchAndEnqueue_def
    Postgres_finishAck_def Postgres_handleBatchAck_def Postgres_updateBatchPending_def
    Postgres_markBatchCompleted_def Postgres_enqueueCallback_def set_batch_status_def Let_def
  by (intro pg_keeps schema_acquireUniqueLock; auto simp: schema_simps pg_default_job_row_def)+

lemma schema_Ack: "keeps schema_ok (Postgres_Ack now rnd j)"
  unfolding Postgres_Ack_def Postgres_performAck_def Postgres_resolveDependencies_def
    Postgres_queryChildJobIDs_def Postgres_checkBlockedChildren_def Let_def
  by (intro pg_keeps schema_deleteUniqueLock schema_batch) (auto simp: schema_simps t_delete_def)

lemma schema_transitionToDead:
  "(\<And>j. keeps schema_ok (casc j)) \<Longrightarrow> keeps schema_ok (Postgres_transitionToDead casc now j e k q b)"
  unfolding Postgres_transitionToDead_def set_batch_status_def
  by (intro pg_keeps schema_deleteUniqueLock) (auto simp: schema_simps)

lemma schema_cascade: "keeps schema_ok (Postgres_cascadeDependencyFailure n now j)"
proof (induction n arbitrary: j)
  case (Suc n)
  show ?case
    unfolding Postgres_cascadeDependencyFailure.simps Postgres_failChildren_def
      Postgres_queryChildJobIDs_def Let_def
    by (intro pg_keeps schema_transitionToDead Suc.IH) (auto simp: schema_simps t_delete_def)
qed (simp add: keeps_crash)

lemma schema_Fail: "keeps schema_ok (Postgres_Fail stack now j e)"
  unfolding Postgres_Fail_def Postgres_performFail_def Let_def
  by (intro pg_keeps schema_transitionToDead schema_cascade) (auto simp: schema_simps)

lemma schema_Cancel: "keeps schema_ok (Postgres_Cancel stack now j)"
  unfolding Postgres_Cancel_def Let_def
  by (intro pg_keeps schema_deleteUniqueLock schema_cascade schema_delete)

lemma schema_admin:
  "keeps schema_ok (Postgres_ClearQueue q)" "keeps schema_ok (Postgres_Retry now j)"
  "keeps schema_ok (Postgres_RetryAllFailed now)" "keeps schema_ok Postgres_PurgeAllFailed"
  "keeps schema_ok (Postgres_PurgeExpiredDLQ now ttl)" "keeps schema_ok (Postgres_FailExpiredBatches now)"
  "keeps schema_ok (Postgres_PostponeJob now j q delay)" "keeps schema_ok (Postgres_BulkRetry now js)"
  "keeps schema_ok (Postgres_BulkPurge js)" "keeps schema_ok (Postgres_RetryModified now j args)"
  unfolding Postgres_ClearQueue_def Postgres_Retry_def Postgres_RetryAllFailed_def
    Postgres_PurgeAllFailed_def Postgres_PurgeExpiredDLQ_def Postgres_FailExpiredBatches_def
    Postgres_PostponeJob_def Postgres_BulkRetry_def Postgres_BulkPurge_def Postgres_RetryModified_def Let_def
  by (intro pg_keeps schema_delete; auto simp: schema_simps pg_reset_row_def)+

lemma schema_BulkCancel: "keeps schema_ok (Postgres_BulkCancel js)"
  unfolding Postgres_BulkCancel_def Postgres_cancelOneJob_def
  by (intro pg_keeps schema_deleteUniqueLock schema_delete)

lemma schema_GetActiveProcesses: "keeps schema_ok (Postgres_GetActiveProcesses now)"
  unfolding Postgres_GetActiveProcesses_def Postgres_markLeader_def Let_def
  by (intro pg_keeps) (simp_all add: schema_simps)

lemma schema_GetStats: "keeps schema_ok (Postgres_GetStats fmt now)"
  unfolding Postgres_GetStats_def Postgres_fetchQueueStats_def Postgres_applyPausedQueues_def
    Postgres_fetchRecentJobs_def Postgres_fetchCronJobs_def Postgres_loadStaticCrons_def
    Postgres_loadDynamicCrons_def Postgres_loadActiveProcesses_def
  by (intro pg_keeps schema_GetActiveProcesses)

lemma schema_rest:
  "keeps schema_ok (Postgres_RegisterProcess info)" "keeps schema_ok (Postgres_HeartbeatProcess now p)"
  "keeps schema_ok (Postgres_PauseQueue q)" "keeps schema_ok (Postgres_ResumeQueue q)"
  "keeps schema_ok (Postgres_RegisterCronJobs now cs)" "keeps schema_ok (Postgres_SaveCronSchedule now c)"
  "keeps schema_ok (Postgres_DeleteCronSchedule nm)" "keeps schema_ok (Postgres_LockCronExecution now nm t)"
  "keeps schema_ok (Postgres_CheckRateLimit now nm l per)"
  unfolding Postgres_RegisterProcess_def Postgres_HeartbeatProcess_def Postgres_PauseQueue_def
    Postgres_ResumeQueue_def Postgres_RegisterCronJobs_def Postgres_insertCronJobsTx_def
    Postgres_SaveCronSchedule_def Postgres_DeleteCronSchedule_def Postgres_LockCronExecution_def
    Postgres_CheckRateLimit_def Postgres_evaluateRateLimit_def Let_def
  by (intro pg_keeps; simp add: schema_simps)+

lemma schema_reads:
  "keeps schema_ok (Postgres_GetJobs fmt q s p l)" "keeps schema_ok (Postgres_GetJobDetail j)"
  "keeps schema_ok (Postgres_IsQueuePaused q)" "keeps schema_ok Postgres_GetCronSchedules"
  "keeps schema_ok (Postgres_GetRunningJobsCount n)" "keeps schema_ok (Postgres_PollScheduled q)"
  unfolding Postgres_GetJobs_def Postgres_GetJobDetail_def Postgres_IsQueuePaused_def
    Postgres_GetCronSchedules_def Postgres_GetRunningJobsCount_def Postgres_PollScheduled_def Let_def
  by (auto intro!: pg_keeps split: prod.splits)

lemmas schema_ops = schema_Enqueue schema_Dequeue schema_leader schema_ArchiveJobs
  schema_EnqueueWorkflow schema_batch schema_Ack schema_Fail schema_Cancel schema_admin
  schema_BulkCancel schema_GetActiveProcesses schema_GetStats schema_rest schema_reads

lemma schema_pg_call: "keeps schema_ok (pg_call pl locked fmt c)"
  by (cases c) (simp_all add: schema_ops keeps_void)

lemma schema_empty: "schema_ok empty_db"
  by (simp add: schema_ok_def fk_ok_def pk_empty) (simp add: empty_db_def)

end
