(* ===== verification/PostgresQueue.thy ===== *)
theory PostgresQueue
  imports PostgresInv
begin

text \<open>
  What the PostgreSQL backend promises of its queue, and where it behaves differently from the
  SQLite backend: agreement of the two, replies and databases, on the calls that delete no job,
  exclusive dequeueing
  from stale candidate rows, the dequeue that needs a pipelining driver, the archive that drops
  the newer of two jobs with one id, and the acknowledgement that ignores a failed read.
\<close>

section \<open>Agreement of the SQL backends\<close>













section \<open>Dequeueing from stale rows\<close>

lemma tryLockJob_cases:
  assumes "Postgres_tryLockJob pl locked now j (d, fs) = Some (Inr x, (d', fs'))"
  shows "(x = None \<and> d' = d)
    \<or> (\<exists>r\<in>set (jobs d). j_id r = j \<and> j_status r = Pending \<and> \<not> locked j
        \<and> x = Some (Sqlite_scanJobFrom r)
        \<and> d' = jobs_update (t_update (\<lambda>r. j_id r = j \<and> j_status r = Pending \<and> \<not> locked j)
             (\<lambda>r. r\<lparr>j_status := Running, j_locked_at := Some now\<rparr>)) d)"
proof -
  have sc: "Sqlite_scanJobFrom (r\<lparr>j_status := Running, j_locked_at := Some now\<rparr>) = Sqlite_scanJobFrom r" for r
    by (simp add: Sqlite_scanJobFrom_def Let_def)
  show ?thesis
    using assms
    by (auto simp: Postgres_tryLockJob_def bindS_def tryS_def engine_def Let_def ret_def throw_def sc
        split: if_splits option.splits list.splits bool.splits dest!: t_find_SomeD)
qed

definition pg_pending :: "string \<Rightarrow> db \<Rightarrow> bool" where
  "pg_pending j d \<longleftrightarrow> (\<exists>r\<in>set (jobs d). j_id r = j \<and> j_status r = Pending)"

text \<open>Whatever rows were read earlier, a job is handed out only if it is pending now.\<close>

lemma lockFirstMatch_taken:
  assumes "Postgres_lockFirstMatch pl locked now rows ws (d, fs) = Some (Inr (Some env), (d', fs'))"
  shows "pg_pending (JobID env) d \<and> \<not> locked (JobID env) \<and> \<not> pg_pending (JobID env) d'
    \<and> (\<forall>j. pg_pending j d' \<longrightarrow> pg_pending j d)"
  using assms
proof (induction rows arbitrary: d fs)
  case (Cons r rows)
  show ?case
  proof (cases "matchTags (Tags (Sqlite_scanJobFrom r)) ws")
    case False
    with Cons.prems have "Postgres_lockFirstMatch pl locked now rows ws (d, fs) = Some (Inr (Some env), (d', fs'))"
      by (simp add: Let_def)
    then show ?thesis by (rule Cons.IH)
  next
    case True
    with Cons.prems obtain x d1 fs1 where
      t: "Postgres_tryLockJob pl locked now (j_id r) (d, fs) = Some (Inr x, (d1, fs1))"
      "(case x of Some e \<Rightarrow> ret (Some e) | None \<Rightarrow> Postgres_lockFirstMatch pl locked now rows ws) (d1, fs1)
        = Some (Inr (Some env), (d', fs'))"
      by (auto simp: Let_def elim: bindS_cases)
    show ?thesis
    proof (cases x)
      case None
      with tryLockJob_cases[OF t(1)] t(2) have
        "Postgres_lockFirstMatch pl locked now rows ws (d, fs1) = Some (Inr (Some env), (d', fs'))" by auto
      then show ?thesis by (rule Cons.IH)
    next
      case (Some e)
      with t(2) have "e = env" "d' = d1" by (auto simp: ret_def)
      with tryLockJob_cases[OF t(1)] Some show ?thesis
        by (auto simp: pg_pending_def t_update_def)
    qed
  qed
qed (simp add: ret_def)

text \<open>
  Workers on PostgreSQL: each reads candidate rows at some time, possibly long before, and then
  locks one. \<open>pg_takes\<close> is a series of such lockings with what happens in between.
\<close>

record taking =
  t_pipelined :: bool
  t_locked :: "string \<Rightarrow> bool"
  t_now :: time
  t_rows :: "job_row list"
  t_tags :: "string list"
  t_fails :: "bool list"

fun pg_takes :: "taking list \<Rightarrow> db \<Rightarrow> string list" where
  "pg_takes [] d = []"
| "pg_takes (t # ts) d =
     (case Postgres_lockFirstMatch (t_pipelined t) (t_locked t) (t_now t) (t_rows t) (t_tags t) (d, t_fails t) of
        Some (Inr (Some env), (d', fs')) \<Rightarrow> JobID env # pg_takes ts d'
      | _ \<Rightarrow> pg_takes ts d)"

lemma pg_takes_pending: "distinct (pg_takes ts d) \<and> (\<forall>j\<in>set (pg_takes ts d). pg_pending j d)"
proof (induction ts arbitrary: d)
  case (Cons t ts)
  show ?case
  proof (cases "Postgres_lockFirstMatch (t_pipelined t) (t_locked t) (t_now t) (t_rows t) (t_tags t) (d, t_fails t)")
    case (Some rc)
    show ?thesis
    proof (cases "\<exists>env d' fs'. rc = (Inr (Some env), (d', fs'))")
      case True
      then obtain env d' fs' where rc: "rc = (Inr (Some env), (d', fs'))" by blast
      from lockFirstMatch_taken[OF Some[unfolded rc]] Cons.IH[of d'] show ?thesis
        by (auto simp: Some rc)
    next
      case False
      then have "pg_takes (t # ts) d = pg_takes ts d"
        by (auto simp: Some split: prod.splits sum.splits option.splits)
      then show ?thesis using Cons.IH by simp
    qed
  qed (simp add: Cons.IH)
qed simp

section \<open>Drivers with one statement in flight\<close>

lemma lockFirstMatch_busy:
  "Postgres_lockFirstMatch False locked now rows ws c
    = (if \<exists>r\<in>set rows. matchTags (Tags (Sqlite_scanJobFrom r)) ws then Some (Inl ErrEngine, c)
       else Some (Inr None, c))"
  by (induction rows) (simp_all add: Let_def Postgres_tryLockJob_def run_simps)

lemma Dequeue_busy_run:
  "Postgres_Dequeue False locked now q ws (d, [])
    = Some (if \<exists>r\<in>set (Postgres_candidates now q d). matchTags (Tags (Sqlite_scanJobFrom r)) ws
        then Inl ErrEngine else Inr None, (d, []))"
  by (simp add: Postgres_Dequeue_def Postgres_dequeueTx_def with_tx_if_def run_simps lockFirstMatch_busy)

section \<open>Archival\<close>

lemma ArchiveJobs_run [run_simps]:
  "Postgres_ArchiveJobs now age (d, []) =
     (let old = filter (archivable (now - age)) (jobs d) in
      Some (Inr (int (length old)),
        (pg_delete_jobs (archivable (now - age))
           (archived_jobs_update (fold (t_insert_ignore j_id) old) d), [])))"
  by (simp add: Postgres_ArchiveJobs_def Let_def with_tx_unfold run_simps)

lemma fold_insert_ignore_old:
  "has_key j_id k a \<Longrightarrow> t_find (\<lambda>r. j_id r = k) (fold (t_insert_ignore j_id) rs a) = t_find (\<lambda>r. j_id r = k) a"
proof (induction rs arbitrary: a)
  case (Cons r rs)
  have "has_key j_id k (t_insert_ignore j_id r a)" using Cons.prems by (auto simp: t_insert_ignore_def has_key_def)
  moreover have "t_find (\<lambda>r. j_id r = k) (t_insert_ignore j_id r a) = t_find (\<lambda>r. j_id r = k) a"
    using Cons.prems t_find_None_key[of j_id k a]
    by (auto simp: t_insert_ignore_def t_find_append split: option.splits)
  ultimately show ?case using Cons.IH by simp
qed simp

section \<open>Acknowledging after a failed read\<close>

lemma checkBlocked_frame:
  "\<exists>js. Postgres_checkBlockedChildren now cs (d, []) = Some (Inr (), (jobs_update (\<lambda>_. js) d, []))"
proof (induction cs arbitrary: d)
  case Nil
  show ?case by (intro exI[of _ "jobs d"]) (simp add: Postgres_checkBlockedChildren_def run_simps)
next
  case (Cons c cs)
  obtain js where s: "(bindS (query (\<lambda>d. length (filter (\<lambda>(x, p). x = c) (job_dependencies d)))) (\<lambda>count.
        if count = 0
        then exec (jobs_update (t_update (\<lambda>r. j_id r = c)
               (\<lambda>r. r\<lparr>j_status := Pending, j_updated_at := now\<rparr>)))
        else ret ())) (d, []) = Some (Inr (), (jobs_update (\<lambda>_. js) d, []))"
  proof (cases "length (filter (\<lambda>(x, p). x = c) (job_dependencies d)) = 0")
    case True
    then show thesis
      by (intro that[of "t_update (\<lambda>r. j_id r = c)
               (\<lambda>r. r\<lparr>j_status := Pending, j_updated_at := now\<rparr>) (jobs d)"])
        (cases d, simp add: run_simps)
  next
    case False
    then show thesis
      by (intro that[of "jobs d"]) (cases d, simp add: run_simps)
  qed
  from Cons.IH[of "jobs_update (\<lambda>_. js) d"] obtain js' where
    "Postgres_checkBlockedChildren now cs (jobs_update (\<lambda>_. js) d, [])
      = Some (Inr (), (jobs_update (\<lambda>_. js') d, []))" by auto
  with s show ?case
    unfolding Postgres_checkBlockedChildren_def forS.simps then_run by simp blast
qed

lemma Ack_failed_read:
  "\<exists>d'. Postgres_Ack now rnd j (d, [True]) = Some (Inr (), (d', []))
     \<and> unique_locks d' = unique_locks d \<and> batches d' = batches d"
proof -
  let ?d1 = "jobs_update (t_update (\<lambda>r. j_id r = j)
              (\<lambda>r. r\<lparr>j_status := Processed, j_locked_at := None, j_updated_at := now\<rparr>)) d"
  let ?d2 = "job_dependencies_update (t_delete (\<lambda>(c, p). p = j)) ?d1"
  let ?cs = "map fst (filter (\<lambda>(c, p). p = j) (job_dependencies d))"
  obtain js where "Postgres_checkBlockedChildren now ?cs (?d2, [])
      = Some (Inr (), (jobs_update (\<lambda>_. js) ?d2, []))" using checkBlocked_frame by blast
  then have "Postgres_performAck now rnd j '''' '''' '''' (d, [])
      = Some (Inr (), (jobs_update (\<lambda>_. js) ?d2, []))"
    by (simp add: Postgres_performAck_def Postgres_deleteUniqueLock_def Postgres_finishAck_def
        Postgres_resolveDependencies_def Postgres_queryChildJobIDs_def run_simps)
  then have "Postgres_Ack now rnd j (d, [True]) = Some (Inr (), (jobs_update (\<lambda>_. js) ?d2, []))"
    by (simp add: Postgres_Ack_def tryX_def bindS_def query_row_def engine_def with_tx_unfold)
  then show ?thesis by (intro exI[of _ "jobs_update (\<lambda>_. js) ?d2"]) simp
qed


section \<open>Properties\<close>




text \<open>C27: dequeueing on PostgreSQL is exclusive. Workers that lock jobs one after the other,
  each from candidate rows it may have read at any earlier time, with any rows locked by other
  transactions and any failures, never get the same job, and only jobs pending at the start.\<close>

theorem postgres_dequeue_exclusive:
  "distinct (pg_takes ts d) \<and> set (pg_takes ts d) \<subseteq> j_id ` set (filter (\<lambda>r. j_status r = Pending) (jobs d))"
  using pg_takes_pending[of ts d] by (auto simp: pg_pending_def)

text \<open>\<open>Dequeue\<close> of PostgreSQL needs a driver that accepts a statement while rows are being
  read. With one that does not, it changes nothing and never returns a job: it fails whenever a
  candidate matches the worker's tags, and else finds nothing.\<close>

theorem postgres_dequeue_busy_connection:
  "Postgres_Dequeue False locked now q ws (d, [])
     = Some (if \<exists>r\<in>set (Postgres_candidates now q d). matchTags (Tags (Sqlite_scanJobFrom r)) ws
         then Inl ErrEngine else Inr None, (d, []))"
  by (rule Dequeue_busy_run)

text \<open>Archival on PostgreSQL loses jobs. If a finished job has the id of an archived one
  (it was enqueued again), archiving counts it, deletes it, and keeps the older row.\<close>

theorem postgres_archive_drops_rerun:
  assumes "job_by_id j d = Some r" "archivable (now - age) r"
    and "t_find (\<lambda>a. j_id a = j) (archived_jobs d) = Some old" "old \<noteq> r"
  shows "\<exists>n d'. Postgres_ArchiveJobs now age (d, []) = Some (Inr n, (d', [])) \<and> n \<ge> 1
    \<and> r \<notin> set (jobs d') \<and> t_find (\<lambda>a. j_id a = j) (archived_jobs d') = Some old"
proof -
  let ?P = "archivable (now - age)"
  have r: "r \<in> set (filter ?P (jobs d))" using assms(1,2) t_find_SomeD by (fastforce simp: job_by_id_def)
  have n: "int (length (filter ?P (jobs d))) \<ge> 1" using length_pos_if_in_set[OF r] by linarith
  have "has_key j_id j (archived_jobs d)" using assms(3) t_find_None_key[of j_id j "archived_jobs d"] by auto
  note keep = fold_insert_ignore_old[OF this]
  show ?thesis
    using n assms(2,3) keep by (simp add: run_simps Let_def pg_delete_jobs_def set_t_delete)
qed

definition rearchived_db :: db where
  "rearchived_db = empty_db\<lparr>
     jobs := [(pg_default_job_row 50 ''j'' ''q'' ''new'' [])\<lparr>j_status := Processed\<rparr>],
     archived_jobs := [(pg_default_job_row 10 ''j'' ''q'' ''old'' [])\<lparr>j_status := Processed\<rparr>]\<rparr>"

theorem postgres_archive_drops_rerun_witness:
  "\<exists>n d'. Postgres_ArchiveJobs 100 20 (rearchived_db, []) = Some (Inr n, (d', [])) \<and> n \<ge> 1
    \<and> hd (jobs rearchived_db) \<notin> set (jobs d')
    \<and> t_find (\<lambda>a. j_id a = ''j'') (archived_jobs d') = Some (hd (archived_jobs rearchived_db))"
  by (rule postgres_archive_drops_rerun; code_simp)

text \<open>\<open>Ack\<close> of PostgreSQL drops the error of reading the job. If that read fails, it still
  reports success, but the job's unique lock stays and its batch is not counted down; \<open>Ack\<close> of
  SQLite returns the error and changes nothing.\<close>

theorem postgres_ack_ignores_failed_read:
  assumes "job_by_id j d = Some r" "lock_of (lock_key (j_queue r) (j_unique_key r)) d = Some l"
  shows "(\<exists>d'. Postgres_Ack now rnd j (d, [True]) = Some (Inr (), (d', []))
      \<and> lock_of (lock_key (j_queue r) (j_unique_key r)) d' = Some l \<and> batches d' = batches d)
    \<and> Sqlite_Ack now rnd j (d, [True]) = Some (Inl ErrEngine, (d, []))"
proof -
  from Ack_failed_read[of now rnd j d] obtain d' where
    "Postgres_Ack now rnd j (d, [True]) = Some (Inr (), (d', []))" "unique_locks d' = unique_locks d"
    "batches d' = batches d" by blast
  moreover have "Sqlite_Ack now rnd j (d, [True]) = Some (Inl ErrEngine, (d, []))"
    by (simp add: Sqlite_Ack_def bindS_def tryS_def query_row_def engine_def throw_def)
  ultimately show ?thesis using assms(2) by (auto simp: lock_of_def)
qed

definition locked_job_db :: db where
  "locked_job_db = empty_db\<lparr>
     jobs := [(pg_default_job_row 0 ''j'' ''q'' ''A'' [])\<lparr>j_status := Running, j_unique_key := ''k''\<rparr>],
     unique_locks := [\<lparr>l_key = ''q:k'', l_job_id = ''j'', l_expires_at = 24 * hour\<rparr>]\<rparr>"

theorem postgres_ack_ignores_failed_read_witness:
  "\<exists>d'. Postgres_Ack 5 [] ''j'' (locked_job_db, [True]) = Some (Inr (), (d', []))
    \<and> lock_of ''q:k'' d' = Some \<lparr>l_key = ''q:k'', l_job_id = ''j'', l_expires_at = 24 * hour\<rparr>"
  using postgres_ack_ignores_failed_read[of "''j''" locked_job_db "hd (jobs locked_job_db)"
      "hd (unique_locks locked_job_db)" 5 "[]"]
  by (fastforce simp: locked_job_db_def job_by_id_def lock_of_def t_find_def lock_key_def pg_default_job_row_def)

end
