(* ===== verification/PostgresStorage.thy ===== *)
theory PostgresStorage
  imports PostgresQueue WorkerSettles
begin

text \<open>
  The PostgreSQL backend behind the interfaces of \<open>queue.go\<close>, and the two contracts it keeps: its
  leader lease is a lease, and it settles the jobs of a worker.
\<close>

section \<open>The leader lease\<close>

definition postgres_attempt :: "time \<Rightarrow> string \<Rightarrow> duration \<Rightarrow> db \<Rightarrow> bool \<Rightarrow> db \<Rightarrow> bool" where
  "postgres_attempt now c ttl d ok d' \<longleftrightarrow>
     (\<exists>fs r fs'. Postgres_AcquireLeader now c ttl (d, fs) = Some (r, (d', fs')) \<and> ok = (r = Inr True))"

definition postgres_release :: "string \<Rightarrow> db \<Rightarrow> db \<Rightarrow> bool" where
  "postgres_release c d d' \<longleftrightarrow> (\<exists>fs r fs'. Postgres_ReleaseLeader c (d, fs) = Some (r, (d', fs')))"

text \<open>One statement: it fails and changes nothing, or runs as if nothing were to fail.\<close>

lemma Postgres_AcquireLeader_cases:
  assumes "Postgres_AcquireLeader now c ttl (d, fs) = Some (r, (d', fs'))"
  shows "r = Inl ErrEngine \<and> d' = d
    \<or> r = Inr (lease_free now c d) \<and> d' = (if lease_free now c d then set_leader c (now + ttl) d else d)"
proof (cases "fs \<noteq> [] \<and> hd fs")
  case True
  then show ?thesis using assms
    by (cases fs) (auto simp: Postgres_AcquireLeader_def bindS_def exec_count_def engine_def Let_def)
next
  case False
  then have "map_option (\<lambda>(r, d, fs). (r, d)) (Postgres_AcquireLeader now c ttl (d, fs))
      = map_option (\<lambda>(r, d, fs). (r, d)) (Postgres_AcquireLeader now c ttl (d, []))"
    by (cases fs) (auto simp: Postgres_AcquireLeader_def bindS_def exec_count_def engine_def Let_def ret_def)
  with assms show ?thesis by (auto simp: Postgres_AcquireLeader_run)
qed

lemma postgres_attempt_cases:
  assumes "postgres_attempt now c ttl d ok d'"
  shows "if ok then lease_free now c d \<and> leader_of d' = Some (c, now + ttl) else d' = d"
  using assms unfolding postgres_attempt_def
  by (auto dest!: Postgres_AcquireLeader_cases simp: leader_of_set split: if_splits)

lemma postgres_release_sqlite: "postgres_release c d d' \<longleftrightarrow> sqlite_release c d d'"
  by (simp add: postgres_release_def sqlite_release_def same_sql)

interpretation postgres_lease: lease postgres_attempt postgres_release leader_of
proof
  fix now c ttl s s' h e
  show "postgres_attempt now c ttl s True s' \<Longrightarrow> leader_of s' = Some (c, now + ttl)"
    by (drule postgres_attempt_cases) simp
  show "postgres_attempt now c ttl s True s' \<Longrightarrow> leader_of s = Some (h, e) \<Longrightarrow> h = c \<or> e \<le> now"
    by (drule postgres_attempt_cases) (simp add: lease_free_def)
  show "postgres_attempt now c ttl s False s' \<Longrightarrow> leader_of s' = leader_of s"
    by (drule postgres_attempt_cases) simp
  show "postgres_release c s s' \<Longrightarrow> leader_of s = Some (h, e) \<Longrightarrow> h \<noteq> c \<Longrightarrow> leader_of s' = Some (h, e)"
    unfolding postgres_release_sqlite by (rule sqlite_lease.release_own)
qed

section \<open>The interfaces\<close>

definition postgres_client :: "time \<Rightarrow> bytes \<Rightarrow> conn ClientStorage" where
  "postgres_client now rnd =
     \<lparr>cs_Enqueue = Postgres_Enqueue now, cs_CreateBatch = Postgres_CreateBatch now,
      cs_EnqueueInBatch = Postgres_EnqueueInBatch now, cs_SubmitBatch = Postgres_SubmitBatch now rnd,
      cs_EnqueueWorkflow = Postgres_EnqueueWorkflow now\<rparr>"

definition postgres_worker ::
  "bool \<Rightarrow> (string \<Rightarrow> bool) \<Rightarrow> (time \<Rightarrow> string) \<Rightarrow> nat \<Rightarrow> time \<Rightarrow> bytes \<Rightarrow> conn WorkerPoolStorage" where
  "postgres_worker pipelined locked fmt stack now rnd =
     \<lparr>ws_Enqueue = Postgres_Enqueue now, ws_Dequeue = Postgres_Dequeue pipelined locked now,
      ws_Ack = Postgres_Ack now rnd, ws_Fail = Postgres_Fail stack now,
      ws_PollScheduled = Postgres_PollScheduled,
      ws_PostponeJob = Postgres_PostponeJob now, ws_RegisterProcess = Postgres_RegisterProcess,
      ws_LockCronExecution = Postgres_LockCronExecution now,
      ws_GetRunningJobsCount = Postgres_GetRunningJobsCount, ws_CheckRateLimit = Postgres_CheckRateLimit now,
      ws_GetStats = Postgres_GetStats fmt now, ws_IsQueuePaused = Postgres_IsQueuePaused,
      ws_RegisterCronJobs = Postgres_RegisterCronJobs now, ws_PurgeExpiredDLQ = Postgres_PurgeExpiredDLQ now,
      ws_FailExpiredBatches = Postgres_FailExpiredBatches now,
      ws_GetCronSchedules = Postgres_GetCronSchedules,
      ws_AcquireLeader = Postgres_AcquireLeader now, ws_ReleaseLeader = Postgres_ReleaseLeader,
      ws_ArchiveJobs = Postgres_ArchiveJobs now\<rparr>"

section \<open>Settling\<close>

lemma ready_conn: "sqlite_ready stack rnd c \<Longrightarrow> c = (fst c, [])"
  by (cases c) (simp add: sqlite_ready_def)

text \<open>On a whole second of the clock \<open>Ack\<close> and \<open>Fail\<close> do what they do on SQLite.\<close>

interpretation postgres_settling:
  settling "postgres_worker pipelined locked fmt stack (cur_ts now) rnd" sqlite_status "sqlite_ready stack rnd"
  for pipelined locked fmt stack now rnd
proof
  fix c j e
  have w: "whole (cur_ts now)" by (simp add: whole_def cur_ts_def)
  assume a: "sqlite_ready stack rnd c" "sqlite_status c j = Some Running"
  note c = ready_conn[OF a(1)]
  show "\<exists>c'. ws_Ack (postgres_worker pipelined locked fmt stack (cur_ts now) rnd) j c = Some (Inr (), c')
      \<and> sqlite_status c' j = Some Processed"
    using sqlite_ack_settles[OF a, of "cur_ts now"] agreeD[OF agree_Ack[OF w], of rnd j "fst c"]
    by (simp add: postgres_worker_def flip: c)
  show "\<exists>c'. ws_Fail (postgres_worker pipelined locked fmt stack (cur_ts now) rnd) j e c = Some (Inr (), c')
      \<and> sqlite_status c' j \<in> {Some Pending, Some Dead}"
    using sqlite_fail_settles[OF a, of "cur_ts now" e] agreeD[OF agree_Fail[OF w], of stack j e "fst c"]
    by (simp add: postgres_worker_def flip: c)
qed

text \<open>A worker on PostgreSQL settles every job it runs, and there is one leader.\<close>

lemmas postgres_executeJob_settles = postgres_settling.execute_settles
lemmas postgres_leader_exclusive = postgres_lease.held_while_running

end
