(* ===== verification/Float64.thy ===== *)
theory Float64
  imports GoLib Complex_Main "HOL-Library.Log_Nat"
begin

text \<open>
  Go's \<open>float64\<close> as far as the scores of the Redis backend use it: a value is the rational number
  it stands for, and \<open>f64\<close> rounds to 53 significant bits, half to even, as the conversions from
  integers and the arithmetic do. The numbers of the code are far from overflow and underflow.
\<close>

section \<open>Rounding\<close>

definition round_even :: "rat \<Rightarrow> int" where
  "round_even y = (let n = \<lfloor>y\<rfloor>; r = y - of_int n in
     if r < 1/2 then n else if r > 1/2 then n + 1 else if even n then n else n + 1)"

definition flog2 :: "rat \<Rightarrow> int" where
  "flog2 x = (let (n, d) = quotient_of x; k = bitlen n - bitlen d in
     if 2 powi k \<le> x then k else k - 1)"

definition f64 :: "rat \<Rightarrow> rat" where
  "f64 x = (if x = 0 then 0
     else let u = 2 powi (flog2 \<bar>x\<bar> - 52) in of_int (round_even (x / u)) * u)"

lemma round_even_int [simp]: "round_even (of_int n) = n"
  by (simp add: round_even_def Let_def)



lemma round_even_mono: "y \<le> z \<Longrightarrow> round_even y \<le> round_even z"
proof -
  assume le: "y \<le> z"
  then have f: "\<lfloor>y\<rfloor> \<le> \<lfloor>z\<rfloor>" by (rule floor_mono)
  show ?thesis
  proof (cases "\<lfloor>y\<rfloor> = \<lfloor>z\<rfloor>")
    case True
    then show ?thesis using le by (auto simp: round_even_def Let_def)
  next
    case False
    with f have "\<lfloor>y\<rfloor> + 1 \<le> \<lfloor>z\<rfloor>" by simp
    moreover have "round_even y \<le> \<lfloor>y\<rfloor> + 1" "\<lfloor>z\<rfloor> \<le> round_even z"
      by (auto simp: round_even_def Let_def)
    ultimately show ?thesis by linarith
  qed
qed

lemma round_even_minus: "round_even (- y) = - round_even y"
proof (cases "y = of_int \<lfloor>y\<rfloor>")
  case True
  then obtain n where "y = of_int n" by blast
  then show ?thesis by (simp flip: of_int_minus)
next
  case False
  have lt: "of_int \<lfloor>y\<rfloor> < y" "y < of_int \<lfloor>y\<rfloor> + 1" using False by linarith+
  then have fl: "\<lfloor>- y\<rfloor> = - \<lfloor>y\<rfloor> - 1" by (intro floor_unique) auto
  show ?thesis unfolding round_even_def Let_def fl using lt by (auto simp: field_simps)
qed

lemma round_even_ge: "of_int n \<le> y \<Longrightarrow> n \<le> round_even y"
  using round_even_mono[of "of_int n" y] by simp

lemma round_even_le: "y \<le> of_int n \<Longrightarrow> round_even y \<le> n"
  using round_even_mono[of y "of_int n"] by simp

section \<open>The exponent\<close>

lemma powi_pos [simp]: "(0 :: rat) < 2 powi k"
  by simp

lemma powi_mono_rat: "j \<le> k \<Longrightarrow> (2 :: rat) powi j \<le> 2 powi k"
  by (rule power_int_increasing) auto

lemma powi_less_cancel: "(2 :: rat) powi j < 2 powi k \<Longrightarrow> j < k"
  using powi_mono_rat[of k j] by linarith

lemma bitlen_powi:
  assumes "0 < n"
  shows "(2 :: rat) powi (bitlen n - 1) \<le> of_int n" "of_int n < (2 :: rat) powi bitlen n"
proof -
  have b: "0 < bitlen n" using bitlen_nonneg[of n] bitlen_eq_zero_iff[of n] assms by linarith
  have "2 ^ nat (bitlen n - 1) \<le> n \<and> n < 2 ^ nat (bitlen n)" using assms by (rule bitlen_bounds)
  then have "(of_int (2 ^ nat (bitlen n - 1)) :: rat) \<le> of_int n" "(of_int n :: rat) < of_int (2 ^ nat (bitlen n))"
    by (simp_all only: of_int_le_iff of_int_less_iff)
  then show "(2 :: rat) powi (bitlen n - 1) \<le> of_int n" "of_int n < (2 :: rat) powi bitlen n"
    using b by (simp_all add: power_int_def)
qed

lemma flog2_bounds:
  assumes "0 < x"
  shows "2 powi flog2 x \<le> x \<and> x < 2 powi (flog2 x + 1)"
proof -
  obtain n d where q: "quotient_of x = (n, d)" by (cases "quotient_of x")
  then have x: "x = of_int n / of_int d" and d: "0 < d"
    using quotient_of_div quotient_of_denom_pos by auto
  then have n: "0 < n" using assms by (simp add: zero_less_divide_iff)
  let ?k = "bitlen n - bitlen d"
  have dr: "(0 :: rat) < of_int d" using d by simp
  have up: "x < 2 powi (?k + 1)"
  proof -
    have "x * of_int d < 2 powi bitlen n" using bitlen_powi(2)[OF n] d by (simp add: x)
    also have "2 powi bitlen n = (2 :: rat) powi (?k + 1) * 2 powi (bitlen d - 1)"
      by (simp flip: power_int_add)
    also have "\<dots> \<le> 2 powi (?k + 1) * of_int d"
      using bitlen_powi(1)[OF d] by (intro mult_left_mono) auto
    finally show ?thesis using dr by (simp add: mult_less_cancel_right)
  qed
  have lo: "2 powi (?k - 1) \<le> x"
  proof -
    have "2 powi (?k - 1) * of_int d \<le> 2 powi (?k - 1) * (2 :: rat) powi bitlen d"
      using bitlen_powi(2)[OF d] by (intro mult_left_mono) auto
    also have "\<dots> = 2 powi (bitlen n - 1)" by (simp flip: power_int_add)
    also have "\<dots> \<le> x * of_int d" using bitlen_powi(1)[OF n] d by (simp add: x)
    finally show ?thesis using dr by (simp add: mult_le_cancel_right)
  qed
  show ?thesis using up lo by (auto simp: flog2_def q Let_def)
qed

lemma flog2_unique:
  assumes "0 < x" "2 powi k \<le> x" "x < 2 powi (k + 1)"
  shows "flog2 x = k"
proof -
  note b = flog2_bounds[OF assms(1)]
  have "(2 :: rat) powi flog2 x < 2 powi (k + 1)" "(2 :: rat) powi k < 2 powi (flog2 x + 1)"
    using b assms by linarith+
  then have "flog2 x < k + 1" "k < flog2 x + 1" by (auto dest: powi_less_cancel)
  then show ?thesis by simp
qed

lemma flog2_mono: "0 < x \<Longrightarrow> x \<le> y \<Longrightarrow> flog2 x \<le> flog2 y"
proof -
  assume a: "0 < x" "x \<le> y"
  have "(2 :: rat) powi flog2 x < 2 powi (flog2 y + 1)"
    using flog2_bounds[of x] flog2_bounds[of y] a by linarith
  then show ?thesis by (auto dest: powi_less_cancel)
qed

section \<open>Order and exactness\<close>

lemma f64_zero [simp]: "f64 0 = 0" by (simp add: f64_def)

lemma f64_minus: "f64 (- x) = - f64 x"
  by (simp add: f64_def Let_def round_even_minus)

lemma f64_pos:
  assumes "0 < x"
  shows "2 powi flog2 x \<le> f64 x \<and> f64 x \<le> 2 powi (flog2 x + 1)"
proof -
  define u :: rat where "u = 2 powi (flog2 x - 52)"
  have u: "0 < u" by (simp add: u_def)
  have e: "2 powi flog2 x = 2 ^ 52 * u" "2 powi (flog2 x + 1) = 2 ^ 53 * u"
    unfolding u_def by (simp_all add: power_int_diff power_int_add)
  note b = flog2_bounds[OF assms]
  have "of_int (2 ^ 52) \<le> x / u" "x / u \<le> of_int (2 ^ 53)"
    using b u by (simp_all add: e le_divide_eq divide_le_eq)
  then have "2 ^ 52 \<le> round_even (x / u)" "round_even (x / u) \<le> 2 ^ 53"
    by (auto intro: round_even_ge round_even_le)
  then have "(of_int (2 ^ 52) :: rat) \<le> of_int (round_even (x / u))"
    "of_int (round_even (x / u)) \<le> (of_int (2 ^ 53) :: rat)"
    by (simp_all only: of_int_le_iff)
  then have "(2 ^ 52 :: rat) \<le> of_int (round_even (x / u))" "of_int (round_even (x / u)) \<le> (2 ^ 53 :: rat)"
    by simp_all
  moreover have "f64 x = of_int (round_even (x / u)) * u"
    using assms by (simp add: f64_def u_def Let_def)
  ultimately show ?thesis using u unfolding e by (simp add: mult_right_mono)
qed

lemma f64_mono_pos:
  assumes "0 < x" "x \<le> y"
  shows "f64 x \<le> f64 y"
proof (cases "flog2 x = flog2 y")
  case True
  let ?u = "2 powi (flog2 y - 52) :: rat"
  have "round_even (x / ?u) \<le> round_even (y / ?u)"
    by (rule round_even_mono) (simp add: assms divide_right_mono)
  then show ?thesis using assms True
    by (simp add: f64_def Let_def mult_right_mono)
next
  case False
  with flog2_mono[OF assms] have "flog2 x + 1 \<le> flog2 y" by simp
  then have "(2 :: rat) powi (flog2 x + 1) \<le> 2 powi flog2 y" by (rule powi_mono_rat)
  with f64_pos[of x] f64_pos[of y] assms show ?thesis by linarith
qed

lemma f64_nonneg: "0 \<le> x \<Longrightarrow> 0 \<le> f64 x"
proof (cases "x = 0")
  case False
  assume "0 \<le> x"
  with False have "2 powi flog2 x \<le> f64 x" using f64_pos[of x] by simp
  then show ?thesis using less_le_trans[OF powi_pos] by fastforce
qed simp

lemma f64_mono: "x \<le> y \<Longrightarrow> f64 x \<le> f64 y"
proof -
  assume le: "x \<le> y"
  consider "0 < x" | "x \<le> 0" "0 \<le> y" | "y < 0" by linarith
  then show ?thesis
  proof cases
    case 2
    then have "f64 x \<le> 0" using f64_nonneg[of "- x"] by (simp add: f64_minus)
    with 2 f64_nonneg[of y] show ?thesis by linarith
  next
    case 3
    then have "f64 (- y) \<le> f64 (- x)" using le by (intro f64_mono_pos) auto
    then show ?thesis by (simp add: f64_minus)
  qed (use le f64_mono_pos in blast)
qed

lemma f64_exact:
  assumes "\<bar>m\<bar> < 2 ^ 53"
  shows "f64 (of_int m * 2 powi k) = of_int m * 2 powi k"
proof -
  have pos: "f64 (of_int m * 2 powi k) = of_int m * 2 powi k" if m: "0 < m" "m < 2 ^ 53" for m
  proof -
    let ?x = "of_int m * 2 powi k :: rat"
    have x: "0 < ?x" using m by simp
    have "(of_int m :: rat) < of_int (2 ^ 53)" using m by (simp only: of_int_less_iff)
    then have "?x < 2 powi (k + 53)" by (simp add: power_int_add)
    with flog2_bounds[OF x] have "(2 :: rat) powi flog2 ?x < 2 powi (k + 53)" by linarith
    then have e: "flog2 ?x - 52 \<le> k" by (auto dest: powi_less_cancel)
    define j where "j = nat (k - (flog2 ?x - 52))"
    have k: "k = (flog2 ?x - 52) + int j" using e by (simp add: j_def)
    let ?u = "2 powi (flog2 ?x - 52) :: rat"
    have "2 powi k = 2 ^ j * ?u" by (subst k) (simp add: power_int_add)
    then have "?x = of_int (m * 2 ^ j) * ?u" by (metis of_int_mult of_int_numeral of_int_power mult.assoc)
    then have "?x / ?u = of_int (m * 2 ^ j)" by (metis nonzero_eq_divide_eq powi_pos order_less_irrefl)
    then have "of_int (round_even (?x / ?u)) * ?u = ?x / ?u * ?u" by (metis round_even_int)
    then show ?thesis using x by (simp add: f64_def Let_def)
  qed
  consider "m = 0" | "0 < m" | "m < 0" by linarith
  then show ?thesis
  proof cases
    case 3
    then have "f64 (of_int (- m) * 2 powi k) = of_int (- m) * 2 powi k"
      using assms by (intro pos) auto
    then show ?thesis by (simp add: f64_minus)
  qed (use pos assms in auto)
qed

lemma f64_int: "\<bar>m\<bar> < 2 ^ 53 \<Longrightarrow> f64 (of_int m) = of_int m"
  using f64_exact[of m 0] by simp

lemma f64_half: "\<bar>2 * m + 1\<bar> < 2 ^ 53 \<Longrightarrow> f64 (of_int m + 1/2) = of_int m + 1/2"
  using f64_exact[of "2 * m + 1" "- 1"] by (simp add: field_simps)

end
