(* ===== verification/RedisBase.thy ===== *)
theory RedisBase
  imports Float64 SqlLogic Json "HOL-Library.AList" "HOL-Library.Product_Lexorder"
begin

text \<open>
  The data the Redis backend keeps, and the commands it sends. The keys of the code are strings
  made of a family name and an argument (\<open>Namespaces\<close> shows that the families do not meet); here
  every family is a field of a record. A document is the JSON text of a value, which Unmarshal
  reads back, or the empty text that a failed Marshal leaves.

  Every round trip to the server takes one entry of the failure schedule, and \<open>True\<close> makes it
  fail without effect. A pipeline is one round trip: all its commands run, and it reports the
  first error. \<open>ErrNoRows\<close> is \<open>redis.Nil\<close>, the reply that a key or field does not exist. The
  clocks of the client and of the server agree.
\<close>

section \<open>Values\<close>

datatype 'a doc = Doc 'a | EmptyText

text \<open>A sorted set: members with their scores, in no particular order; members are distinct.\<close>

type_synonym zset = "(string \<times> rat) list"

definition zadd :: "string \<Rightarrow> rat \<Rightarrow> zset \<Rightarrow> zset" where
  "zadd m s z = AList.update m s z"

definition zrem :: "string \<Rightarrow> zset \<Rightarrow> zset" where
  "zrem m z = AList.delete m z"

text \<open>By score, members of one score by their bytes.\<close>

definition zrange :: "zset \<Rightarrow> string list" where
  "zrange z = map fst (sort_key (\<lambda>(m, s). (s, m)) z)"

definition zrevrange :: "zset \<Rightarrow> string list" where
  "zrevrange z = rev (zrange z)"

text \<open>\<open>ZRANGEBYSCORE key -inf max\<close> and \<open>ZREMRANGEBYSCORE key -inf max\<close>\<close>

definition zrange_to :: "rat \<Rightarrow> zset \<Rightarrow> string list" where
  "zrange_to mx z = zrange (filter (\<lambda>(m, s). s \<le> mx) z)"

definition zremrange_to :: "rat \<Rightarrow> zset \<Rightarrow> zset" where
  "zremrange_to mx z = filter (\<lambda>(m, s). \<not> s \<le> mx) z"

text \<open>Sets are distinct lists in the order \<open>SMEMBERS\<close> happens to return.\<close>

definition sadd :: "string \<Rightarrow> string list \<Rightarrow> string list" where
  "sadd m s = (if m \<in> set s then s else s @ [m])"

definition srem :: "string \<Rightarrow> string list \<Rightarrow> string list" where
  "srem m s = filter (\<lambda>x. x \<noteq> m) s"

text \<open>\<open>LREM key 0 m\<close>\<close>

definition lrem :: "string \<Rightarrow> string list \<Rightarrow> string list" where
  "lrem m l = filter (\<lambda>x. x \<noteq> m) l"

text \<open>The pending jobs of a queue are a sorted set; older releases kept them in a list.\<close>

datatype queue_value = QZSet zset | QList "string list"

record batch_hash =
  bh_status :: "string option"
  bh_total :: "int option"
  bh_pending :: "int option"
  bh_callback :: "JobEnvelope doc option"
  bh_expires_at :: "time option"

definition no_batch :: batch_hash where
  "no_batch = \<lparr>bh_status = None, bh_total = None, bh_pending = None, bh_callback = None,
     bh_expires_at = None\<rparr>"

record rdb =
  rd_jobs :: "string \<rightharpoonup> JobEnvelope doc"
  rd_archived :: "string \<rightharpoonup> JobEnvelope doc"
  rd_errors :: "string \<rightharpoonup> string"
  rd_queues :: "string list"
  rd_paused :: "string list"
  rd_queue :: "string \<Rightarrow> queue_value"
  rd_scheduled :: "string \<Rightarrow> zset"
  rd_active :: "string \<Rightarrow> string list"
  rd_processed :: "string \<Rightarrow> string list"
  rd_failed :: "string \<Rightarrow> string list"
  rd_dead :: "string \<Rightarrow> string list"
  rd_processed_ttl :: zset
  rd_dead_ttl :: zset
  rd_processed_count :: "string \<Rightarrow> int option"
  rd_dead_count :: "string \<Rightarrow> int option"
  rd_unique :: "(string \<times> (string \<times> time)) list"
  rd_dependents :: "string \<Rightarrow> string list"
  rd_dependencies :: "string \<Rightarrow> string list"
  rd_batch :: "string \<Rightarrow> batch_hash"
  rd_batches_expire :: zset
  rd_leader :: "(string \<times> time) option"
  rd_processes :: "string \<rightharpoonup> ProcessInfo doc"
  rd_heartbeat :: zset
  rd_cron_jobs :: "(string \<times> CronJobDetail doc) list"
  rd_cron_schedules :: "(string \<times> CronJob doc) list"
  rd_cron_locks :: "string \<times> int \<Rightarrow> time option"
  rd_ratelimit :: "string \<Rightarrow> zset \<times> time option"

definition empty_rdb :: rdb where
  "empty_rdb = \<lparr>rd_jobs = (\<lambda>_. None), rd_archived = (\<lambda>_. None), rd_errors = (\<lambda>_. None), rd_queues = [],
     rd_paused = [], rd_queue = (\<lambda>_. QZSet []), rd_scheduled = (\<lambda>_. []), rd_active = (\<lambda>_. []),
     rd_processed = (\<lambda>_. []), rd_failed = (\<lambda>_. []), rd_dead = (\<lambda>_. []), rd_processed_ttl = [],
     rd_dead_ttl = [], rd_processed_count = (\<lambda>_. None), rd_dead_count = (\<lambda>_. None),
     rd_unique = [], rd_dependents = (\<lambda>_. []), rd_dependencies = (\<lambda>_. []),
     rd_batch = (\<lambda>_. no_batch), rd_batches_expire = [], rd_leader = None,
     rd_processes = (\<lambda>_. None), rd_heartbeat = [], rd_cron_jobs = [], rd_cron_schedules = [],
     rd_cron_locks = (\<lambda>_. None), rd_ratelimit = (\<lambda>_. ([], None))\<rparr>"

section \<open>Round trips\<close>

type_synonym 'a rds = "(rdb, 'a) eff"
type_synonym command = "rdb \<Rightarrow> err option \<times> rdb"

text \<open>A command that cannot fail on the server, and one on a key that must not hold a list.\<close>

definition cmd :: "(rdb \<Rightarrow> rdb) \<Rightarrow> command" where
  "cmd f = (\<lambda>s. (None, f s))"

definition ErrWrongType :: err where
  "ErrWrongType = ErrMsg ''WRONGTYPE Operation against a key holding the wrong kind of value''"

fun run_commands :: "command list \<Rightarrow> rdb \<Rightarrow> err option \<times> rdb" where
  "run_commands [] s = (None, s)"
| "run_commands (c # cs) s =
     (case c s of (e, s') \<Rightarrow> (case run_commands cs s' of (e', s'') \<Rightarrow>
        (case e of None \<Rightarrow> e' | Some x \<Rightarrow> Some x, s'')))"

text \<open>\<open>pipe.Exec\<close>, of \<open>Pipeline\<close> and of \<open>TxPipeline\<close> alike: MULTI/EXEC does not roll back. An
  empty pipeline sends nothing.\<close>

definition pipe_exec :: "command list \<Rightarrow> unit rds" where
  "pipe_exec cs = (if cs = [] then ret ()
     else engine (\<lambda>s. case run_commands cs s of
       (None, s') \<Rightarrow> (Inr (), s') | (Some e, s') \<Rightarrow> (Inl e, s')))"

definition on_queue :: "string \<Rightarrow> (zset \<Rightarrow> zset) \<Rightarrow> command" where
  "on_queue q f = (\<lambda>s. case rd_queue s q of
       QList l \<Rightarrow> (Some ErrWrongType, s)
     | QZSet z \<Rightarrow> (None, s\<lparr>rd_queue := (rd_queue s)(q := QZSet (f z))\<rparr>))"

definition zadd_queue :: "string \<Rightarrow> string \<Rightarrow> rat \<Rightarrow> command" where
  "zadd_queue q m x = on_queue q (zadd m x)"

text \<open>The setters of the families kept per queue or per job.\<close>

definition set_active where
  "set_active q f = rd_active_update (\<lambda>m. m(q := f (m q)))"
definition set_scheduled where
  "set_scheduled q f = rd_scheduled_update (\<lambda>m. m(q := f (m q)))"
definition set_processed where
  "set_processed q f = rd_processed_update (\<lambda>m. m(q := f (m q)))"
definition set_failed where
  "set_failed q f = rd_failed_update (\<lambda>m. m(q := f (m q)))"
definition set_dead where
  "set_dead q f = rd_dead_update (\<lambda>m. m(q := f (m q)))"
definition set_dependents where
  "set_dependents j f = rd_dependents_update (\<lambda>m. m(j := f (m j)))"
definition set_dependencies where
  "set_dependencies j f = rd_dependencies_update (\<lambda>m. m(j := f (m j)))"
definition set_batch where
  "set_batch b f = rd_batch_update (\<lambda>m. m(b := f (m b)))"

definition set_job :: "string \<Rightarrow> JobEnvelope doc option \<Rightarrow> rdb \<Rightarrow> rdb" where
  "set_job j v = rd_jobs_update (\<lambda>m. m(j := v))"

text \<open>\<open>INCRBY\<close> and \<open>HINCRBY\<close>: an absent counter counts as zero.\<close>

definition incr_by :: "int \<Rightarrow> int option \<Rightarrow> int option" where
  "incr_by n c = Some (case c of None \<Rightarrow> n | Some x \<Rightarrow> x + n)"

definition set_processed_count where
  "set_processed_count q f = rd_processed_count_update (\<lambda>m. m(q := f (m q)))"
definition set_dead_count where
  "set_dead_count q f = rd_dead_count_update (\<lambda>m. m(q := f (m q)))"

section \<open>Times, scores and documents\<close>

definition unix :: "time \<Rightarrow> int" where
  "unix t = t div second"

text \<open>\<open>float64(t.Unix())\<close>\<close>

definition unix_score :: "time \<Rightarrow> rat" where
  "unix_score t = f64 (of_int (unix t))"

text \<open>\<open>float64(env.Priority) - float64(time.Now().Unix())/1e11\<close>\<close>

definition queue_score :: "int \<Rightarrow> time \<Rightarrow> rat" where
  "queue_score priority now =
     f64 (f64 (of_int priority) - f64 (f64 (of_int (unix now)) / 100000000000))"

text \<open>\<open>json.Marshal\<close> fails on a time outside the years 0 to 9999.\<close>

definition json_time_ok :: "time \<Rightarrow> bool" where
  "json_time_ok t \<longleftrightarrow> - 62167219200 * second \<le> t \<and> t < 253402300800 * second"

definition ErrJson :: err where
  "ErrJson = ErrMsg ''json: error calling MarshalJSON for type time.Time''"

definition marshal_env :: "JobEnvelope \<Rightarrow> err + JobEnvelope doc" where
  "marshal_env env =
     (case RunAt env of
        None \<Rightarrow> Inr (Doc env)
      | Some t \<Rightarrow> if json_time_ok t then Inr (Doc env) else Inl ErrJson)"

text \<open>\<open>data, _ := json.Marshal(env)\<close>: the text is empty after an error.\<close>

definition marshal_env_or_empty :: "JobEnvelope \<Rightarrow> JobEnvelope doc" where
  "marshal_env_or_empty env = (case marshal_env env of Inr d \<Rightarrow> d | Inl e \<Rightarrow> EmptyText)"

definition marshal_process :: "ProcessInfo \<Rightarrow> err + ProcessInfo doc" where
  "marshal_process info =
     (if json_time_ok (pi_HeartbeatAt info) then Inr (Doc info) else Inl ErrJson)"

definition ErrUnmarshal :: err where
  "ErrUnmarshal = ErrMsg ''unexpected end of JSON input''"

fun unmarshal :: "'a doc \<Rightarrow> err + 'a" where
  "unmarshal (Doc x) = Inr x"
| "unmarshal EmptyText = Inl ErrUnmarshal"

text \<open>An error value as the action that returns it, and back.\<close>

definition liftE :: "err + 'a \<Rightarrow> ('s, 'a) eff" where
  "liftE r = (case r of Inl e \<Rightarrow> throw e | Inr x \<Rightarrow> ret x)"

text \<open>\<open>for _, x := range xs\<close> with a value per element, ending at the first error.\<close>

fun mapS :: "('x \<Rightarrow> ('s, 'y) eff) \<Rightarrow> 'x list \<Rightarrow> ('s, 'y list) eff" where
  "mapS f [] = ret []"
| "mapS f (x # xs) = bindS (f x) (\<lambda>y. bindS (mapS f xs) (\<lambda>ys. ret (y # ys)))"

section \<open>Facts\<close>

lemma liftE_run [run_simps]: "liftE r c = Some (r, c)"
  by (simp add: liftE_def run_simps split: sum.splits)

lemma zadd_keys: "distinct (map fst z) \<Longrightarrow> distinct (map fst (zadd m s z))"
  by (simp add: zadd_def distinct_update)

lemma zrem_keys: "distinct (map fst z) \<Longrightarrow> distinct (map fst (zrem m z))"
  by (simp add: zrem_def distinct_delete)

lemma set_zrange [simp]: "set (zrange z) = fst ` set z"
  by (simp add: zrange_def)

lemma set_zrevrange [simp]: "set (zrevrange z) = fst ` set z"
  by (simp add: zrevrange_def)

lemma zadd_members [simp]: "fst ` set (zadd m s z) = insert m (fst ` set z)"
  by (simp add: zadd_def dom_update)

lemma zrem_members [simp]: "fst ` set (zrem m z) = fst ` set z - {m}"
  by (auto simp: zrem_def AList.delete_eq)

lemma set_sadd [simp]: "set (sadd m s) = insert m (set s)"
  by (auto simp: sadd_def)

lemma set_srem [simp]: "set (srem m s) = set s - {m}"
  by (auto simp: srem_def)

lemma set_lrem [simp]: "set (lrem m s) = set s - {m}"
  by (auto simp: lrem_def)

lemma pipe_exec_run [run_simps]:
  "cs \<noteq> [] \<Longrightarrow> pipe_exec cs (s, []) = (case run_commands cs s of
     (None, s') \<Rightarrow> Some (Inr (), (s', [])) | (Some e, s') \<Rightarrow> Some (Inl e, (s', [])))"
  by (simp add: pipe_exec_def engine_def split: prod.splits option.splits)

lemma run_cmds [simp]: "run_commands (cmd f # cs) s = run_commands cs (f s)"
  by (simp add: cmd_def split: prod.splits)

lemma run_on_queue [simp]: "rd_queue s q = QZSet z \<Longrightarrow>
    run_commands (on_queue q f # cs) s = run_commands cs (s\<lparr>rd_queue := (rd_queue s)(q := QZSet (f z))\<rparr>)"
  by (simp add: on_queue_def split: prod.splits)

declare run_commands.simps(2) [simp del]

lemma engine_run [run_simps]:
  "engine g (s, []) = (case g s of (r, s') \<Rightarrow> Some (r, (s', [])))"
  by (simp add: engine_def)

text \<open>Scores order the pending jobs by priority: a unit of priority outweighs any time before
  the year 3554 (\<open>unix\<close> below 5e10).\<close>

lemma queue_score_priority:
  assumes "p < p'" "\<bar>p\<bar> < 2 ^ 50" "\<bar>p'\<bar> < 2 ^ 50"
    and "0 \<le> unix now" "unix now \<le> 50000000000" "0 \<le> unix now'" "unix now' \<le> 50000000000"
  shows "queue_score p now < queue_score p' now'"
proof -
  have p: "f64 (of_int p) = of_int p" "f64 (of_int p') = of_int p'"
    using assms(2,3) by (auto intro!: f64_int)
  define a where "a t = f64 (f64 (of_int (unix t)) / 100000000000)" for t
  have u: "f64 (of_int (unix t)) = of_int (unix t)" if "0 \<le> unix t" "unix t \<le> 50000000000" for t
    using that by (intro f64_int) auto
  have half: "f64 (1/2 :: rat) = 1/2" using f64_half[of 0] by simp
  have a: "0 \<le> a t \<and> a t \<le> 1/2" if t: "0 \<le> unix t" "unix t \<le> 50000000000" for t
  proof -
    have "(of_int (unix t) :: rat) \<le> of_int 50000000000" using t(2) by (simp only: of_int_le_iff)
    then have "(of_int (unix t) :: rat) / 100000000000 \<le> 1/2" by simp
    from f64_mono[OF this] half have "a t \<le> 1/2" by (simp add: a_def u[OF t])
    moreover have "0 \<le> a t" unfolding a_def u[OF t] using t(1) by (intro f64_nonneg) simp
    ultimately show ?thesis by simp
  qed
  have "queue_score p now \<le> f64 (of_int p)"
    unfolding queue_score_def p using a[OF assms(4,5)] by (intro f64_mono[of _ "of_int p", unfolded p]) (simp add: a_def)
  then have lo: "queue_score p now \<le> of_int p" by (simp add: p)
  have "(of_int p :: rat) + 1 \<le> of_int p'" using assms(1) by (metis of_int_1 of_int_add of_int_le_iff zless_imp_add1_zle)
  then have "of_int p + 1/2 \<le> of_int p' - a now'" using a[OF assms(6,7)] by linarith
  from f64_mono[OF this] have "f64 (of_int p + 1/2) \<le> queue_score p' now'"
    by (simp add: queue_score_def p a_def)
  moreover have "f64 (of_int p + 1/2) = of_int p + 1/2" using assms(2) by (intro f64_half) auto
  ultimately show ?thesis using lo by linarith
qed

text \<open>Among jobs of one priority an earlier second never scores lower.\<close>

lemma queue_score_time:
  assumes "unix now \<le> unix now'"
  shows "queue_score p now' \<le> queue_score p now"
proof -
  have "(of_int (unix now) :: rat) \<le> of_int (unix now')" using assms by simp
  then have "f64 (of_int (unix now)) \<le> f64 (of_int (unix now'))" by (rule f64_mono)
  then have "f64 (of_int (unix now)) / 100000000000 \<le> f64 (of_int (unix now')) / 100000000000"
    by (simp add: divide_right_mono)
  then have "f64 (f64 (of_int (unix now)) / 100000000000) \<le> f64 (f64 (of_int (unix now')) / 100000000000)"
    by (rule f64_mono)
  then show ?thesis unfolding queue_score_def by (intro f64_mono) simp
qed

end
