(* ===== verification/RedisJobs.thy ===== *)
theory RedisJobs
  imports RedisBase SqliteJobs
begin

text \<open>
  \<open>redis.go\<close>: unique locks, enqueueing, the migration of old queues, dequeueing, scheduled jobs,
  the leader lease and archival. Each method of \<open>RedisStorage\<close> is an action \<open>Redis_<method>\<close>;
  \<open>now\<close> is the reading of the clock. Keys are those of the default namespace.
\<close>

section \<open>Unique locks\<close>

text \<open>A key whose time to live is over does not exist. The client sends whole milliseconds, and at
  least one.\<close>

abbreviation millisecond :: duration where "millisecond \<equiv> 1000000"

definition ttl_ms :: "duration \<Rightarrow> duration" where
  "ttl_ms ttl = (if ttl < millisecond then millisecond else ttl div millisecond * millisecond)"

definition live_lock :: "time \<Rightarrow> string \<Rightarrow> rdb \<Rightarrow> string option" where
  "live_lock now k s = (case map_of (rd_unique s) k of
     None \<Rightarrow> None | Some (j, expires) \<Rightarrow> if now < expires then Some j else None)"

definition set_lock :: "string \<Rightarrow> string \<Rightarrow> time \<Rightarrow> rdb \<Rightarrow> rdb" where
  "set_lock k j expires = rd_unique_update (AList.update k (j, expires))"

definition del_lock :: "string \<Rightarrow> rdb \<Rightarrow> rdb" where
  "del_lock k = rd_unique_update (AList.delete k)"

definition Redis_checkLockDuplicate :: "time \<Rightarrow> string \<Rightarrow> unit rds" where
  "Redis_checkLockDuplicate now k =
     bindS (tryS (query_row (live_lock now k))) (\<lambda>r.
     case r of
       Inl e \<Rightarrow> ret ()
     | Inr existingJobID \<Rightarrow>
         if existingJobID = '''' then ret ()
         else bindS (tryS (query (\<lambda>s. rd_jobs s existingJobID \<noteq> None))) (\<lambda>ex.
              if ex = Inr True then throw (ErrDuplicateJob (''runiq:unique:'' @ k) existingJobID)
              else ret ()))"

definition Redis_acquireUniqueLock :: "time \<Rightarrow> JobEnvelope \<Rightarrow> unit rds" where
  "Redis_acquireUniqueLock now env =
     (if UniqueKey env = '''' then ret ()
      else let k = Queue env @ '':'' @ UniqueKey env;
               ttl = UniqueTTL env;
               ttl = (if ttl \<le> 0 then 24 * hour else ttl);
               put = set_lock k (JobID env) (now + ttl_ms ttl)
           in bindS (engine (\<lambda>s. if live_lock now k s = None then (Inr True, put s) else (Inr False, s))) (\<lambda>ok.
              if ok then ret ()
              else thenS (Redis_checkLockDuplicate now k) (exec put)))"

section \<open>Old queues\<close>

text \<open>\<open>qType == "list"\<close>, where an error of the \<open>TYPE\<close> command leaves the type empty.\<close>

definition queue_is_list :: "string \<Rightarrow> bool rds" where
  "queue_is_list q =
     bindS (tryS (query (\<lambda>s. case rd_queue s q of QList l \<Rightarrow> l \<noteq> [] | QZSet z \<Rightarrow> False))) (\<lambda>r.
     ret (r = Inr True))"

text \<open>The loop of \<open>RPOP\<close>s on a list, last element first: what was popped, what is left, and the
  rest of the failure schedule; the \<open>RPOP\<close> that fails or finds nothing ends it.\<close>

fun rpop_loop :: "string list \<Rightarrow> bool list \<Rightarrow> string list \<times> string list \<times> bool list" where
  "rpop_loop [] fs = ([], [], tl fs)"
| "rpop_loop (x # xs) fs =
     (case fs of
        True # fs' \<Rightarrow> ([], x # xs, fs')
      | _ \<Rightarrow> (let (popped, left, fs') = rpop_loop xs (tl fs) in (x # popped, left, fs')))"

definition migrated_score :: "time \<Rightarrow> nat \<Rightarrow> rat" where
  "migrated_score now i = f64 (0 - f64 (f64 (unix_score now + f64 (of_nat i)) / 100000000000))"

definition Redis_migrateListToZSet :: "time \<Rightarrow> string \<Rightarrow> unit rds" where
  "Redis_migrateListToZSet now q = (\<lambda>(s, fs).
     case rd_queue s q of
       QZSet z \<Rightarrow> Some (Inr (), (s, tl fs))
     | QList l \<Rightarrow>
         (let (popped, left, fs1) = rpop_loop (rev l) fs;
              s1 = s\<lparr>rd_queue := (rd_queue s)(q := if left = [] then QZSet [] else QList (rev left))\<rparr>
          in if popped = [] then Some (Inr (), (s1, fs1))
             else ignoreS (pipe_exec [on_queue q (\<lambda>z. fold (\<lambda>(i, m). zadd m (migrated_score now i))
                    (List.enumerate 0 popped) z)]) (s1, fs1)))"

definition migrate_if_list :: "time \<Rightarrow> string \<Rightarrow> unit rds" where
  "migrate_if_list now q =
     bindS (queue_is_list q) (\<lambda>b. if b then Redis_migrateListToZSet now q else ret ())"

section \<open>Enqueue\<close>

text \<open>Where a job that can run goes: the schedule if it is for later, else the queue.\<close>

definition place_job :: "time \<Rightarrow> JobEnvelope \<Rightarrow> command" where
  "place_job now env =
     (case RunAt env of
        Some t \<Rightarrow> if now < t
                  then cmd (set_scheduled (Queue env) (zadd (JobID env) (unix_score t)))
                  else zadd_queue (Queue env) (JobID env) (queue_score (Priority env) now)
      | None \<Rightarrow> zadd_queue (Queue env) (JobID env) (queue_score (Priority env) now))"

definition Redis_execEnqueue :: "time \<Rightarrow> JobEnvelope \<Rightarrow> JobEnvelope doc \<Rightarrow> unit rds" where
  "Redis_execEnqueue now env data =
     thenS (migrate_if_list now (Queue env))
       (pipe_exec [cmd (set_job (JobID env) (Some data)), cmd (rd_queues_update (sadd (Queue env))),
          place_job now env])"

definition Redis_Enqueue :: "time \<Rightarrow> JobEnvelope \<Rightarrow> unit rds" where
  "Redis_Enqueue now env =
     (let maxAttempts = (if MaxAttempts env \<le> 0 then 3 else MaxAttempts env);
          env = env\<lparr>MaxAttempts := maxAttempts\<rparr>
      in thenS (Redis_acquireUniqueLock now env)
        (bindS (liftE (marshal_env env)) (\<lambda>data.
         Redis_execEnqueue now env data)))"

section \<open>Dequeue\<close>

text \<open>A missing job is no error and no envelope (\<open>checkRedisNil\<close>).\<close>

definition checkRedisNil :: "err \<Rightarrow> ('s, 'a option) eff" where
  "checkRedisNil e = (if e = ErrNoRows then ret None else throw e)"

definition Redis_getJobEnvelope :: "string \<Rightarrow> JobEnvelope option rds" where
  "Redis_getJobEnvelope jobID =
     bindS (tryS (query_row (\<lambda>s. rd_jobs s jobID))) (\<lambda>r.
     case r of
       Inl e \<Rightarrow> checkRedisNil e
     | Inr data \<Rightarrow> bindS (liftE (unmarshal data)) (\<lambda>env. ret (Some env)))"

text \<open>\<open>ZREM\<close> on the queue: whether the member was there.\<close>

definition zrem_queue :: "string \<Rightarrow> string \<Rightarrow> bool rds" where
  "zrem_queue q jobID = engine (\<lambda>s. case rd_queue s q of
       QList l \<Rightarrow> (Inl ErrWrongType, s)
     | QZSet z \<Rightarrow> if jobID \<in> fst ` set z
                 then (Inr True, s\<lparr>rd_queue := (rd_queue s)(q := QZSet (zrem jobID z))\<rparr>)
                 else (Inr False, s))"

fun Redis_findAndPopJob :: "string \<Rightarrow> string list \<Rightarrow> string list \<Rightarrow> JobEnvelope option rds" where
  "Redis_findAndPopJob q [] workerTags = ret None"
| "Redis_findAndPopJob q (jobID # zs) workerTags =
     bindS (tryS (Redis_getJobEnvelope jobID)) (\<lambda>r.
     case r of
       Inr (Some env) \<Rightarrow>
         if matchTags (Tags env) workerTags
         then bindS (tryS (zrem_queue q jobID)) (\<lambda>removed.
              if removed = Inr True
              then thenS (ignoreS (exec (set_active q (sadd jobID)))) (ret (Some env))
              else Redis_findAndPopJob q zs workerTags)
         else Redis_findAndPopJob q zs workerTags
     | _ \<Rightarrow> Redis_findAndPopJob q zs workerTags)"

definition Redis_Dequeue :: "time \<Rightarrow> string \<Rightarrow> string list \<Rightarrow> JobEnvelope option rds" where
  "Redis_Dequeue now q workerTags =
     thenS (migrate_if_list now q)
       (bindS (engine (\<lambda>s. (case rd_queue s q of
            QList l \<Rightarrow> Inl ErrWrongType | QZSet z \<Rightarrow> Inr (take 100 (zrevrange z)), s))) (\<lambda>zs.
        Redis_findAndPopJob q zs workerTags))"

section \<open>Scheduled jobs\<close>

definition Redis_activateScheduledJobs :: "time \<Rightarrow> string \<Rightarrow> string list \<Rightarrow> unit rds" where
  "Redis_activateScheduledJobs now q jobIDs =
     thenS (migrate_if_list now q)
       (bindS (mapS (\<lambda>jobID. bindS (tryS (Redis_getJobEnvelope jobID)) (\<lambda>r.
            ret (case r of Inr (Some env) \<Rightarrow> Priority env | _ \<Rightarrow> 0))) jobIDs) (\<lambda>priorities.
        pipe_exec (concat (map (\<lambda>(jobID, priority).
            [cmd (set_scheduled q (zrem jobID)), zadd_queue q jobID (queue_score priority now)])
          (zip jobIDs priorities)))))"

definition Redis_PollScheduled :: "time \<Rightarrow> string \<Rightarrow> unit rds" where
  "Redis_PollScheduled now q =
     bindS (query (\<lambda>s. zrange_to (unix_score now) (rd_scheduled s q))) (\<lambda>jobIDs.
     if jobIDs = [] then ret () else Redis_activateScheduledJobs now q jobIDs)"

section \<open>The leader lease\<close>

definition live_leader :: "time \<Rightarrow> rdb \<Rightarrow> string option" where
  "live_leader now s = (case rd_leader s of
     None \<Rightarrow> None | Some (h, expires) \<Rightarrow> if now < expires then Some h else None)"

text \<open>The script is one step; \<open>SET ... PX\<close> refuses a time that is not positive.\<close>

definition Redis_AcquireLeader :: "time \<Rightarrow> string \<Rightarrow> duration \<Rightarrow> bool rds" where
  "Redis_AcquireLeader now clientID ttl =
     (let px = go_div ttl millisecond in
      engine (\<lambda>s.
        if live_leader now s = None \<or> live_leader now s = Some clientID
        then (if px \<le> 0 then (Inl ErrEngine, s)
              else (Inr True, s\<lparr>rd_leader := Some (clientID, now + px * millisecond)\<rparr>))
        else (Inr False, s)))"

definition Redis_ReleaseLeader :: "time \<Rightarrow> string \<Rightarrow> unit rds" where
  "Redis_ReleaseLeader now clientID =
     exec (\<lambda>s. if live_leader now s = Some clientID then s\<lparr>rd_leader := None\<rparr> else s)"

section \<open>Archival\<close>

definition Redis_getExpiredJobs :: "int \<Rightarrow> string list rds" where
  "Redis_getExpiredJobs cutoff =
     bindS (query (\<lambda>s. zrange_to (f64 (of_int cutoff)) (rd_processed_ttl s))) (\<lambda>proc.
     bindS (query (\<lambda>s. zrange_to (f64 (of_int cutoff)) (rd_dead_ttl s))) (\<lambda>dead.
     ret (proc @ dead)))"

text \<open>\<open>strings.SplitN(member, ":", 2)\<close>, if it has two parts.\<close>

fun split2 :: "string \<Rightarrow> (string \<times> string) option" where
  "split2 [] = None"
| "split2 (c # cs) = (if c = CHR '':'' then Some ([], cs)
     else map_option (\<lambda>(a, b). (c # a, b)) (split2 cs))"

definition Redis_archiveSingleJob :: "string \<Rightarrow> bool rds" where
  "Redis_archiveSingleJob member =
     (case split2 member of
        None \<Rightarrow> ret False
      | Some (queue, jobID) \<Rightarrow>
          bindS (tryS (query_row (\<lambda>s. rd_jobs s jobID))) (\<lambda>r.
          thenS (case r of
              Inr data \<Rightarrow> ignoreS (exec (rd_archived_update (\<lambda>m. m(jobID \<mapsto> data))))
            | Inl e \<Rightarrow> ret ())
          (thenS (pipe_exec
             [cmd (set_job jobID None), cmd (rd_errors_update (\<lambda>m. m(jobID := None))),
              cmd (set_processed queue (lrem jobID)), cmd (set_dead queue (lrem jobID)),
              cmd (rd_processed_ttl_update (zrem member)), cmd (rd_dead_ttl_update (zrem member))])
          (ret (case r of Inr (Doc env) \<Rightarrow> True | _ \<Rightarrow> False)))))"

fun Redis_archiveExpiredJobs :: "string list \<Rightarrow> int rds" where
  "Redis_archiveExpiredJobs [] = ret 0"
| "Redis_archiveExpiredJobs (member # expired) =
     bindS (Redis_archiveSingleJob member) (\<lambda>ok.
     bindS (Redis_archiveExpiredJobs expired) (\<lambda>count.
     ret (if ok then count + 1 else count)))"

definition Redis_ArchiveJobs :: "time \<Rightarrow> duration \<Rightarrow> int rds" where
  "Redis_ArchiveJobs now age =
     (let cutoff = unix (now - age) in
      bindS (Redis_getExpiredJobs cutoff) Redis_archiveExpiredJobs)"

end
