(* ===== verification/RedisFlow.thy ===== *)
theory RedisFlow
  imports RedisJobs
begin

text \<open>
  \<open>redis_batch.go\<close>, \<open>redis_workflow.go\<close> and \<open>redis_admin.go\<close>: batches, workflows and the life
  cycle of a job. Here a batch is a hash, a dependency two sets, and nothing spans several round
  trips: what was done before an error stays. The ids of the callback jobs are drawn from the
  random bytes \<open>rnd\<close>; the recursion of the failure cascade takes the number of nested calls the
  stack has room for.
\<close>

section \<open>Batches\<close>

text \<open>The expiry is stored in RFC 3339, to the second.\<close>

definition Redis_CreateBatch :: "string \<Rightarrow> JobEnvelope \<Rightarrow> time option \<Rightarrow> unit rds" where
  "Redis_CreateBatch batchID callback expiresAt =
     bindS (liftE (marshal_env callback)) (\<lambda>callbackJSON.
     pipe_exec
       ([cmd (set_batch batchID (bh_status_update (\<lambda>_. Some ''open''))),
         cmd (set_batch batchID (bh_total_update (\<lambda>_. Some 0))),
         cmd (set_batch batchID (bh_pending_update (\<lambda>_. Some 0))),
         cmd (set_batch batchID (bh_callback_update (\<lambda>_. Some callbackJSON)))]
        @ (case expiresAt of
             None \<Rightarrow> []
           | Some t \<Rightarrow>
               [cmd (set_batch batchID (bh_expires_at_update (\<lambda>_. Some (unix t * second)))),
                cmd (rd_batches_expire_update (zadd batchID (unix_score t)))])))"

definition Redis_incrementBatchCounts :: "string \<Rightarrow> unit rds" where
  "Redis_incrementBatchCounts batchID =
     pipe_exec
       [cmd (set_batch batchID (\<lambda>b. b\<lparr>bh_total := incr_by 1 (bh_total b)\<rparr>)),
        cmd (set_batch batchID (\<lambda>b. b\<lparr>bh_pending := incr_by 1 (bh_pending b)\<rparr>))]"

definition Redis_addJobToQueue :: "time \<Rightarrow> JobEnvelope \<Rightarrow> command" where
  "Redis_addJobToQueue now env =
     (if (case RunAt env of Some t \<Rightarrow> now < t | None \<Rightarrow> False)
      then cmd (set_scheduled (Queue env) (zadd (JobID env) (unix_score (the (RunAt env)))))
      else zadd_queue (Queue env) (JobID env) (queue_score (Priority env) now))"

definition Redis_enqueueBatchJob :: "time \<Rightarrow> JobEnvelope \<Rightarrow> unit rds" where
  "Redis_enqueueBatchJob now env =
     bindS (liftE (marshal_env env)) (\<lambda>data.
     pipe_exec [cmd (set_job (JobID env) (Some data)), cmd (rd_queues_update (sadd (Queue env))),
       Redis_addJobToQueue now env])"

definition Redis_EnqueueInBatch :: "time \<Rightarrow> string \<Rightarrow> JobEnvelope \<Rightarrow> unit rds" where
  "Redis_EnqueueInBatch now batchID env =
     (let env = env\<lparr>BatchID := batchID\<rparr>;
          env = (if MaxAttempts env \<le> 0 then env\<lparr>MaxAttempts := 3\<rparr> else env)
      in thenS (Redis_incrementBatchCounts batchID)
        (thenS (Redis_acquireUniqueLock now env)
           (Redis_enqueueBatchJob now env)))"

definition Redis_failExpiredBatch :: "string \<Rightarrow> bool rds" where
  "Redis_failExpiredBatch batchID =
     thenS (pipe_exec [cmd (set_batch batchID (bh_status_update (\<lambda>_. Some ''failed''))),
         cmd (rd_batches_expire_update (zrem batchID))])
       (ret True)"

text \<open>An error of the read leaves the value empty, which counts as no expiry.\<close>

definition Redis_checkBatchExpired :: "time \<Rightarrow> string \<Rightarrow> bool rds" where
  "Redis_checkBatchExpired now batchID =
     bindS (tryS (query_row (\<lambda>s. bh_expires_at (rd_batch s batchID)))) (\<lambda>r.
     case r of
       Inl e \<Rightarrow> ret False
     | Inr expires \<Rightarrow> if expires < now then Redis_failExpiredBatch batchID else ret False)"

definition Redis_getPendingCount :: "string \<Rightarrow> int rds" where
  "Redis_getPendingCount batchID = query_row (\<lambda>s. bh_pending (rd_batch s batchID))"

definition Redis_completeBatch :: "time \<Rightarrow> bytes \<Rightarrow> string \<Rightarrow> unit rds" where
  "Redis_completeBatch now rnd batchID =
     thenS (exec (set_batch batchID (bh_status_update (\<lambda>_. Some ''completed''))))
    (bindS (tryS (query_row (\<lambda>s. bh_callback (rd_batch s batchID)))) (\<lambda>r.
     case r of
       Inl e \<Rightarrow> ret ()
     | Inr callbackJSON \<Rightarrow>
         (case unmarshal callbackJSON of
            Inl e \<Rightarrow> ret ()
          | Inr callbackEnv \<Rightarrow> Redis_Enqueue now (callbackEnv\<lparr>JobID := generateJobID rnd\<rparr>))))"

definition Redis_SubmitBatch :: "time \<Rightarrow> bytes \<Rightarrow> string \<Rightarrow> unit rds" where
  "Redis_SubmitBatch now rnd batchID =
     bindS (Redis_checkBatchExpired now batchID) (\<lambda>expired.
     if expired then ret ()
     else thenS (exec (set_batch batchID (bh_status_update (\<lambda>_. Some ''sealed''))))
       (bindS (Redis_getPendingCount batchID) (\<lambda>pending.
        if pending = 0 then Redis_completeBatch now rnd batchID else ret ())))"

section \<open>Workflows\<close>

definition Redis_enqueueBlockedJob :: "JobEnvelope \<Rightarrow> command list" where
  "Redis_enqueueBlockedJob env =
     map (\<lambda>pID. cmd (set_dependents pID (sadd (JobID env)))) (Dependencies env)
     @ [cmd (set_dependencies (JobID env) (fold sadd (Dependencies env)))]"

definition Redis_enqueueReadyJob :: "time \<Rightarrow> JobEnvelope \<Rightarrow> command" where
  "Redis_enqueueReadyJob now env =
     (if (case RunAt env of Some t \<Rightarrow> now < t | None \<Rightarrow> False)
      then cmd (set_scheduled (Queue env) (zadd (JobID env) (unix_score (the (RunAt env)))))
      else zadd_queue (Queue env) (JobID env) (queue_score (Priority env) now))"

text \<open>The unique lock is taken at once, the rest is added to the pipeline.\<close>

definition Redis_enqueueWorkflowJob :: "time \<Rightarrow> JobEnvelope \<Rightarrow> command list rds" where
  "Redis_enqueueWorkflowJob now env =
     (let env = env\<lparr>MaxAttempts := getMaxAttempts (MaxAttempts env)\<rparr> in
      thenS (Redis_acquireUniqueLock now env)
        (bindS (liftE (marshal_env env)) (\<lambda>data.
         ret ([cmd (set_job (JobID env) (Some data)), cmd (rd_queues_update (sadd (Queue env)))]
           @ (if length (Dependencies env) > 0 then Redis_enqueueBlockedJob env
              else [Redis_enqueueReadyJob now env])))))"

definition Redis_EnqueueWorkflow :: "time \<Rightarrow> JobEnvelope list \<Rightarrow> unit rds" where
  "Redis_EnqueueWorkflow now js =
     (if js = [] then ret ()
      else bindS (mapS (Redis_enqueueWorkflowJob now) js) (\<lambda>cs. pipe_exec (concat cs)))"

definition Redis_enqueueChildJob :: "time \<Rightarrow> string \<Rightarrow> unit rds" where
  "Redis_enqueueChildJob now childID =
     bindS (query_row (\<lambda>s. rd_jobs s childID)) (\<lambda>val.
     bindS (liftE (unmarshal val)) (\<lambda>env.
     pipe_exec [cmd (set_dependencies childID (\<lambda>_. [])), Redis_enqueueReadyJob now env]))"

definition Redis_resolveChildDependency :: "time \<Rightarrow> string \<Rightarrow> string \<Rightarrow> unit rds" where
  "Redis_resolveChildDependency now childID parentID =
     bindS (engine (\<lambda>s. (Inr (parentID \<in> set (rd_dependencies s childID)),
                         set_dependencies childID (srem parentID) s))) (\<lambda>removed.
     if \<not> removed then ret ()
     else bindS (query (\<lambda>s. length (rd_dependencies s childID))) (\<lambda>count.
          if count > 0 then ret () else Redis_enqueueChildJob now childID))"

definition Redis_resolveDependencies :: "time \<Rightarrow> string \<Rightarrow> unit rds" where
  "Redis_resolveDependencies now jobID =
     bindS (query (\<lambda>s. rd_dependents s jobID)) (\<lambda>childIDs.
     if childIDs = [] then ret ()
     else thenS (forS (\<lambda>cid. Redis_resolveChildDependency now cid jobID) childIDs)
            (exec (set_dependents jobID (\<lambda>_. []))))"

definition Redis_execFailChildJob :: "time \<Rightarrow> JobEnvelope \<Rightarrow> string \<Rightarrow> unit rds" where
  "Redis_execFailChildJob now env parentID =
     pipe_exec
       ([cmd (set_dead (Queue env) (\<lambda>l. JobID env # l)), cmd (set_dead (Queue env) (take 50)),
         cmd (rd_errors_update (\<lambda>m. m(JobID env \<mapsto> ''Dependency '' @ parentID @ '' failed''))),
         cmd (rd_dead_ttl_update (zadd (Queue env @ '':'' @ JobID env) (unix_score now)))]
        @ (if UniqueKey env \<noteq> '''' then [cmd (del_lock (Queue env @ '':'' @ UniqueKey env))] else [])
        @ [cmd (set_dependencies (JobID env) (\<lambda>_. []))])"

text \<open>The recursion through \<open>failChildJob\<close> is closed at \<open>cascadeDependencyFailure\<close>.\<close>

definition Redis_failChildJob :: "(string \<Rightarrow> unit rds) \<Rightarrow> time \<Rightarrow> string \<Rightarrow> string \<Rightarrow> unit rds" where
  "Redis_failChildJob casc now childID parentID =
     bindS (query_row (\<lambda>s. rd_jobs s childID)) (\<lambda>val.
     bindS (liftE (unmarshal val)) (\<lambda>env.
     thenS (Redis_execFailChildJob now env parentID) (casc childID)))"

primrec Redis_cascadeDependencyFailure :: "nat \<Rightarrow> time \<Rightarrow> string \<Rightarrow> unit rds" where
  "Redis_cascadeDependencyFailure 0 now parentID = crash"
| "Redis_cascadeDependencyFailure (Suc n) now parentID =
     bindS (query (\<lambda>s. rd_dependents s parentID)) (\<lambda>childIDs.
     if childIDs = [] then ret ()
     else thenS (forS (\<lambda>cid. Redis_failChildJob (Redis_cascadeDependencyFailure n now) now cid parentID) childIDs)
            (exec (set_dependents parentID (\<lambda>_. []))))"

section \<open>Acknowledging a job\<close>

definition Redis_enqueueBatchCallback :: "time \<Rightarrow> bytes \<Rightarrow> string \<Rightarrow> unit rds" where
  "Redis_enqueueBatchCallback now rnd batchID =
     bindS (tryS (query_row (\<lambda>s. bh_callback (rd_batch s batchID)))) (\<lambda>r.
     case r of
       Inl e \<Rightarrow> ret ()
     | Inr callbackJSON \<Rightarrow>
         (case unmarshal callbackJSON of
            Inl e \<Rightarrow> ret ()
          | Inr callbackEnv \<Rightarrow>
              ignoreS (Redis_Enqueue now (callbackEnv\<lparr>JobID := generateJobID rnd\<rparr>))))"

definition Redis_completeBatchIfSealedAndDone :: "time \<Rightarrow> bytes \<Rightarrow> string \<Rightarrow> int \<Rightarrow> unit rds" where
  "Redis_completeBatchIfSealedAndDone now rnd batchID pending =
     bindS (tryS (query_row (\<lambda>s. bh_status (rd_batch s batchID)))) (\<lambda>r.
     if r \<noteq> Inr ''sealed'' \<or> pending \<noteq> 0 then ret ()
     else thenS (ignoreS (exec (set_batch batchID (bh_status_update (\<lambda>_. Some ''completed'')))))
            (Redis_enqueueBatchCallback now rnd batchID))"

definition Redis_handleBatchAck :: "time \<Rightarrow> bytes \<Rightarrow> string \<Rightarrow> unit rds" where
  "Redis_handleBatchAck now rnd batchID =
     bindS (tryS (Redis_checkBatchExpired now batchID)) (\<lambda>r.
     if r \<noteq> Inr False then ret ()
     else bindS (tryS (engine (\<lambda>s.
            let pending = (case bh_pending (rd_batch s batchID) of None \<Rightarrow> - 1 | Some n \<Rightarrow> n - 1)
            in (Inr pending, set_batch batchID (bh_pending_update (\<lambda>_. Some pending)) s)))) (\<lambda>p.
          case p of
            Inl e \<Rightarrow> ret ()
          | Inr pending \<Rightarrow> Redis_completeBatchIfSealedAndDone now rnd batchID pending))"

definition Redis_performAck :: "time \<Rightarrow> bytes \<Rightarrow> JobEnvelope \<Rightarrow> unit rds" where
  "Redis_performAck now rnd env =
     thenS (pipe_exec
       ([cmd (set_active (Queue env) (srem (JobID env))),
         cmd (set_processed (Queue env) (\<lambda>l. JobID env # l)), cmd (set_processed (Queue env) (take 50)),
         cmd (rd_processed_ttl_update (zadd (Queue env @ '':'' @ JobID env) (unix_score now))),
         cmd (set_processed_count (Queue env) (incr_by 1))]
        @ (if UniqueKey env \<noteq> '''' then [cmd (del_lock (Queue env @ '':'' @ UniqueKey env))] else [])))
     (if BatchID env \<noteq> '''' then Redis_handleBatchAck now rnd (BatchID env) else ret ())"

definition Redis_Ack :: "time \<Rightarrow> bytes \<Rightarrow> string \<Rightarrow> unit rds" where
  "Redis_Ack now rnd jobID =
     bindS (tryS (query_row (\<lambda>s. rd_jobs s jobID))) (\<lambda>r.
     case r of
       Inl e \<Rightarrow> if e = ErrNoRows then ret () else throw e
     | Inr data \<Rightarrow>
         bindS (liftE (unmarshal data)) (\<lambda>env.
         thenS (Redis_performAck now rnd env) (Redis_resolveDependencies now jobID)))"

section \<open>Failing a job\<close>

definition Redis_rescheduleJob :: "JobEnvelope \<Rightarrow> command list" where
  "Redis_rescheduleJob env =
     [cmd (set_job (JobID env) (Some (marshal_env_or_empty env))),
      cmd (set_scheduled (Queue env) (zadd (JobID env) (unix_score (the (RunAt env)))))]"

definition Redis_handleDeadJob :: "time \<Rightarrow> JobEnvelope \<Rightarrow> string \<Rightarrow> command list" where
  "Redis_handleDeadJob now env runErr =
     [cmd (set_job (JobID env) (Some (marshal_env_or_empty env))),
      cmd (set_dead (Queue env) (\<lambda>l. JobID env # l)), cmd (set_dead (Queue env) (take 50)),
      cmd (rd_errors_update (\<lambda>m. m(JobID env \<mapsto> runErr))),
      cmd (rd_dead_ttl_update (zadd (Queue env @ '':'' @ JobID env) (unix_score now))),
      cmd (set_dead_count (Queue env) (incr_by 1))]
     @ (if UniqueKey env \<noteq> '''' then [cmd (del_lock (Queue env @ '':'' @ UniqueKey env))] else [])
     @ (if BatchID env \<noteq> ''''
        then [cmd (set_batch (BatchID env) (bh_status_update (\<lambda>_. Some ''failed''))),
              cmd (rd_batches_expire_update (zrem (BatchID env)))]
        else [])"

definition Redis_prepareFailStep :: "time \<Rightarrow> JobEnvelope \<Rightarrow> string \<Rightarrow> command list \<times> bool" where
  "Redis_prepareFailStep now env runErr =
     (let maxAttempts = (if MaxAttempts env \<le> 0 then 3 else MaxAttempts env) in
      if Attempts env < maxAttempts
      then let nextRun = now + ComputeBackoffDelay (Attempts env - 1) now
           in (Redis_rescheduleJob (env\<lparr>RunAt := Some nextRun\<rparr>), False)
      else (Redis_handleDeadJob now env runErr, True))"

definition Redis_processFail :: "nat \<Rightarrow> time \<Rightarrow> JobEnvelope \<Rightarrow> string \<Rightarrow> unit rds" where
  "Redis_processFail stack now env runErr =
     (let (cs, isDead) = Redis_prepareFailStep now env runErr in
      thenS (pipe_exec (cmd (set_active (Queue env) (srem (JobID env))) # cs))
        (if isDead then Redis_cascadeDependencyFailure stack now (JobID env) else ret ()))"

definition Redis_Fail :: "nat \<Rightarrow> time \<Rightarrow> string \<Rightarrow> string \<Rightarrow> unit rds" where
  "Redis_Fail stack now jobID runErr =
     bindS (tryS (query_row (\<lambda>s. rd_jobs s jobID))) (\<lambda>r.
     case r of
       Inl e \<Rightarrow> if e = ErrNoRows then ret () else throw e
     | Inr data \<Rightarrow>
         bindS (liftE (unmarshal data)) (\<lambda>env.
         Redis_processFail stack now (env\<lparr>Attempts := Attempts env + 1\<rparr>) runErr))"

section \<open>Retrying and cancelling\<close>

definition Redis_executeRetryTx :: "time \<Rightarrow> JobEnvelope \<Rightarrow> unit rds" where
  "Redis_executeRetryTx now env =
     bindS (liftE (marshal_env env)) (\<lambda>newVal.
     pipe_exec
       [cmd (set_job (JobID env) (Some newVal)),
        cmd (set_failed (Queue env) (lrem (JobID env))), cmd (set_dead (Queue env) (lrem (JobID env))),
        cmd (rd_dead_ttl_update (zrem (Queue env @ '':'' @ JobID env))),
        cmd (rd_errors_update (\<lambda>m. m(JobID env := None))),
        cmd (set_dead_count (Queue env) (incr_by (- 1))),
        zadd_queue (Queue env) (JobID env) (queue_score (Priority env) now)])"

definition Redis_Retry :: "time \<Rightarrow> string \<Rightarrow> unit rds" where
  "Redis_Retry now jobID =
     bindS (query_row (\<lambda>s. rd_jobs s jobID)) (\<lambda>val.
     bindS (liftE (unmarshal val)) (\<lambda>env.
     Redis_executeRetryTx now (env\<lparr>Attempts := 0, RunAt := None\<rparr>)))"

text \<open>\<open>redis_cron.go\<close>\<close>

definition Redis_RetryModified :: "time \<Rightarrow> string \<Rightarrow> bytes \<Rightarrow> unit rds" where
  "Redis_RetryModified now jobID args =
     bindS (query_row (\<lambda>s. rd_jobs s jobID)) (\<lambda>val.
     bindS (liftE (unmarshal val)) (\<lambda>env.
     Redis_executeRetryTx now (env\<lparr>Attempts := 0, RunAt := None, Args := args\<rparr>)))"

definition Redis_executeCancelTx :: "JobEnvelope \<Rightarrow> unit rds" where
  "Redis_executeCancelTx env =
     (let q = Queue env; j = JobID env in
      pipe_exec
       ([on_queue q (zrem j), cmd (set_active q (srem j)), cmd (set_scheduled q (zrem j)),
         cmd (set_failed q (lrem j)), cmd (set_dead q (lrem j)),
         cmd (rd_dead_ttl_update (zrem (q @ '':'' @ j))), cmd (set_processed q (lrem j)),
         cmd (set_dead_count q (incr_by (- 1))),
         cmd (set_job j None), cmd (rd_errors_update (\<lambda>m. m(j := None)))]
        @ (if UniqueKey env \<noteq> '''' then [cmd (del_lock (q @ '':'' @ UniqueKey env))] else [])))"

definition Redis_Cancel :: "nat \<Rightarrow> time \<Rightarrow> string \<Rightarrow> unit rds" where
  "Redis_Cancel stack now jobID =
     bindS (tryS (query_row (\<lambda>s. rd_jobs s jobID))) (\<lambda>r.
     case r of
       Inl e \<Rightarrow> if e = ErrNoRows then ret () else throw e
     | Inr val \<Rightarrow>
         bindS (liftE (unmarshal val)) (\<lambda>env.
         thenS (Redis_executeCancelTx env) (Redis_cascadeDependencyFailure stack now jobID)))"

end
