(* ===== verification/RedisAdmin.thy ===== *)
theory RedisAdmin
  imports RedisFlow SqliteAdmin
begin

text \<open>
  The rest of the Redis backend: clearing and purging, paused queues, throttling, cron locks and
  schedules (\<open>redis_admin_helper.go\<close>, \<open>redis_cron.go\<close>), worker processes
  (\<open>redis_process.go\<close>), statistics (\<open>redis_stats.go\<close>) and job search (\<open>redis_search.go\<close>).
\<close>

section \<open>Glob patterns\<close>

text \<open>The patterns of \<open>SCAN ... MATCH\<close>: the rest of a character class after its opening bracket.\<close>

function class_items :: "string \<Rightarrow> char \<Rightarrow> bool \<Rightarrow> bool \<times> string" where
  "class_items [] c m = (m, [])"
| "class_items (p # ps) c m =
     (if p = CHR 0x5C \<and> ps \<noteq> [] then class_items (tl ps) c (m \<or> hd ps = c)
      else if p = CHR '']'' then (m, ps)
      else if length ps \<ge> 2 \<and> hd ps = CHR ''-''
      then class_items (drop 2 ps) c (m \<or> (min p (ps ! 1) \<le> c \<and> c \<le> max p (ps ! 1)))
      else class_items ps c (m \<or> p = c))"
  by pat_completeness auto
termination by (relation "measure (\<lambda>(ps, c, m). length ps)") auto

lemma class_items_shorter: "length (snd (class_items ps c m)) \<le> length ps"
  by (induction ps c m rule: class_items.induct) (auto simp: Let_def split: if_splits)

function glob_match :: "string \<Rightarrow> string \<Rightarrow> bool" where
  "glob_match [] s = (s = [])"
| "glob_match (p # ps) [] = (p = CHR ''*'' \<and> glob_match ps [])"
| "glob_match (p # ps) (c # s) =
     (if p = CHR ''*'' then glob_match ps (c # s) \<or> glob_match (p # ps) s
      else if p = CHR ''?'' then glob_match ps s
      else if p = CHR ''['' then
        (let neg = (ps \<noteq> [] \<and> hd ps = CHR ''^'');
             (m, rest) = class_items (if neg then tl ps else ps) c False
         in m \<noteq> neg \<and> glob_match rest s)
      else if p = CHR 0x5C \<and> ps \<noteq> [] then hd ps = c \<and> glob_match (tl ps) s
      else p = c \<and> glob_match ps s)"
  by pat_completeness auto
termination
proof (relation "measure (\<lambda>(p, s). length p + length s)", goal_cases)
  case (6 p ps c s neg x m rest)
  have "length rest \<le> length (if neg then tl ps else ps)"
    using class_items_shorter[of "if neg then tl ps else ps" c False] 6 by (metis snd_conv)
  also have "\<dots> \<le> length ps" by simp
  finally show ?case by simp
qed auto

section \<open>Clearing and purging\<close>

text \<open>The ids in the collections of a queue; a read that fails yields none.\<close>

definition or_none :: "string list rds \<Rightarrow> string list rds" where
  "or_none m = bindS (tryS m) (\<lambda>r. ret (case r of Inr xs \<Rightarrow> xs | Inl e \<Rightarrow> []))"

definition read_queue :: "string \<Rightarrow> string list rds" where
  "read_queue q = engine (\<lambda>s. (case rd_queue s q of
     QList l \<Rightarrow> Inl ErrWrongType | QZSet z \<Rightarrow> Inr (zrange z), s))"

definition Redis_collectQueueIDs :: "string \<Rightarrow> (string list \<times> string list) rds" where
  "Redis_collectQueueIDs q =
     bindS (or_none (read_queue q)) (\<lambda>pIDs.
     bindS (or_none (query (\<lambda>s. zrange (rd_scheduled s q)))) (\<lambda>sIDs.
     bindS (or_none (query (\<lambda>s. rd_active s q))) (\<lambda>aIDs.
     bindS (or_none (query (\<lambda>s. rd_processed s q))) (\<lambda>prIDs.
     bindS (or_none (query (\<lambda>s. rd_failed s q))) (\<lambda>fIDs.
     bindS (or_none (query (\<lambda>s. rd_dead s q))) (\<lambda>dIDs.
     ret (pIDs @ sIDs @ aIDs @ prIDs @ fIDs @ dIDs, dIDs)))))))"

text \<open>The server answers a scan in \<open>pages\<close> of its choosing; an error ends the loop.\<close>

fun Redis_scanPages :: "string list list \<Rightarrow> string list rds" where
  "Redis_scanPages [] = ret []"
| "Redis_scanPages (p # ps) =
     bindS (tryS (query (\<lambda>s. p))) (\<lambda>r.
     case r of
       Inl e \<Rightarrow> ret []
     | Inr keys \<Rightarrow> bindS (Redis_scanPages ps) (\<lambda>rest. ret (keys @ rest)))"

definition Redis_scanUniqueKeys :: "(string list \<Rightarrow> string list list) \<Rightarrow> string \<Rightarrow> string list rds" where
  "Redis_scanUniqueKeys pages q =
     (\<lambda>(s, fs). Redis_scanPages (pages (filter (glob_match (q @ '':*'')) (map fst (rd_unique s)))) (s, fs))"

definition Redis_deleteQueueKeys :: "string \<Rightarrow> command list" where
  "Redis_deleteQueueKeys q =
     [cmd (rd_queue_update (\<lambda>m. m(q := QZSet []))), cmd (set_active q (\<lambda>_. [])),
      cmd (set_scheduled q (\<lambda>_. [])), cmd (set_processed q (\<lambda>_. [])), cmd (set_failed q (\<lambda>_. [])),
      cmd (set_dead q (\<lambda>_. [])), cmd (set_processed_count q (\<lambda>_. None)),
      cmd (set_dead_count q (\<lambda>_. None))]"

definition hdel_all :: "string list \<Rightarrow> (string \<rightharpoonup> 'v) \<Rightarrow> (string \<rightharpoonup> 'v)" where
  "hdel_all ids m = (\<lambda>k. if k \<in> set ids then None else m k)"

definition Redis_ClearQueue :: "(string list \<Rightarrow> string list list) \<Rightarrow> string \<Rightarrow> unit rds" where
  "Redis_ClearQueue pages q =
     bindS (Redis_collectQueueIDs q) (\<lambda>(allIDs, dIDs).
     bindS (Redis_scanUniqueKeys pages q) (\<lambda>keysToDelete.
     pipe_exec
       ((if allIDs \<noteq> [] then [cmd (rd_jobs_update (hdel_all allIDs)), cmd (rd_errors_update (hdel_all allIDs))] else [])
        @ map (\<lambda>jobID. cmd (rd_dead_ttl_update (zrem (q @ '':'' @ jobID)))) dIDs
        @ (if keysToDelete \<noteq> [] then [cmd (rd_unique_update (\<lambda>m. fold AList.delete keysToDelete m))] else [])
        @ Redis_deleteQueueKeys q)))"

definition Redis_retryQueueFailed :: "time \<Rightarrow> string \<Rightarrow> unit rds" where
  "Redis_retryQueueFailed now q =
     bindS (or_none (query (\<lambda>s. rd_failed s q))) (\<lambda>failedIDs.
     bindS (or_none (query (\<lambda>s. rd_dead s q))) (\<lambda>deadIDs.
     forS (Redis_Retry now) (failedIDs @ deadIDs)))"

definition Redis_RetryAllFailed :: "time \<Rightarrow> unit rds" where
  "Redis_RetryAllFailed now = bindS (query rd_queues) (forS (Redis_retryQueueFailed now))"

definition Redis_deleteFailedJobs :: "string \<Rightarrow> string list \<Rightarrow> string list \<Rightarrow> unit rds" where
  "Redis_deleteFailedJobs q ids deadIDs =
     pipe_exec
       ([cmd (rd_jobs_update (hdel_all ids)), cmd (rd_errors_update (hdel_all ids)),
         cmd (set_failed q (\<lambda>_. [])), cmd (set_dead q (\<lambda>_. [])), cmd (set_dead_count q (\<lambda>_. None))]
        @ map (\<lambda>jobID. cmd (rd_dead_ttl_update (zrem (q @ '':'' @ jobID)))) deadIDs)"

definition Redis_purgeQueueFailed :: "string \<Rightarrow> unit rds" where
  "Redis_purgeQueueFailed q =
     bindS (or_none (query (\<lambda>s. rd_failed s q))) (\<lambda>failedIDs.
     bindS (or_none (query (\<lambda>s. rd_dead s q))) (\<lambda>deadIDs.
     let allIDs = failedIDs @ deadIDs in
     if allIDs = [] then ret () else Redis_deleteFailedJobs q allIDs deadIDs))"

definition Redis_PurgeAllFailed :: "unit rds" where
  "Redis_PurgeAllFailed = bindS (query rd_queues) (forS Redis_purgeQueueFailed)"

definition Redis_executePurgeDLQ :: "string list \<Rightarrow> unit rds" where
  "Redis_executePurgeDLQ expired =
     pipe_exec (concat (map (\<lambda>member.
       cmd (rd_dead_ttl_update (zrem member)) #
       (case split2 member of
          None \<Rightarrow> []
        | Some (queue, jobID) \<Rightarrow>
            [cmd (set_dead queue (lrem jobID)), cmd (set_dead_count queue (incr_by (- 1))),
             cmd (set_job jobID None), cmd (rd_errors_update (\<lambda>m. m(jobID := None)))])) expired))"

definition Redis_PurgeExpiredDLQ :: "time \<Rightarrow> duration \<Rightarrow> unit rds" where
  "Redis_PurgeExpiredDLQ now ttl =
     (let cutoff = now - ttl in
      bindS (query (\<lambda>s. zrange_to (unix_score cutoff) (rd_dead_ttl s))) (\<lambda>expired.
      if expired = [] then ret () else Redis_executePurgeDLQ expired))"

definition Redis_failExpiredBatchesTx :: "string list \<Rightarrow> unit rds" where
  "Redis_failExpiredBatchesTx expired =
     pipe_exec (concat (map (\<lambda>batchID.
       [cmd (set_batch batchID (bh_status_update (\<lambda>_. Some ''failed''))),
        cmd (rd_batches_expire_update (zrem batchID))]) expired))"

definition Redis_FailExpiredBatches :: "time \<Rightarrow> unit rds" where
  "Redis_FailExpiredBatches now =
     bindS (query (\<lambda>s. zrange_to (unix_score now) (rd_batches_expire s))) (\<lambda>expired.
     if expired = [] then ret () else Redis_failExpiredBatchesTx expired)"

section \<open>Paused queues and throttling\<close>

definition Redis_IsQueuePaused :: "string \<Rightarrow> bool rds" where
  "Redis_IsQueuePaused q = query (\<lambda>s. q \<in> set (rd_paused s))"

definition Redis_PauseQueue :: "string \<Rightarrow> unit rds" where
  "Redis_PauseQueue q = exec (rd_paused_update (sadd q))"

definition Redis_ResumeQueue :: "string \<Rightarrow> unit rds" where
  "Redis_ResumeQueue q = exec (rd_paused_update (srem q))"

fun Redis_fetchActiveIDs :: "string list \<Rightarrow> string list rds" where
  "Redis_fetchActiveIDs [] = ret []"
| "Redis_fetchActiveIDs (q # qs) =
     bindS (or_none (query (\<lambda>s. rd_active s q))) (\<lambda>ids.
     bindS (Redis_fetchActiveIDs qs) (\<lambda>rest. ret (ids @ rest)))"

definition Redis_parseRunningCount :: "JobEnvelope doc option list \<Rightarrow> string \<Rightarrow> int" where
  "Redis_parseRunningCount envelopes jobName =
     int (length (filter (\<lambda>v. case v of Some (Doc env) \<Rightarrow> Name env = jobName | _ \<Rightarrow> False) envelopes))"

definition Redis_GetRunningJobsCount :: "string \<Rightarrow> int rds" where
  "Redis_GetRunningJobsCount jobName =
     bindS (query rd_queues) (\<lambda>queues.
     bindS (Redis_fetchActiveIDs queues) (\<lambda>activeIDs.
     if activeIDs = [] then ret 0
     else bindS (query (\<lambda>s. map (rd_jobs s) activeIDs)) (\<lambda>envelopes.
          ret (Redis_parseRunningCount envelopes jobName))))"

text \<open>The stamps of a rate limit; a key whose time is over is empty. A stamp is a member named
  after the clock in nanoseconds, with the clock rounded to a \<open>float64\<close> as its score.\<close>

definition live_stamps :: "time \<Rightarrow> string \<Rightarrow> rdb \<Rightarrow> zset \<times> time option" where
  "live_stamps now n s = (case rd_ratelimit s n of
     (z, Some e) \<Rightarrow> if now < e then (z, Some e) else ([], None)
   | (z, None) \<Rightarrow> (z, None))"

definition set_stamps :: "string \<Rightarrow> zset \<times> time option \<Rightarrow> rdb \<Rightarrow> rdb" where
  "set_stamps n v = rd_ratelimit_update (\<lambda>m. m(n := if fst v = [] then ([], None) else v))"

definition Redis_CheckRateLimit :: "time \<Rightarrow> string \<Rightarrow> int \<Rightarrow> duration \<Rightarrow> bool rds" where
  "Redis_CheckRateLimit now jobName limit period =
     (let clearBefore = now - period in
      bindS (engine (\<lambda>s.
        let (z, e) = live_stamps now jobName s; z' = zremrange_to (f64 (of_int clearBefore)) z
        in (Inr (int (length z')), set_stamps jobName (z', e) s))) (\<lambda>zcard.
      if zcard \<ge> limit then ret False
      else thenS (exec (\<lambda>s. let (z, e) = live_stamps now jobName s in
                set_stamps jobName (zadd (Itoa now) (f64 (of_int now)) z, e) s))
             (thenS (ignoreS (exec (\<lambda>s. let (z, e) = live_stamps now jobName s in
                set_stamps jobName
                  (if go_div (period * 2) millisecond \<le> 0 then ([], None)
                   else (z, Some (now + go_div (period * 2) millisecond * millisecond))) s)))
                (ret True))))"

definition Redis_PostponeJob :: "time \<Rightarrow> string \<Rightarrow> string \<Rightarrow> duration \<Rightarrow> unit rds" where
  "Redis_PostponeJob now jobID queueName delay =
     (let runAt = now + delay in
      pipe_exec [cmd (set_active queueName (srem jobID)),
        cmd (set_scheduled queueName (zadd jobID (unix_score runAt)))])"

text \<open>The error of a cron lock names the lock; the time and the cause are left out here.\<close>

definition Redis_LockCronExecution :: "time \<Rightarrow> string \<Rightarrow> time \<Rightarrow> bool rds" where
  "Redis_LockCronExecution now cronName executionMinute =
     (let key = (cronName, unix (trunc_minute executionMinute)) in
      bindS (tryS (engine (\<lambda>s. case rd_cron_locks s key of
          Some e \<Rightarrow> if now < e then (Inr False, s)
                    else (Inr True, rd_cron_locks_update (\<lambda>m. m(key := Some (now + 5 * minute))) s)
        | None \<Rightarrow> (Inr True, rd_cron_locks_update (\<lambda>m. m(key := Some (now + 5 * minute))) s)))) (\<lambda>r.
      case r of
        Inl e \<Rightarrow> throw (ErrMsg (''failed to acquire cron lock for '' @ go_quote cronName))
      | Inr ok \<Rightarrow> ret ok))"

section \<open>Job details and cron tables\<close>

definition Redis_GetJobDetail :: "string \<Rightarrow> JobEnvelope option rds" where
  "Redis_GetJobDetail jobID =
     bindS (tryS (query_row (\<lambda>s. rd_jobs s jobID))) (\<lambda>r.
     case r of
       Inl e \<Rightarrow> if e = ErrNoRows then ret None else throw e
     | Inr data \<Rightarrow> bindS (liftE (unmarshal data)) (\<lambda>env. ret (Some env)))"

definition Redis_RegisterCronJobs :: "CronJob list \<Rightarrow> unit rds" where
  "Redis_RegisterCronJobs crons =
     pipe_exec (map (\<lambda>c.
       let detail = zero_CronJobDetail\<lparr>cd_Name := cj_Name c, cd_Expression := cj_Spec c,
             cd_Queue := cj_Queue c, cd_Payload := cj_Payload c, cd_Timezone := cj_Timezone c\<rparr>
       in cmd (rd_cron_jobs_update (AList.update (cj_Name c) (Doc detail)))) crons)"

definition Redis_GetCronSchedules :: "CronJob list rds" where
  "Redis_GetCronSchedules =
     bindS (query rd_cron_schedules) (\<lambda>m.
     ret (sort_key cj_Name (concat (map (\<lambda>(k, val). case val of Doc c \<Rightarrow> [c] | EmptyText \<Rightarrow> []) m))))"

definition Redis_SaveCronSchedule :: "CronJob \<Rightarrow> unit rds" where
  "Redis_SaveCronSchedule cron = exec (rd_cron_schedules_update (AList.update (cj_Name cron) (Doc cron)))"

definition Redis_DeleteCronSchedule :: "string \<Rightarrow> unit rds" where
  "Redis_DeleteCronSchedule name = exec (rd_cron_schedules_update (AList.delete name))"

section \<open>Worker processes\<close>

definition Redis_RegisterProcess :: "ProcessInfo \<Rightarrow> unit rds" where
  "Redis_RegisterProcess info =
     bindS (liftE (marshal_process info)) (\<lambda>data.
     pipe_exec [cmd (rd_processes_update (\<lambda>m. m(pi_ProcessID info \<mapsto> data))),
       cmd (rd_heartbeat_update (zadd (pi_ProcessID info) (unix_score (pi_HeartbeatAt info))))])"

definition Redis_getProcessInfo :: "string \<Rightarrow> ProcessInfo option rds" where
  "Redis_getProcessInfo processID =
     bindS (tryS (query_row (\<lambda>s. rd_processes s processID))) (\<lambda>r.
     case r of
       Inl e \<Rightarrow> if e = ErrNoRows then ret None else throw e
     | Inr data \<Rightarrow> bindS (liftE (unmarshal data)) (\<lambda>info. ret (Some info)))"

definition Redis_HeartbeatProcess :: "time \<Rightarrow> string \<Rightarrow> unit rds" where
  "Redis_HeartbeatProcess now processID =
     thenS (exec (rd_heartbeat_update (zadd processID (unix_score now))))
    (bindS (Redis_getProcessInfo processID) (\<lambda>info.
     case info of
       None \<Rightarrow> ret ()
     | Some i \<Rightarrow>
         bindS (liftE (marshal_process (i\<lparr>pi_HeartbeatAt := now\<rparr>))) (\<lambda>updated.
         exec (rd_processes_update (\<lambda>m. m(processID \<mapsto> updated))))))"

definition Redis_cleanupDeadProcesses :: "time \<Rightarrow> unit rds" where
  "Redis_cleanupDeadProcesses now =
     (let limit = now - 15 * second in
      bindS (query (\<lambda>s. zrange_to (unix_score limit) (rd_heartbeat s))) (\<lambda>dead.
      if dead = [] then ret ()
      else pipe_exec [cmd (rd_heartbeat_update (fold zrem dead)), cmd (rd_processes_update (hdel_all dead))]))"

definition Redis_parseActiveProcesses :: "ProcessInfo doc option list \<Rightarrow> string \<Rightarrow> ProcessInfo list" where
  "Redis_parseActiveProcesses raws leaderID =
     concat (map (\<lambda>raw. case raw of
         Some (Doc info) \<Rightarrow> [info\<lparr>pi_IsLeader := (pi_ProcessID info = leaderID)\<rparr>]
       | _ \<Rightarrow> []) raws)"

definition Redis_GetActiveProcesses :: "time \<Rightarrow> ProcessInfo list rds" where
  "Redis_GetActiveProcesses now =
     thenS (Redis_cleanupDeadProcesses now)
    (bindS (query (\<lambda>s. zrange (rd_heartbeat s))) (\<lambda>activeIDs.
     if activeIDs = [] then ret []
     else bindS (query (\<lambda>s. map (rd_processes s) activeIDs)) (\<lambda>raws.
          bindS (tryS (query_row (live_leader now))) (\<lambda>l.
          ret (Redis_parseActiveProcesses raws (case l of Inr h \<Rightarrow> h | Inl e \<Rightarrow> ''''))))))"

section \<open>Statistics\<close>

record jobMeta =
  m_id :: string
  m_queue :: string
  m_status :: string

definition metas :: "string \<Rightarrow> string \<Rightarrow> string list \<Rightarrow> jobMeta list" where
  "metas q status ids = map (\<lambda>j. \<lparr>m_id = j, m_queue = q, m_status = status\<rparr>) ids"

definition Redis_loadStaticCrons :: "(string \<times> CronJobDetail) list \<Rightarrow> (string \<times> CronJobDetail) list rds" where
  "Redis_loadStaticCrons m =
     bindS (tryS (query rd_cron_jobs)) (\<lambda>r.
     case r of
       Inl e \<Rightarrow> ret m
     | Inr allCrons \<Rightarrow> ret (fold (\<lambda>(k, data). case data of
           Doc cd \<Rightarrow> AList.update (cd_Name cd) (cd\<lparr>cd_Source := ''static''\<rparr>)
         | EmptyText \<Rightarrow> (\<lambda>m. m)) allCrons m))"

definition Redis_loadDynamicCrons :: "(string \<times> CronJobDetail) list \<Rightarrow> (string \<times> CronJobDetail) list rds" where
  "Redis_loadDynamicCrons m =
     bindS (tryS (query rd_cron_schedules)) (\<lambda>r.
     case r of
       Inl e \<Rightarrow> ret m
     | Inr allCrons \<Rightarrow> ret (fold (\<lambda>(k, data). case data of
           Doc c \<Rightarrow> AList.update (cj_Name c)
             \<lparr>cd_Name = cj_Name c, cd_Expression = cj_Spec c, cd_Queue = cj_Queue c,
              cd_Payload = cj_Payload c, cd_Timezone = cj_Timezone c, cd_Source = ''dynamic'',
              cd_Paused = cj_Paused c\<rparr>
         | EmptyText \<Rightarrow> (\<lambda>m. m)) allCrons m))"

definition Redis_loadCronJobs :: "Stats \<Rightarrow> Stats rds" where
  "Redis_loadCronJobs stats =
     bindS (Redis_loadStaticCrons []) (\<lambda>m.
     bindS (Redis_loadDynamicCrons m) (\<lambda>m.
     ret (stats\<lparr>st_CronJobs := sortCronJobs m\<rparr>)))"

text \<open>One pipeline; \<open>ZCARD\<close> of an old queue's list fails it, a missing counter does not.\<close>

definition Redis_getQueueStats :: "string \<Rightarrow> QueueStats rds" where
  "Redis_getQueueStats q =
     engine (\<lambda>s. (case rd_queue s q of
         QList l \<Rightarrow> Inl ErrWrongType
       | QZSet z \<Rightarrow>
           (let processedVal = (case rd_processed_count s q of Some n \<Rightarrow> n | None \<Rightarrow> 0);
                processedVal = (if processedVal \<le> 0 then int (length (rd_processed s q)) else processedVal);
                deadVal = (case rd_dead_count s q of Some n \<Rightarrow> n | None \<Rightarrow> 0);
                deadVal = (if deadVal \<le> 0 then int (length (rd_dead s q)) else deadVal)
            in Inr \<lparr>qs_Name = q, qs_Pending = int (length z) + int (length (rd_scheduled s q)),
                 qs_Running = int (length (rd_active s q)),
                 qs_Failed = int (length (rd_failed s q)) + deadVal,
                 qs_Processed = processedVal, qs_Paused = False\<rparr>), s))"

definition Redis_accumulateQueueTotals :: "Stats \<Rightarrow> QueueStats \<Rightarrow> Stats" where
  "Redis_accumulateQueueTotals stats qs =
     stats\<lparr>st_Pending := st_Pending stats + qs_Pending qs, st_Running := st_Running stats + qs_Running qs,
       st_Processed := st_Processed stats + qs_Processed qs, st_Failed := st_Failed stats + qs_Failed qs\<rparr>"

definition Redis_collectRecentJobIDs :: "string \<Rightarrow> jobMeta list \<Rightarrow> jobMeta list rds" where
  "Redis_collectRecentJobIDs q acc =
     bindS (or_none (bindS (read_queue q) (\<lambda>ids. ret (take 50 ids)))) (\<lambda>pIDs.
     bindS (or_none (query (\<lambda>s. take 50 (zrange (rd_scheduled s q))))) (\<lambda>sIDs.
     bindS (or_none (query (\<lambda>s. rd_active s q))) (\<lambda>aIDs.
     bindS (or_none (query (\<lambda>s. take 50 (rd_processed s q)))) (\<lambda>prIDs.
     bindS (or_none (query (\<lambda>s. take 50 (rd_failed s q)))) (\<lambda>fIDs.
     bindS (or_none (query (\<lambda>s. take 50 (rd_dead s q)))) (\<lambda>dIDs.
     ret (acc @ metas q ''pending'' pIDs @ metas q ''pending'' sIDs @ metas q ''running'' aIDs
       @ metas q ''processed'' prIDs @ metas q ''failed'' fIDs @ metas q ''dead'' dIDs)))))))"

definition Redis_processQueue ::
  "string \<Rightarrow> string list \<Rightarrow> Stats \<times> jobMeta list \<Rightarrow> (Stats \<times> jobMeta list) rds" where
  "Redis_processQueue q paused acc =
     (let (stats, jobsMeta) = acc in
      bindS (Redis_getQueueStats q) (\<lambda>qs.
      let qs = qs\<lparr>qs_Paused := (q \<in> set paused)\<rparr>;
          stats = stats\<lparr>st_Queues := st_Queues stats @ [qs]\<rparr>
      in bindS (Redis_collectRecentJobIDs q jobsMeta) (\<lambda>jobsMeta.
         ret (Redis_accumulateQueueTotals stats qs, jobsMeta))))"

fun Redis_processAllQueues ::
  "string list \<Rightarrow> string list \<Rightarrow> Stats \<times> jobMeta list \<Rightarrow> (Stats \<times> jobMeta list) rds" where
  "Redis_processAllQueues [] paused acc = ret acc"
| "Redis_processAllQueues (q # queues) paused acc =
     bindS (Redis_processQueue q paused acc) (Redis_processAllQueues queues paused)"

definition Redis_loadQueuesStats :: "Stats \<Rightarrow> string list \<Rightarrow> (Stats \<times> jobMeta list) rds" where
  "Redis_loadQueuesStats stats queues =
     bindS (query rd_paused) (\<lambda>paused. Redis_processAllQueues queues paused (stats, []))"

definition redis_detail :: "(string \<rightharpoonup> string) \<Rightarrow> string \<Rightarrow> JobEnvelope \<Rightarrow> JobDetail" where
  "redis_detail errs status env =
     \<lparr>jd_JobID = JobID env, jd_Queue = Queue env, jd_Name = Name env, jd_Status = status,
      jd_TraceID = TraceID (TraceCtx env),
      jd_ErrorMessage = (case errs (JobID env) of Some e \<Rightarrow> e | None \<Rightarrow> ''''), jd_CreatedAt = ''''\<rparr>"

definition Redis_parseSingleEnvelope ::
  "JobEnvelope doc \<Rightarrow> jobMeta \<Rightarrow> (string \<rightharpoonup> string) \<Rightarrow> Stats \<Rightarrow> Stats" where
  "Redis_parseSingleEnvelope val m errs stats =
     (case val of
        EmptyText \<Rightarrow> stats
      | Doc env \<Rightarrow> stats\<lparr>st_Jobs := st_Jobs stats @ [redis_detail errs (m_status m) env]\<rparr>)"

definition Redis_parseEnvelopes ::
  "JobEnvelope doc option list \<Rightarrow> jobMeta list \<Rightarrow> (string \<rightharpoonup> string) \<Rightarrow> Stats \<Rightarrow> Stats" where
  "Redis_parseEnvelopes envs meta errs stats =
     fold (\<lambda>(val, m) stats. case val of
         None \<Rightarrow> stats | Some v \<Rightarrow> Redis_parseSingleEnvelope v m errs stats) (zip envs meta) stats"

text \<open>\<open>errsMap, _ := HGetAll(...)\<close>: an error leaves the map empty.\<close>

definition read_errors :: "(string \<rightharpoonup> string) rds" where
  "read_errors = bindS (tryS (query rd_errors)) (\<lambda>r. ret (case r of Inr m \<Rightarrow> m | Inl e \<Rightarrow> (\<lambda>_. None)))"

definition Redis_loadRecentJobs :: "Stats \<Rightarrow> jobMeta list \<Rightarrow> Stats rds" where
  "Redis_loadRecentJobs stats meta =
     (if meta = [] then ret stats
      else bindS (tryS (query (\<lambda>s. map (rd_jobs s) (map m_id meta)))) (\<lambda>r.
           case r of
             Inl e \<Rightarrow> ret stats
           | Inr envs \<Rightarrow> bindS read_errors (\<lambda>errs. ret (Redis_parseEnvelopes envs meta errs stats))))"

definition Redis_loadActiveProcesses :: "time \<Rightarrow> Stats \<Rightarrow> Stats rds" where
  "Redis_loadActiveProcesses now stats =
     bindS (tryS (Redis_GetActiveProcesses now)) (\<lambda>r.
     case r of Inr active \<Rightarrow> ret (stats\<lparr>st_Processes := active\<rparr>) | Inl e \<Rightarrow> ret stats)"

definition Redis_GetStats :: "time \<Rightarrow> Stats rds" where
  "Redis_GetStats now =
     bindS (query rd_queues) (\<lambda>queues.
     bindS (Redis_loadQueuesStats zero_Stats queues) (\<lambda>(stats, jobsMeta).
     bindS (Redis_loadRecentJobs stats jobsMeta) (\<lambda>stats.
     bindS (Redis_loadActiveProcesses now stats) (\<lambda>stats.
     Redis_loadCronJobs stats))))"

section \<open>Search and bulk operations\<close>

definition Redis_fetchMeta :: "string list rds \<Rightarrow> string \<Rightarrow> string \<Rightarrow> jobMeta list rds" where
  "Redis_fetchMeta read q status = bindS (or_none read) (\<lambda>ids. ret (metas q status ids))"

definition Redis_appendMetasForQueue :: "jobMeta list \<Rightarrow> string \<Rightarrow> string \<Rightarrow> jobMeta list rds" where
  "Redis_appendMetasForQueue acc q status =
     (let part = (\<lambda>st read acc. if status = '''' \<or> status = st
            then bindS (Redis_fetchMeta read q st) (\<lambda>ms. ret (acc @ ms)) else ret acc)
      in bindS (part ''pending'' (read_queue q) acc) (\<lambda>acc.
         bindS (part ''pending'' (query (\<lambda>s. zrange (rd_scheduled s q))) acc) (\<lambda>acc.
         bindS (part ''running'' (query (\<lambda>s. rd_active s q)) acc) (\<lambda>acc.
         bindS (part ''processed'' (query (\<lambda>s. rd_processed s q)) acc) (\<lambda>acc.
         bindS (part ''failed'' (query (\<lambda>s. rd_failed s q)) acc) (\<lambda>acc.
         part ''dead'' (query (\<lambda>s. rd_dead s q)) acc))))))"

fun Redis_collectJobIDsForStatus :: "string \<Rightarrow> string list \<Rightarrow> jobMeta list \<Rightarrow> jobMeta list rds" where
  "Redis_collectJobIDsForStatus status [] acc = ret acc"
| "Redis_collectJobIDsForStatus status (q # queues) acc =
     bindS (Redis_appendMetasForQueue acc q status) (Redis_collectJobIDsForStatus status queues)"

text \<open>\<open>strings.Contains(strings.ToLower(s), strings.ToLower(q))\<close>, on ASCII letters.\<close>

definition contains_fold :: "string \<Rightarrow> string \<Rightarrow> bool" where
  "contains_fold s q = (let s' = map ascii_lower s; q' = map ascii_lower q in
     list_ex (\<lambda>n. take (length q') (drop n s') = q') [0..<length s' + 1])"

definition matchQuery :: "JobEnvelope \<Rightarrow> string \<Rightarrow> bool" where
  "matchQuery env q =
     (if q = '''' then True
      else contains_fold (JobID env) q \<or> contains_fold (Name env) q
           \<or> contains_fold (TraceID (TraceCtx env)) q)"

text \<open>A text that Unmarshal refuses leaves the envelope at its zero value.\<close>

definition filterJobs ::
  "JobEnvelope doc option list \<Rightarrow> jobMeta list \<Rightarrow> string \<Rightarrow> (string \<rightharpoonup> string) \<Rightarrow> JobDetail list" where
  "filterJobs envs meta q errs =
     concat (map (\<lambda>(val, m). case val of
         None \<Rightarrow> []
       | Some v \<Rightarrow> (let env = (case v of Doc e \<Rightarrow> e | EmptyText \<Rightarrow> zero_envelope) in
           if matchQuery env q then [redis_detail errs (m_status m) env] else [])) (zip envs meta))"

text \<open>The start of the page is a 64-bit product; slicing from a negative start panics, which ends
  the request (\<open>ErrPanic\<close>).\<close>

definition ErrPanic :: err where
  "ErrPanic = ErrMsg ''runtime error: slice bounds out of range''"

definition paginateJobs :: "JobDetail list \<Rightarrow> int \<Rightarrow> int \<Rightarrow> err + (JobDetail list \<times> int)" where
  "paginateJobs js page limit =
     (let total = int (length js);
          (limit, page) = Sqlite_sanitizePageLimit limit page;
          start = sint ((word_of_int (page - 1) :: 64 word) * word_of_int limit)
      in if start \<ge> total then Inr ([], total)
         else if start < 0 then Inl ErrPanic
         else let pageEnd = start + limit; pageEnd = (if pageEnd > total then total else pageEnd)
              in Inr (take (nat (pageEnd - start)) (drop (nat start) js), total))"

definition Redis_GetJobs :: "string \<Rightarrow> string \<Rightarrow> int \<Rightarrow> int \<Rightarrow> (JobDetail list \<times> int) rds" where
  "Redis_GetJobs q status page limit =
     bindS (query rd_queues) (\<lambda>queues.
     bindS (Redis_collectJobIDsForStatus status queues []) (\<lambda>meta.
     if meta = [] then ret ([], 0)
     else bindS (query (\<lambda>s. map (rd_jobs s) (map m_id meta))) (\<lambda>envs.
          bindS read_errors (\<lambda>errs.
          liftE (paginateJobs (filterJobs envs meta q errs) page limit)))))"

definition Redis_BulkRetry :: "time \<Rightarrow> string list \<Rightarrow> unit rds" where
  "Redis_BulkRetry now jobIDs = (if jobIDs = [] then ret () else forS (Redis_Retry now) jobIDs)"

definition Redis_BulkCancel :: "nat \<Rightarrow> time \<Rightarrow> string list \<Rightarrow> unit rds" where
  "Redis_BulkCancel stack now jobIDs =
     (if jobIDs = [] then ret () else forS (Redis_Cancel stack now) jobIDs)"

definition Redis_BulkPurge :: "nat \<Rightarrow> time \<Rightarrow> string list \<Rightarrow> unit rds" where
  "Redis_BulkPurge stack now jobIDs =
     (if jobIDs = [] then ret () else forS (Redis_Cancel stack now) jobIDs)"

end
