(* ===== verification/RedisInv.thy ===== *)
theory RedisInv
  imports RedisAdmin SqliteInv
begin

text \<open>
  The Redis backend as a transition system over the same calls as the SQL backends, and the
  typing of its keys: in every state that calls lead to, whatever round trips fail, each document
  is stored under the id it carries, and the members of sets and sorted sets are distinct.
\<close>

section \<open>Calls\<close>

text \<open>\<open>pages\<close> is how the server cuts a scan, \<open>stack\<close> the room for nested calls and \<open>clock\<close> the
  clock of the calls that carry none.\<close>

fun redis_call :: "(string list \<Rightarrow> string list list) \<Rightarrow> nat \<Rightarrow> time \<Rightarrow> call \<Rightarrow> unit rds" where
  "redis_call pages stack clock (CEnqueue now env) = Redis_Enqueue now env"
| "redis_call pages stack clock (CDequeue now q ws) = bindS (Redis_Dequeue now q ws) (\<lambda>_. ret ())"
| "redis_call pages stack clock (CPollScheduled q) = Redis_PollScheduled clock q"
| "redis_call pages stack clock (CAck now rnd j) = Redis_Ack now rnd j"
| "redis_call pages stack clock (CFail n now j e) = Redis_Fail n now j e"
| "redis_call pages stack clock (CPostponeJob now j q delay) = Redis_PostponeJob now j q delay"
| "redis_call pages stack clock (CAcquireLeader now c ttl) = bindS (Redis_AcquireLeader now c ttl) (\<lambda>_. ret ())"
| "redis_call pages stack clock (CReleaseLeader c) = Redis_ReleaseLeader clock c"
| "redis_call pages stack clock (CArchiveJobs now age) = bindS (Redis_ArchiveJobs now age) (\<lambda>_. ret ())"
| "redis_call pages stack clock (CEnqueueWorkflow now js) = Redis_EnqueueWorkflow now js"
| "redis_call pages stack clock (CCreateBatch now b cb ex) = Redis_CreateBatch b cb ex"
| "redis_call pages stack clock (CEnqueueInBatch now b env) = Redis_EnqueueInBatch now b env"
| "redis_call pages stack clock (CSubmitBatch now rnd b) = Redis_SubmitBatch now rnd b"
| "redis_call pages stack clock (CFailExpiredBatches now) = Redis_FailExpiredBatches now"
| "redis_call pages stack clock (CRetry now j) = Redis_Retry now j"
| "redis_call pages stack clock (CCancel n now j) = Redis_Cancel n now j"
| "redis_call pages stack clock (CClearQueue q) = Redis_ClearQueue pages q"
| "redis_call pages stack clock (CRetryAllFailed now) = Redis_RetryAllFailed now"
| "redis_call pages stack clock CPurgeAllFailed = Redis_PurgeAllFailed"
| "redis_call pages stack clock (CPurgeExpiredDLQ now ttl) = Redis_PurgeExpiredDLQ now ttl"
| "redis_call pages stack clock (CBulkRetry now js) = Redis_BulkRetry now js"
| "redis_call pages stack clock (CBulkCancel js) = Redis_BulkCancel stack clock js"
| "redis_call pages stack clock (CBulkPurge js) = Redis_BulkPurge stack clock js"
| "redis_call pages stack clock (CRetryModified now j args) = Redis_RetryModified now j args"
| "redis_call pages stack clock (CGetStats now) = bindS (Redis_GetStats now) (\<lambda>_. ret ())"
| "redis_call pages stack clock (CGetActiveProcesses now) = bindS (Redis_GetActiveProcesses now) (\<lambda>_. ret ())"
| "redis_call pages stack clock (CGetJobs q s p l) = bindS (Redis_GetJobs q s p l) (\<lambda>_. ret ())"
| "redis_call pages stack clock (CGetJobDetail j) = bindS (Redis_GetJobDetail j) (\<lambda>_. ret ())"
| "redis_call pages stack clock (CRegisterProcess info) = Redis_RegisterProcess info"
| "redis_call pages stack clock (CHeartbeatProcess now p) = Redis_HeartbeatProcess now p"
| "redis_call pages stack clock (CIsQueuePaused q) = bindS (Redis_IsQueuePaused q) (\<lambda>_. ret ())"
| "redis_call pages stack clock (CPauseQueue q) = Redis_PauseQueue q"
| "redis_call pages stack clock (CResumeQueue q) = Redis_ResumeQueue q"
| "redis_call pages stack clock (CRegisterCronJobs now cs) = Redis_RegisterCronJobs cs"
| "redis_call pages stack clock CGetCronSchedules = bindS Redis_GetCronSchedules (\<lambda>_. ret ())"
| "redis_call pages stack clock (CSaveCronSchedule now c) = Redis_SaveCronSchedule c"
| "redis_call pages stack clock (CDeleteCronSchedule n) = Redis_DeleteCronSchedule n"
| "redis_call pages stack clock (CLockCronExecution now n t) = bindS (Redis_LockCronExecution now n t) (\<lambda>_. ret ())"
| "redis_call pages stack clock (CGetRunningJobsCount n) = bindS (Redis_GetRunningJobsCount n) (\<lambda>_. ret ())"
| "redis_call pages stack clock (CCheckRateLimit now n l per) = bindS (Redis_CheckRateLimit now n l per) (\<lambda>_. ret ())"

inductive redis_step :: "rdb \<Rightarrow> rdb \<Rightarrow> bool" where
  "redis_call pages stack clock c (s, fs) = Some (r, (s', fs')) \<Longrightarrow> redis_step s s'"

inductive redis_reachable :: "rdb \<Rightarrow> bool" where
  start: "redis_reachable empty_rdb"
| step: "redis_reachable s \<Longrightarrow> redis_step s s' \<Longrightarrow> redis_reachable s'"

inductive_cases redis_stepE: "redis_step s s'"

section \<open>Well-formed keys\<close>

definition under_own_id :: "('v \<Rightarrow> string) \<Rightarrow> (string \<rightharpoonup> 'v doc) \<Rightarrow> bool" where
  "under_own_id key m \<longleftrightarrow> (\<forall>j v. m j = Some (Doc v) \<longrightarrow> key v = j)"

definition docs_ok :: "rdb \<Rightarrow> bool" where
  "docs_ok s \<longleftrightarrow> under_own_id JobID (rd_jobs s) \<and> under_own_id JobID (rd_archived s)
     \<and> under_own_id pi_ProcessID (rd_processes s)"

definition queue_ok :: "queue_value \<Rightarrow> bool" where
  "queue_ok v = (case v of QZSet z \<Rightarrow> distinct (map fst z) | QList l \<Rightarrow> l \<noteq> [])"

definition members_ok :: "rdb \<Rightarrow> bool" where
  "members_ok s \<longleftrightarrow> (\<forall>q. queue_ok (rd_queue s q)) \<and> (\<forall>q. distinct (map fst (rd_scheduled s q)))
     \<and> (\<forall>q. distinct (rd_active s q)) \<and> distinct (rd_queues s) \<and> distinct (rd_paused s)
     \<and> (\<forall>j. distinct (rd_dependents s j)) \<and> (\<forall>j. distinct (rd_dependencies s j))
     \<and> distinct (map fst (rd_processed_ttl s)) \<and> distinct (map fst (rd_dead_ttl s))
     \<and> distinct (map fst (rd_batches_expire s)) \<and> distinct (map fst (rd_heartbeat s))
     \<and> (\<forall>n. distinct (map fst (fst (rd_ratelimit s n))))
     \<and> distinct (map fst (rd_unique s)) \<and> distinct (map fst (rd_cron_jobs s))
     \<and> distinct (map fst (rd_cron_schedules s))"

definition rdb_ok :: "rdb \<Rightarrow> bool" where
  "rdb_ok s \<longleftrightarrow> docs_ok s \<and> members_ok s"

definition cmd_ok :: "(rdb \<Rightarrow> bool) \<Rightarrow> command \<Rightarrow> bool" where
  "cmd_ok I c \<longleftrightarrow> (\<forall>s. I s \<longrightarrow> I (snd (c s)))"

lemma run_commands_ok: "list_all (cmd_ok I) cs \<Longrightarrow> I s \<Longrightarrow> I (snd (run_commands cs s))"
proof (induction cs arbitrary: s)
  case (Cons c cs)
  obtain e s' where c: "c s = (e, s')" by fastforce
  with Cons.prems have "I s'" by (auto simp: cmd_ok_def)
  with Cons have "I (snd (run_commands cs s'))" by simp
  then show ?case by (cases "run_commands cs s'") (simp add: c run_commands.simps(2))
qed simp

lemma keeps_engine_redis:
  assumes "\<And>s. I s \<Longrightarrow> I (snd (g s))"
  shows "keeps I (engine g)"
  unfolding keeps_def
proof (rule triple_engine)
  fix s assume "I s"
  then have "I (snd (g s))" by (rule assms)
  then show "case g s of (Inl e, s') \<Rightarrow> I s' | (Inr x, s') \<Rightarrow> I s'"
    by (cases "g s"; cases "fst (g s)") auto
qed

lemma keeps_pipe: "list_all (cmd_ok I) cs \<Longrightarrow> keeps I (pipe_exec cs)"
  unfolding pipe_exec_def
proof (intro keeps_if keeps_ret keeps_engine_redis)
  fix s assume "list_all (cmd_ok I) cs" "I s"
  then have "I (snd (run_commands cs s))" by (rule run_commands_ok)
  then show "I (snd (case run_commands cs s of
      (None, s') \<Rightarrow> (Inr (), s') | (Some e, s') \<Rightarrow> (Inl e, s')))"
    by (auto split: prod.splits option.splits)
qed

lemma keeps_map: "(\<And>x. x \<in> set xs \<Longrightarrow> keeps I (f x)) \<Longrightarrow> keeps I (mapS f xs)"
  by (induction xs) (auto intro!: keeps_ret keeps_bind)

lemma keeps_liftE: "keeps I (liftE r)"
  unfolding liftE_def by (intro keeps_case_sum keeps_throw keeps_ret)

lemma keeps_or_none: "keeps I m \<Longrightarrow> keeps I (or_none m)"
  unfolding or_none_def by (intro keeps_bind keeps_try keeps_ret)

lemmas redis_keeps = keeps_ret keeps_throw keeps_crash keeps_bind keeps_then keeps_try keeps_ignore
  keeps_for keeps_exec keeps_query keeps_query_row keeps_if keeps_case_option keeps_case_sum
  keeps_case_prod keeps_engine_redis keeps_pipe keeps_map keeps_liftE keeps_or_none

section \<open>Commands and updates keep the keys well-formed\<close>

lemma cmd_ok_cmd: "(\<And>s. I s \<Longrightarrow> I (f s)) \<Longrightarrow> cmd_ok I (cmd f)"
  by (simp add: cmd_ok_def cmd_def)

lemma distinct_sadd: "distinct s \<Longrightarrow> distinct (sadd m s)"
  by (simp add: sadd_def)

lemma distinct_fold_sadd: "distinct s \<Longrightarrow> distinct (fold sadd ms s)"
  by (induction ms arbitrary: s) (auto intro: distinct_sadd)

lemma distinct_fold_zrem: "distinct (map fst z) \<Longrightarrow> distinct (map fst (fold zrem ms z))"
  by (induction ms arbitrary: z) (auto intro: zrem_keys)

lemma distinct_fold_delete:
  "distinct (map fst z) \<Longrightarrow> distinct (map fst (fold AList.delete ms z))"
  by (induction ms arbitrary: z) (auto intro: distinct_delete)

lemma distinct_zremrange: "distinct (map fst z) \<Longrightarrow> distinct (map fst (zremrange_to x z))"
  by (simp add: zremrange_to_def distinct_map_filter)

lemma under_own_id_hdel: "under_own_id k m \<Longrightarrow> under_own_id k (hdel_all ids m)"
  by (auto simp: under_own_id_def hdel_all_def)

lemma under_own_id_None: "under_own_id k m \<Longrightarrow> under_own_id k (m(j := None))"
  by (auto simp: under_own_id_def)

lemma under_own_id_put: "under_own_id k m \<Longrightarrow> (\<And>v. d = Doc v \<Longrightarrow> k v = j) \<Longrightarrow> under_own_id k (m(j \<mapsto> d))"
  by (auto simp: under_own_id_def)

lemma on_queue_ok:
  assumes "\<And>z. distinct (map fst z) \<Longrightarrow> distinct (map fst (f z))"
  shows "cmd_ok rdb_ok (on_queue q f)"
  unfolding cmd_ok_def
proof (intro allI impI)
  fix s assume ok: "rdb_ok s"
  show "rdb_ok (snd (on_queue q f s))"
  proof (cases "rd_queue s q")
    case (QZSet z)
    with ok have "distinct (map fst (f z))"
      by (intro assms) (metis (no_types, lifting) members_ok_def queue_ok_def queue_value.simps(5) rdb_ok_def)
    with ok QZSet show ?thesis
      by (simp add: rdb_ok_def docs_ok_def members_ok_def on_queue_def) (simp add: queue_ok_def)
  qed (use ok in \<open>simp add: on_queue_def\<close>)
qed

lemmas rdb_parts = rdb_ok_def docs_ok_def members_ok_def
lemmas set_defs = set_active_def set_scheduled_def set_processed_def set_failed_def set_dead_def
  set_dependents_def set_dependencies_def set_batch_def set_job_def set_processed_count_def
  set_dead_count_def set_lock_def del_lock_def
lemmas distinct_rules = distinct_sadd distinct_fold_sadd distinct_fold_zrem distinct_fold_delete
  distinct_zremrange zadd_keys zrem_keys distinct_update distinct_delete under_own_id_hdel
  under_own_id_None under_own_id_put

named_theorems put_ok \<open>updates that keep the keys well-formed\<close>

lemma put_sets [put_ok]:
  "rdb_ok s \<Longrightarrow> rdb_ok (set_active q (sadd j) s)" "rdb_ok s \<Longrightarrow> rdb_ok (set_active q (srem j) s)"
  "rdb_ok s \<Longrightarrow> rdb_ok (set_active q (\<lambda>_. []) s)"
  "rdb_ok s \<Longrightarrow> rdb_ok (set_scheduled q (zadd j x) s)" "rdb_ok s \<Longrightarrow> rdb_ok (set_scheduled q (zrem j) s)"
  "rdb_ok s \<Longrightarrow> rdb_ok (set_scheduled q (\<lambda>_. []) s)"
  "rdb_ok s \<Longrightarrow> rdb_ok (set_dependents j (sadd i) s)" "rdb_ok s \<Longrightarrow> rdb_ok (set_dependents j (\<lambda>_. []) s)"
  "rdb_ok s \<Longrightarrow> rdb_ok (set_dependencies j (fold sadd ds) s)"
  "rdb_ok s \<Longrightarrow> rdb_ok (set_dependencies j (\<lambda>_. []) s)" "rdb_ok s \<Longrightarrow> rdb_ok (set_dependencies j (srem i) s)"
  by (simp_all add: rdb_parts set_defs distinct_rules srem_def)

lemma put_lists [put_ok]:
  "rdb_ok s \<Longrightarrow> rdb_ok (set_processed q f s)" "rdb_ok s \<Longrightarrow> rdb_ok (set_failed q f s)"
  "rdb_ok s \<Longrightarrow> rdb_ok (set_dead q f s)" "rdb_ok s \<Longrightarrow> rdb_ok (set_batch b g s)"
  "rdb_ok s \<Longrightarrow> rdb_ok (set_processed_count q h s)" "rdb_ok s \<Longrightarrow> rdb_ok (set_dead_count q h s)"
  "rdb_ok s \<Longrightarrow> rdb_ok (rd_errors_update u s)"
  by (simp_all add: rdb_parts set_defs)

lemma put_zsets [put_ok]:
  "rdb_ok s \<Longrightarrow> rdb_ok (rd_processed_ttl_update (zadd m x) s)"
  "rdb_ok s \<Longrightarrow> rdb_ok (rd_processed_ttl_update (zrem m) s)"
  "rdb_ok s \<Longrightarrow> rdb_ok (rd_dead_ttl_update (zadd m x) s)" "rdb_ok s \<Longrightarrow> rdb_ok (rd_dead_ttl_update (zrem m) s)"
  "rdb_ok s \<Longrightarrow> rdb_ok (rd_batches_expire_update (zadd m x) s)"
  "rdb_ok s \<Longrightarrow> rdb_ok (rd_batches_expire_update (zrem m) s)"
  "rdb_ok s \<Longrightarrow> rdb_ok (rd_heartbeat_update (zadd m x) s)"
  "rdb_ok s \<Longrightarrow> rdb_ok (rd_heartbeat_update (fold zrem ms) s)"
  "rdb_ok s \<Longrightarrow> rdb_ok (rd_queues_update (sadd m) s)" "rdb_ok s \<Longrightarrow> rdb_ok (rd_paused_update (sadd m) s)"
  "rdb_ok s \<Longrightarrow> rdb_ok (rd_paused_update (srem m) s)"
  by (simp_all add: rdb_parts distinct_rules srem_def)

lemma put_docs [put_ok]:
  "rdb_ok s \<Longrightarrow> rdb_ok (set_job j None s)"
  "rdb_ok s \<Longrightarrow> rdb_ok (rd_jobs_update (hdel_all ids) s)"
  "rdb_ok s \<Longrightarrow> rdb_ok (rd_processes_update (hdel_all ids) s)"
  "rdb_ok s \<Longrightarrow> (\<And>v. d = Doc v \<Longrightarrow> JobID v = j) \<Longrightarrow> rdb_ok (set_job j (Some d) s)"
  "rdb_ok s \<Longrightarrow> (\<And>v. pd = Doc v \<Longrightarrow> pi_ProcessID v = j) \<Longrightarrow> rdb_ok (rd_processes_update (\<lambda>m. m(j \<mapsto> pd)) s)"
  "rdb_ok s \<Longrightarrow> (\<And>v. d = Doc v \<Longrightarrow> JobID v = j) \<Longrightarrow> rdb_ok (rd_archived_update (\<lambda>m. m(j \<mapsto> d)) s)"
  by (simp_all add: rdb_parts set_defs distinct_rules)

lemma put_alists [put_ok]:
  "rdb_ok s \<Longrightarrow> rdb_ok (set_lock k j e s)" "rdb_ok s \<Longrightarrow> rdb_ok (del_lock k s)"
  "rdb_ok s \<Longrightarrow> rdb_ok (rd_unique_update (\<lambda>m. fold AList.delete ks m) s)"
  "rdb_ok s \<Longrightarrow> rdb_ok (rd_cron_jobs_update (AList.update n cd) s)"
  "rdb_ok s \<Longrightarrow> rdb_ok (rd_cron_schedules_update (AList.update n c) s)"
  "rdb_ok s \<Longrightarrow> rdb_ok (rd_cron_schedules_update (AList.delete n) s)"
  "rdb_ok s \<Longrightarrow> rdb_ok (rd_queue_update (\<lambda>m. m(q := QZSet [])) s)"
  "rdb_ok s \<Longrightarrow> rdb_ok (s\<lparr>rd_leader := l\<rparr>)" "rdb_ok s \<Longrightarrow> rdb_ok (rd_cron_locks_update f s)"
  by (simp_all add: rdb_parts set_defs distinct_rules queue_ok_def)


section \<open>Every operation keeps the keys well-formed\<close>

text \<open>A value read on the way carries a fact about it.\<close>

definition yields :: "('s \<Rightarrow> bool) \<Rightarrow> ('a \<Rightarrow> bool) \<Rightarrow> ('s, 'a) eff \<Rightarrow> bool" where
  "yields I V m \<longleftrightarrow> triple I m (\<lambda>x s. I s \<and> V x) (\<lambda>_. I)"

lemma keeps_bind_value: "yields I V m \<Longrightarrow> (\<And>x. V x \<Longrightarrow> keeps I (f x)) \<Longrightarrow> keeps I (bindS m f)"
  unfolding yields_def keeps_def by (rule triple_bind) (auto intro: triple_pure)

lemma yields_bind: "yields I V m \<Longrightarrow> (\<And>x. V x \<Longrightarrow> yields I W (f x)) \<Longrightarrow> yields I W (bindS m f)"
  unfolding yields_def by (rule triple_bind) (auto intro: triple_pure)

lemma yields_ret: "V x \<Longrightarrow> yields I V (ret x)"
  unfolding yields_def by (auto intro: triple_ret)

lemma yields_throw: "yields I V (throw e)"
  unfolding yields_def by (auto intro: triple_throw)

lemma yields_keeps: "keeps I m \<Longrightarrow> (\<And>x. V x) \<Longrightarrow> yields I V m"
  unfolding yields_def keeps_def by simp

lemma yields_query_row: "(\<And>s x. I s \<Longrightarrow> g s = Some x \<Longrightarrow> V x) \<Longrightarrow> yields I V (query_row g)"
  unfolding yields_def by (rule triple_query_row) auto

lemma yields_try: "yields I V m \<Longrightarrow> yields I (\<lambda>r. \<forall>x. r = Inr x \<longrightarrow> V x) (tryS m)"
  unfolding yields_def by (rule triple_try) (auto elim!: triple_weaken)

lemma yields_map:
  assumes "\<And>x. x \<in> set xs \<Longrightarrow> yields I V (f x)"
  shows "yields I (list_all V) (mapS f xs)"
  using assms
proof (induction xs)
  case (Cons x xs)
  have "yields I (list_all V) (bindS (mapS f xs) (\<lambda>ys. ret (y # ys)))" if "V y" for y
    using Cons that by (intro yields_bind[of _ "list_all V"] yields_ret) auto
  with Cons.prems show ?case by (simp, intro yields_bind[of _ V]) auto
qed (simp add: yields_ret)

lemma yields_liftE: "(\<And>x. r = Inr x \<Longrightarrow> V x) \<Longrightarrow> yields I V (liftE r)"
  unfolding liftE_def by (cases r) (auto intro: yields_ret yields_throw)

text \<open>A document read under an id carries it.\<close>

abbreviation carries :: "('v \<Rightarrow> string) \<Rightarrow> string \<Rightarrow> 'v doc \<Rightarrow> bool" where
  "carries key j d \<equiv> \<forall>v. d = Doc v \<longrightarrow> key v = j"

lemma yields_job: "yields rdb_ok (carries JobID j) (query_row (\<lambda>s. rd_jobs s j))"
  by (rule yields_query_row) (auto simp: rdb_parts under_own_id_def)

lemma yields_process: "yields rdb_ok (carries pi_ProcessID p) (query_row (\<lambda>s. rd_processes s p))"
  by (rule yields_query_row) (auto simp: rdb_parts under_own_id_def)

lemma marshal_carries: "marshal_env env = Inr d \<Longrightarrow> carries JobID (JobID env) d"
  by (auto simp: marshal_env_def split: option.splits if_splits)

lemma marshal_or_empty_carries: "marshal_env_or_empty env = Doc v \<Longrightarrow> JobID v = JobID env"
  by (auto simp: marshal_env_or_empty_def dest: marshal_carries split: sum.splits)

lemma marshal_process_carries: "marshal_process i = Inr d \<Longrightarrow> carries pi_ProcessID (pi_ProcessID i) d"
  by (auto simp: marshal_process_def split: if_splits)

lemma distinct_fold_zadd:
  "distinct (map fst z) \<Longrightarrow> distinct (map fst (fold (\<lambda>(i, m). zadd m (f i)) ims z))"
  by (induction ims arbitrary: z) (auto intro: zadd_keys)

lemma cmd_zadd_queue: "cmd_ok rdb_ok (zadd_queue q m x)"
  unfolding zadd_queue_def by (rule on_queue_ok) (rule zadd_keys)

lemma cmd_zrem_queue: "cmd_ok rdb_ok (on_queue q (zrem m))"
  by (rule on_queue_ok) (rule zrem_keys)

lemma cmd_ok_place: "cmd_ok rdb_ok (place_job now env)" "cmd_ok rdb_ok (Redis_addJobToQueue now env)"
  "cmd_ok rdb_ok (Redis_enqueueReadyJob now env)"
  by (auto simp: place_job_def Redis_addJobToQueue_def Redis_enqueueReadyJob_def
      intro!: cmd_ok_cmd cmd_zadd_queue put_ok split: option.splits)

lemmas cmds_ok = cmd_ok_cmd cmd_zadd_queue cmd_zrem_queue cmd_ok_place put_ok

lemma keeps_migrate: "keeps rdb_ok (Redis_migrateListToZSet now q)"
  unfolding keeps_def
proof (rule tripleI)
  have step: "rdb_ok s'" if ok: "rdb_ok s" and r: "Redis_migrateListToZSet now q (s, fs) = Some (r, (s', fs'))" for s fs r s' fs'
  proof (cases "rd_queue s q")
    case (QZSet z)
    with that show ?thesis by (simp add: Redis_migrateListToZSet_def)
  next
    case (QList l)
    obtain popped left fs1 where p: "rpop_loop (rev l) fs = (popped, left, fs1)" by (cases "rpop_loop (rev l) fs")
    define s1 where "s1 = s\<lparr>rd_queue := (rd_queue s)(q := if left = [] then QZSet [] else QList (rev left))\<rparr>"
    have s1: "rdb_ok s1" using ok by (simp add: s1_def rdb_parts queue_ok_def)
    let ?cs = "[on_queue q (\<lambda>z. fold (\<lambda>(i, m). zadd m (migrated_score now i)) (List.enumerate 0 popped) z)]"
    have "keeps rdb_ok (ignoreS (pipe_exec ?cs))"
      by (intro keeps_ignore keeps_pipe) (simp add: on_queue_ok distinct_fold_zadd)
    from keepsD[OF this _ s1] show ?thesis
      using r s1 by (auto simp: Redis_migrateListToZSet_def QList p s1_def Let_def split: if_splits)
  qed
  show "\<And>d fs e d' fs'. rdb_ok d \<Longrightarrow> Redis_migrateListToZSet now q (d, fs) = Some (Inl e, d', fs') \<Longrightarrow> rdb_ok d'"
    and "\<And>d fs x d' fs'. rdb_ok d \<Longrightarrow> Redis_migrateListToZSet now q (d, fs) = Some (Inr x, d', fs') \<Longrightarrow> rdb_ok d'"
    by (blast intro: step)+
qed

lemma keeps_queue_is_list: "keeps rdb_ok (queue_is_list q)"
  unfolding queue_is_list_def by (intro redis_keeps)

lemma keeps_migrate_if_list: "keeps rdb_ok (migrate_if_list now q)"
  unfolding migrate_if_list_def by (intro redis_keeps keeps_migrate keeps_queue_is_list)


subsection \<open>Jobs\<close>

named_theorems ops_ok \<open>operations that keep the keys well-formed\<close>

lemma engine_read_ok: "keeps rdb_ok (engine (\<lambda>s. (g s, s)))"
  by (rule keeps_engine_redis) simp

lemma keeps_lock [ops_ok]: "keeps rdb_ok (Redis_acquireUniqueLock now env)"
  unfolding Redis_acquireUniqueLock_def Redis_checkLockDuplicate_def Let_def
  by (intro redis_keeps put_ok) (simp_all add: put_ok split: if_splits)

lemma keeps_execEnqueue [ops_ok]:
  "carries JobID (JobID env) data \<Longrightarrow> keeps rdb_ok (Redis_execEnqueue now env data)"
  unfolding Redis_execEnqueue_def
  by (intro redis_keeps keeps_migrate_if_list) (simp add: cmds_ok)

lemma yields_marshal:
  "yields I (carries JobID (JobID env)) (liftE (marshal_env env))"
  by (rule yields_liftE) (rule marshal_carries)

lemma keeps_Enqueue [ops_ok]: "keeps rdb_ok (Redis_Enqueue now env)"
  unfolding Redis_Enqueue_def Let_def
  by (intro keeps_then keeps_bind_value[OF yields_marshal] ops_ok) simp

lemma keeps_checkRedisNil [ops_ok]: "keeps I (checkRedisNil e)"
  unfolding checkRedisNil_def by (intro redis_keeps)

lemma keeps_getJobEnvelope [ops_ok]: "keeps I (Redis_getJobEnvelope j)"
  unfolding Redis_getJobEnvelope_def by (intro redis_keeps ops_ok)

lemma keeps_findAndPop [ops_ok]: "keeps rdb_ok (Redis_findAndPopJob q zs tags)"
proof (induction q zs tags rule: Redis_findAndPopJob.induct)
  case (2 q j zs tags)
  have z: "keeps rdb_ok (zrem_queue q j)"
    unfolding zrem_queue_def
    by (rule keeps_engine_redis)
      (auto simp: rdb_parts queue_ok_def split: queue_value.splits intro!: zrem_keys)
  show ?case
    by simp (intro redis_keeps ops_ok z put_ok 2 | simp)+
qed (simp add: keeps_ret)

lemma keeps_Dequeue [ops_ok]: "keeps rdb_ok (Redis_Dequeue now q tags)"
  unfolding Redis_Dequeue_def by (intro redis_keeps ops_ok keeps_migrate_if_list engine_read_ok) simp

lemma keeps_PollScheduled [ops_ok]: "keeps rdb_ok (Redis_PollScheduled now q)"
  unfolding Redis_PollScheduled_def Redis_activateScheduledJobs_def
  by (intro redis_keeps ops_ok keeps_migrate_if_list) (auto simp: list_all_iff cmds_ok)

lemma keeps_leader [ops_ok]: "keeps rdb_ok (Redis_AcquireLeader now c ttl)" "keeps rdb_ok (Redis_ReleaseLeader now c)"
  unfolding Redis_AcquireLeader_def Redis_ReleaseLeader_def Let_def
  by (intro redis_keeps; simp add: put_ok)+

lemma keeps_archive_copy:
  "carries JobID j data \<Longrightarrow> keeps rdb_ok (exec (rd_archived_update (\<lambda>m. m(j \<mapsto> data))))"
  by (intro keeps_exec put_ok) auto

lemma keeps_archiveSingle [ops_ok]: "keeps rdb_ok (Redis_archiveSingleJob m)"
  unfolding Redis_archiveSingleJob_def
  by (intro keeps_case_option keeps_case_prod keeps_ret keeps_bind_value[OF yields_try[OF yields_job]]
      keeps_then keeps_pipe keeps_case_sum keeps_ignore keeps_archive_copy)
    (simp_all add: cmds_ok)

lemma keeps_archiveExpired [ops_ok]: "keeps rdb_ok (Redis_archiveExpiredJobs ms)"
  by (induction ms) (simp_all add: keeps_ret, intro redis_keeps ops_ok)

lemma keeps_ArchiveJobs [ops_ok]: "keeps rdb_ok (Redis_ArchiveJobs now age)"
  unfolding Redis_ArchiveJobs_def Redis_getExpiredJobs_def Let_def by (intro redis_keeps ops_ok)


subsection \<open>Batches and workflows\<close>

lemma keeps_CreateBatch [ops_ok]: "keeps rdb_ok (Redis_CreateBatch b cb ex)"
  unfolding Redis_CreateBatch_def
  by (intro redis_keeps) (auto simp: cmds_ok split: option.splits)

lemma keeps_EnqueueInBatch [ops_ok]: "keeps rdb_ok (Redis_EnqueueInBatch now b env)"
proof -
  have e: "keeps rdb_ok (Redis_enqueueBatchJob now e)" for e
    unfolding Redis_enqueueBatchJob_def
    by (intro keeps_bind_value[OF yields_marshal] keeps_pipe) (simp add: cmds_ok)
  show ?thesis
    unfolding Redis_EnqueueInBatch_def Redis_incrementBatchCounts_def Let_def
    by (intro redis_keeps ops_ok e) (simp_all add: cmds_ok)
qed

lemma keeps_checkBatchExpired [ops_ok]: "keeps rdb_ok (Redis_checkBatchExpired now b)"
  unfolding Redis_checkBatchExpired_def Redis_failExpiredBatch_def
  by (intro redis_keeps) (simp_all add: cmds_ok)

lemma keeps_SubmitBatch [ops_ok]: "keeps rdb_ok (Redis_SubmitBatch now rnd b)"
  unfolding Redis_SubmitBatch_def Redis_getPendingCount_def Redis_completeBatch_def
  by (intro redis_keeps ops_ok put_ok)

lemma yields_workflowJob: "yields rdb_ok (list_all (cmd_ok rdb_ok)) (Redis_enqueueWorkflowJob now env)"
proof -
  let ?env = "env\<lparr>MaxAttempts := getMaxAttempts (MaxAttempts env)\<rparr>"
  have dec: "yields rdb_ok (list_all (cmd_ok rdb_ok)) (bindS (liftE (marshal_env ?env)) (\<lambda>data.
      ret ([cmd (set_job (JobID ?env) (Some data)), cmd (rd_queues_update (sadd (Queue ?env)))]
        @ (if length (Dependencies ?env) > 0 then Redis_enqueueBlockedJob ?env
           else [Redis_enqueueReadyJob now ?env]))))"
    by (intro yields_bind[OF yields_marshal] yields_ret)
      (auto simp: Redis_enqueueBlockedJob_def list_all_iff cmds_ok)
  show ?thesis
    unfolding Redis_enqueueWorkflowJob_def Let_def thenS_def
    by (rule yields_bind[of _ "\<lambda>_. True", OF yields_keeps[OF keeps_lock]]) (rule TrueI dec)+
qed

lemma keeps_EnqueueWorkflow [ops_ok]: "keeps rdb_ok (Redis_EnqueueWorkflow now js)"
  unfolding Redis_EnqueueWorkflow_def
  by (intro keeps_if keeps_ret keeps_bind_value[OF yields_map[OF yields_workflowJob]] keeps_pipe)
    (auto simp: list_all_iff)

lemma keeps_resolveChild [ops_ok]: "keeps rdb_ok (Redis_resolveChildDependency now c p)"
  unfolding Redis_resolveChildDependency_def Redis_enqueueChildJob_def
  by (intro redis_keeps) (simp_all add: cmds_ok)

lemma keeps_resolveDependencies [ops_ok]: "keeps rdb_ok (Redis_resolveDependencies now j)"
  unfolding Redis_resolveDependencies_def by (intro redis_keeps ops_ok put_ok)

lemma keeps_execFailChild [ops_ok]: "keeps rdb_ok (Redis_execFailChildJob now env p)"
  unfolding Redis_execFailChildJob_def by (intro redis_keeps) (simp add: cmds_ok)

lemma keeps_cascade [ops_ok]: "keeps rdb_ok (Redis_cascadeDependencyFailure n now p)"
proof (induction n arbitrary: p)
  case (Suc n)
  have "keeps rdb_ok (Redis_failChildJob (Redis_cascadeDependencyFailure n now) now c q)" for c q
    unfolding Redis_failChildJob_def by (intro redis_keeps ops_ok Suc)
  then show ?case by simp (intro redis_keeps put_ok)
qed (simp add: keeps_crash)

subsection \<open>The life cycle of a job\<close>

lemma keeps_batchAck [ops_ok]: "keeps rdb_ok (Redis_handleBatchAck now rnd b)"
  unfolding Redis_handleBatchAck_def Redis_completeBatchIfSealedAndDone_def
    Redis_enqueueBatchCallback_def Let_def
  by (intro redis_keeps ops_ok put_ok) (simp_all add: put_ok)

lemma keeps_Ack [ops_ok]: "keeps rdb_ok (Redis_Ack now rnd j)"
  unfolding Redis_Ack_def Redis_performAck_def
  by (intro redis_keeps ops_ok) (simp_all add: cmds_ok)

lemma cmd_ok_put_empty: "cmd_ok rdb_ok (cmd (set_job (JobID env) (Some (marshal_env_or_empty env))))"
  by (intro cmd_ok_cmd put_ok) (auto dest: marshal_or_empty_carries)

lemma cmd_ok_failStep: "list_all (cmd_ok rdb_ok) (fst (Redis_prepareFailStep now env e))"
proof -
  have "list_all (cmd_ok rdb_ok) (Redis_rescheduleJob e')" for e'
    unfolding Redis_rescheduleJob_def by (simp add: cmd_ok_put_empty) (simp add: cmds_ok)
  moreover have "list_all (cmd_ok rdb_ok) (Redis_handleDeadJob now e' er)" for e' er
    unfolding Redis_handleDeadJob_def by (simp add: cmd_ok_put_empty) (simp add: cmds_ok)
  ultimately show ?thesis by (simp add: Redis_prepareFailStep_def Let_def)
qed

lemma keeps_Fail [ops_ok]: "keeps rdb_ok (Redis_Fail n now j e)"
proof -
  have "keeps rdb_ok (Redis_processFail n now env e)" for env
    unfolding Redis_processFail_def Let_def
    using cmd_ok_failStep[of now env e]
    by (intro keeps_case_prod keeps_then keeps_pipe keeps_if keeps_ret ops_ok) (auto simp: cmds_ok)
  then show ?thesis unfolding Redis_Fail_def by (intro redis_keeps)
qed

lemma keeps_retryTx: "keeps rdb_ok (Redis_executeRetryTx now env)"
  unfolding Redis_executeRetryTx_def
  by (intro keeps_bind_value[OF yields_marshal] keeps_pipe) (simp add: cmds_ok)

lemma keeps_Retry [ops_ok]: "keeps rdb_ok (Redis_Retry now j)" "keeps rdb_ok (Redis_RetryModified now j args)"
  unfolding Redis_Retry_def Redis_RetryModified_def by (intro redis_keeps keeps_retryTx)+

lemma keeps_Cancel [ops_ok]: "keeps rdb_ok (Redis_Cancel n now j)"
  unfolding Redis_Cancel_def Redis_executeCancelTx_def Let_def
  by (intro redis_keeps ops_ok) (simp_all add: cmds_ok)


subsection \<open>Administration\<close>

lemma keeps_ClearQueue [ops_ok]: "keeps rdb_ok (Redis_ClearQueue pages q)"
proof -
  have pages: "keeps rdb_ok (Redis_scanPages ps)" for ps
    by (induction ps) (simp_all add: keeps_ret, intro redis_keeps)
  have scan: "keeps rdb_ok (Redis_scanUniqueKeys pages q)"
    unfolding keeps_def Redis_scanUniqueKeys_def
    by (rule tripleI) (auto dest: keepsD[OF pages])
  have collect: "keeps rdb_ok (Redis_collectQueueIDs q)"
    unfolding Redis_collectQueueIDs_def read_queue_def by (intro redis_keeps) simp
  show ?thesis
    unfolding Redis_ClearQueue_def
    by (intro keeps_bind keeps_case_prod collect scan keeps_pipe)
      (auto simp: Redis_deleteQueueKeys_def cmds_ok list_all_iff)
qed

lemma keeps_RetryAllFailed [ops_ok]: "keeps rdb_ok (Redis_RetryAllFailed now)"
  unfolding Redis_RetryAllFailed_def Redis_retryQueueFailed_def by (intro redis_keeps ops_ok)

lemma keeps_PurgeAllFailed [ops_ok]: "keeps rdb_ok Redis_PurgeAllFailed"
  unfolding Redis_PurgeAllFailed_def Redis_purgeQueueFailed_def Redis_deleteFailedJobs_def Let_def
  by (intro redis_keeps) (auto simp: cmds_ok list_all_iff)

lemma keeps_PurgeExpired [ops_ok]: "keeps rdb_ok (Redis_PurgeExpiredDLQ now ttl)"
  unfolding Redis_PurgeExpiredDLQ_def Redis_executePurgeDLQ_def Let_def
  by (intro redis_keeps) (auto simp: cmds_ok list_all_iff split: option.splits)

lemma keeps_FailExpired [ops_ok]: "keeps rdb_ok (Redis_FailExpiredBatches now)"
  unfolding Redis_FailExpiredBatches_def Redis_failExpiredBatchesTx_def
  by (intro redis_keeps) (auto simp: cmds_ok list_all_iff)

lemma keeps_pause [ops_ok]: "keeps rdb_ok (Redis_IsQueuePaused q)" "keeps rdb_ok (Redis_PauseQueue q)"
  "keeps rdb_ok (Redis_ResumeQueue q)"
  unfolding Redis_IsQueuePaused_def Redis_PauseQueue_def Redis_ResumeQueue_def
  by (intro redis_keeps; simp add: put_ok)+

lemma keeps_running [ops_ok]: "keeps rdb_ok (Redis_GetRunningJobsCount n)"
proof -
  have "keeps rdb_ok (Redis_fetchActiveIDs qs)" for qs
    by (induction qs) (simp_all add: keeps_ret, intro redis_keeps)
  then show ?thesis unfolding Redis_GetRunningJobsCount_def by (intro redis_keeps)
qed

lemma put_stamps: "rdb_ok s \<Longrightarrow> distinct (map fst (fst v)) \<Longrightarrow> rdb_ok (set_stamps n v s)"
  by (simp add: rdb_parts set_stamps_def)

lemma live_stamps_distinct: "rdb_ok s \<Longrightarrow> live_stamps now n s = (z, e) \<Longrightarrow> distinct (map fst z)"
  by (auto simp: rdb_parts live_stamps_def split: prod.splits option.splits if_splits) (metis fst_conv)+

lemma keeps_RateLimit [ops_ok]: "keeps rdb_ok (Redis_CheckRateLimit now n l per)"
  unfolding Redis_CheckRateLimit_def Let_def
  by (intro redis_keeps)
    (auto split: prod.splits intro!: put_stamps distinct_zremrange zadd_keys dest: live_stamps_distinct)

lemma keeps_Postpone [ops_ok]: "keeps rdb_ok (Redis_PostponeJob now j q d)"
  unfolding Redis_PostponeJob_def Let_def by (intro redis_keeps) (simp add: cmds_ok)

lemma keeps_cron [ops_ok]: "keeps rdb_ok (Redis_LockCronExecution now n t)" "keeps rdb_ok (Redis_RegisterCronJobs cs)"
  "keeps rdb_ok Redis_GetCronSchedules" "keeps rdb_ok (Redis_SaveCronSchedule c)"
  "keeps rdb_ok (Redis_DeleteCronSchedule nm)"
  unfolding Redis_LockCronExecution_def Redis_RegisterCronJobs_def Redis_GetCronSchedules_def
    Redis_SaveCronSchedule_def Redis_DeleteCronSchedule_def Let_def
  by (intro redis_keeps; auto simp: cmds_ok list_all_iff split: option.splits)+

lemma keeps_GetJobDetail [ops_ok]: "keeps rdb_ok (Redis_GetJobDetail j)"
  unfolding Redis_GetJobDetail_def by (intro redis_keeps)

lemma keeps_bulk [ops_ok]: "keeps rdb_ok (Redis_BulkRetry now js)" "keeps rdb_ok (Redis_BulkCancel n now js)"
  "keeps rdb_ok (Redis_BulkPurge n now js)"
  unfolding Redis_BulkRetry_def Redis_BulkCancel_def Redis_BulkPurge_def by (intro redis_keeps ops_ok)+

subsection \<open>Processes, statistics and search\<close>

lemma keeps_RegisterProcess [ops_ok]: "keeps rdb_ok (Redis_RegisterProcess i)"
proof -
  have "yields rdb_ok (carries pi_ProcessID (pi_ProcessID i)) (liftE (marshal_process i))"
    by (rule yields_liftE) (rule marshal_process_carries)
  then show ?thesis
    unfolding Redis_RegisterProcess_def
    by (rule keeps_bind_value) (intro keeps_pipe, simp add: cmds_ok)
qed

lemma yields_processInfo:
  "yields rdb_ok (\<lambda>r. \<forall>i. r = Some i \<longrightarrow> pi_ProcessID i = p) (Redis_getProcessInfo p)"
proof -
  have dec: "yields rdb_ok (\<lambda>r. \<forall>i. r = Some i \<longrightarrow> pi_ProcessID i = p)
      (bindS (liftE (unmarshal data)) (\<lambda>info. ret (Some info)))" if "carries pi_ProcessID p data" for data
    using that by (intro yields_bind[of _ "\<lambda>i. pi_ProcessID i = p"] yields_liftE yields_ret) (cases data; auto)+
  show ?thesis
    unfolding Redis_getProcessInfo_def
    by (intro yields_bind[OF yields_try[OF yields_process]])
      (auto split: sum.splits intro: yields_ret yields_throw dec)
qed

lemma keeps_Heartbeat [ops_ok]: "keeps rdb_ok (Redis_HeartbeatProcess now p)"
proof -
  have put: "keeps rdb_ok (bindS (liftE (marshal_process (i\<lparr>pi_HeartbeatAt := now\<rparr>))) (\<lambda>updated.
         exec (rd_processes_update (\<lambda>m. m(p \<mapsto> updated)))))" if "pi_ProcessID i = p" for i
    using that marshal_process_carries[of "i\<lparr>pi_HeartbeatAt := now\<rparr>"]
    by (intro keeps_bind_value[of _ "carries pi_ProcessID p"] yields_liftE keeps_exec put_ok) auto
  show ?thesis
    unfolding Redis_HeartbeatProcess_def
    by (intro keeps_then keeps_bind_value[OF yields_processInfo] keeps_exec put_ok)
      (auto split: option.splits intro: keeps_ret put)
qed

lemma keeps_GetActiveProcesses [ops_ok]: "keeps rdb_ok (Redis_GetActiveProcesses now)"
  unfolding Redis_GetActiveProcesses_def Redis_cleanupDeadProcesses_def Let_def
  by (intro redis_keeps) (simp add: cmds_ok)

lemma keeps_queueStats: "keeps rdb_ok (Redis_getQueueStats q)"
  unfolding Redis_getQueueStats_def by (rule engine_read_ok)

lemma keeps_recent: "keeps rdb_ok (Redis_collectRecentJobIDs q acc)"
  unfolding Redis_collectRecentJobIDs_def read_queue_def by (intro redis_keeps engine_read_ok) simp

lemma keeps_GetStats [ops_ok]: "keeps rdb_ok (Redis_GetStats now)"
proof -
  have one: "keeps rdb_ok (Redis_processQueue q paused acc)" for q paused acc
    unfolding Redis_processQueue_def Let_def
    by (cases acc) (simp, intro redis_keeps keeps_queueStats keeps_recent)
  have all: "keeps rdb_ok (Redis_processAllQueues qs paused acc)" for qs paused acc
    by (induction qs arbitrary: acc) (simp_all add: keeps_ret, intro redis_keeps one)
  show ?thesis
    unfolding Redis_GetStats_def Redis_loadQueuesStats_def Redis_loadRecentJobs_def read_errors_def
      Redis_loadActiveProcesses_def Redis_loadCronJobs_def Redis_loadStaticCrons_def Redis_loadDynamicCrons_def
    by (intro redis_keeps all ops_ok)
qed

lemma keeps_GetJobs [ops_ok]: "keeps rdb_ok (Redis_GetJobs q st p l)"
proof -
  have meta: "keeps rdb_ok (Redis_appendMetasForQueue acc qu st)" for acc qu
    unfolding Redis_appendMetasForQueue_def Redis_fetchMeta_def read_queue_def Let_def
    by (intro redis_keeps engine_read_ok) simp
  have "keeps rdb_ok (Redis_collectJobIDsForStatus st qs acc)" for qs acc
    by (induction qs arbitrary: acc) (simp_all add: keeps_ret, intro redis_keeps meta)
  then show ?thesis unfolding Redis_GetJobs_def read_errors_def by (intro redis_keeps)
qed

section \<open>The invariant\<close>

lemma keeps_redis_call: "keeps rdb_ok (redis_call pages stack clock c)"
  by (cases c) (simp_all add: ops_ok keeps_bind keeps_ret)

lemma rdb_ok_empty: "rdb_ok empty_rdb"
  by (simp add: rdb_parts under_own_id_def queue_ok_def empty_rdb_def)

lemma redis_reachable_ok: "redis_reachable s \<Longrightarrow> rdb_ok s"
  by (induction rule: redis_reachable.induct)
    (auto intro: rdb_ok_empty elim!: redis_stepE keepsD[OF keeps_redis_call])

end
