(* ===== verification/RedisQueue.thy ===== *)
theory RedisQueue
  imports RedisInv
begin

text \<open>
  What the Redis backend promises of its queues: a dequeue takes the first job of the queue's
  order that the worker can run (refinement of a list of waiting ids), the order follows the
  priorities after any history of enqueues and dequeues, no job is handed out twice whatever
  candidates were read and whatever round trips fail, and a worker drains a queue of what it can run.
\<close>

section \<open>Waiting jobs\<close>

definition doc_of :: "rdb \<Rightarrow> string \<Rightarrow> JobEnvelope option" where
  "doc_of s j = (case rd_jobs s j of Some (Doc env) \<Rightarrow> Some env | _ \<Rightarrow> None)"

definition runnable :: "string list \<Rightarrow> rdb \<Rightarrow> string \<Rightarrow> bool" where
  "runnable tags s j = (case doc_of s j of Some env \<Rightarrow> matchTags (Tags env) tags | None \<Rightarrow> False)"

definition members :: "rdb \<Rightarrow> string \<Rightarrow> zset" where
  "members s q = (case rd_queue s q of QZSet z \<Rightarrow> z | QList l \<Rightarrow> [])"

text \<open>The abstract queue: the waiting ids, first the one that is due first, and the ids that are
  being worked on. A worker looks at the first hundred.\<close>

record waiting =
  w_waiting :: "string list"
  w_active :: "string set"

definition view :: "string \<Rightarrow> rdb \<Rightarrow> waiting" where
  "view q s = \<lparr>w_waiting = zrevrange (members s q), w_active = set (rd_active s q)\<rparr>"

definition take_first :: "(string \<Rightarrow> bool) \<Rightarrow> waiting \<Rightarrow> string option \<times> waiting" where
  "take_first ok w = (case List.find ok (take 100 (w_waiting w)) of
     None \<Rightarrow> (None, w)
   | Some j \<Rightarrow> (Some j, \<lparr>w_waiting = removeAll j (w_waiting w), w_active = insert j (w_active w)\<rparr>))"

lemma zrange_zrem: "zrange (zrem j z) = removeAll j (zrange z)"
proof -
  have f: "zrem j z = filter (\<lambda>p. fst p \<noteq> j) z"
    by (auto simp: zrem_def AList.delete_eq intro: filter_cong)
  have "map fst (filter (\<lambda>p. fst p \<noteq> j) xs) = removeAll j (map fst xs)" for xs :: zset
    by (induction xs) auto
  then show ?thesis unfolding zrange_def f by (simp flip: filter_sort)
qed

lemma zrevrange_zrem: "zrevrange (zrem j z) = removeAll j (zrevrange z)"
  by (simp add: zrevrange_def zrange_zrem rev_filter removeAll_filter_not_eq)

lemma distinct_zrevrange: "distinct (map fst z) \<Longrightarrow> distinct (zrevrange z)"
proof -
  assume "distinct (map fst z)"
  moreover have "mset (zrange z) = mset (map fst z)" by (simp add: zrange_def)
  ultimately show ?thesis by (metis distinct_rev mset_eq_imp_distinct_iff zrevrange_def)
qed

lemma members_distinct: "rdb_ok s \<Longrightarrow> distinct (map fst (members s q))"
  by (auto simp: rdb_parts queue_ok_def members_def split: queue_value.splits)

section \<open>One dequeue\<close>

definition handed_out :: "string \<Rightarrow> string \<Rightarrow> rdb \<Rightarrow> rdb" where
  "handed_out q j s = set_active q (sadd j)
     (s\<lparr>rd_queue := (rd_queue s)(q := QZSet (zrem j (members s q)))\<rparr>)"

lemma handed_out_simps [simp]:
  "rd_jobs (handed_out q j s) = rd_jobs s" "members (handed_out q j s) q = zrem j (members s q)"
  "rd_queue (handed_out q j s) q = QZSet (zrem j (members s q))"
  "doc_of (handed_out q j s) = doc_of s" "runnable tags (handed_out q j s) = runnable tags s"
  by (simp_all add: handed_out_def set_active_def members_def doc_of_def runnable_def fun_eq_iff)

lemma view_handed_out:
  "view q (handed_out q j s) = \<lparr>w_waiting = removeAll j (w_waiting (view q s)),
     w_active = insert j (w_active (view q s))\<rparr>"
  by (simp add: view_def zrevrange_zrem) (simp add: handed_out_def set_active_def)

lemma getJobEnvelope_run [run_simps]:
  "Redis_getJobEnvelope j (s, []) = Some (case rd_jobs s j of
     None \<Rightarrow> Inr None | Some EmptyText \<Rightarrow> Inl ErrUnmarshal | Some (Doc env) \<Rightarrow> Inr (Some env), (s, []))"
  by (simp add: Redis_getJobEnvelope_def checkRedisNil_def run_simps split: option.splits doc.splits)

lemma findAndPop_run:
  assumes "rd_queue s q = QZSet z" "set zs \<subseteq> fst ` set z"
  shows "Redis_findAndPopJob q zs tags (s, []) =
    (case List.find (runnable tags s) zs of
       None \<Rightarrow> Some (Inr None, (s, []))
     | Some j \<Rightarrow> Some (Inr (doc_of s j), (handed_out q j s, [])))"
  using assms(2)
proof (induction zs)
  case (Cons j zs)
  have "zrem_queue q j (s, []) = Some (Inr True, (s\<lparr>rd_queue := (rd_queue s)(q := QZSet (zrem j z))\<rparr>, []))"
    using Cons.prems by (simp add: zrem_queue_def run_simps assms(1))
  note z = this
  have IH: "Redis_findAndPopJob q zs tags (s, []) =
    (case List.find (runnable tags s) zs of
       None \<Rightarrow> Some (Inr None, (s, []))
     | Some j \<Rightarrow> Some (Inr (doc_of s j), (handed_out q j s, [])))"
    using Cons by simp
  show ?case
  proof (cases "doc_of s j")
    case None
    then have "rd_jobs s j = None \<or> rd_jobs s j = Some EmptyText"
      by (auto simp: doc_of_def split: option.splits doc.splits)
    moreover have "\<not> runnable tags s j" by (simp add: runnable_def None)
    ultimately show ?thesis using IH by (auto simp: run_simps)
  next
    case (Some env)
    then have d: "rd_jobs s j = Some (Doc env)" by (auto simp: doc_of_def split: option.splits doc.splits)
    have r: "runnable tags s j = matchTags (Tags env) tags" by (simp add: runnable_def Some)
    show ?thesis
    proof (cases "matchTags (Tags env) tags")
      case True
      then show ?thesis
        by (simp add: run_simps d r z Some) (simp add: handed_out_def members_def assms(1))
    qed (simp add: run_simps d r IH)
  qed
qed (simp add: run_simps)

lemma migrate_if_list_run: "rd_queue s q = QZSet z \<Longrightarrow> migrate_if_list now q (s, []) = Some (Inr (), (s, []))"
  by (simp add: migrate_if_list_def queue_is_list_def run_simps)

lemma redis_Dequeue_run:
  assumes "rd_queue s q = QZSet z"
  shows "Redis_Dequeue now q tags (s, []) =
    (case List.find (runnable tags s) (take 100 (zrevrange z)) of
       None \<Rightarrow> Some (Inr None, (s, []))
     | Some j \<Rightarrow> Some (Inr (doc_of s j), (handed_out q j s, [])))"
proof -
  have "set (take 100 (zrevrange z)) \<subseteq> fst ` set z" using set_take_subset by fastforce
  from findAndPop_run[OF assms this] show ?thesis
    by (simp add: Redis_Dequeue_def run_simps migrate_if_list_run[OF assms] assms)
qed

lemma runnable_doc: "runnable tags s j \<Longrightarrow> \<exists>env. doc_of s j = Some env \<and> matchTags (Tags env) tags"
  by (auto simp: runnable_def split: option.splits)

lemma doc_of_id: "rdb_ok s \<Longrightarrow> doc_of s j = Some env \<Longrightarrow> JobID env = j"
  by (auto simp: rdb_parts under_own_id_def doc_of_def split: option.splits doc.splits)

text \<open>C21: On Redis a dequeue refines taking the first runnable id of the waiting list: it returns the job
  of that id, removes the id from the queue and adds it to the active set; when none of the
  first hundred can be run it returns nothing and changes nothing.\<close>
theorem redis_dequeue_refines_take_first:
  assumes "redis_reachable s" "rd_queue s q = QZSet z"
  shows "\<exists>job s'. Redis_Dequeue now q tags (s, []) = Some (Inr job, (s', []))
    \<and> take_first (runnable tags s) (view q s) = (map_option JobID job, view q s')
    \<and> (\<forall>env. job = Some env \<longrightarrow> rd_jobs s (JobID env) = Some (Doc env))
    \<and> rd_jobs s' = rd_jobs s \<and> (\<forall>q'. q' \<noteq> q \<longrightarrow> view q' s' = view q' s)"
proof (cases "List.find (runnable tags s) (take 100 (zrevrange z))")
  case None
  then show ?thesis by (simp add: redis_Dequeue_run[OF assms(2)] take_first_def view_def members_def assms(2))
next
  case (Some j)
  then have "runnable tags s j" by (auto simp: find_Some_iff)
  then obtain env where env: "doc_of s j = Some env" using runnable_doc by blast
  then have "JobID env = j" by (rule doc_of_id[OF redis_reachable_ok[OF assms(1)]])
  moreover have "rd_jobs s j = Some (Doc env)"
    using env by (auto simp: doc_of_def split: option.splits doc.splits)
  moreover have "view q' (handed_out q j s) = view q' s" if "q' \<noteq> q" for q'
    using that by (simp add: view_def handed_out_def members_def set_active_def)
  ultimately show ?thesis
    using Some env
    by (simp add: redis_Dequeue_run[OF assms(2)] take_first_def view_handed_out)
      (simp add: view_def members_def assms(2))
qed


section \<open>Examples\<close>

text \<open>The state after calls that meet no failure.\<close>

fun redis_after :: "call list \<Rightarrow> rdb \<Rightarrow> rdb" where
  "redis_after [] s = s"
| "redis_after (c # cs) s = (case redis_call (\<lambda>ks. [ks]) 9 0 c (s, []) of
     Some (r, (s', fs')) \<Rightarrow> redis_after cs s' | None \<Rightarrow> s)"

lemma redis_after_reachable: "redis_reachable s \<Longrightarrow> redis_reachable (redis_after cs s)"
proof (induction cs arbitrary: s)
  case (Cons c cs)
  then show ?case
    using redis_reachable.step[OF Cons.prems redis_step.intros] by (auto split: option.splits)
qed simp

definition example_job :: "string \<Rightarrow> int \<Rightarrow> JobEnvelope" where
  "example_job j p = zero_envelope\<lparr>JobID := j, Queue := ''q'', Name := ''n'', Priority := p\<rparr>"

definition example_time :: time where "example_time = 1700000000 * second"

text \<open>Three jobs are enqueued at one time.\<close>

definition example_queue :: rdb where
  "example_queue = redis_after [CEnqueue example_time (example_job ''a'' 0),
     CEnqueue example_time (example_job ''b'' 9), CEnqueue example_time (example_job ''c'' 9)] empty_rdb"

lemma example_reachable: "redis_reachable example_queue"
  unfolding example_queue_def by (intro redis_after_reachable redis_reachable.start)

lemma example_members: "rd_queue example_queue ''q'' = QZSet [(''a'', queue_score 0 example_time),
    (''b'', queue_score 9 example_time), (''c'', queue_score 9 example_time)]"
  by code_simp

lemma example_docs: "map (doc_of example_queue) [''a'', ''b'', ''c''] =
    map Some [(example_job ''a'' 0)\<lparr>MaxAttempts := 3\<rparr>, (example_job ''b'' 9)\<lparr>MaxAttempts := 3\<rparr>,
      (example_job ''c'' 9)\<lparr>MaxAttempts := 3\<rparr>]"
  by code_simp

section \<open>Handing out a whole queue\<close>

lemma zrevrange_Nil [simp]: "zrevrange z = [] \<longleftrightarrow> z = []"
  by (metis fst_conv image_is_empty set_empty set_zrevrange)

lemma length_zrevrange [simp]: "length (zrevrange z) = length z"
  by (simp add: zrevrange_def zrange_def)

lemma find_take:
  "length (filter (\<lambda>x. \<not> P x) xs) < n \<Longrightarrow>
     List.find P (take n xs) = (case filter P xs of [] \<Rightarrow> None | x # rest \<Rightarrow> Some x)"
proof (induction xs arbitrary: n)
  case (Cons x xs)
  then show ?case by (cases n) auto
qed simp

lemma filter_removeAll: "filter P (removeAll x xs) = removeAll x (filter P xs)"
  by (induction xs) auto

lemma drain:
  assumes "rdb_ok s" "rd_queue s q = QZSet z"
    "length (filter (\<lambda>j. \<not> runnable tags s j) (zrevrange z)) < 100"
    "length ts = length (filter (runnable tags s) (zrevrange z))"
  shows "\<exists>js s'. mapS (\<lambda>now. Redis_Dequeue now q tags) ts (s, []) = Some (Inr (map Some js), (s', []))
    \<and> map JobID js = filter (runnable tags s) (zrevrange z)
    \<and> view q s' = \<lparr>w_waiting = filter (\<lambda>j. \<not> runnable tags s j) (zrevrange z),
        w_active = set (rd_active s q) \<union> set (filter (runnable tags s) (zrevrange z))\<rparr>
    \<and> (\<forall>now. Redis_Dequeue now q tags (s', []) = Some (Inr None, (s', [])))"
  using assms
proof (induction ts arbitrary: s z)
  case Nil
  then have none: "filter (runnable tags s) (zrevrange z) = []" by simp
  then have all: "filter (\<lambda>j. \<not> runnable tags s j) (zrevrange z) = zrevrange z"
    by (auto simp: filter_empty_conv filter_id_conv)
  have "Redis_Dequeue now q tags (s, []) = Some (Inr None, (s, []))" for now
    using find_take[OF Nil.prems(3)] by (simp add: redis_Dequeue_run[OF Nil.prems(2)] none)
  with none all show ?case
    by (intro exI[of _ "[]"] exI[of _ s]) (simp add: run_simps view_def members_def Nil.prems(2))
next
  case (Cons t ts)
  obtain j js where js: "filter (runnable tags s) (zrevrange z) = j # js"
    using Cons.prems(4) by (cases "filter (runnable tags s) (zrevrange z)") auto
  then have j: "j \<in> set (filter (runnable tags s) (zrevrange z))" by simp
  then obtain env where env: "doc_of s j = Some env" "runnable tags s j"
    using runnable_doc by fastforce
  define s1 where "s1 = handed_out q j s"
  have "List.find (runnable tags s) (take 100 (zrevrange z)) = Some j"
    using find_take[OF Cons.prems(3)] js by simp
  then have D: "Redis_Dequeue t q tags (s, []) = Some (Inr (Some env), (s1, []))"
    by (simp add: redis_Dequeue_run[OF Cons.prems(2)] env(1) s1_def)
  have dz: "distinct (map fst z)" using members_distinct[OF Cons.prems(1), of q] by (simp add: members_def Cons.prems(2))
  have s1: "rdb_ok s1" by (rule keepsD[OF keeps_Dequeue D Cons.prems(1)])
  have q1: "rd_queue s1 q = QZSet (zrem j z)" by (simp add: s1_def members_def Cons.prems(2))
  have same: "runnable tags s1 = runnable tags s" by (simp add: s1_def)
  have dist: "distinct (j # js)" using distinct_filter[OF distinct_zrevrange[OF dz], of "runnable tags s"] by (simp only: js)
  have good: "filter (runnable tags s) (zrevrange (zrem j z)) = js"
    using dist by (simp add: zrevrange_zrem filter_removeAll js)
  have bad: "filter (\<lambda>i. \<not> runnable tags s i) (zrevrange (zrem j z)) = filter (\<lambda>i. \<not> runnable tags s i) (zrevrange z)"
    using env(2) by (simp add: zrevrange_zrem filter_removeAll removeAll_id)
  have "length ts = length js" using Cons.prems(4) js by simp
  with Cons.IH[OF s1 q1] Cons.prems(3) obtain es s' where
    IH: "mapS (\<lambda>now. Redis_Dequeue now q tags) ts (s1, []) = Some (Inr (map Some es), (s', []))"
    "map JobID es = js"
    "view q s' = \<lparr>w_waiting = filter (\<lambda>i. \<not> runnable tags s i) (zrevrange z), w_active = set (rd_active s1 q) \<union> set js\<rparr>"
    "\<forall>now. Redis_Dequeue now q tags (s', []) = Some (Inr None, (s', []))"
    unfolding same good bad by blast
  have "set (rd_active s1 q) = insert j (set (rd_active s q))" by (simp add: s1_def handed_out_def set_active_def)
  then show ?case
    using D IH doc_of_id[OF Cons.prems(1) env(1)]
    by (intro exI[of _ "env # es"] exI[of _ s']) (simp add: run_simps js)
qed

text \<open>C22: A worker drains a Redis queue of what it can run: if fewer than a hundred of its jobs need other
  tags, as many dequeues as there are jobs the worker's tags cover, at any times and none failing,
  return each of these exactly once, in the order of the queue; the others still wait in their order,
  the returned ones are active, and a further dequeue finds nothing.\<close>
theorem redis_queue_drains:
  assumes "redis_reachable s" "rd_queue s q = QZSet z"
    "length (filter (\<lambda>j. \<not> runnable tags s j) (zrevrange z)) < 100"
    "length ts = length (filter (runnable tags s) (zrevrange z))"
  shows "\<exists>js s'. mapS (\<lambda>now. Redis_Dequeue now q tags) ts (s, []) = Some (Inr (map Some js), (s', []))
    \<and> map JobID js = filter (runnable tags s) (zrevrange z) \<and> distinct (zrevrange z)
    \<and> view q s' = \<lparr>w_waiting = filter (\<lambda>j. \<not> runnable tags s j) (zrevrange z),
        w_active = set (rd_active s q) \<union> set (filter (runnable tags s) (zrevrange z))\<rparr>
    \<and> (\<forall>now. Redis_Dequeue now q tags (s', []) = Some (Inr None, (s', [])))"
  using drain[OF redis_reachable_ok[OF assms(1)] assms(2-4)]
    distinct_zrevrange[of z] members_distinct[OF redis_reachable_ok[OF assms(1)], of q]
  by (simp add: members_def assms(2))


section \<open>Dequeueing from stale candidates\<close>

definition is_queued :: "string \<Rightarrow> rdb \<Rightarrow> string \<Rightarrow> bool" where
  "is_queued q s j \<longleftrightarrow> j \<in> fst ` set (members s q)"

lemma getJobEnvelope_doc:
  assumes "Redis_getJobEnvelope j (s, fs) = Some (Inr (Some env), (s', fs'))"
  shows "s' = s \<and> doc_of s j = Some env"
  using assms unfolding Redis_getJobEnvelope_def checkRedisNil_def
  by (auto simp: bindS_def tryS_def query_row_def engine_def ret_def throw_def liftE_def doc_of_def
      split: list.splits bool.splits option.splits sum.splits prod.splits if_splits doc.splits
      elim!: unmarshal.elims)

lemma getJobEnvelope_state:
  assumes "Redis_getJobEnvelope j (s, fs) = Some (r, (s', fs'))"
  shows "s' = s"
  using assms unfolding Redis_getJobEnvelope_def checkRedisNil_def
  by (auto simp: bindS_def tryS_def query_row_def engine_def ret_def throw_def liftE_def
      split: list.splits bool.splits option.splits sum.splits prod.splits if_splits)

lemma zrem_queue_cases:
  assumes "zrem_queue q j (s, fs) = Some (r, (s', fs'))"
  shows "r = Inr True \<and> is_queued q s j \<and> members s' q = zrem j (members s q) \<or> r \<noteq> Inr True \<and> s' = s"
  using assms unfolding zrem_queue_def engine_def
  by (auto simp: is_queued_def members_def split: list.splits bool.splits queue_value.splits if_splits prod.splits)


text \<open>Whatever candidates were read and whatever fails: a job that is handed out was waiting until
  now, and nothing else leaves the queue.\<close>

lemma findAndPop_taken:
  assumes "Redis_findAndPopJob q zs tags (s, fs) = Some (r, (s', fs'))" "rdb_ok s"
  shows "(\<exists>env. r = Inr (Some env) \<and> is_queued q s (JobID env) \<and> runnable tags s (JobID env)
      \<and> members s' q = zrem (JobID env) (members s q))
    \<or> (\<forall>env. r \<noteq> Inr (Some env)) \<and> members s' q = members s q"
  using assms(1)
proof (induction zs arbitrary: fs)
  case (Cons j zs)
  obtain g c where g: "Redis_getJobEnvelope j (s, fs) = Some (g, c)"
    using Cons.prems by (auto simp: bindS_def tryS_def split: option.splits)
  obtain s1 fs1 where c: "c = (s1, fs1)" by fastforce
  note s1 = getJobEnvelope_state[OF g[unfolded c]]
  show ?case
  proof (cases "\<exists>env. g = Inr (Some env) \<and> matchTags (Tags env) tags")
    case False
    then have "Redis_findAndPopJob q zs tags (s, fs1) = Some (r, (s', fs'))"
      using Cons.prems by (auto simp: bindS_def tryS_def g c s1 split: sum.splits option.splits)
    then show ?thesis by (rule Cons.IH)
  next
    case True
    then obtain env where env: "g = Inr (Some env)" "matchTags (Tags env) tags" by blast
    have d: "doc_of s j = Some env" using getJobEnvelope_doc[of j s fs env] g env(1) c by simp
    have id: "JobID env = j" by (rule doc_of_id[OF assms(2) d])
    obtain rem s2 fs2 where z: "zrem_queue q j (s, fs1) = Some (rem, (s2, fs2))"
      using Cons.prems by (auto simp: bindS_def tryS_def g c s1 env split: option.splits)
    from zrem_queue_cases[OF z] show ?thesis
    proof (elim disjE conjE)
      assume rem: "rem = Inr True" "is_queued q s j" "members s2 q = zrem j (members s q)"
      then have "r = Inr (Some env) \<and> members s' q = members s2 q"
        using Cons.prems
        by (auto simp: bindS_def tryS_def thenS_def ignoreS_def exec_def engine_def ret_def g c s1 env z
            members_def set_active_def split: list.splits bool.splits)
      then show ?thesis using rem d env(2) by (auto simp: id runnable_def)
    next
      assume "rem \<noteq> Inr True" "s2 = s"
      then have "Redis_findAndPopJob q zs tags (s, fs2) = Some (r, (s', fs'))"
        using Cons.prems by (simp add: bindS_def tryS_def g c s1 env z)
      then show ?thesis by (rule Cons.IH)
    qed
  qed
qed (auto simp: ret_def)

text \<open>Workers of a queue: each has read candidates at some time, possibly long before, and then
  tries to remove one. \<open>redis_takes\<close> is a series of such tries, with the ids handed out.\<close>

record redis_try =
  r_candidates :: "string list"
  r_tags :: "string list"
  r_fails :: "bool list"

fun redis_takes :: "string \<Rightarrow> redis_try list \<Rightarrow> rdb \<Rightarrow> string list" where
  "redis_takes q [] s = []"
| "redis_takes q (t # ts) s =
     (case Redis_findAndPopJob q (r_candidates t) (r_tags t) (s, r_fails t) of
        Some (Inr (Some env), (s', fs')) \<Rightarrow> JobID env # redis_takes q ts s'
      | Some (_, (s', fs')) \<Rightarrow> redis_takes q ts s'
      | None \<Rightarrow> redis_takes q ts s)"

lemma redis_takes_waiting:
  "rdb_ok s \<Longrightarrow> distinct (redis_takes q ts s) \<and> (\<forall>j\<in>set (redis_takes q ts s). is_queued q s j)"
proof (induction ts arbitrary: s)
  case (Cons t ts)
  show ?case
  proof (cases "Redis_findAndPopJob q (r_candidates t) (r_tags t) (s, r_fails t)")
    case None
    then show ?thesis using Cons.IH[OF Cons.prems] by simp
  next
    case (Some rc)
    obtain r s' fs' where rc: "rc = (r, (s', fs'))" by (cases rc) auto
    note run = Some[unfolded rc]
    have ok: "rdb_ok s'" by (rule keepsD[OF keeps_findAndPop run Cons.prems])
    from findAndPop_taken[OF run Cons.prems] show ?thesis
    proof (elim disjE exE conjE)
      fix env assume "r = Inr (Some env)" "is_queued q s (JobID env)" "members s' q = zrem (JobID env) (members s q)"
      then show ?thesis using Cons.IH[OF ok] by (auto simp: run is_queued_def)
    next
      assume "\<forall>env. r \<noteq> Inr (Some env)" "members s' q = members s q"
      then have "redis_takes q (t # ts) s = redis_takes q ts s'"
        by (auto simp: run split: sum.splits option.splits)
      then show ?thesis using Cons.IH[OF ok] \<open>members s' q = _\<close> by (simp add: is_queued_def)
    qed
  qed
qed simp

text \<open>C23: On Redis no job is handed out twice: in any series of tries by the workers of a queue, each on
  candidates it read at any earlier time, with any tags and whatever round trips fail, the ids
  handed out are distinct, and each was waiting in the queue at the start.\<close>
theorem redis_dequeue_exclusive:
  assumes "redis_reachable s"
  shows "distinct (redis_takes q ts s) \<and> set (redis_takes q ts s) \<subseteq> fst ` set (members s q)"
  using redis_takes_waiting[OF redis_reachable_ok[OF assms], of q ts] by (auto simp: is_queued_def)


section \<open>Priorities\<close>

text \<open>Every queued job has the score of its priority at some time in the range of the scores.\<close>

definition scored_by_priority :: "rdb \<Rightarrow> zset \<Rightarrow> bool" where
  "scored_by_priority s z \<longleftrightarrow> (\<forall>m x env. (m, x) \<in> set z \<longrightarrow> doc_of s m = Some env \<longrightarrow>
     \<bar>Priority env\<bar> < 2 ^ 50 \<and>
     (\<exists>t. x = queue_score (Priority env) t \<and> 0 \<le> unix t \<and> unix t \<le> 50000000000))"

lemma zrevrange_before:
  assumes "i < k" "k < length (zrevrange z)" "distinct (map fst z)"
    "(zrevrange z ! i, x) \<in> set z" "(zrevrange z ! k, y) \<in> set z"
  shows "y \<le> x"
proof -
  define key where "key = (\<lambda>(m :: string, s :: rat). (s, m))"
  define L where "L = rev (sort_key key z)"
  have z: "zrevrange z = map fst L" by (simp add: zrevrange_def zrange_def L_def key_def rev_map)
  have L: "set L = set z" "length L = length z" by (simp_all add: L_def)
  have snd: "snd (L ! n) = w" if "(map fst L ! n, w) \<in> set z" "n < length L" for n w
    using that L(1) assms(3) by (metis eq_key_imp_eq_value nth_map nth_mem surjective_pairing)
  have "sorted (map key (sort_key key z))" by simp
  then have s: "sorted_wrt (\<lambda>a b. key b \<le> key a) L"
    by (simp add: L_def sorted_wrt_rev sorted_map)
  have "key (L ! k) \<le> key (L ! i)"
    using sorted_wrt_nth_less[OF s assms(1)] assms(2) by (simp add: z)
  then have "snd (L ! k) \<le> snd (L ! i)" by (auto simp: key_def less_eq_prod_def split: prod.splits)
  then show ?thesis using snd[of i x] snd[of k y] assms(1,2,4,5) by (simp add: z)
qed

lemma find_append_Some: "List.find P xs = Some x \<Longrightarrow> List.find P (xs @ ys) = Some x"
  by (induction xs) auto

lemma find_first:
  assumes "List.find P xs = Some x" "y \<in> set xs" "P y" "y \<noteq> x"
  shows "\<exists>i k. i < k \<and> k < length xs \<and> xs ! i = x \<and> xs ! k = y"
proof -
  obtain i where i: "i < length xs" "xs ! i = x" "\<forall>l<i. \<not> P (xs ! l)"
    using assms(1) by (auto simp: find_Some_iff)
  obtain k where k: "k < length xs" "xs ! k = y" using assms(2) by (auto simp: in_set_conv_nth)
  have "i < k" using i k assms(3,4) by (metis linorder_neqE_nat)
  then show ?thesis using i k by blast
qed

text \<open>With scores of priorities below \<open>2^50\<close> at times before the year 3554, a dequeue returns a runnable job
  of highest priority, for all the rounding of their floating-point arithmetic.\<close>
lemma dequeue_by_scores:
  assumes "redis_reachable s" "rd_queue s q = QZSet z" "scored_by_priority s z"
    and "Redis_Dequeue now q tags (s, []) = Some (Inr (Some env), c)"
  shows "JobID env \<in> fst ` set z \<and> matchTags (Tags env) tags
    \<and> (\<forall>j\<in>fst ` set z. \<forall>env'. doc_of s j = Some env' \<and> matchTags (Tags env') tags \<longrightarrow>
         Priority env' \<le> Priority env)"
proof -
  note ok = redis_reachable_ok[OF assms(1)]
  have dz: "distinct (map fst z)" using members_distinct[OF ok, of q] by (simp add: members_def assms(2))
  obtain j where j: "List.find (runnable tags s) (take 100 (zrevrange z)) = Some j" "doc_of s j = Some env"
    using assms(4) by (auto simp: redis_Dequeue_run[OF assms(2)] split: option.splits)
  then have r: "runnable tags s j" "j \<in> set (take 100 (zrevrange z))" by (auto simp: find_Some_iff in_set_conv_nth)
  have id: "JobID env = j" by (rule doc_of_id[OF ok j(2)])
  have jz: "j \<in> fst ` set z" using r(2) set_take_subset[of 100 "zrevrange z"] by auto
  then obtain x where x: "(j, x) \<in> set z" by auto
  have mt: "matchTags (Tags env) tags" using r(1) j(2) by (simp add: runnable_def)
  have "Priority env' \<le> Priority env"
    if j': "j' \<in> fst ` set z" "doc_of s j' = Some env'" "matchTags (Tags env') tags" for j' env'
  proof (cases "j' = j")
    case False
    obtain y where y: "(j', y) \<in> set z" using j'(1) by auto
    have "List.find (runnable tags s) (zrevrange z) = Some j"
      using j(1) append_take_drop_id[of 100 "zrevrange z"] by (metis find_append_Some)
    moreover have "runnable tags s j'" using j'(2,3) by (simp add: runnable_def)
    ultimately obtain i k where "i < k" "k < length (zrevrange z)" "zrevrange z ! i = j" "zrevrange z ! k = j'"
      using find_first[of "runnable tags s" "zrevrange z" j j'] j'(1) False by auto
    from zrevrange_before[OF this(1,2) dz] this(3,4) have "y \<le> x" using x y by simp
    moreover obtain t where t: "x = queue_score (Priority env) t" "0 \<le> unix t" "unix t \<le> 50000000000" "\<bar>Priority env\<bar> < 2 ^ 50"
      using assms(3) x j(2) unfolding scored_by_priority_def by blast
    moreover obtain t' where t': "y = queue_score (Priority env') t'" "0 \<le> unix t'" "unix t' \<le> 50000000000" "\<bar>Priority env'\<bar> < 2 ^ 50"
      using assms(3) y j'(2) unfolding scored_by_priority_def by blast
    ultimately show ?thesis
      using queue_score_priority[of "Priority env" "Priority env'" t t'] by linarith
  qed (use j' j(2) in simp)
  with id jz mt show ?thesis by blast
qed

text \<open>A history of enqueues and dequeues, in any order, on any queues. Each job that is enqueued has an id
  that is not stored yet and a priority below \<open>2^50\<close>, and is enqueued between 1970 and 3554; it may be
  refused, and it may be scheduled for later.\<close>

primrec new_jobs :: "call list \<Rightarrow> rdb \<Rightarrow> bool" where
  "new_jobs [] s = True"
| "new_jobs (c # cs) s =
     ((case c of
         CEnqueue now env \<Rightarrow> rd_jobs s (JobID env) = None \<and> \<bar>Priority env\<bar> < 2 ^ 50
           \<and> 0 \<le> unix now \<and> unix now \<le> 50000000000
       | CDequeue now q ws \<Rightarrow> True
       | _ \<Rightarrow> False)
      \<and> new_jobs cs (redis_after [c] s))"

text \<open>In such a history every queued id has a document, and the score of its priority.\<close>

definition scored_docs :: "rdb \<Rightarrow> bool" where
  "scored_docs s \<longleftrightarrow> (\<forall>q. \<exists>z. rd_queue s q = QZSet z \<and> (\<forall>(m, x)\<in>set z. \<exists>env t.
     rd_jobs s m = Some (Doc env) \<and> \<bar>Priority env\<bar> < 2 ^ 50
     \<and> x = queue_score (Priority env) t \<and> 0 \<le> unix t \<and> unix t \<le> 50000000000))"

lemma scored_docsD:
  assumes "scored_docs s"
  obtains z where "rd_queue s q = QZSet z" "scored_by_priority s z"
proof -
  from assms obtain z where z: "rd_queue s q = QZSet z" "\<forall>(m, x)\<in>set z. \<exists>env t.
     rd_jobs s m = Some (Doc env) \<and> \<bar>Priority env\<bar> < 2 ^ 50
     \<and> x = queue_score (Priority env) t \<and> 0 \<le> unix t \<and> unix t \<le> 50000000000"
    unfolding scored_docs_def by blast
  then have "scored_by_priority s z" unfolding scored_by_priority_def doc_of_def by fastforce
  with z(1) show thesis by (rule that)
qed

lemma scored_docs_frame:
  "rd_queue s' = rd_queue s \<Longrightarrow> rd_jobs s' = rd_jobs s \<Longrightarrow> scored_docs s \<Longrightarrow> scored_docs s'"
  by (simp add: scored_docs_def)

lemma lock_frame:
  "keeps (\<lambda>s'. rd_queue s' = rd_queue s \<and> rd_jobs s' = rd_jobs s) (Redis_acquireUniqueLock now env)"
  unfolding Redis_acquireUniqueLock_def Redis_checkLockDuplicate_def Let_def
  by (intro redis_keeps) (simp_all add: set_lock_def split: if_splits)

lemma zadd_sub: "(m, x) \<in> set (zadd k v y) \<Longrightarrow> (m, x) = (k, v) \<or> (m, x) \<in> set y"
  unfolding zadd_def by (induction y) (auto split: if_splits)

lemma scored_docs_place:
  assumes "scored_docs s" "rd_jobs s (JobID env) = None" "\<bar>Priority env\<bar> < 2 ^ 50"
    "0 \<le> unix now" "unix now \<le> 50000000000"
    and "pipe_exec [cmd (set_job (JobID env) (Some (Doc env))), cmd (rd_queues_update f), place_job now env] (s, fs)
      = Some (r, (s', fs'))"
  shows "scored_docs s'"
proof (cases "s' = s")
  case False
  obtain z where z: "rd_queue s (Queue env) = QZSet z" using assms(1) unfolding scored_docs_def by blast
  have q: "rd_queue s' = rd_queue s \<or> rd_queue s' = (rd_queue s)(Queue env := QZSet (zadd (JobID env) (queue_score (Priority env) now) z))"
    and j: "rd_jobs s' = (rd_jobs s)(JobID env \<mapsto> Doc env)"
    using assms(6) z False
    by (auto simp: pipe_exec_def engine_def cmd_def set_job_def place_job_def zadd_queue_def on_queue_def set_scheduled_def
        run_commands.simps
        split: option.splits if_splits list.splits bool.splits)
  show ?thesis
    unfolding scored_docs_def
  proof
    fix q
    obtain y where y: "rd_queue s q = QZSet y" "\<forall>(m, x)\<in>set y. \<exists>env t.
       rd_jobs s m = Some (Doc env) \<and> \<bar>Priority env\<bar> < 2 ^ 50
       \<and> x = queue_score (Priority env) t \<and> 0 \<le> unix t \<and> unix t \<le> 50000000000"
      using assms(1) unfolding scored_docs_def by blast
    have old: "\<exists>e t. rd_jobs s' m = Some (Doc e) \<and> \<bar>Priority e\<bar> < 2 ^ 50
        \<and> x = queue_score (Priority e) t \<and> 0 \<le> unix t \<and> unix t \<le> 50000000000" if "(m, x) \<in> set y" for m x
      using y(2) that assms(2) j by fastforce
    have new: "\<exists>e t. rd_jobs s' (JobID env) = Some (Doc e) \<and> \<bar>Priority e\<bar> < 2 ^ 50
        \<and> queue_score (Priority env) now = queue_score (Priority e) t \<and> 0 \<le> unix t \<and> unix t \<le> 50000000000"
      using j assms(3-5) by auto
    note add = zadd_sub[of _ _ _ _ y]
    from q show "\<exists>z. rd_queue s' q = QZSet z \<and> (\<forall>(m, x)\<in>set z. \<exists>env t.
       rd_jobs s' m = Some (Doc env) \<and> \<bar>Priority env\<bar> < 2 ^ 50
       \<and> x = queue_score (Priority env) t \<and> 0 \<le> unix t \<and> unix t \<le> 50000000000)"
      using y z old new add by (auto split: if_splits) blast+
  qed
qed (use assms(1) in simp)

lemma migrate_zset:
  "rd_queue s q = QZSet z \<Longrightarrow> migrate_if_list now q (s, fs) = Some (r, (s', fs')) \<Longrightarrow> s' = s"
  by (auto simp: migrate_if_list_def queue_is_list_def bindS_def tryS_def query_def engine_def ret_def
      split: list.splits bool.splits)

lemma scored_docs_enqueue:
  assumes "scored_docs s" "rd_jobs s (JobID env) = None" "\<bar>Priority env\<bar> < 2 ^ 50"
    "0 \<le> unix now" "unix now \<le> 50000000000"
    and "Redis_Enqueue now env (s, fs) = Some (r, (s', fs'))"
  shows "scored_docs s'"
proof -
  define e where "e = env\<lparr>MaxAttempts := (if MaxAttempts env \<le> 0 then 3 else MaxAttempts env)\<rparr>"
  have run: "thenS (Redis_acquireUniqueLock now e) (bindS (liftE (marshal_env e)) (Redis_execEnqueue now e)) (s, fs)
      = Some (r, (s', fs'))"
    using assms(6) by (simp add: Redis_Enqueue_def Let_def e_def)
  obtain r1 s1 fs1 where l: "Redis_acquireUniqueLock now e (s, fs) = Some (r1, (s1, fs1))"
    using run by (auto simp: thenS_def bindS_def split: option.splits)
  have s1: "rd_queue s1 = rd_queue s" "rd_jobs s1 = rd_jobs s"
    using keepsD[OF lock_frame[of s] l] by simp_all
  have ok1: "scored_docs s1" using scored_docs_frame[OF s1 assms(1)] .
  have fields: "JobID e = JobID env" "Priority e = Priority env" by (simp_all add: e_def)
  show ?thesis
  proof (cases "r1 = Inr () \<and> marshal_env e = Inr (Doc e)")
    case True
    with run l have x: "Redis_execEnqueue now e (Doc e) (s1, fs1) = Some (r, (s', fs'))"
      by (simp add: run_simps liftE_def)
    obtain z where z: "rd_queue s1 (Queue e) = QZSet z" using ok1 unfolding scored_docs_def by blast
    obtain r2 s2 fs2 where m: "migrate_if_list now (Queue e) (s1, fs1) = Some (r2, (s2, fs2))"
      using x by (auto simp: Redis_execEnqueue_def thenS_def bindS_def split: option.splits)
    have s2: "s2 = s1" using migrate_zset[OF z m] .
    show ?thesis
    proof (cases r2)
      case (Inr u)
      with x m s2 have "pipe_exec [cmd (set_job (JobID e) (Some (Doc e))), cmd (rd_queues_update (sadd (Queue e))),
          place_job now e] (s1, fs2) = Some (r, (s', fs'))" by (simp add: Redis_execEnqueue_def then_run)
      from scored_docs_place[OF ok1 _ _ _ _ this] assms(2-5) show ?thesis by (simp add: fields s1(2))
    qed (use x m s2 ok1 in \<open>simp add: Redis_execEnqueue_def then_run\<close>)
  next
    case False
    then have "s' = s1"
      using run l
      by (cases r1; cases "marshal_env e")
        (auto simp: run_simps liftE_def marshal_env_def split: option.splits if_splits)
    with ok1 show ?thesis by simp
  qed
qed

lemma scored_docs_dequeue:
  assumes "scored_docs s" "Redis_Dequeue now q tags (s, []) = Some (r, (s', fs'))"
  shows "scored_docs s'"
proof -
  obtain z where z: "rd_queue s q = QZSet z" using assms(1) unfolding scored_docs_def by blast
  have "s' = s \<or> (\<exists>j. s' = handed_out q j s)"
    using assms(2) by (auto simp: redis_Dequeue_run[OF z] split: option.splits)
  moreover have "scored_docs (handed_out q j s)" for j
    unfolding scored_docs_def
  proof
    fix p
    obtain y where y: "rd_queue s p = QZSet y" "\<forall>(m, x)\<in>set y. \<exists>env t.
       rd_jobs s m = Some (Doc env) \<and> \<bar>Priority env\<bar> < 2 ^ 50
       \<and> x = queue_score (Priority env) t \<and> 0 \<le> unix t \<and> unix t \<le> 50000000000"
      using assms(1) unfolding scored_docs_def by blast
    have sub: "set (zrem j y) \<subseteq> set y" by (auto simp: zrem_def AList.delete_eq)
    have "rd_queue (handed_out q j s) p = QZSet y \<or> rd_queue (handed_out q j s) p = QZSet (zrem j y)"
      using y(1) by (auto simp: handed_out_def set_active_def members_def)
    with sub obtain w where "rd_queue (handed_out q j s) p = QZSet w" "set w \<subseteq> set y" by blast
    with y(2) show "\<exists>z. rd_queue (handed_out q j s) p = QZSet z \<and> (\<forall>(m, x)\<in>set z. \<exists>env t.
       rd_jobs (handed_out q j s) m = Some (Doc env) \<and> \<bar>Priority env\<bar> < 2 ^ 50
       \<and> x = queue_score (Priority env) t \<and> 0 \<le> unix t \<and> unix t \<le> 50000000000)"
      unfolding handed_out_simps(1) by blast
  qed
  ultimately show ?thesis using assms(1) by auto
qed

lemma scored_docs_history: "scored_docs s \<Longrightarrow> new_jobs cs s \<Longrightarrow> scored_docs (redis_after cs s)"
proof (induction cs arbitrary: s)
  case (Cons c cs)
  have "scored_docs (redis_after [c] s)"
  proof (cases c)
    case (CEnqueue now env)
    with Cons.prems scored_docs_enqueue[of s env now "[]"] show ?thesis by (auto split: option.splits)
  next
    case (CDequeue now q ws)
    with Cons.prems show ?thesis
      by (auto simp: bindS_def ret_def split: option.splits sum.splits dest: scored_docs_dequeue)
  qed (use Cons.prems in simp_all)
  moreover have "redis_after (c # cs) s = redis_after cs (redis_after [c] s)
      \<or> redis_after (c # cs) s = s"
    by (auto split: option.splits)
  ultimately show ?case using Cons.IH[of "redis_after [c] s"] Cons.prems by auto
qed simp

text \<open>C24: On Redis a dequeue returns a job of highest priority. After any history of enqueues and dequeues
  without failures, in which every job that is enqueued has a new id, a priority below \<open>2^50\<close> and a
  time between 1970 and 3554, a job that a dequeue returns is one of the queue that the worker's tags
  cover, and no such job of the queue has a higher priority, for all the rounding of the scores'
  floating-point arithmetic. (A queue of the old list type, whose migration forgets the priorities,
  does not arise in such a history.)\<close>

theorem redis_dequeue_by_priority:
  assumes "new_jobs cs empty_rdb"
    and "Redis_Dequeue now q tags (redis_after cs empty_rdb, []) = Some (Inr (Some env), c)"
  shows "JobID env \<in> fst ` set (members (redis_after cs empty_rdb) q) \<and> matchTags (Tags env) tags
    \<and> (\<forall>j\<in>fst ` set (members (redis_after cs empty_rdb) q). \<forall>env'.
         doc_of (redis_after cs empty_rdb) j = Some env' \<and> matchTags (Tags env') tags \<longrightarrow>
         Priority env' \<le> Priority env)"
proof -
  let ?s = "redis_after cs empty_rdb"
  have "scored_docs empty_rdb" by (simp add: scored_docs_def empty_rdb_def)
  from scored_docs_history[OF this assms(1)] obtain z where z: "rd_queue ?s q = QZSet z" "scored_by_priority ?s z"
    by (rule scored_docsD)
  have m: "members ?s q = z" by (simp add: members_def z(1))
  show ?thesis
    using dequeue_by_scores[OF redis_after_reachable[OF redis_reachable.start] z assms(2)] unfolding m .
qed


section \<open>Witnesses\<close>

theorem redis_dequeue_refines_take_first_witness:
  "\<exists>job s'. Redis_Dequeue 0 ''q'' [] (example_queue, []) = Some (Inr job, (s', []))
    \<and> take_first (runnable [] example_queue) (view ''q'' example_queue)
        = (map_option JobID job, view ''q'' s')"
  using redis_dequeue_refines_take_first[OF example_reachable example_members, of 0 "[]"] by blast

lemma example_runnable: "\<forall>j\<in>{''a'', ''b'', ''c''}. runnable [] example_queue j"
  using example_docs by (simp add: runnable_def example_job_def zero_envelope_def matchTags_def)

text \<open>A worker without tags, and a queue in which one of three jobs needs one.\<close>

definition mixed_queue :: rdb where
  "mixed_queue = redis_after [CEnqueue example_time (example_job ''a'' 0),
     CEnqueue example_time ((example_job ''g'' 9)\<lparr>Tags := [''gpu'']\<rparr>),
     CEnqueue example_time (example_job ''c'' 3)] empty_rdb"

lemma mixed_reachable: "redis_reachable mixed_queue"
  unfolding mixed_queue_def by (intro redis_after_reachable redis_reachable.start)

lemma mixed_members: "rd_queue mixed_queue ''q'' = QZSet [(''a'', queue_score 0 example_time),
    (''g'', queue_score 9 example_time), (''c'', queue_score 3 example_time)]"
  by code_simp

lemma mixed_order:
  "zrevrange [(''a'', queue_score 0 example_time), (''g'', queue_score 9 example_time),
     (''c'', queue_score 3 example_time)] = [''g'', ''c'', ''a'']"
  "map (runnable [] mixed_queue) [''g'', ''c'', ''a''] = [False, True, True]"
  by (code_simp, code_simp)

theorem redis_queue_drains_witness:
  "\<exists>js s'. mapS (\<lambda>now. Redis_Dequeue now ''q'' []) [1, 2] (mixed_queue, []) = Some (Inr (map Some js), (s', []))
    \<and> map JobID js = [''c'', ''a''] \<and> w_waiting (view ''q'' s') = [''g'']"
proof -
  have r: "filter (runnable [] mixed_queue) [''g'', ''c'', ''a''] = [''c'', ''a'']"
    "filter (\<lambda>j. \<not> runnable [] mixed_queue j) [''g'', ''c'', ''a''] = [''g'']"
    using mixed_order(2) by simp_all
  have "length (filter (\<lambda>j. \<not> runnable [] mixed_queue j) [''g'', ''c'', ''a'']) < 100"
    "length [1, 2] = length (filter (runnable [] mixed_queue) [''g'', ''c'', ''a''])"
    unfolding r by simp_all
  from redis_queue_drains[OF mixed_reachable mixed_members, unfolded mixed_order(1), OF this] obtain js s' where
    d: "mapS (\<lambda>now. Redis_Dequeue now ''q'' []) [1, 2] (mixed_queue, []) = Some (Inr (map Some js), (s', []))"
    "map JobID js = [''c'', ''a'']"
    "view ''q'' s' = \<lparr>w_waiting = [''g''], w_active = set (rd_active mixed_queue ''q'') \<union> set [''c'', ''a'']\<rparr>"
    unfolding r by (elim exE conjE) (rule that)
  from d(3) have "w_waiting (view ''q'' s') = [''g'']" by simp
  with d(1,2) show ?thesis by (intro exI conjI)
qed


theorem redis_dequeue_exclusive_witness:
  "distinct (redis_takes ''q'' [\<lparr>r_candidates = [''c'', ''b''], r_tags = [], r_fails = [False, False, True]\<rparr>,
       \<lparr>r_candidates = [''c'', ''b''], r_tags = [], r_fails = []\<rparr>] example_queue)"
  using redis_dequeue_exclusive[OF example_reachable] by blast

definition example_history :: "call list" where
  "example_history = [CEnqueue example_time (example_job ''a'' 0), CEnqueue example_time (example_job ''b'' 9),
     CEnqueue example_time (example_job ''c'' 9), CDequeue example_time ''q'' []]"

theorem redis_dequeue_by_priority_witness:
  "\<exists>c. Redis_Dequeue 0 ''q'' [] (redis_after example_history empty_rdb, [])
      = Some (Inr (Some ((example_job ''b'' 9)\<lparr>MaxAttempts := 3\<rparr>)), c)
    \<and> (\<forall>env'. doc_of (redis_after example_history empty_rdb) ''a'' = Some env' \<longrightarrow> Priority env' \<le> 9)"
proof -
  have h: "new_jobs example_history empty_rdb" by code_simp
  have "map_option (\<lambda>(r, c). r) (Redis_Dequeue 0 ''q'' [] (redis_after example_history empty_rdb, []))
      = Some (Inr (Some ((example_job ''b'' 9)\<lparr>MaxAttempts := 3\<rparr>)))" by code_simp
  then obtain c where d: "Redis_Dequeue 0 ''q'' [] (redis_after example_history empty_rdb, [])
      = Some (Inr (Some ((example_job ''b'' 9)\<lparr>MaxAttempts := 3\<rparr>)), c)"
    by auto
  have a: "''a'' \<in> fst ` set (members (redis_after example_history empty_rdb) ''q'')"
    "map_option Tags (doc_of (redis_after example_history empty_rdb) ''a'') = Some []" by (code_simp, code_simp)
  have "Priority env' \<le> Priority ((example_job ''b'' 9)\<lparr>MaxAttempts := 3\<rparr>)"
    if "doc_of (redis_after example_history empty_rdb) ''a'' = Some env'" for env'
    using redis_dequeue_by_priority[OF h d] a that by (auto simp: matchTags_def)
  with d show ?thesis by (auto simp: example_job_def)
qed



section \<open>Typing\<close>

text \<open>C20: The keys of Redis stay well-typed in every state that calls lead to, whatever round trips fail:
  each document is stored under the id it carries, members are distinct, an emptied list is no
  key; so reading a job yields the job that was asked for.\<close>
theorem redis_keys_typed:
  assumes "redis_reachable s"
  shows "rdb_ok s \<and> (\<forall>j fs env c. Redis_GetJobDetail j (s, fs) = Some (Inr (Some env), c) \<longrightarrow> JobID env = j)"
proof -
  note ok = redis_reachable_ok[OF assms]
  have "JobID env = j" if "Redis_GetJobDetail j (s, fs) = Some (Inr (Some env), (s', fs'))" for j fs env s' fs'
    using that ok unfolding Redis_GetJobDetail_def rdb_parts under_own_id_def
    by (auto simp: bindS_def tryS_def query_row_def engine_def ret_def throw_def liftE_def
        split: list.splits bool.splits option.splits sum.splits prod.splits if_splits elim!: unmarshal.elims)
  then show ?thesis using ok by (metis prod.collapse)
qed

theorem redis_keys_typed_witness: "rdb_ok example_queue"
  using redis_keys_typed[OF example_reachable] by blast

end
