(* ===== verification/RedisLifecycle.thy ===== *)
theory RedisLifecycle
  imports RedisQueue
begin

text \<open>
  The life cycle of a job on Redis: archival, the migration of old queues, and the calls whose
  round trips leave something half done, which the transactions of the SQL backends rule out.
\<close>

section \<open>Archival\<close>

lemma split2_member: "CHR '':'' \<notin> set q \<Longrightarrow> split2 (q @ '':'' @ j) = Some (q, j)"
  by (induction q) auto

lemma split2_colon: "CHR '':'' \<notin> set a \<Longrightarrow> split2 ((a @ '':'' @ b) @ '':'' @ j) = Some (a, b @ '':'' @ j)"
  using split2_member[of a "b @ '':'' @ j"] by simp

text \<open>What archival leaves of a member of queue \<open>q\<close> and its job.\<close>

definition archived_state :: "string \<Rightarrow> string \<Rightarrow> string \<Rightarrow> rdb \<Rightarrow> rdb" where
  "archived_state m q j s = rd_dead_ttl_update (zrem m) (rd_processed_ttl_update (zrem m)
     (set_dead q (lrem j) (set_processed q (lrem j) (rd_errors_update (\<lambda>e. e(j := None)) (set_job j None
       (case rd_jobs s j of Some d \<Rightarrow> rd_archived_update (\<lambda>a. a(j \<mapsto> d)) s | None \<Rightarrow> s))))))"

lemma archiveSingle_run:
  assumes "split2 m = Some (q, j)"
  shows "Redis_archiveSingleJob m (s, []) = Some (Inr (doc_of s j \<noteq> None), (archived_state m q j s, []))"
  using assms
  by (auto simp: Redis_archiveSingleJob_def run_simps archived_state_def doc_of_def split: option.splits doc.splits)

lemma archived_state_simps [simp]:
  "rd_jobs (archived_state m q j s) = (rd_jobs s)(j := None)"
  "rd_archived (archived_state m q j s) = (case rd_jobs s j of Some d \<Rightarrow> (rd_archived s)(j \<mapsto> d) | None \<Rightarrow> rd_archived s)"
  "rd_processed_ttl (archived_state m q j s) = zrem m (rd_processed_ttl s)"
  "rd_dead_ttl (archived_state m q j s) = zrem m (rd_dead_ttl s)"
  by (simp_all add: archived_state_def set_job_def set_dead_def set_processed_def split: option.splits)

lemma archiveExpired_run:
  assumes "\<forall>(q, j)\<in>set qs. CHR '':'' \<notin> set q" "distinct (map snd qs)"
    "\<forall>j\<in>snd ` set qs. doc_of s j \<noteq> None"
  shows "\<exists>s'. Redis_archiveExpiredJobs (map (\<lambda>(q, j). q @ '':'' @ j) qs) (s, []) = Some (Inr (int (length qs)), (s', []))
    \<and> rd_jobs s' = (\<lambda>j. if j \<in> snd ` set qs then None else rd_jobs s j)
    \<and> rd_archived s' = (\<lambda>j. if j \<in> snd ` set qs then rd_jobs s j else rd_archived s j)
    \<and> rd_processed_ttl s' = fold zrem (map (\<lambda>(q, j). q @ '':'' @ j) qs) (rd_processed_ttl s)
    \<and> rd_dead_ttl s' = fold zrem (map (\<lambda>(q, j). q @ '':'' @ j) qs) (rd_dead_ttl s)"
  using assms
proof (induction qs arbitrary: s)
  case Nil
  then show ?case by (simp add: run_simps)
next
  case (Cons qj qs)
  obtain q j where qj: "qj = (q, j)" by fastforce
  define s1 where "s1 = archived_state (q @ '':'' @ j) q j s"
  have sp: "split2 (q @ '':'' @ j) = Some (q, j)" using Cons.prems(1) by (intro split2_member) (simp add: qj)
  obtain d where d: "rd_jobs s j = Some d" "doc_of s j \<noteq> None"
    using Cons.prems(3) by (auto simp: qj doc_of_def split: option.splits)
  have j: "j \<notin> snd ` set qs" using Cons.prems(2) by (simp add: qj)
  have "\<forall>i\<in>snd ` set qs. doc_of s1 i \<noteq> None"
    using Cons.prems(3) j by (auto simp: s1_def doc_of_def split: option.splits)
  then obtain s' where IH: "Redis_archiveExpiredJobs (map (\<lambda>(q, j). q @ '':'' @ j) qs) (s1, []) = Some (Inr (int (length qs)), (s', []))"
    "rd_jobs s' = (\<lambda>i. if i \<in> snd ` set qs then None else rd_jobs s1 i)"
    "rd_archived s' = (\<lambda>i. if i \<in> snd ` set qs then rd_jobs s1 i else rd_archived s1 i)"
    "rd_processed_ttl s' = fold zrem (map (\<lambda>(q, j). q @ '':'' @ j) qs) (rd_processed_ttl s1)"
    "rd_dead_ttl s' = fold zrem (map (\<lambda>(q, j). q @ '':'' @ j) qs) (rd_dead_ttl s1)"
    using Cons.IH[of s1] Cons.prems(1,2) by auto
  show ?case
    using IH d j archiveSingle_run[OF sp, of s]
    by (intro exI[of _ s']) (auto simp: qj run_simps s1_def fun_eq_iff image_iff)
qed


text \<open>Archival on Redis moves exactly the expired jobs: when no round trip fails and the expired members
  name distinct stored jobs of queues without a colon in their names, each of these jobs is
  taken out of the jobs and put into the archive unchanged, every other job stays, and the count is
  returned.\<close>
theorem redis_archive_moves_expired:
  assumes "zrange_to (unix_score (now - age)) (rd_processed_ttl s) @ zrange_to (unix_score (now - age)) (rd_dead_ttl s)
      = map (\<lambda>(q, j). q @ '':'' @ j) qs"
    and "\<forall>(q, j)\<in>set qs. CHR '':'' \<notin> set q" "distinct (map snd qs)" "\<forall>j\<in>snd ` set qs. doc_of s j \<noteq> None"
  shows "\<exists>s'. Redis_ArchiveJobs now age (s, []) = Some (Inr (int (length qs)), (s', []))
    \<and> rd_jobs s' = (\<lambda>j. if j \<in> snd ` set qs then None else rd_jobs s j)
    \<and> rd_archived s' = (\<lambda>j. if j \<in> snd ` set qs then rd_jobs s j else rd_archived s j)"
proof -
  have "Redis_getExpiredJobs (unix (now - age)) (s, []) = Some (Inr (map (\<lambda>(q, j). q @ '':'' @ j) qs), (s, []))"
    using assms(1) by (simp add: Redis_getExpiredJobs_def run_simps unix_score_def)
  with archiveExpired_run[OF assms(2-4)] show ?thesis
    by (auto simp: Redis_ArchiveJobs_def run_simps Let_def)
qed

text \<open>A job of a Redis queue with a colon in its name is never archived: the member of the sorted set is
  cut at the first colon, the job looked for does not exist, nothing is archived, and the member is
  removed from both expiry sets, so that no later archival sees the job, which stays stored.\<close>
theorem redis_archive_strands_colon_queue:
  assumes "CHR '':'' \<notin> set a" "rd_jobs s (b @ '':'' @ j) = None"
  shows "\<exists>s'. Redis_archiveSingleJob ((a @ '':'' @ b) @ '':'' @ j) (s, []) = Some (Inr False, (s', []))
    \<and> rd_jobs s' = rd_jobs s \<and> rd_archived s' = rd_archived s
    \<and> (a @ '':'' @ b) @ '':'' @ j \<notin> fst ` set (rd_processed_ttl s')
    \<and> (a @ '':'' @ b) @ '':'' @ j \<notin> fst ` set (rd_dead_ttl s')"
proof -
  from assms(2) have "(rd_jobs s)(b @ '':'' @ j := None) = rd_jobs s" by (simp add: fun_eq_iff)
  moreover have "doc_of s (b @ '':'' @ j) = None" using assms(2) by (simp add: doc_of_def)
  ultimately show ?thesis
    using archiveSingle_run[OF split2_colon[OF assms(1), of b j], of s] assms(2) by simp
qed

text \<open>When the write of the archived copy fails, the archival deletes the job all the same and counts it:
  the job is then neither stored nor archived.\<close>
theorem redis_archive_loses_job:
  assumes "CHR '':'' \<notin> set q" "rd_jobs s j = Some (Doc env)"
  shows "\<exists>s'. Redis_archiveSingleJob (q @ '':'' @ j) (s, [False, True]) = Some (Inr True, (s', []))
    \<and> rd_jobs s' j = None \<and> rd_archived s' = rd_archived s"
  unfolding Redis_archiveSingleJob_def split2_member[OF assms(1)]
  by (simp add: bindS_def tryS_def thenS_def ignoreS_def query_row_def exec_def pipe_exec_def engine_def
      assms(2) ret_def set_job_def set_dead_def set_processed_def)

section \<open>Old queues\<close>

lemma rpop_all: "rpop_loop xs (replicate (length xs + 1) False @ fs) = (xs, [], fs)"
  by (induction xs) auto

text \<open>The migration of an old queue takes the jobs off the list one by one before it writes them to the
  sorted set; when that write fails, the error is dropped and the queue is left empty: every
  waiting job of it is gone.\<close>
theorem redis_migration_loses_queue:
  assumes "rd_queue s q = QList l" "l \<noteq> []"
  shows "\<exists>s'. Redis_migrateListToZSet now q (s, replicate (length l + 1) False @ [True]) = Some (Inr (), (s', []))
    \<and> members s' q = [] \<and> rd_active s' = rd_active s \<and> rd_scheduled s' = rd_scheduled s"
proof -
  have p: "rpop_loop (rev l) (replicate (Suc (length l)) False @ [True]) = (rev l, [], [True])"
    using rpop_all[of "rev l" "[True]"] by simp
  show ?thesis
    by (simp add: Redis_migrateListToZSet_def assms p ignoreS_def bindS_def tryS_def pipe_exec_def engine_def
        ret_def members_def del: replicate_Suc replicate.simps)
qed

section \<open>Batches\<close>

lemma live_lock_run:
  assumes "live_lock now k s = Some j" "j \<noteq> ''''" "rd_jobs s j \<noteq> None"
  shows "Redis_checkLockDuplicate now k (s, []) = Some (Inl (ErrDuplicateJob (''runiq:unique:'' @ k) j), (s, []))"
  using assms by (simp add: Redis_checkLockDuplicate_def run_simps)


lemma acquire_refused_run:
  assumes "UniqueKey env \<noteq> ''''" "live_lock now (Queue env @ '':'' @ UniqueKey env) s = Some j" "j \<noteq> ''''"
    "rd_jobs s j \<noteq> None"
  shows "Redis_acquireUniqueLock now env (s, []) =
    Some (Inl (ErrDuplicateJob (''runiq:unique:'' @ Queue env @ '':'' @ UniqueKey env) j), (s, []))"
  using live_lock_run[OF assms(2-4)] assms(1,2)
  by (simp add: Redis_acquireUniqueLock_def Let_def run_simps del: append.simps)

text \<open>A unique job that is refused in a Redis batch is counted in it all the same: the call returns the
  duplicate error and stores nothing, but the batch waits for one job more than it has, so that
  submitting it seals it without completing it and no callback is enqueued.\<close>
theorem redis_refused_job_blocks_batch:
  assumes "UniqueKey env \<noteq> ''''" "live_lock now (Queue env @ '':'' @ UniqueKey env) s = Some j" "j \<noteq> ''''"
    "rd_jobs s j \<noteq> None" "bh_pending (rd_batch s b) = Some p" "0 \<le> p" "bh_expires_at (rd_batch s b) = None"
  shows "\<exists>e s' s''. Redis_EnqueueInBatch now b env (s, []) = Some (Inl e, (s', []))
    \<and> rd_jobs s' = rd_jobs s \<and> rd_queue s' = rd_queue s \<and> bh_pending (rd_batch s' b) = Some (p + 1)
    \<and> Redis_SubmitBatch now' rnd b (s', []) = Some (Inr (), (s'', []))
    \<and> bh_status (rd_batch s'' b) = Some ''sealed'' \<and> rd_jobs s'' = rd_jobs s \<and> rd_queue s'' = rd_queue s"
proof -
  define s1 where "s1 = set_batch b (\<lambda>h. h\<lparr>bh_pending := incr_by 1 (bh_pending h)\<rparr>)
    (set_batch b (\<lambda>h. h\<lparr>bh_total := incr_by 1 (bh_total h)\<rparr>) s)"
  define env' where "env' = (let env = env\<lparr>BatchID := b\<rparr> in
    if MaxAttempts env \<le> 0 then env\<lparr>MaxAttempts := 3\<rparr> else env)"
  have s1: "rd_jobs s1 = rd_jobs s" "rd_queue s1 = rd_queue s" "rd_unique s1 = rd_unique s"
    "bh_pending (rd_batch s1 b) = Some (p + 1)" "bh_expires_at (rd_batch s1 b) = None"
    using assms(5,7) by (simp_all add: s1_def set_batch_def incr_by_def)
  have env': "UniqueKey env' = UniqueKey env" "Queue env' = Queue env" by (simp_all add: env'_def Let_def)
  have "Redis_incrementBatchCounts b (s, []) = Some (Inr (), (s1, []))"
    by (simp add: Redis_incrementBatchCounts_def run_simps s1_def)
  moreover have "Redis_acquireUniqueLock now env' (s1, []) =
      Some (Inl (ErrDuplicateJob (''runiq:unique:'' @ Queue env' @ '':'' @ UniqueKey env') j), (s1, []))"
    using assms(1-4) by (intro acquire_refused_run) (simp_all add: env' s1 live_lock_def del: append.simps)
  ultimately have "Redis_EnqueueInBatch now b env (s, []) =
      Some (Inl (ErrDuplicateJob (''runiq:unique:'' @ Queue env' @ '':'' @ UniqueKey env') j), (s1, []))"
    unfolding Redis_EnqueueInBatch_def env'_def[symmetric] Let_def
    by (simp add: run_simps env'_def Let_def del: append.simps)
  moreover have "Redis_SubmitBatch now' rnd b (s1, []) =
      Some (Inr (), (set_batch b (bh_status_update (\<lambda>_. Some ''sealed'')) s1, []))"
    using s1(4,5) assms(6)
    by (simp add: Redis_SubmitBatch_def Redis_checkBatchExpired_def Redis_getPendingCount_def run_simps
        set_batch_def)
  ultimately show ?thesis
    using s1 by (intro exI[of _ s1] exI conjI) (assumption | simp add: set_batch_def)+
qed

section \<open>Workflows\<close>

definition redis_acked :: "time \<Rightarrow> JobEnvelope \<Rightarrow> rdb \<Rightarrow> rdb" where
  "redis_acked now env s =
     (if UniqueKey env \<noteq> '''' then del_lock (Queue env @ '':'' @ UniqueKey env) else (\<lambda>s. s))
       (set_processed_count (Queue env) (incr_by 1)
         (rd_processed_ttl_update (zadd (Queue env @ '':'' @ JobID env) (unix_score now))
           (set_processed (Queue env) (take 50) (set_processed (Queue env) (\<lambda>l. JobID env # l)
             (set_active (Queue env) (srem (JobID env)) s)))))"

lemma redis_acked_simps [simp]:
  "rd_jobs (redis_acked now env s) = rd_jobs s" "rd_dependents (redis_acked now env s) = rd_dependents s"
  "rd_dependencies (redis_acked now env s) = rd_dependencies s" "rd_queue (redis_acked now env s) = rd_queue s"
  "rd_scheduled (redis_acked now env s) = rd_scheduled s" "rd_dead_ttl (redis_acked now env s) = rd_dead_ttl s"
  "rd_processed_ttl (redis_acked now env s) = zadd (Queue env @ '':'' @ JobID env) (unix_score now) (rd_processed_ttl s)"
  "rd_active (redis_acked now env s) = (rd_active s)(Queue env := srem (JobID env) (rd_active s (Queue env)))"
  by (simp_all add: redis_acked_def set_processed_count_def set_processed_def set_active_def del_lock_def)

lemma redis_performAck_run:
  "Redis_performAck now rnd env (s, []) = (if BatchID env \<noteq> ''''
     then Redis_handleBatchAck now rnd (BatchID env) (redis_acked now env s, [])
     else Some (Inr (), (redis_acked now env s, [])))"
  by (simp add: Redis_performAck_def run_simps redis_acked_def)

text \<open>Acknowledging a parent on Redis stops at a child that was cancelled: the job is already marked
  processed when the call fails with \<open>redis.Nil\<close>, and the children after it keep waiting for a
  parent that is done.\<close>
theorem redis_ack_stops_at_cancelled_child:
  assumes "rd_jobs s j = Some (Doc env)" "JobID env = j" "BatchID env = ''''"
    "rd_dependents s j = c # cs" "rd_dependencies s c = [j]" "rd_jobs s c = None" "c \<notin> set cs"
  shows "\<exists>s'. Redis_Ack now rnd j (s, []) = Some (Inl ErrNoRows, (s', []))
    \<and> Queue env @ '':'' @ j \<in> fst ` set (rd_processed_ttl s')
    \<and> j \<notin> set (rd_active s' (Queue env))
    \<and> (\<forall>c'\<in>set cs. rd_dependencies s' c' = rd_dependencies s c') \<and> rd_queue s' = rd_queue s"
proof -
  define s1 where "s1 = redis_acked now env s"
  have s1: "Redis_performAck now rnd env (s, []) = Some (Inr (), (s1, []))"
    "rd_jobs s1 = rd_jobs s" "rd_dependents s1 = rd_dependents s" "rd_dependencies s1 = rd_dependencies s"
    "rd_queue s1 = rd_queue s" "Queue env @ '':'' @ j \<in> fst ` set (rd_processed_ttl s1)"
    "j \<notin> set (rd_active s1 (Queue env))"
    using assms(2,3) by (simp_all add: s1_def redis_performAck_run)
  define s2 where "s2 = set_dependencies c (srem j) s1"
  have "Redis_resolveChildDependency now c j (s1, []) = Some (Inl ErrNoRows, (s2, []))"
    using assms(5,6) s1(2,4)
    by (simp add: Redis_resolveChildDependency_def Redis_enqueueChildJob_def run_simps s2_def
        set_dependencies_def srem_def)
  then have "Redis_resolveDependencies now j (s1, []) = Some (Inl ErrNoRows, (s2, []))"
    by (simp add: Redis_resolveDependencies_def run_simps s1(3) assms(4))
  then have "Redis_Ack now rnd j (s, []) = Some (Inl ErrNoRows, (s2, []))"
    by (simp add: Redis_Ack_def run_simps assms(1) s1(1))
  moreover have "\<forall>c'\<in>set cs. rd_dependencies s2 c' = rd_dependencies s c'"
    using assms(7) s1(4) by (auto simp: s2_def set_dependencies_def)
  ultimately show ?thesis
    using s1(5-7) by (intro exI[of _ s2]) (simp add: s2_def set_dependencies_def)
qed


section \<open>Witnesses\<close>

definition worked_off :: rdb where
  "worked_off = redis_after [CEnqueue example_time (example_job ''a'' 0), CDequeue example_time ''q'' [],
     CAck example_time ''0'' ''a''] empty_rdb"

theorem redis_archive_moves_expired_witness:
  "\<exists>s'. Redis_ArchiveJobs (example_time + 10 * second) second (worked_off, []) = Some (Inr 1, (s', []))
    \<and> rd_jobs s' ''a'' = None \<and> rd_archived s' ''a'' = Some (Doc ((example_job ''a'' 0)\<lparr>MaxAttempts := 3\<rparr>))"
proof -
  have "zrange_to (unix_score (example_time + 10 * second - second)) (rd_processed_ttl worked_off)
      @ zrange_to (unix_score (example_time + 10 * second - second)) (rd_dead_ttl worked_off) = [''q:a'']"
    by code_simp
  then have exp: "zrange_to (unix_score (example_time + 10 * second - second)) (rd_processed_ttl worked_off)
      @ zrange_to (unix_score (example_time + 10 * second - second)) (rd_dead_ttl worked_off)
      = map (\<lambda>(q, j). q @ '':'' @ j) [(''q'', ''a'')]" by simp
  have doc: "doc_of worked_off ''a'' = Some ((example_job ''a'' 0)\<lparr>MaxAttempts := 3\<rparr>)" by code_simp
  then have job: "rd_jobs worked_off ''a'' = Some (Doc ((example_job ''a'' 0)\<lparr>MaxAttempts := 3\<rparr>))"
    by (auto simp: doc_of_def split: option.splits doc.splits)
  from redis_archive_moves_expired[OF exp] doc job show ?thesis by auto
qed

theorem redis_archive_strands_colon_queue_witness:
  "\<exists>s'. Redis_archiveSingleJob ''mail:eu:j''
      (empty_rdb\<lparr>rd_jobs := [''j'' \<mapsto> Doc zero_envelope], rd_processed_ttl := [(''mail:eu:j'', 0)]\<rparr>, []) = Some (Inr False, (s', []))
    \<and> ''mail:eu:j'' \<notin> fst ` set (rd_processed_ttl s') \<and> rd_jobs s' ''j'' \<noteq> None"
  using redis_archive_strands_colon_queue[of "''mail''"
      "empty_rdb\<lparr>rd_jobs := [''j'' \<mapsto> Doc zero_envelope], rd_processed_ttl := [(''mail:eu:j'', 0)]\<rparr>" "''eu''" "''j''"]
  by (simp, metis fun_upd_same option.distinct(1))

theorem redis_archive_loses_job_witness:
  "\<exists>s'. Redis_archiveSingleJob ''q:j'' (empty_rdb\<lparr>rd_jobs := [''j'' \<mapsto> Doc zero_envelope]\<rparr>, [False, True]) = Some (Inr True, (s', []))
    \<and> rd_jobs s' ''j'' = None \<and> rd_archived s' ''j'' = None"
  using redis_archive_loses_job[of "''q''" "empty_rdb\<lparr>rd_jobs := [''j'' \<mapsto> Doc zero_envelope]\<rparr>" "''j''" zero_envelope]
  by (auto simp: empty_rdb_def)

theorem redis_migration_loses_queue_witness:
  "\<exists>s'. Redis_migrateListToZSet 0 ''q'' (empty_rdb\<lparr>rd_queue := (\<lambda>_. QList [''a'', ''b''])\<rparr>, [False, False, False, True])
      = Some (Inr (), (s', [])) \<and> members s' ''q'' = []"
  using redis_migration_loses_queue[of "empty_rdb\<lparr>rd_queue := (\<lambda>_. QList [''a'', ''b''])\<rparr>" "''q''" "[''a'', ''b'']" 0]
  by (auto simp: numeral_2_eq_2)

theorem redis_refused_job_blocks_batch_witness:
  "\<exists>e s' s''. Redis_EnqueueInBatch 0 ''b'' ((example_job ''k'' 0)\<lparr>UniqueKey := ''u''\<rparr>)
      (empty_rdb\<lparr>rd_jobs := [''j'' \<mapsto> Doc zero_envelope], rd_unique := [(''q:u'', (''j'', 9))],
         rd_batch := (\<lambda>_. no_batch\<lparr>bh_pending := Some 0\<rparr>)\<rparr>, []) = Some (Inl e, (s', []))
    \<and> Redis_SubmitBatch 0 ''0'' ''b'' (s', []) = Some (Inr (), (s'', []))
    \<and> bh_status (rd_batch s'' ''b'') = Some ''sealed''"
  using redis_refused_job_blocks_batch[of "(example_job ''k'' 0)\<lparr>UniqueKey := ''u''\<rparr>" 0
      "empty_rdb\<lparr>rd_jobs := [''j'' \<mapsto> Doc zero_envelope], rd_unique := [(''q:u'', (''j'', 9))],
         rd_batch := (\<lambda>_. no_batch\<lparr>bh_pending := Some 0\<rparr>)\<rparr>" "''j''" "''b''" 0 0 "''0''"]
  by (auto simp: example_job_def live_lock_def no_batch_def)

theorem redis_ack_stops_at_cancelled_child_witness:
  "\<exists>s'. Redis_Ack 0 ''0'' ''p''
      (empty_rdb\<lparr>rd_jobs := [''p'' \<mapsto> Doc (example_job ''p'' 0)],
         rd_dependents := (\<lambda>_. [])(''p'' := [''c'', ''d'']),
         rd_dependencies := (\<lambda>_. [])(''c'' := [''p''], ''d'' := [''p''])\<rparr>, []) = Some (Inl ErrNoRows, (s', []))
    \<and> rd_dependencies s' ''d'' = [''p'']"
  using redis_ack_stops_at_cancelled_child[of "empty_rdb\<lparr>rd_jobs := [''p'' \<mapsto> Doc (example_job ''p'' 0)],
         rd_dependents := (\<lambda>_. [])(''p'' := [''c'', ''d'']),
         rd_dependencies := (\<lambda>_. [])(''c'' := [''p''], ''d'' := [''p''])\<rparr>" "''p''" "example_job ''p'' 0"
         "''c''" "[''d'']" 0 "''0''"]
  by (auto simp: example_job_def zero_envelope_def)

end
