(* ===== verification/RedisStorage.thy ===== *)
theory RedisStorage
  imports RedisLifecycle SqliteGuards WorkerSettles
begin

text \<open>
  The Redis backend behind the interfaces of \<open>queue.go\<close>, and the two contracts it keeps: its leader
  lease is a lease, and it settles the jobs of a worker.
\<close>

section \<open>The interfaces\<close>

definition redis_client :: "time \<Rightarrow> bytes \<Rightarrow> (rdb \<times> bool list) ClientStorage" where
  "redis_client now rnd =
     \<lparr>cs_Enqueue = Redis_Enqueue now, cs_CreateBatch = Redis_CreateBatch,
      cs_EnqueueInBatch = Redis_EnqueueInBatch now, cs_SubmitBatch = Redis_SubmitBatch now rnd,
      cs_EnqueueWorkflow = Redis_EnqueueWorkflow now\<rparr>"

definition redis_worker :: "nat \<Rightarrow> time \<Rightarrow> bytes \<Rightarrow> (rdb \<times> bool list) WorkerPoolStorage" where
  "redis_worker stack now rnd =
     \<lparr>ws_Enqueue = Redis_Enqueue now, ws_Dequeue = Redis_Dequeue now, ws_Ack = Redis_Ack now rnd,
      ws_Fail = Redis_Fail stack now, ws_PollScheduled = Redis_PollScheduled now,
      ws_PostponeJob = Redis_PostponeJob now, ws_RegisterProcess = Redis_RegisterProcess,
      ws_LockCronExecution = Redis_LockCronExecution now,
      ws_GetRunningJobsCount = Redis_GetRunningJobsCount, ws_CheckRateLimit = Redis_CheckRateLimit now,
      ws_GetStats = Redis_GetStats now, ws_IsQueuePaused = Redis_IsQueuePaused,
      ws_RegisterCronJobs = Redis_RegisterCronJobs, ws_PurgeExpiredDLQ = Redis_PurgeExpiredDLQ now,
      ws_FailExpiredBatches = Redis_FailExpiredBatches now, ws_GetCronSchedules = Redis_GetCronSchedules,
      ws_AcquireLeader = Redis_AcquireLeader now, ws_ReleaseLeader = Redis_ReleaseLeader now,
      ws_ArchiveJobs = Redis_ArchiveJobs now\<rparr>"

section \<open>The leader lease\<close>

text \<open>The server counts whole milliseconds: the time a lease runs is the time asked for, cut to
  them.\<close>

definition redis_attempt :: "time \<Rightarrow> string \<Rightarrow> duration \<Rightarrow> rdb \<Rightarrow> bool \<Rightarrow> rdb \<Rightarrow> bool" where
  "redis_attempt now c ttl s ok s' \<longleftrightarrow>
     (\<exists>t fs r fs'. ttl = go_div t millisecond * millisecond
        \<and> Redis_AcquireLeader now c t (s, fs) = Some (r, (s', fs')) \<and> ok = (r = Inr True))"

definition redis_release :: "string \<Rightarrow> rdb \<Rightarrow> rdb \<Rightarrow> bool" where
  "redis_release c s s' \<longleftrightarrow> (\<exists>now fs r fs'. Redis_ReleaseLeader now c (s, fs) = Some (r, (s', fs')))"

lemma engine_cases:
  "engine g (s, fs) = Some (r, (s', fs')) \<Longrightarrow> r = Inl ErrEngine \<and> s' = s \<or> g s = (r, s')"
  by (cases fs) (auto simp: engine_def split: prod.splits bool.splits)

lemma redis_attempt_cases:
  assumes "redis_attempt now c ttl s ok s'"
  shows "if ok then (live_leader now s = None \<or> live_leader now s = Some c) \<and> rd_leader s' = Some (c, now + ttl)
    else s' = s"
  using assms unfolding redis_attempt_def Redis_AcquireLeader_def Let_def
  by (auto dest!: engine_cases split: if_splits)

interpretation redis_lease: lease redis_attempt redis_release rd_leader
proof
  fix now c ttl s s' h e
  show "redis_attempt now c ttl s True s' \<Longrightarrow> rd_leader s' = Some (c, now + ttl)"
    by (drule redis_attempt_cases) simp
  show "redis_attempt now c ttl s True s' \<Longrightarrow> rd_leader s = Some (h, e) \<Longrightarrow> h = c \<or> e \<le> now"
    by (drule redis_attempt_cases) (auto simp: live_leader_def split: if_splits)
  show "redis_attempt now c ttl s False s' \<Longrightarrow> rd_leader s' = rd_leader s"
    by (drule redis_attempt_cases) simp
  show "redis_release c s s' \<Longrightarrow> rd_leader s = Some (h, e) \<Longrightarrow> h \<noteq> c \<Longrightarrow> rd_leader s' = Some (h, e)"
    unfolding redis_release_def Redis_ReleaseLeader_def exec_def
    by (auto simp: live_leader_def dest!: engine_cases split: if_splits)
qed

section \<open>Runs that succeed\<close>

text \<open>Without failures the action returns a value satisfying \<open>V\<close> and keeps \<open>I\<close>.\<close>

definition sure :: "('s \<Rightarrow> bool) \<Rightarrow> ('a \<Rightarrow> bool) \<Rightarrow> ('s, 'a) eff \<Rightarrow> bool" where
  "sure I V m \<longleftrightarrow> (\<forall>s. I s \<longrightarrow> (\<exists>x s'. m (s, []) = Some (Inr x, (s', [])) \<and> I s' \<and> V x))"

lemma sure_ret: "V x \<Longrightarrow> sure I V (ret x)"
  by (simp add: sure_def run_simps)

lemma sure_bind:
  assumes "sure I V m" "\<And>x. V x \<Longrightarrow> sure I W (f x)"
  shows "sure I W (bindS m f)"
  unfolding sure_def
proof (intro allI impI)
  fix s assume "I s"
  with assms(1) obtain x s1 where s1: "m (s, []) = Some (Inr x, (s1, []))" "I s1" "V x"
    unfolding sure_def by blast
  with assms(2)[of x] obtain y s' where "f x (s1, []) = Some (Inr y, (s', []))" "I s'" "W y"
    unfolding sure_def by blast
  with s1 show "\<exists>x s'. bindS m f (s, []) = Some (Inr x, (s', [])) \<and> I s' \<and> W x" by (simp add: run_simps)
qed

lemma sure_then: "sure I (\<lambda>_. True) m \<Longrightarrow> sure I W n \<Longrightarrow> sure I W (thenS m n)"
  unfolding thenS_def by (rule sure_bind)

lemma sure_for: "(\<And>x. x \<in> set xs \<Longrightarrow> sure I (\<lambda>_. True) (f x)) \<Longrightarrow> sure I (\<lambda>_. True) (forS f xs)"
  by (induction xs) (auto intro: sure_ret sure_then)

lemma sure_if: "(b \<Longrightarrow> sure I V m) \<Longrightarrow> (\<not> b \<Longrightarrow> sure I V n) \<Longrightarrow> sure I V (if b then m else n)"
  by simp

lemma sure_exec: "(\<And>s. I s \<Longrightarrow> I (g s)) \<Longrightarrow> sure I (\<lambda>_. True) (exec g)"
  by (simp add: sure_def run_simps)

lemma sure_query: "(\<And>s. I s \<Longrightarrow> V (g s)) \<Longrightarrow> sure I V (query g)"
  by (simp add: sure_def run_simps)

lemma sure_query_row: "(\<And>s. I s \<Longrightarrow> \<exists>x. g s = Some x \<and> V x) \<Longrightarrow> sure I V (query_row g)"
  unfolding sure_def by (force simp: run_simps)

lemma sure_liftE: "r = Inr x \<Longrightarrow> V x \<Longrightarrow> sure I V (liftE r)"
  by (simp add: liftE_def sure_ret)

definition sure_cmd :: "(rdb \<Rightarrow> bool) \<Rightarrow> command \<Rightarrow> bool" where
  "sure_cmd I c \<longleftrightarrow> (\<forall>s. I s \<longrightarrow> fst (c s) = None \<and> I (snd (c s)))"

lemma sure_cmd_cmd: "(\<And>s. I s \<Longrightarrow> I (f s)) \<Longrightarrow> sure_cmd I (cmd f)"
  by (simp add: sure_cmd_def cmd_def)

lemma sure_pipe:
  assumes "list_all (sure_cmd I) cs"
  shows "sure I (\<lambda>_. True) (pipe_exec cs)"
proof -
  have "fst (run_commands cs s) = None \<and> I (snd (run_commands cs s))" if "I s" for s
    using assms that
  proof (induction cs arbitrary: s)
    case (Cons c cs)
    obtain e s1 where c: "c s = (e, s1)" by fastforce
    with Cons.prems have "e = None" "I s1" by (auto simp: sure_cmd_def)
    then have "fst (run_commands cs s1) = None \<and> I (snd (run_commands cs s1))" using Cons by simp
    with \<open>e = None\<close> show ?case by (cases "run_commands cs s1") (simp add: run_commands.simps(2) c)
  qed simp
  then have run: "\<exists>s'. run_commands cs s = (None, s') \<and> I s'" if "I s" for s
    using that by (metis prod.collapse)
  show ?thesis
    unfolding sure_def
  proof (intro allI impI)
    fix s assume "I s"
    with run obtain s' where "run_commands cs s = (None, s')" "I s'" by blast
    then show "\<exists>x s'. pipe_exec cs (s, []) = Some (Inr x, s', []) \<and> I s' \<and> True"
      by (cases "cs = []") (simp_all add: pipe_exec_def engine_def ret_def)
  qed
qed


section \<open>The status of a job\<close>

text \<open>Where a stored job is, in the order of what overrides what.\<close>

definition redis_status :: "rdb \<Rightarrow> string \<Rightarrow> job_status option" where
  "redis_status s j = (case doc_of s j of
     None \<Rightarrow> None
   | Some env \<Rightarrow> (let q = Queue env; m = q @ '':'' @ j in
       if j \<in> set (rd_active s q) then Some Running
       else if j \<in> fst ` set (members s q) \<or> j \<in> fst ` set (rd_scheduled s q) then Some Pending
       else if m \<in> fst ` set (rd_dead_ttl s) then Some Dead
       else if m \<in> fst ` set (rd_processed_ttl s) then Some Processed
       else None))"

text \<open>An operation that leaves the traces of \<open>j\<close> alone leaves its status.\<close>

definition same_traces :: "string \<Rightarrow> rdb \<Rightarrow> rdb \<Rightarrow> bool" where
  "same_traces j s s' \<longleftrightarrow> rd_jobs s' j = rd_jobs s j
     \<and> (\<forall>q. (j \<in> set (rd_active s' q)) = (j \<in> set (rd_active s q)))
     \<and> (\<forall>q. (j \<in> fst ` set (members s' q)) = (j \<in> fst ` set (members s q)))
     \<and> (\<forall>q. (j \<in> fst ` set (rd_scheduled s' q)) = (j \<in> fst ` set (rd_scheduled s q)))
     \<and> fst ` set (rd_dead_ttl s) \<subseteq> fst ` set (rd_dead_ttl s')
     \<and> rd_processed_ttl s' = rd_processed_ttl s"

lemma same_traces_dead: "same_traces j s s' \<Longrightarrow> redis_status s j = Some Dead \<Longrightarrow> redis_status s' j = Some Dead"
  by (auto simp: same_traces_def redis_status_def doc_of_def Let_def split: option.splits doc.splits if_splits)

lemma same_traces_processed:
  "same_traces j s s' \<Longrightarrow> rd_dead_ttl s' = rd_dead_ttl s \<Longrightarrow> redis_status s j = Some Processed
    \<Longrightarrow> redis_status s' j = Some Processed"
  by (auto simp: same_traces_def redis_status_def doc_of_def Let_def split: option.splits doc.splits if_splits)

section \<open>Other jobs\<close>

text \<open>The state around a settled job: all queues migrated, and the dependants of every job stored and
  of smaller rank.\<close>

definition around :: "(string \<Rightarrow> nat) \<Rightarrow> string set \<Rightarrow> rdb \<Rightarrow> bool" where
  "around rank D s \<longleftrightarrow> rdb_ok s \<and> (\<forall>q. \<exists>z. rd_queue s q = QZSet z) \<and> (\<forall>c\<in>D. doc_of s c \<noteq> None)
     \<and> (\<forall>p. \<forall>c\<in>set (rd_dependents s p). c \<in> D \<and> rank c < rank p)"

definition beside :: "(string \<Rightarrow> nat) \<Rightarrow> string set \<Rightarrow> string \<Rightarrow> rdb \<Rightarrow> bool" where
  "beside rank D j s \<longleftrightarrow> around rank D s \<and> redis_status s j = Some Processed"

definition among_dead :: "(string \<Rightarrow> nat) \<Rightarrow> string set \<Rightarrow> string \<Rightarrow> rdb \<Rightarrow> bool" where
  "among_dead rank D j s \<longleftrightarrow> around rank D s \<and> redis_status s j = Some Dead"

lemma around_child:
  "around rank D s \<Longrightarrow> c \<in> D \<Longrightarrow> \<exists>env. rd_jobs s c = Some (Doc env) \<and> JobID env = c"
  by (auto simp: around_def doc_of_def rdb_parts under_own_id_def split: option.splits doc.splits)
    (metis doc.exhaust option.exhaust)

lemma beside_step:
  "beside rank D j s \<Longrightarrow> around rank D s' \<Longrightarrow> same_traces j s s' \<Longrightarrow> rd_dead_ttl s' = rd_dead_ttl s
    \<Longrightarrow> beside rank D j s'"
  by (simp add: beside_def same_traces_processed)

lemma among_dead_step:
  "among_dead rank D j s \<Longrightarrow> around rank D s' \<Longrightarrow> same_traces j s s' \<Longrightarrow> among_dead rank D j s'"
  unfolding among_dead_def using same_traces_dead by blast

lemma around_dependencies: "around rank D s \<Longrightarrow> (\<And>l. distinct l \<Longrightarrow> distinct (f l)) \<Longrightarrow> around rank D (set_dependencies c f s)"
  by (simp add: around_def doc_of_def) (auto simp: rdb_parts set_dependencies_def)

lemma around_dependents: "around rank D s \<Longrightarrow> around rank D (set_dependents c (\<lambda>_. []) s)"
  by (simp add: around_def doc_of_def put_ok) (simp add: set_dependents_def)

text \<open>Putting another job where it waits.\<close>

lemma place_other:
  assumes "around rank D s" "JobID env \<noteq> j"
  shows "fst (Redis_enqueueReadyJob now env s) = None \<and> around rank D (snd (Redis_enqueueReadyJob now env s))
    \<and> same_traces j s (snd (Redis_enqueueReadyJob now env s))
    \<and> rd_dead_ttl (snd (Redis_enqueueReadyJob now env s)) = rd_dead_ttl s"
proof -
  obtain z where z: "rd_queue s (Queue env) = QZSet z" using assms(1) unfolding around_def by blast
  have ok: "rdb_ok (snd (Redis_enqueueReadyJob now env s))"
    using cmd_ok_place(3)[of now env] assms(1) by (simp add: cmd_ok_def around_def)
  show ?thesis
  proof (cases "case RunAt env of Some t \<Rightarrow> now < t | None \<Rightarrow> False")
    case True
    then have r: "Redis_enqueueReadyJob now env s = (None, set_scheduled (Queue env) (zadd (JobID env) (unix_score (the (RunAt env)))) s)"
      by (simp add: Redis_enqueueReadyJob_def cmd_def)
    then show ?thesis using ok assms
      by (simp add: around_def same_traces_def doc_of_def members_def) (simp add: set_scheduled_def)
  next
    case False
    then have r: "Redis_enqueueReadyJob now env s = (None, s\<lparr>rd_queue := (rd_queue s)(Queue env :=
        QZSet (zadd (JobID env) (queue_score (Priority env) now) z))\<rparr>)"
      by (simp add: Redis_enqueueReadyJob_def zadd_queue_def on_queue_def z)
    then show ?thesis using ok assms z
      by (auto simp: around_def same_traces_def doc_of_def members_def split: if_splits)
  qed
qed


section \<open>Acknowledging settles\<close>

lemma place_beside:
  "JobID env \<noteq> j \<Longrightarrow> sure_cmd (beside rank D j) (Redis_enqueueReadyJob now env)"
  unfolding sure_cmd_def
  by (intro allI impI conjI)
    (use place_other[of rank D _ env j now] in \<open>auto simp: beside_def intro: same_traces_processed\<close>)

lemma dependencies_beside:
  "(\<And>l. distinct l \<Longrightarrow> distinct (f l)) \<Longrightarrow> beside rank D j s \<Longrightarrow> beside rank D j (set_dependencies c f s)"
  by (rule beside_step, assumption)
    (simp add: beside_def around_dependencies, simp_all add: same_traces_def set_dependencies_def members_def)

lemma dependents_beside: "beside rank D j s \<Longrightarrow> beside rank D j (set_dependents c (\<lambda>_. []) s)"
  by (rule beside_step, assumption)
    (simp add: beside_def around_dependents, simp_all add: same_traces_def set_dependents_def members_def)

lemma read_child:
  assumes "\<And>s. I s \<Longrightarrow> around rank D s" "c \<in> D"
  shows "sure I (\<lambda>d. \<exists>env. d = Doc env \<and> JobID env = c) (query_row (\<lambda>s. rd_jobs s c))"
  by (rule sure_query_row) (metis around_child assms)

lemma read_dependents:
  assumes "\<And>s. I s \<Longrightarrow> around rank D s"
  shows "sure I (\<lambda>cs. \<forall>c\<in>set cs. c \<in> D \<and> rank c < rank p) (query (\<lambda>s. rd_dependents s p))"
  by (rule sure_query) (use assms in \<open>auto simp: around_def\<close>)

lemma resolveChild_sure:
  assumes "c \<in> D" "c \<noteq> j"
  shows "sure (beside rank D j) (\<lambda>_. True) (Redis_resolveChildDependency now c j)"
proof -
  have read: "sure (beside rank D j) (\<lambda>d. \<exists>env. d = Doc env \<and> JobID env = c) (query_row (\<lambda>s. rd_jobs s c))"
    by (rule read_child[where rank = rank, OF _ assms(1)]) (simp add: beside_def)
  have "sure (beside rank D j) (\<lambda>_. True) (Redis_enqueueChildJob now c)"
    unfolding Redis_enqueueChildJob_def
  proof (rule sure_bind[OF read])
    fix d :: "JobEnvelope doc" assume "\<exists>env. d = Doc env \<and> JobID env = c"
    then obtain env where env: "d = Doc env" "JobID env = c" by blast
    show "sure (beside rank D j) (\<lambda>_. True) (bindS (liftE (unmarshal d)) (\<lambda>env.
        pipe_exec [cmd (set_dependencies c (\<lambda>_. [])), Redis_enqueueReadyJob now env]))"
      using env assms(2)
      by (intro sure_bind[of _ "\<lambda>e. e = env"] sure_liftE sure_pipe)
        (auto intro!: sure_cmd_cmd dependencies_beside place_beside)
  qed
  moreover have "sure (beside rank D j) (\<lambda>_. True)
      (engine (\<lambda>s. (Inr (j \<in> set (rd_dependencies s c)), set_dependencies c (srem j) s)))"
    by (simp add: sure_def run_simps dependencies_beside srem_def)
  ultimately show ?thesis
    unfolding Redis_resolveChildDependency_def
    by (intro sure_bind[of _ "\<lambda>_. True"] sure_if sure_ret sure_query) auto
qed

lemma resolveDependencies_sure: "sure (beside rank D j) (\<lambda>_. True) (Redis_resolveDependencies now j)"
  unfolding Redis_resolveDependencies_def
proof (rule sure_bind[OF read_dependents])
  fix cs assume "\<forall>c\<in>set cs. c \<in> D \<and> rank c < rank j"
  then show "sure (beside rank D j) (\<lambda>_. True) (if cs = [] then ret ()
      else thenS (forS (\<lambda>cid. Redis_resolveChildDependency now cid j) cs) (exec (set_dependents j (\<lambda>_. []))))"
    by (intro sure_if sure_ret sure_then sure_for sure_exec dependents_beside resolveChild_sure) auto
qed (simp add: beside_def)

text \<open>The batch of an acknowledged job: its callback is another job, and whatever happens to it is
  not reported. \<open>ends\<close>: without failures the action ends, in a value or an error, and keeps \<open>I\<close>.\<close>

definition ends :: "('s \<Rightarrow> bool) \<Rightarrow> ('s, 'a) eff \<Rightarrow> bool" where
  "ends I m \<longleftrightarrow> (\<forall>s. I s \<longrightarrow> (\<exists>r s'. m (s, []) = Some (r, (s', [])) \<and> I s'))"

lemma ends_ret: "ends I (ret x)" and ends_throw: "ends I (throw e)"
  by (simp_all add: ends_def run_simps)

lemma ends_bind: "ends I m \<Longrightarrow> (\<And>x. ends I (f x)) \<Longrightarrow> ends I (bindS m f)"
  unfolding ends_def
proof (intro allI impI)
  fix s assume m: "\<forall>s. I s \<longrightarrow> (\<exists>r s'. m (s, []) = Some (r, s', []) \<and> I s')"
    and f: "\<And>x. \<forall>s. I s \<longrightarrow> (\<exists>r s'. f x (s, []) = Some (r, s', []) \<and> I s')" and s: "I s"
  from m s obtain r s1 where "m (s, []) = Some (r, s1, [])" "I s1" by blast
  with f show "\<exists>r s'. bindS m f (s, []) = Some (r, s', []) \<and> I s'" by (cases r) (auto simp: run_simps)
qed

lemma ends_bind_value: "ends I (liftE r) \<Longrightarrow> (\<And>x. r = Inr x \<Longrightarrow> ends I (f x)) \<Longrightarrow> ends I (bindS (liftE r) f)"
  by (cases r) (simp_all add: ends_def run_simps)

lemma ends_then: "ends I m \<Longrightarrow> ends I n \<Longrightarrow> ends I (thenS m n)"
  unfolding thenS_def by (rule ends_bind)

lemma ends_try: "ends I m \<Longrightarrow> ends I (tryS m)" and ends_ignore: "ends I m \<Longrightarrow> ends I (ignoreS m)"
  unfolding ends_def by (force simp: run_simps)+

lemma ends_engine: "(\<And>s. I s \<Longrightarrow> I (snd (g s))) \<Longrightarrow> ends I (engine g)"
  by (auto simp: ends_def run_simps split: prod.splits) (metis snd_conv)+

lemma ends_reads: "ends I (query g)" "ends I (query_row h)"
  unfolding query_def query_row_def by (auto intro!: ends_engine split: option.splits)

lemma ends_exec: "(\<And>s. I s \<Longrightarrow> I (g s)) \<Longrightarrow> ends I (exec g)"
  unfolding exec_def by (rule ends_engine) simp

lemma ends_pipe:
  assumes "list_all (cmd_ok I) cs"
  shows "ends I (pipe_exec cs)"
  unfolding ends_def
proof (intro allI impI)
  fix s assume "I s"
  then have "I (snd (run_commands cs s))" using assms by (rule run_commands_ok[rotated])
  then show "\<exists>r s'. pipe_exec cs (s, []) = Some (r, s', []) \<and> I s'"
    using \<open>I s\<close> by (cases "run_commands cs s"; cases "cs = []") (auto simp: pipe_exec_def engine_def ret_def split: option.splits)
qed

lemma sure_ends: "ends I m \<Longrightarrow> sure I (\<lambda>_. True) (tryS m)" "ends I m \<Longrightarrow> sure I (\<lambda>_. True) (ignoreS m)"
  unfolding ends_def sure_def by (force simp: run_simps)+

lemmas ends_rules = ends_ret ends_throw ends_bind ends_then ends_try ends_ignore ends_reads

lemma ends_if: "(b \<Longrightarrow> ends I m) \<Longrightarrow> (\<not> b \<Longrightarrow> ends I n) \<Longrightarrow> ends I (if b then m else n)"
  by simp

lemma ends_sum: "(\<And>a. x = Inl a \<Longrightarrow> ends I (f a)) \<Longrightarrow> (\<And>b. x = Inr b \<Longrightarrow> ends I (g b))
    \<Longrightarrow> ends I (case x of Inl a \<Rightarrow> f a | Inr b \<Rightarrow> g b)"
  by (cases x) auto

lemma unrelated_beside:
  assumes "beside rank D j s"
  shows "beside rank D j (set_lock k i e s)" "beside rank D j (set_batch b f s)"
    "beside rank D j (rd_queues_update (sadd q) s)" "beside rank D j (rd_batches_expire_update (zrem b) s)"
proof -
  have a: "around rank D s" using assms by (simp add: beside_def)
  show "beside rank D j (set_lock k i e s)" "beside rank D j (set_batch b f s)"
    "beside rank D j (rd_queues_update (sadd q) s)" "beside rank D j (rd_batches_expire_update (zrem b) s)"
    using a put_ok[of s]
    by (auto intro!: beside_step[OF assms]
      simp: around_def doc_of_def same_traces_def members_def set_lock_def set_batch_def)
qed

lemma store_beside:
  assumes "beside rank D j s" "d = Doc env" "JobID env = c" "c \<noteq> j"
  shows "beside rank D j (set_job c (Some d) s)"
proof (rule beside_step[OF assms(1)])
  have "rdb_ok (set_job c (Some d) s)" using assms by (intro put_ok) (auto simp: beside_def around_def)
  then show "around rank D (set_job c (Some d) s)"
    using assms(1,2) by (auto simp: beside_def around_def doc_of_def set_job_def)
  show "same_traces j s (set_job c (Some d) s)" "rd_dead_ttl (set_job c (Some d) s) = rd_dead_ttl s"
    using assms(4) by (simp_all add: same_traces_def set_job_def members_def)
qed

lemma place_same: "place_job now env = Redis_enqueueReadyJob now env"
  by (simp add: place_job_def Redis_enqueueReadyJob_def split: option.splits)

lemma Enqueue_beside:
  assumes "JobID env \<noteq> j"
  shows "ends (beside rank D j) (Redis_Enqueue now env)"
proof -
  have mig: "ends (beside rank D j) (migrate_if_list now q)" for q
    by (auto simp: ends_def beside_def around_def) (metis migrate_if_list_run)
  have put: "ends (beside rank D j) (Redis_execEnqueue now e d)" if "JobID e = JobID env" "marshal_env e = Inr d" for e d
  proof -
    have "d = Doc e" using that(2) by (auto simp: marshal_env_def split: option.splits if_splits)
    moreover have "cmd_ok (beside rank D j) (place_job now e)"
      using place_beside[of e j rank D now] that(1) assms by (simp add: place_same sure_cmd_def cmd_ok_def)
    ultimately have "list_all (cmd_ok (beside rank D j)) [cmd (set_job (JobID e) (Some d)),
        cmd (rd_queues_update (sadd (Queue e))), place_job now e]"
      using that(1) assms by (auto intro!: cmd_ok_cmd store_beside unrelated_beside)
    then show ?thesis unfolding Redis_execEnqueue_def by (intro ends_then ends_pipe mig)
  qed
  have lift: "ends I (liftE r)" for I and r :: "err + JobEnvelope doc"
    by (simp add: ends_def run_simps)
  have lock: "ends (beside rank D j) (Redis_acquireUniqueLock now e)" for e
    unfolding Redis_acquireUniqueLock_def Redis_checkLockDuplicate_def Let_def
    by (intro ends_rules ends_if ends_sum ends_engine ends_exec)
      (auto intro: unrelated_beside)
  show ?thesis
    unfolding Redis_Enqueue_def Let_def
    by (intro ends_then lock ends_bind_value lift put) auto
qed

lemma batchAck_sure:
  assumes "generateJobID rnd \<noteq> j"
  shows "sure (beside rank D j) (\<lambda>_. True) (Redis_handleBatchAck now rnd b)"
proof -
  note unrelated = ends_engine ends_exec cmd_ok_cmd
  have expired: "ends (beside rank D j) (Redis_checkBatchExpired now b)"
    unfolding Redis_checkBatchExpired_def Redis_failExpiredBatch_def
    by (intro ends_rules ends_if ends_sum ends_pipe) (simp add: cmd_ok_cmd unrelated_beside)
  have callback: "sure (beside rank D j) (\<lambda>_. True) (Redis_enqueueBatchCallback now rnd b)"
    unfolding Redis_enqueueBatchCallback_def
    using Enqueue_beside[of _ j] assms
    by (intro sure_bind[OF sure_ends(1)[OF ends_reads(2)]])
      (auto split: sum.splits intro!: sure_ret sure_ends)
  have finish: "sure (beside rank D j) (\<lambda>_. True) (Redis_completeBatchIfSealedAndDone now rnd b p)" for p
    unfolding Redis_completeBatchIfSealedAndDone_def
    by (intro sure_bind[OF sure_ends(1)[OF ends_reads(2)]] sure_if sure_ret sure_then
        sure_ends ends_exec unrelated_beside callback) auto
  show ?thesis
    unfolding Redis_handleBatchAck_def
    by (intro sure_bind[OF sure_ends(1)[OF expired]] sure_if sure_ret
        sure_bind[OF sure_ends(1)[OF ends_engine]])
      (auto simp: Let_def unrelated_beside split: sum.splits intro!: sure_ret finish)
qed


section \<open>Failing settles\<close>

lemma unrelated_dead:
  assumes "among_dead rank D j s"
  shows "among_dead rank D j (set_dead q f s)" "among_dead rank D j (rd_errors_update u s)"
    "among_dead rank D j (rd_dead_ttl_update (zadd m x) s)" "among_dead rank D j (del_lock k s)"
    "among_dead rank D j (set_dependencies c (\<lambda>_. []) s)" "among_dead rank D j (set_dependents c (\<lambda>_. []) s)"
proof -
  have a: "around rank D s" using assms by (simp add: among_dead_def)
  show "among_dead rank D j (set_dependencies c (\<lambda>_. []) s)"
    by (rule among_dead_step[OF assms])
      (simp add: a around_dependencies, simp add: same_traces_def set_dependencies_def members_def)
  show "among_dead rank D j (set_dependents c (\<lambda>_. []) s)"
    by (rule among_dead_step[OF assms])
      (simp add: a around_dependents, simp add: same_traces_def set_dependents_def members_def)
  show "among_dead rank D j (set_dead q f s)" "among_dead rank D j (rd_errors_update u s)"
    "among_dead rank D j (rd_dead_ttl_update (zadd m x) s)" "among_dead rank D j (del_lock k s)"
    using a put_ok[of s]
    by (auto intro!: among_dead_step[OF assms]
      simp: around_def doc_of_def same_traces_def members_def set_dead_def del_lock_def)
qed

lemma cascade_sure:
  assumes "rank p < n" "rank p \<le> rank j"
  shows "sure (among_dead rank D j) (\<lambda>_. True) (Redis_cascadeDependencyFailure n now p)"
  using assms
proof (induction n arbitrary: p)
  case (Suc n)
  have child: "sure (among_dead rank D j) (\<lambda>_. True)
      (Redis_failChildJob (Redis_cascadeDependencyFailure n now) now c p)" if c: "c \<in> D" "rank c < rank p" for c
    unfolding Redis_failChildJob_def
  proof (rule sure_bind[OF read_child[where rank = rank, OF _ c(1)]])
    fix d :: "JobEnvelope doc" assume "\<exists>env. d = Doc env \<and> JobID env = c"
    then obtain env where env: "d = Doc env" "JobID env = c" by blast
    have "sure (among_dead rank D j) (\<lambda>_. True) (Redis_execFailChildJob now env p)"
      unfolding Redis_execFailChildJob_def by (intro sure_pipe) (auto intro!: sure_cmd_cmd unrelated_dead)
    moreover have "sure (among_dead rank D j) (\<lambda>_. True) (Redis_cascadeDependencyFailure n now c)"
      using c(2) Suc.prems by (intro Suc.IH) linarith+
    ultimately show "sure (among_dead rank D j) (\<lambda>_. True) (bindS (liftE (unmarshal d))
        (\<lambda>env. thenS (Redis_execFailChildJob now env p) (Redis_cascadeDependencyFailure n now c)))"
      using env by (intro sure_bind[of _ "\<lambda>e. e = env"] sure_liftE) (auto intro: sure_then)
  qed (simp add: among_dead_def)
  show ?case
    unfolding Redis_cascadeDependencyFailure.simps
  proof (rule sure_bind[OF read_dependents])
    fix cs assume "\<forall>c\<in>set cs. c \<in> D \<and> rank c < rank p"
    then show "sure (among_dead rank D j) (\<lambda>_. True) (if cs = [] then ret ()
        else thenS (forS (\<lambda>cid. Redis_failChildJob (Redis_cascadeDependencyFailure n now) now cid p) cs)
          (exec (set_dependents p (\<lambda>_. []))))"
      by (intro sure_if sure_ret sure_then sure_for sure_exec unrelated_dead child) auto
  qed (simp add: among_dead_def)
qed simp

section \<open>The contract\<close>

text \<open>A state on which settling cannot go wrong: no failures to come, queues migrated, acyclic
  dependencies between stored jobs and stack room for them, an unused id for a callback,
  documents that can be written again, and running jobs that are nowhere else.\<close>

definition redis_ready :: "nat \<Rightarrow> time \<Rightarrow> bytes \<Rightarrow> rdb \<times> bool list \<Rightarrow> bool" where
  "redis_ready stack now rnd c \<longleftrightarrow> snd c = []
     \<and> (\<exists>rank. around rank {j. doc_of (fst c) j \<noteq> None} (fst c) \<and> (\<forall>p. rank p < stack))
     \<and> doc_of (fst c) (generateJobID rnd) = None
     \<and> (\<forall>j env. doc_of (fst c) j = Some env \<longrightarrow>
          (case RunAt env of Some t \<Rightarrow> json_time_ok t | None \<Rightarrow> True)
          \<and> json_time_ok (now + ComputeBackoffDelay (Attempts env) now)
          \<and> (j \<in> set (rd_active (fst c) (Queue env)) \<longrightarrow>
               j \<notin> fst ` set (members (fst c) (Queue env)) \<and> j \<notin> fst ` set (rd_scheduled (fst c) (Queue env))
               \<and> Queue env @ '':'' @ j \<notin> fst ` set (rd_dead_ttl (fst c))))"

lemma ready_doc:
  assumes "redis_ready stack now rnd (s, fs)" "redis_status s j = Some Running"
  obtains rank D env where "fs = []" "around rank D s" "rank j < stack" "generateJobID rnd \<noteq> j"
    "doc_of s j = Some env" "rd_jobs s j = Some (Doc env)" "JobID env = j"
    "case RunAt env of Some t \<Rightarrow> json_time_ok t | None \<Rightarrow> True"
    "json_time_ok (now + ComputeBackoffDelay (Attempts env) now)"
    "j \<notin> fst ` set (members s (Queue env))" "j \<notin> fst ` set (rd_scheduled s (Queue env))"
    "Queue env @ '':'' @ j \<notin> fst ` set (rd_dead_ttl s)" "j \<in> set (rd_active s (Queue env))"
proof -
  obtain env where env: "doc_of s j = Some env" "j \<in> set (rd_active s (Queue env))"
    using assms(2) by (auto simp: redis_status_def Let_def split: option.splits if_splits)
  from assms(1) obtain rank where r: "around rank {j. doc_of s j \<noteq> None} s" "\<forall>p. rank p < stack"
    by (auto simp: redis_ready_def)
  have "rd_jobs s j = Some (Doc env)" using env(1) by (auto simp: doc_of_def split: option.splits doc.splits)
  moreover have "JobID env = j" using doc_of_id[OF _ env(1)] r(1) by (simp add: around_def)
  moreover have "generateJobID rnd \<noteq> j" using assms(1) env(1) by (auto simp: redis_ready_def)
  moreover have "fs = []" using assms(1) by (simp add: redis_ready_def)
  moreover have "(case RunAt env of Some t \<Rightarrow> json_time_ok t | None \<Rightarrow> True)
      \<and> json_time_ok (now + ComputeBackoffDelay (Attempts env) now)
      \<and> j \<notin> fst ` set (members s (Queue env)) \<and> j \<notin> fst ` set (rd_scheduled s (Queue env))
      \<and> Queue env @ '':'' @ j \<notin> fst ` set (rd_dead_ttl s)"
    using assms(1) env by (simp add: redis_ready_def)
  ultimately show thesis
    using that[of rank "{j. doc_of s j \<noteq> None}" env] env r by blast
qed

lemma rdb_ok_acked: "rdb_ok s \<Longrightarrow> rdb_ok (redis_acked now env s)"
  by (simp add: redis_acked_def put_ok)

lemma redis_ack_settles:
  assumes "redis_ready stack now' rnd (s, fs)" "redis_status s j = Some Running"
  shows "\<exists>s'. Redis_Ack now rnd j (s, fs) = Some (Inr (), (s', [])) \<and> redis_status s' j = Some Processed"
proof -
  from ready_doc[OF assms] obtain rank D env where r: "fs = []" "around rank D s" "generateJobID rnd \<noteq> j"
    "doc_of s j = Some env" "rd_jobs s j = Some (Doc env)" "JobID env = j"
    "j \<notin> fst ` set (members s (Queue env))" "j \<notin> fst ` set (rd_scheduled s (Queue env))"
    "Queue env @ '':'' @ j \<notin> fst ` set (rd_dead_ttl s)" by metis
  let ?s1 = "redis_acked now env s"
  have "beside rank D j ?s1"
    using r rdb_ok_acked[of s now env]
    by (simp add: beside_def around_def redis_status_def doc_of_def members_def Let_def)
  moreover have "\<exists>s2. Redis_performAck now rnd env (s, []) = Some (Inr (), (s2, [])) \<and> beside rank D j s2"
    using batchAck_sure[OF r(3), of rank D now "BatchID env"] calculation
    by (cases "BatchID env = ''''") (auto simp: redis_performAck_run sure_def)
  then obtain s2 where s2: "Redis_performAck now rnd env (s, []) = Some (Inr (), (s2, []))" "beside rank D j s2" by blast
  with resolveDependencies_sure[of rank D j now] obtain s' where
    "Redis_resolveDependencies now j (s2, []) = Some (Inr (), (s', []))" "beside rank D j s'"
    unfolding sure_def by auto
  then show ?thesis
    using s2(1) r(1,5) by (intro exI[of _ s']) (simp add: Redis_Ack_def run_simps beside_def)
qed


lemma marshal_ok: "(case RunAt env of Some t \<Rightarrow> json_time_ok t | None \<Rightarrow> True) \<Longrightarrow> marshal_env_or_empty env = Doc env"
  by (cases "RunAt env") (simp_all add: marshal_env_or_empty_def marshal_env_def)

lemma redis_fail_settles:
  assumes "redis_ready stack now rnd (s, fs)" "redis_status s j = Some Running"
  shows "\<exists>s'. Redis_Fail stack now j e (s, fs) = Some (Inr (), (s', []))
    \<and> redis_status s' j \<in> {Some Pending, Some Dead}"
proof -
  from ready_doc[OF assms] obtain rank D env where r: "fs = []" "around rank D s" "rank j < stack"
    "rd_jobs s j = Some (Doc env)" "JobID env = j"
    "case RunAt env of Some t \<Rightarrow> json_time_ok t | None \<Rightarrow> True"
    "json_time_ok (now + ComputeBackoffDelay (Attempts env) now)"
    "j \<notin> fst ` set (members s (Queue env))" "j \<notin> fst ` set (rd_scheduled s (Queue env))" by metis
  define env' where "env' = env\<lparr>Attempts := Attempts env + 1\<rparr>"
  have env': "JobID env' = j" "Queue env' = Queue env" "RunAt env' = RunAt env" "Attempts env' - 1 = Attempts env"
    using r(5) by (simp_all add: env'_def)
  define cs where "cs = cmd (set_active (Queue env') (srem (JobID env'))) # fst (Redis_prepareFailStep now env' e)"
  obtain dead where dead: "Redis_prepareFailStep now env' e = (fst (Redis_prepareFailStep now env' e), dead)"
    by (metis surjective_pairing)
  obtain er s1 where run: "run_commands cs s = (er, s1)" by fastforce
  have "list_all (cmd_ok rdb_ok) cs"
    using cmd_ok_failStep[of now env' e] by (simp add: cs_def cmds_ok)
  from run_commands_ok[OF this, of s] r(2) run have ok1: "rdb_ok s1" by (simp add: around_def)
  have pipe: "pipe_exec cs (s, []) = Some (case er of Some x \<Rightarrow> Inl x | None \<Rightarrow> Inr (), (s1, []))"
    using run by (simp add: pipe_exec_def engine_def cs_def split: option.splits)
  have process: "Redis_processFail stack now env' e = thenS (pipe_exec cs)
      (if dead then Redis_cascadeDependencyFailure stack now j else ret ())"
    by (subst Redis_processFail_def, subst dead) (simp add: cs_def env'(1))
  have "Redis_Fail stack now j e (s, []) = Redis_processFail stack now env' e (s, [])"
    by (simp add: Redis_Fail_def run_simps r(4) env'_def)
  then have fail: "Redis_Fail stack now j e (s, []) =
      (case er of Some x \<Rightarrow> Some (Inl x, (s1, []))
       | None \<Rightarrow> (if dead then Redis_cascadeDependencyFailure stack now j (s1, []) else Some (Inr (), (s1, []))))"
    unfolding process by (cases er) (simp_all add: run_simps pipe)
  show ?thesis
  proof (cases dead)
    case False
    with dead have st: "fst (Redis_prepareFailStep now env' e) =
        Redis_rescheduleJob (env'\<lparr>RunAt := Some (now + ComputeBackoffDelay (Attempts env) now)\<rparr>)"
      by (auto simp: Redis_prepareFailStep_def Let_def env'(4) split: if_splits)
    have "er = None \<and> redis_status s1 j = Some Pending"
      using run r(7) env' by (auto simp: cs_def st Redis_rescheduleJob_def marshal_ok
        redis_status_def doc_of_def Let_def set_job_def set_scheduled_def set_active_def members_def)
    then show ?thesis using fail False r(1) by (intro exI[of _ s1]) simp
  next
    case True
    with dead have st: "fst (Redis_prepareFailStep now env' e) = Redis_handleDeadJob now env' e"
      by (auto simp: Redis_prepareFailStep_def Let_def split: if_splits)
    have m: "marshal_env_or_empty env' = Doc env'" using r(6) env'(3) by (intro marshal_ok) simp
    have "er = None \<and> among_dead rank D j s1"
      using run r(2,8,9) env' ok1
      by (auto simp: cs_def st Redis_handleDeadJob_def m among_dead_def around_def
        redis_status_def doc_of_def Let_def set_job_def set_active_def set_dead_def set_dead_count_def
        del_lock_def set_batch_def members_def split: if_splits)
    moreover have "sure (among_dead rank D j) (\<lambda>_. True) (Redis_cascadeDependencyFailure stack now j)"
      using r(3) by (rule cascade_sure) simp
    ultimately show ?thesis using fail True r(1) by (auto simp: sure_def among_dead_def)
  qed
qed

interpretation redis_settling:
  settling "redis_worker stack now rnd" "\<lambda>c. redis_status (fst c)" "redis_ready stack now rnd"
  for stack now rnd
proof
  fix c j e
  assume a: "redis_ready stack now rnd c" "redis_status (fst c) j = Some Running"
  show "\<exists>c'. ws_Ack (redis_worker stack now rnd) j c = Some (Inr (), c') \<and> redis_status (fst c') j = Some Processed"
    using redis_ack_settles[of stack now rnd "fst c" "snd c" j now] a by (auto simp: redis_worker_def)
  show "\<exists>c'. ws_Fail (redis_worker stack now rnd) j e c = Some (Inr (), c') \<and> redis_status (fst c') j \<in> {Some Pending, Some Dead}"
    using redis_fail_settles[of stack now rnd "fst c" "snd c" j e] a by (auto simp: redis_worker_def)
qed


lemmas redis_leader_exclusive = redis_lease.held_while_running

section \<open>Properties\<close>

text \<open>C25: A worker on Redis settles the job it runs, in orderly states. Suppose that before the run and
  after it \<open>redis_ready\<close> holds (no round trip is to fail, dependants are stored jobs and have no cycle,
  with room on the stack for the deepest chain, every queue is a sorted set, the id of a callback is
  new, running jobs are in no queue and no schedule, their times have a JSON text), and that the run
  leaves its job running. Then executing the job ends with it processed if the run returned nil, and
  scheduled again or dead on an error, a panic, an unknown name or a payload that cannot be opened.\<close>
theorem redis_executeJob_settles:
  assumes "redis_ready stack now rnd (w_store w)" "redis_status (fst (w_store w)) (JobID env) = Some Running"
    and "run_result unseal (w_pool w) env (w_store w) = Some ((r, env'), c)"
    and "JobID env' = JobID env" "redis_ready stack now rnd c" "redis_status (fst c) (JobID env) = Some Running"
  shows "\<exists>w'. Pool_executeJob (redis_worker stack now rnd) unseal env w = Some ((), w')
    \<and> redis_status (fst (w_store w')) (JobID env)
        \<in> (if run_error r = None then {Some Processed} else {Some Pending, Some Dead})"
  using assms by (rule redis_settling.execute_settles)

definition running_job :: JobEnvelope where
  "running_job = zero_envelope\<lparr>JobID := ''j'', Queue := ''q'', Name := ''A''\<rparr>"

definition running_state :: rdb where
  "running_state = empty_rdb\<lparr>rd_jobs := [''j'' \<mapsto> Doc running_job], rd_active := (\<lambda>_. [])(''q'' := [''j''])\<rparr>"

definition running_world :: "run_end \<Rightarrow> (rdb \<times> bool list, unit) world" where
  "running_world r = \<lparr>w_pool = NewWorkerPool ''w'' 1 [Pool_Register ''A'' (\<lambda>args. done_with r) []],
     w_store = (running_state, []), w_delivered = []\<rparr>"

lemma running_ready: "redis_ready 1 0 ''0'' (running_state, [])"
proof -
  have "around (\<lambda>_. 0) {j. doc_of running_state j \<noteq> None} running_state"
    by (simp add: around_def running_state_def running_job_def rdb_parts under_own_id_def queue_ok_def empty_rdb_def)
  moreover have "doc_of running_state i = (if i = ''j'' then Some running_job else None)" for i
    by (simp add: running_state_def doc_of_def empty_rdb_def)
  moreover have "json_time_ok (ComputeBackoffDelay 0 0)" by code_simp
  ultimately show ?thesis
    by (auto simp: redis_ready_def generateJobID_def hex_byte_def running_job_def zero_envelope_def
        split: if_splits) (simp_all add: running_state_def members_def empty_rdb_def)
qed

theorem redis_executeJob_settles_witness:
  "(\<exists>w'. Pool_executeJob (redis_worker 1 0 ''0'') (\<lambda>_ _ _. None) running_job (running_world (Returned None))
      = Some ((), w') \<and> redis_status (fst (w_store w')) ''j'' = Some Processed)
   \<and> (\<exists>w'. Pool_executeJob (redis_worker 1 0 ''0'') (\<lambda>_ _ _. None) running_job (running_world (Returned (Some ''boom'')))
      = Some ((), w') \<and> redis_status (fst (w_store w')) ''j'' \<in> {Some Pending, Some Dead})"
proof -
  have st: "redis_status running_state ''j'' = Some Running"
    by (simp add: redis_status_def doc_of_def running_state_def running_job_def Let_def)
  have run: "run_result (\<lambda>_ _ _. None) (w_pool (running_world (Returned e))) running_job
      (w_store (running_world (Returned e))) = Some ((Returned e, running_job), (running_state, []))" for e
    by (simp add: running_world_def run_result_def Pool_Register_def NewWorkerPool_def opened_def
        IsEncrypted_def EncryptionHeader_def base_handler_def run_simps running_job_def zero_envelope_def)
  have "\<exists>w'. Pool_executeJob (redis_worker 1 0 ''0'') (\<lambda>_ _ _. None) running_job (running_world (Returned e))
      = Some ((), w') \<and> redis_status (fst (w_store w')) ''j''
        \<in> (if e = None then {Some Processed} else {Some Pending, Some Dead})" for e
    using redis_executeJob_settles[of 1 0 "''0''" "running_world (Returned e)" running_job,
        OF _ _ run refl running_ready] running_ready st
    by (simp add: running_world_def running_job_def run_error_def split: if_splits option.splits)
  from this[of None] this[of "Some ''boom''"] show ?thesis by simp
qed

end
