(* ===== verification/JsonValue.thy ===== *)
theory JsonValue
  imports Json
begin

text \<open>
  What the dashboard and the command line use of \<open>encoding/json\<close>: reading a text as a value, and
  decoding a value into the fields of a struct. Texts are valid UTF-8 (the decoder replaces invalid
  bytes), and the limit of ten thousand nested values is not reached.
\<close>

section \<open>Reading\<close>

datatype json =
    JNull | JBool bool | JNumber string | JString string
  | JArray "json list" | JObject "(string \<times> json) list"

definition json_space :: "char \<Rightarrow> bool" where
  "json_space c \<longleftrightarrow> c = CHR '' '' \<or> c = CHR 0x09 \<or> c = CHR 0x0A \<or> c = CHR 0x0D"

definition skip_ws :: "string \<Rightarrow> string" where
  "skip_ws s = dropWhile json_space s"

definition hex_any :: "char \<Rightarrow> nat option" where
  "hex_any c = (let n = of_char c :: nat in
     if 48 \<le> n \<and> n \<le> 57 then Some (n - 48)
     else if 97 \<le> n \<and> n \<le> 102 then Some (n - 87)
     else if 65 \<le> n \<and> n \<le> 70 then Some (n - 55) else None)"

definition utf8 :: "nat \<Rightarrow> string" where
  "utf8 n =
     (if n < 0x80 then [char_of n]
      else if n < 0x800 then [char_of (0xC0 + n div 64), char_of (0x80 + n mod 64)]
      else if n < 0x10000 then [char_of (0xE0 + n div 4096), char_of (0x80 + n div 64 mod 64), char_of (0x80 + n mod 64)]
      else [char_of (0xF0 + n div 262144), char_of (0x80 + n div 4096 mod 64),
            char_of (0x80 + n div 64 mod 64), char_of (0x80 + n mod 64)])"

text \<open>The four hexadecimal digits of an escape, and what follows them.\<close>

definition u_code :: "string \<Rightarrow> (nat \<times> string) option" where
  "u_code s = (if length s < 4 then None
     else case map hex_any (take 4 s) of
       [Some a, Some b, Some c, Some d] \<Rightarrow> Some (a * 4096 + b * 256 + c * 16 + d, drop 4 s)
     | _ \<Rightarrow> None)"

text \<open>A surrogate pair is one character, a lone surrogate the replacement character.\<close>

definition u_rune :: "string \<Rightarrow> (nat \<times> string) option" where
  "u_rune s = (case u_code s of
     None \<Rightarrow> None
   | Some (n, r) \<Rightarrow>
       if 0xD800 \<le> n \<and> n < 0xDC00 \<and> take 2 r = [backslash, CHR ''u'']
       then (case u_code (drop 2 r) of
               Some (m, r') \<Rightarrow> if 0xDC00 \<le> m \<and> m < 0xE000
                 then Some (0x10000 + (n - 0xD800) * 1024 + (m - 0xDC00), r') else Some (0xFFFD, r)
             | None \<Rightarrow> Some (0xFFFD, r))
       else if 0xD800 \<le> n \<and> n < 0xE000 then Some (0xFFFD, r)
       else Some (n, r))"

lemma u_code_shorter: "u_code s = Some (n, r) \<Longrightarrow> length r < length s"
  by (auto simp: u_code_def split: if_splits list.splits option.splits)

lemma u_rune_shorter: "u_rune s = Some (n, r) \<Longrightarrow> length r < length s"
  by (auto simp: u_rune_def dest!: u_code_shorter split: if_splits option.splits)

definition simple_escape :: "char \<Rightarrow> char option" where
  "simple_escape e =
     (if e = quote_char \<or> e = backslash \<or> e = CHR ''/'' then Some e
      else if e = CHR ''b'' then Some (CHR 0x08) else if e = CHR ''f'' then Some (CHR 0x0C)
      else if e = CHR ''n'' then Some (CHR 0x0A) else if e = CHR ''r'' then Some (CHR 0x0D)
      else if e = CHR ''t'' then Some (CHR 0x09) else None)"

text \<open>The rest of a string literal: its characters and what follows the closing quote.\<close>

function json_lit :: "string \<Rightarrow> (string \<times> string) option" where
  "json_lit [] = None"
| "json_lit (c # cs) =
     (if c = quote_char then Some ([], cs)
      else if c = backslash then
        (if cs = [] then None
         else if hd cs = CHR ''u'' then
           (case u_rune (tl cs) of
              None \<Rightarrow> None
            | Some (n, r) \<Rightarrow> map_option (\<lambda>(t, r'). (utf8 n @ t, r')) (json_lit r))
         else (case simple_escape (hd cs) of
              None \<Rightarrow> None
            | Some d \<Rightarrow> map_option (\<lambda>(t, r'). (d # t, r')) (json_lit (tl cs))))
      else if (of_char c :: nat) < 32 then None
      else map_option (\<lambda>(t, r'). (c # t, r')) (json_lit cs))"
  by pat_completeness auto
termination
  by (relation "measure length") (auto dest!: u_rune_shorter)

lemma json_lit_shorter: "json_lit s = Some (t, r) \<Longrightarrow> length r < length s"
proof (induction s arbitrary: t r rule: json_lit.induct)
  case (2 c cs)
  then show ?case
    by (auto split: if_splits option.splits dest!: u_rune_shorter) fastforce+
qed simp

text \<open>Numbers stay as they are written.\<close>

definition is_digit :: "char \<Rightarrow> bool" where
  "is_digit c \<longleftrightarrow> CHR ''0'' \<le> c \<and> c \<le> CHR ''9''"

definition json_digits :: "string \<Rightarrow> (string \<times> string) option" where
  "json_digits s = (if takeWhile is_digit s = [] then None else Some (takeWhile is_digit s, dropWhile is_digit s))"

definition json_int :: "string \<Rightarrow> (string \<times> string) option" where
  "json_int s = (case s of
     [] \<Rightarrow> None
   | c # cs \<Rightarrow> if c = CHR ''0'' then Some ([c], cs) else json_digits s)"

definition json_frac :: "string \<Rightarrow> (string \<times> string) option" where
  "json_frac s = (case s of
     c # cs \<Rightarrow> if c = CHR ''.'' then map_option (\<lambda>(d, r). (c # d, r)) (json_digits cs) else Some ([], s)
   | [] \<Rightarrow> Some ([], s))"

definition json_exp :: "string \<Rightarrow> (string \<times> string) option" where
  "json_exp s = (case s of
     c # cs \<Rightarrow> if c = CHR ''e'' \<or> c = CHR ''E''
       then (if cs \<noteq> [] \<and> (hd cs = CHR ''+'' \<or> hd cs = CHR ''-'')
             then map_option (\<lambda>(d, r). (c # hd cs # d, r)) (json_digits (tl cs))
             else map_option (\<lambda>(d, r). (c # d, r)) (json_digits cs))
       else Some ([], s)
   | [] \<Rightarrow> Some ([], s))"

definition json_number :: "string \<Rightarrow> (string \<times> string) option" where
  "json_number s =
     (let neg = (s \<noteq> [] \<and> hd s = CHR ''-'') in
      case json_int (if neg then tl s else s) of
        None \<Rightarrow> None
      | Some (i, r) \<Rightarrow> (case json_frac r of
          None \<Rightarrow> None
        | Some (f, r) \<Rightarrow> (case json_exp r of
            None \<Rightarrow> None
          | Some (e, r) \<Rightarrow> Some ((if neg then ''-'' else '''') @ i @ f @ e, r))))"

text \<open>The first argument bounds the recursion; every call is on a shorter text, so that the length of
  the text is enough (\<open>json_fuel\<close>).\<close>

fun json_value :: "nat \<Rightarrow> string \<Rightarrow> (json \<times> string) option"
  and json_items :: "nat \<Rightarrow> string \<Rightarrow> (json list \<times> string) option"
  and json_fields :: "nat \<Rightarrow> string \<Rightarrow> ((string \<times> json) list \<times> string) option" where
  "json_value 0 s = None"
| "json_value (Suc n) s =
     (let t = skip_ws s in
      if t = [] then None
      else if hd t = quote_char then map_option (\<lambda>(x, r). (JString x, r)) (json_lit (tl t))
      else if hd t = CHR ''['' then
        (if skip_ws (tl t) \<noteq> [] \<and> hd (skip_ws (tl t)) = CHR '']'' then Some (JArray [], tl (skip_ws (tl t)))
         else map_option (\<lambda>(vs, r). (JArray vs, r)) (json_items n (tl t)))
      else if hd t = CHR 0x7B then
        (if skip_ws (tl t) \<noteq> [] \<and> hd (skip_ws (tl t)) = CHR 0x7D then Some (JObject [], tl (skip_ws (tl t)))
         else map_option (\<lambda>(fs, r). (JObject fs, r)) (json_fields n (tl t)))
      else if take 4 t = ''true'' then Some (JBool True, drop 4 t)
      else if take 5 t = ''false'' then Some (JBool False, drop 5 t)
      else if take 4 t = ''null'' then Some (JNull, drop 4 t)
      else map_option (\<lambda>(x, r). (JNumber x, r)) (json_number t))"
| "json_items 0 s = None"
| "json_items (Suc n) s =
     (case json_value n s of
        None \<Rightarrow> None
      | Some (v, r) \<Rightarrow>
          (let t = skip_ws r in
           if t = [] then None
           else if hd t = CHR '']'' then Some ([v], tl t)
           else if hd t = CHR '','' then map_option (\<lambda>(vs, r'). (v # vs, r')) (json_items n (tl t))
           else None))"
| "json_fields 0 s = None"
| "json_fields (Suc n) s =
     (let k = skip_ws s in
      if k = [] \<or> hd k \<noteq> quote_char then None
      else (case json_lit (tl k) of
        None \<Rightarrow> None
      | Some (key, r) \<Rightarrow>
          (let c = skip_ws r in
           if c = [] \<or> hd c \<noteq> CHR '':'' then None
           else (case json_value n (tl c) of
              None \<Rightarrow> None
            | Some (v, r) \<Rightarrow>
                (let t = skip_ws r in
                 if t = [] then None
                 else if hd t = CHR 0x7D then Some ([(key, v)], tl t)
                 else if hd t = CHR '','' then map_option (\<lambda>(fs, r'). ((key, v) # fs, r')) (json_fields n (tl t))
                 else None)))))"

definition json_first :: "string \<Rightarrow> json option" where
  "json_first s = map_option fst (json_value (2 * length s + 1) s)"

text \<open>\<open>json.Unmarshal\<close> wants nothing but space after the value.\<close>

definition json_whole :: "string \<Rightarrow> json option" where
  "json_whole s = (case json_value (2 * length s + 1) s of
     Some (v, r) \<Rightarrow> if skip_ws r = [] then Some v else None
   | None \<Rightarrow> None)"

section \<open>Decoding into a struct\<close>

text \<open>Field names match in any case; names are ASCII. \<open>null\<close> leaves a field as it is, a value of
  another type is an error, unknown fields are ignored, and of repeated ones the last counts.\<close>

definition same_field :: "string \<Rightarrow> string \<Rightarrow> bool" where
  "same_field key name \<longleftrightarrow> map ascii_lower key = map ascii_lower name"

definition string_value :: "string \<Rightarrow> json \<Rightarrow> string option" where
  "string_value old v = (case v of JString s \<Rightarrow> Some s | JNull \<Rightarrow> Some old | _ \<Rightarrow> None)"

definition bool_value :: "bool \<Rightarrow> json \<Rightarrow> bool option" where
  "bool_value old v = (case v of JBool b \<Rightarrow> Some b | JNull \<Rightarrow> Some old | _ \<Rightarrow> None)"

fun decode_fields :: "(string \<times> json \<Rightarrow> 'r \<Rightarrow> 'r option) \<Rightarrow> (string \<times> json) list \<Rightarrow> 'r \<Rightarrow> 'r option" where
  "decode_fields put [] r = Some r"
| "decode_fields put (f # fs) r =
     (case put f r of None \<Rightarrow> None | Some r' \<Rightarrow> decode_fields put fs r')"

definition decode_struct :: "(string \<times> json \<Rightarrow> 'r \<Rightarrow> 'r option) \<Rightarrow> json \<Rightarrow> 'r \<Rightarrow> 'r option" where
  "decode_struct put v r = (case v of
     JNull \<Rightarrow> Some r | JObject fs \<Rightarrow> decode_fields put fs r | _ \<Rightarrow> None)"

section \<open>Facts\<close>

lemma skip_ws_shorter: "length (skip_ws s) \<le> length s"
  by (simp add: skip_ws_def length_dropWhile_le)

lemma json_digits_shorter: "json_digits s = Some (d, r) \<Longrightarrow> length r < length s"
proof -
  assume a: "json_digits s = Some (d, r)"
  have "length (takeWhile is_digit s) + length (dropWhile is_digit s) = length s"
    by (metis length_append takeWhile_dropWhile_id)
  moreover have ne: "takeWhile is_digit s \<noteq> []" and r: "r = dropWhile is_digit s"
    using a unfolding json_digits_def by (metis option.distinct(1), metis option.inject option.distinct(1) prod.inject)
  from ne have "0 < length (takeWhile is_digit s)" by (rule length_greater_0_conv[THEN iffD2])
  ultimately show ?thesis unfolding r by linarith
qed

lemma json_number_shorter:
  assumes "json_number s = Some (t, r)"
  shows "length r < length s"
proof -
  have int: "length r < length s" if "json_int s = Some (i, r)" for s i r
    using that by (auto simp: json_int_def dest: json_digits_shorter split: list.splits if_splits)
  have frac: "length r \<le> length s" if "json_frac s = Some (i, r)" for s i r
    using that by (auto simp: json_frac_def dest!: json_digits_shorter split: list.splits if_splits)
  have exp: "length r \<le> length s" if "json_exp s = Some (i, r)" for s i r
    using that by (auto simp: json_exp_def dest!: json_digits_shorter split: list.splits if_splits)
  let ?s = "if s \<noteq> [] \<and> hd s = CHR ''-'' then tl s else s"
  from assms obtain i r1 f r2 e where "json_int ?s = Some (i, r1)" "json_frac r1 = Some (f, r2)"
    "json_exp r2 = Some (e, r)"
    by (auto simp: json_number_def Let_def split: option.splits)
  then have "length r < length ?s" using int frac exp by (meson le_less_trans le_trans)
  then show ?thesis by (auto split: if_splits)
qed

lemma json_shorter:
  "json_value n s = Some (v, r) \<Longrightarrow> length r < length s"
  "json_items n s = Some (vs, r) \<Longrightarrow> length r < length s"
  "json_fields n s = Some (fs, r) \<Longrightarrow> length r < length s"
proof (induction n s and n s and n s arbitrary: v r and vs r and fs r rule: json_value_json_items_json_fields.induct)
  case (2 n s)
  let ?t = "skip_ws s"
  have t: "length ?t \<le> length s" by (rule skip_ws_shorter)
  have "length r < length ?t"
  proof (cases "?t = [] \<or> hd ?t = quote_char")
    case True
    then show ?thesis using 2(3) by (cases ?t) (auto simp: Let_def dest!: json_lit_shorter)
  next
    case no_string: False
    then have tl: "length (tl ?t) < length ?t" by simp
    have sk: "length (tl (skip_ws (tl ?t))) < length ?t"
      using skip_ws_shorter[of "tl ?t"] tl by simp
    show ?thesis
    proof (cases "hd ?t = CHR ''[''")
      case True
      show ?thesis
      proof (cases "skip_ws (tl ?t) \<noteq> [] \<and> hd (skip_ws (tl ?t)) = CHR '']''")
        case True
        then show ?thesis using 2(3) no_string \<open>hd ?t = CHR ''[''\<close> sk by (auto simp: Let_def)
      next
        case False
        then obtain vs where "json_items n (tl ?t) = Some (vs, r)"
          using 2(3) no_string \<open>hd ?t = CHR ''[''\<close> by (auto simp: Let_def)
        from 2(1)[OF refl _ _ _ False this] show ?thesis using no_string \<open>hd ?t = CHR ''[''\<close> tl by simp
      qed
    next
      case no_list: False
      show ?thesis
      proof (cases "hd ?t = CHR 0x7B")
        case True
        show ?thesis
        proof (cases "skip_ws (tl ?t) \<noteq> [] \<and> hd (skip_ws (tl ?t)) = CHR 0x7D")
          case True
          then show ?thesis using 2(3) no_string \<open>hd ?t = CHR 0x7B\<close> sk by (auto simp: Let_def)
        next
          case False
          then obtain fs where "json_fields n (tl ?t) = Some (fs, r)"
            using 2(3) no_string \<open>hd ?t = CHR 0x7B\<close> by (auto simp: Let_def)
          from 2(2)[OF refl _ _ _ _ False this] show ?thesis using no_string \<open>hd ?t = CHR 0x7B\<close> tl by simp
        qed
      next
        case False
        then show ?thesis using 2(3) no_string no_list
          by (auto simp: Let_def dest!: json_number_shorter split: if_splits)
      qed
    qed
  qed
  then show ?case using t by linarith
next
  case (4 n s)
  then obtain v1 r1 where v: "json_value n s = Some (v1, r1)" by (auto split: option.splits)
  let ?t = "skip_ws r1"
  have l: "length r1 < length s" "length ?t \<le> length r1" using 4(1)[OF v] skip_ws_shorter by auto
  have ne: "?t \<noteq> []" using 4(3) v by (auto simp: Let_def)
  show ?case
  proof (cases "hd ?t = CHR '']''")
    case True
    then show ?thesis using 4(3) v ne l by (auto simp: Let_def)
  next
    case False
    then obtain ws where "json_items n (tl ?t) = Some (ws, r)" and c: "hd ?t = CHR '',''"
      using 4(3) v ne by (auto simp: Let_def split: if_splits)
    from 4(2)[OF v refl refl ne False c this(1)] show ?thesis using l by simp
  qed
next
  case (6 n s)
  let ?k = "skip_ws s"
  have k: "?k \<noteq> []" "hd ?k = quote_char" using 6(3) by (auto simp: Let_def split: if_splits)
  then obtain key r1 where key: "json_lit (tl ?k) = Some (key, r1)"
    using 6(3) by (auto simp: Let_def split: option.splits)
  let ?c = "skip_ws r1"
  have c: "?c \<noteq> []" "hd ?c = CHR '':''" using 6(3) k key by (auto simp: Let_def split: if_splits)
  then obtain v1 r2 where v: "json_value n (tl ?c) = Some (v1, r2)"
    using 6(3) k key by (auto simp: Let_def split: option.splits)
  let ?t = "skip_ws r2"
  have ne: "?t \<noteq> []" using 6(3) k key c v by (auto simp: Let_def)
  have l: "length ?k \<le> length s" "length r1 < length (tl ?k)" "length ?c \<le> length r1" "length ?t \<le> length r2"
    using skip_ws_shorter json_lit_shorter[OF key] by auto
  have l2: "length r2 < length (tl ?c)" using 6(1)[OF refl _ key _ refl _ v] k c by simp
  show ?case
  proof (cases "hd ?t = CHR 0x7D")
    case True
    then have "r = tl ?t" using 6(3) k key c v ne by (simp add: Let_def)
    then show ?thesis using l l2 by simp
  next
    case False
    then obtain ws where "json_fields n (tl ?t) = Some (ws, r)" and cm: "hd ?t = CHR '',''"
      using 6(3) k key c v ne by (auto simp: Let_def split: if_splits)
    from 6(2)[OF refl _ key refl refl _ v refl refl ne False cm this(1)]
    have "length r < length (tl ?t)" using k c by simp
    then show ?thesis using l l2 by simp
  qed
qed simp_all



lemma json_fuel_step:
  "2 * length s < n \<Longrightarrow> json_value (Suc n) s = json_value n s"
  "2 * length s + 1 < n \<Longrightarrow> json_items (Suc n) s = json_items n s"
  "2 * length s + 1 < n \<Longrightarrow> json_fields (Suc n) s = json_fields n s"
proof (induction n arbitrary: s)
  case (Suc n)
  have tail: "2 * length (tl u) + 1 < n" if "2 * length s < Suc n" "length u \<le> length s" "u \<noteq> []" for u s :: string
    using that by (cases u) auto
  { case 1
    let ?t = "skip_ws s"
    have "?t = [] \<or> (json_items (Suc n) (tl ?t) = json_items n (tl ?t)
        \<and> json_fields (Suc n) (tl ?t) = json_fields n (tl ?t))"
      using tail[OF 1 skip_ws_shorter] Suc.IH(2,3) by blast
    then show ?case
      by (subst (1 2) json_value.simps(2)) (auto simp: Let_def simp del: json_value.simps json_items.simps json_fields.simps)
  next
    case 2
    then have "json_value (Suc n) s = json_value n s" using Suc.IH(1) by simp
    moreover have "json_items (Suc n) (tl (skip_ws r)) = json_items n (tl (skip_ws r))"
      if "json_value n s = Some (v, r)" "skip_ws r \<noteq> []" for v r
      using json_shorter(1)[OF that(1)] skip_ws_shorter[of r] that(2) 2 tail[of "skip_ws r"] Suc.IH(2) by simp
    ultimately show ?case
      by (subst (1 2) json_items.simps(2))
        (auto simp: Let_def simp del: json_value.simps json_items.simps json_fields.simps split: option.split)
  next
    case 3
    have v: "json_value (Suc n) (tl c) = json_value n (tl c)"
        and f: "json_fields (Suc n) (tl c) = json_fields n (tl c)"
      if "length c \<le> length s" "c \<noteq> []" for c :: string
      using tail[OF _ that] 3 Suc.IH(1,3)[of "tl c"] by auto
    have r: "length (skip_ws r) \<le> length s" if "json_lit (tl (skip_ws s)) = Some (k, r)" for k r
      using json_lit_shorter[OF that] skip_ws_shorter[of r] skip_ws_shorter[of s] by simp
    have r2: "length (skip_ws r2) \<le> length s"
      if "json_lit (tl (skip_ws s)) = Some (k, r)" "json_value n (tl (skip_ws r)) = Some (w, r2)" for k r w r2
      using r[OF that(1)] json_shorter(1)[OF that(2)] skip_ws_shorter[of r2] by simp
    show ?case
      by (subst (1 2) json_fields.simps(2))
        (auto simp: Let_def v[OF r] f[OF r2] simp del: json_value.simps json_items.simps json_fields.simps
          split: option.split)
  }
qed simp_all

text \<open>With more fuel than the text asks for, the result is the same.\<close>

lemma json_fuel:
  assumes "2 * length s < n"
  shows "json_value n s = json_value (2 * length s + 1) s"
proof -
  have "json_value (2 * length s + 1 + k) s = json_value (2 * length s + 1) s" for k
  proof (induction k)
    case (Suc k)
    have "json_value (Suc (2 * length s + 1 + k)) s = json_value (2 * length s + 1 + k) s"
      by (rule json_fuel_step(1)) simp
    then show ?case using Suc by (simp del: json_value.simps)
  qed simp
  from this[of "n - (2 * length s + 1)"] show ?thesis using assms by (simp del: json_value.simps)
qed


section \<open>Reading what the encoder writes\<close>

lemma hex_any_digit: "d < 16 \<Longrightarrow> hex_any (hex_digit d) = Some d"
  by (auto simp: hex_any_def hex_digit_def Let_def)

lemma hex_any_zero: "hex_any (CHR ''0'') = Some 0"
  by (simp add: hex_any_def)

lemma u_rune_escape:
  assumes "(of_char c :: nat) < 128"
  shows "u_rune (CHR ''0'' # CHR ''0'' # hex_byte c @ rest) = Some (of_char c, rest)"
proof -
  have "(of_char c :: nat) div 16 < 16" using assms by (simp add: less_mult_imp_div_less)
  moreover have "(of_char c :: nat) div 16 * 16 + of_char c mod 16 < 128" using assms by simp
  ultimately show ?thesis using assms
    by (simp add: u_rune_def u_code_def hex_byte_def hex_any_zero hex_any_digit)
qed

lemma json_lit_char: "json_lit (json_char c @ rest) = map_option (\<lambda>(t, r). (c # t, r)) (json_lit rest)"
proof -
  have small: "(of_char c :: nat) < 128"
    if "(of_char c :: nat) < 32 \<or> c = CHR ''<'' \<or> c = CHR ''>'' \<or> c = CHR ''&''"
    using that by auto
  have "json_lit (u_escape c @ rest) = map_option (\<lambda>(t, r). (c # t, r)) (json_lit rest)"
    if "(of_char c :: nat) < 128"
  proof -
    have "u_escape c @ rest = backslash # CHR ''u'' # CHR ''0'' # CHR ''0'' # hex_byte c @ rest"
      by (simp add: u_escape_def)
    then show ?thesis using u_rune_escape[OF that, of rest] that by (simp add: utf8_def)
  qed
  with small show ?thesis by (auto simp: json_char_def simple_escape_def)
qed

lemma json_lit_body: "json_lit (concat (map json_char s) @ quote_char # rest) = Some (s, rest)"
proof (induction s)
  case (Cons c s)
  then show ?case by (simp add: json_lit_char del: json_lit.simps)
qed simp


lemma json_value_string: "json_value (Suc n) (json_string s @ rest) = Some (JString s, rest)"
  using json_lit_body[of s rest] by (simp add: json_string_def skip_ws_def json_space_def)

lemma json_items_print:
  "ss \<noteq> [] \<Longrightarrow> length ss < n \<Longrightarrow> json_items n (json_elems ss @ rest) = Some (map JString ss, rest)"
proof (induction ss arbitrary: n rule: json_elems.induct)
  case (2 s)
  then obtain m where "n = Suc (Suc m)" by (cases n; cases "n - 1") auto
  then show ?case
    by (simp add: json_value_string skip_ws_def json_space_def del: json_value.simps)
next
  case (3 s v va)
  then obtain m where n: "n = Suc (Suc m)" by (cases n; cases "n - 1") auto
  have IH: "json_items (Suc m) (json_elems (v # va) @ rest) = Some (map JString (v # va), rest)"
    by (rule "3.IH") (use 3(3) n in simp_all)
  have split: "json_elems (s # v # va) @ rest = json_string s @ '','' @ json_elems (v # va) @ rest" by simp
  show ?case unfolding n split
    by (subst json_items.simps(2))
      (simp add: IH json_value_string skip_ws_def json_space_def
        del: json_value.simps json_items.simps json_elems.simps)
qed simp

lemma json_elems_length: "length ss \<le> length (json_elems ss)"
  by (induction ss rule: json_elems.induct) (simp_all add: json_string_def)

lemma json_elems_start: "ss \<noteq> [] \<Longrightarrow> \<exists>r. json_elems ss = quote_char # r"
  by (cases ss rule: json_elems.cases) (simp_all add: json_string_def)

text \<open>A slice of strings, nil if it is empty.\<close>

lemma json_value_strings:
  assumes "length ss + 1 < n"
  shows "json_value n (json_strings ss @ rest)
    = Some (if ss = [] then JNull else JArray (map JString ss), rest)"
proof -
  from assms obtain m where n: "n = Suc m" "length ss < m" by (cases n) auto
  show ?thesis
  proof (cases ss)
    case Nil
    have "skip_ws (''null'' @ rest) = ''null'' @ rest" by (simp add: skip_ws_def json_space_def)
    then show ?thesis unfolding n(1) json_strings_def Nil
      by (subst json_value.simps(2)) (simp add: Let_def)
  next
    case (Cons s ss')
    then obtain r where r: "json_elems ss = quote_char # r" using json_elems_start by blast
    have ws: "skip_ws (json_elems ss @ rest) = json_elems ss @ rest" "hd (json_elems ss @ rest) = quote_char"
      "json_elems ss @ rest \<noteq> []" "skip_ws (CHR ''['' # json_elems ss @ rest) = CHR ''['' # json_elems ss @ rest"
      unfolding r by (simp_all add: skip_ws_def json_space_def)
    have "json_items m (json_elems ss @ rest) = Some (map JString ss, rest)"
      by (rule json_items_print) (use Cons n(2) in simp_all)
    then show ?thesis unfolding n(1) json_strings_def
      by (subst json_value.simps(2))
        (use ws Cons in \<open>simp add: Let_def del: json_items.simps json_elems.simps\<close>)
  qed
qed


lemma json_first_field:
  "json_first ([CHR 0x7B] @ json_string k @ '':'' @ json_strings ss @ [CHR 0x7D])
    = Some (JObject [(k, if ss = [] then JNull else JArray (map JString ss))])"
proof -
  let ?body = "json_strings ss @ [CHR 0x7D]"
  let ?s = "[CHR 0x7B] @ json_string k @ '':'' @ ?body"
  obtain m where m: "2 * length ?s + 1 = Suc (Suc m)" "length ss + 1 < m"
    using json_elems_length[of ss] by (simp add: json_string_def json_strings_def)
  have "json_value m ?body = Some (if ss = [] then JNull else JArray (map JString ss), [CHR 0x7D])"
    by (rule json_value_strings[OF m(2)])
  then have "json_fields (Suc m) (json_string k @ '':'' @ ?body)
    = Some ([(k, if ss = [] then JNull else JArray (map JString ss))], [])"
    using json_lit_body[of k "'':'' @ ?body"]
    by (simp add: json_string_def skip_ws_def json_space_def del: json_value.simps)
  then have "json_value (Suc (Suc m)) ?s = Some (JObject [(k, if ss = [] then JNull else JArray (map JString ss))], [])"
    by (simp add: json_string_def skip_ws_def json_space_def)
  then show ?thesis unfolding json_first_def m(1) by simp
qed


lemma json_whole_field:
  "json_whole ([CHR 0x7B] @ json_string k @ '':'' @ json_string v @ [CHR 0x7D]) = Some (JObject [(k, JString v)])"
proof -
  let ?s = "[CHR 0x7B] @ json_string k @ '':'' @ json_string v @ [CHR 0x7D]"
  obtain m where m: "2 * length ?s + 1 = Suc (Suc (Suc m))" by (simp add: json_string_def)
  have "json_fields (Suc (Suc m)) (json_string k @ '':'' @ json_string v @ [CHR 0x7D]) = Some ([(k, JString v)], [])"
    using json_lit_body[of k "'':'' @ json_string v @ [CHR 0x7D]"]
    by (simp add: json_string_def[of k] skip_ws_def json_space_def json_value_string del: json_value.simps)
  then have "json_value (Suc (Suc (Suc m))) ?s = Some (JObject [(k, JString v)], [])"
    by (subst json_value.simps(2)) (simp add: json_string_def skip_ws_def json_space_def del: json_value.simps)
  then show ?thesis unfolding json_whole_def m by (simp add: skip_ws_def)
qed

end
