(* ===== verification/Server.thy ===== *)
theory Server
  imports JsonValue PostgresStorage RedisStorage
begin

text \<open>
  \<open>server.go\<close>: the dashboard's HTTP handlers on any \<open>ServerStorage\<close>. A handler takes a request and
  the storage state to a response and the new state, or to \<open>None\<close> when the process dies in a storage
  call. The body of a response that carries data names the value that is encoded; an error of the
  storage is answered with its text, which stays the error value here.
\<close>

section \<open>The interface\<close>

text \<open>\<open>Ping\<close> of the interface is not called by the server.\<close>

record 's ServerStorage =
  ss_GetStats :: "('s, Stats) storage_op"
  ss_Retry :: "string \<Rightarrow> ('s, unit) storage_op"
  ss_Cancel :: "string \<Rightarrow> ('s, unit) storage_op"
  ss_ClearQueue :: "string \<Rightarrow> ('s, unit) storage_op"
  ss_PauseQueue :: "string \<Rightarrow> ('s, unit) storage_op"
  ss_ResumeQueue :: "string \<Rightarrow> ('s, unit) storage_op"
  ss_RetryAllFailed :: "('s, unit) storage_op"
  ss_PurgeAllFailed :: "('s, unit) storage_op"
  ss_GetJobDetail :: "string \<Rightarrow> ('s, JobEnvelope option) storage_op"
  ss_GetJobs :: "string \<Rightarrow> string \<Rightarrow> int \<Rightarrow> int \<Rightarrow> ('s, JobDetail list \<times> int) storage_op"
  ss_BulkRetry :: "string list \<Rightarrow> ('s, unit) storage_op"
  ss_BulkCancel :: "string list \<Rightarrow> ('s, unit) storage_op"
  ss_BulkPurge :: "string list \<Rightarrow> ('s, unit) storage_op"
  ss_RetryModified :: "string \<Rightarrow> bytes \<Rightarrow> ('s, unit) storage_op"
  ss_GetCronSchedules :: "('s, CronJob list) storage_op"
  ss_SaveCronSchedule :: "CronJob \<Rightarrow> ('s, unit) storage_op"
  ss_DeleteCronSchedule :: "string \<Rightarrow> ('s, unit) storage_op"

section \<open>Requests and responses\<close>

text \<open>What the handlers look at: the parsed query, the body or the error of reading it, and the
  credentials of the \<open>Authorization\<close> header if it has any.\<close>

record request =
  rq_method :: string
  rq_path :: string
  rq_query :: "(string \<times> string) list"
  rq_body :: "err + string"
  rq_basic_auth :: "(string \<times> string) option"

datatype payload =
    NoBody | Text string | Failure err | JsonStats Stats | JsonJob JobEnvelope
  | JsonJobs "JobDetail list" int | JsonCrons "CronJob list" | Events "Stats list" | Asset string
  | Aborted

record response =
  rs_status :: nat
  rs_headers :: "(string \<times> string) list"
  rs_body :: payload

type_synonym 's http_handler = "request \<Rightarrow> ('s, response) act"

definition query_get :: "request \<Rightarrow> string \<Rightarrow> string" where
  "query_get r key = (case map_of (rq_query r) key of Some v \<Rightarrow> v | None \<Rightarrow> '''')"

text \<open>\<open>http.Error\<close> sends the text and a line feed.\<close>

definition error_headers :: "(string \<times> string) list" where
  "error_headers = [(''Content-Type'', ''text/plain; charset=utf-8''), (''X-Content-Type-Options'', ''nosniff'')]"

definition http_error :: "string \<Rightarrow> nat \<Rightarrow> response" where
  "http_error msg code = \<lparr>rs_status = code, rs_headers = error_headers, rs_body = Text (msg @ [CHR 0x0A])\<rparr>"

definition http_failure :: "err \<Rightarrow> nat \<Rightarrow> response" where
  "http_failure e code = \<lparr>rs_status = code, rs_headers = error_headers, rs_body = Failure e\<rparr>"

definition http_ok :: response where
  "http_ok = \<lparr>rs_status = 200, rs_headers = [], rs_body = NoBody\<rparr>"

definition json_response :: "payload \<Rightarrow> response" where
  "json_response b = \<lparr>rs_status = 200, rs_headers = [(''Content-Type'', ''application/json'')], rs_body = b\<rparr>"

text \<open>An encoder that fails has written nothing, and its error is dropped.\<close>

definition stats_encodable :: "Stats \<Rightarrow> bool" where
  "stats_encodable st \<longleftrightarrow> list_all (\<lambda>p. json_time_ok (pi_HeartbeatAt p)) (st_Processes st)"

definition encode_stats :: "Stats \<Rightarrow> payload" where
  "encode_stats st = (if stats_encodable st then JsonStats st else NoBody)"

definition encode_job :: "JobEnvelope \<Rightarrow> payload" where
  "encode_job env = (case marshal_env env of Inr d \<Rightarrow> JsonJob env | Inl e \<Rightarrow> NoBody)"

section \<open>Handlers\<close>

definition method_not_allowed :: response where
  "method_not_allowed = http_error ''Method Not Allowed'' 405"

text \<open>\<open>if err := ...; err != nil { http.Error(...); return }; w.WriteHeader(http.StatusOK)\<close>\<close>

definition answer :: "('s, unit) storage_op \<Rightarrow> ('s, response) act" where
  "answer m = and_then m (\<lambda>r. case r of
     Inl e \<Rightarrow> done_with (http_failure e 500) | Inr u \<Rightarrow> done_with http_ok)"

definition Server_handleStats :: "'s ServerStorage \<Rightarrow> 's http_handler" where
  "Server_handleStats st r = and_then (ss_GetStats st) (\<lambda>x. case x of
     Inl e \<Rightarrow> done_with (http_failure e 500)
   | Inr stats \<Rightarrow> done_with (json_response (encode_stats stats)))"

definition Server_handleRetry :: "'s ServerStorage \<Rightarrow> 's http_handler" where
  "Server_handleRetry st r =
     (if rq_method r \<noteq> ''POST'' then done_with method_not_allowed
      else let jobID = query_get r ''id'' in
        if jobID = '''' then done_with (http_error ''Missing job id parameter'' 400)
        else answer (ss_Retry st jobID))"

definition Server_handleCancel :: "'s ServerStorage \<Rightarrow> 's http_handler" where
  "Server_handleCancel st r =
     (if rq_method r \<noteq> ''POST'' then done_with method_not_allowed
      else let jobID = query_get r ''id'' in
        if jobID = '''' then done_with (http_error ''Missing job id parameter'' 400)
        else answer (ss_Cancel st jobID))"

definition Server_handleClearQueue :: "'s ServerStorage \<Rightarrow> 's http_handler" where
  "Server_handleClearQueue st r =
     (if rq_method r \<noteq> ''POST'' then done_with method_not_allowed
      else let queueName = query_get r ''name'' in
        if queueName = '''' then done_with (http_error ''Missing queue name parameter'' 400)
        else answer (ss_ClearQueue st queueName))"

definition Server_handlePauseQueue :: "'s ServerStorage \<Rightarrow> 's http_handler" where
  "Server_handlePauseQueue st r =
     (if rq_method r \<noteq> ''POST'' then done_with method_not_allowed
      else let name = query_get r ''name'' in
        if name = '''' then done_with (http_error ''Missing queue name parameter'' 400)
        else answer (ss_PauseQueue st name))"

definition Server_handleResumeQueue :: "'s ServerStorage \<Rightarrow> 's http_handler" where
  "Server_handleResumeQueue st r =
     (if rq_method r \<noteq> ''POST'' then done_with method_not_allowed
      else let name = query_get r ''name'' in
        if name = '''' then done_with (http_error ''Missing queue name parameter'' 400)
        else answer (ss_ResumeQueue st name))"

definition Server_handleJobDetail :: "'s ServerStorage \<Rightarrow> 's http_handler" where
  "Server_handleJobDetail st r =
     (let jobID = query_get r ''id'' in
      if jobID = '''' then done_with (http_error ''Missing job id parameter'' 400)
      else and_then (ss_GetJobDetail st jobID) (\<lambda>x. case x of
          Inl e \<Rightarrow> done_with (http_failure e 500)
        | Inr None \<Rightarrow> done_with (http_error ''Job not found'' 404)
        | Inr (Some env) \<Rightarrow> done_with (json_response (encode_job env))))"

definition Server_handleRetryAllFailed :: "'s ServerStorage \<Rightarrow> 's http_handler" where
  "Server_handleRetryAllFailed st r =
     (if rq_method r \<noteq> ''POST'' then done_with method_not_allowed else answer (ss_RetryAllFailed st))"

definition Server_handlePurgeAllFailed :: "'s ServerStorage \<Rightarrow> 's http_handler" where
  "Server_handlePurgeAllFailed st r =
     (if rq_method r \<noteq> ''POST'' then done_with method_not_allowed else answer (ss_PurgeAllFailed st))"

text \<open>A panic in a handler ends the request and closes the connection; only the search of the Redis
  backend has one.\<close>

definition request_aborted :: response where
  "request_aborted = \<lparr>rs_status = 0, rs_headers = [], rs_body = Aborted\<rparr>"

text \<open>\<open>strconv.Atoi\<close> with its error dropped: zero for a text that is no number, the nearest bound for
  a number out of range.\<close>

definition atoi_value :: "string \<Rightarrow> int" where
  "atoi_value s =
     (let neg = (s \<noteq> [] \<and> hd s = CHR ''-'');
          ds = (if s \<noteq> [] \<and> (hd s = CHR ''-'' \<or> hd s = CHR ''+'') then tl s else s)
      in case parse_nat ds of
           None \<Rightarrow> 0
         | Some n \<Rightarrow> if neg then max (- (2 ^ 63)) (- int n) else min max_int (int n))"

definition Server_handleGetJobs :: "'s ServerStorage \<Rightarrow> 's http_handler" where
  "Server_handleGetJobs st r =
     (let q = query_get r ''q''; status = query_get r ''status'';
          page = atoi_value (query_get r ''page''); limit = atoi_value (query_get r ''limit'')
      in and_then (ss_GetJobs st q status page limit) (\<lambda>x. case x of
          Inl e \<Rightarrow> done_with (if e = ErrPanic then request_aborted else http_failure e 500)
        | Inr (js, hits) \<Rightarrow> done_with (json_response (JsonJobs js hits))))"


section \<open>Bodies\<close>

text \<open>The texts of the decoder's errors are not kept.\<close>

definition ErrDecode :: err where
  "ErrDecode = ErrMsg ''cannot decode the body''"

text \<open>\<open>json.NewDecoder(r.Body).Decode\<close> reads the first value of the body.\<close>

definition decode_body :: "request \<Rightarrow> err + json" where
  "decode_body r = (case rq_body r of
     Inl e \<Rightarrow> Inl e
   | Inr s \<Rightarrow> (case json_first s of None \<Rightarrow> Inl ErrDecode | Some v \<Rightarrow> Inr v))"

definition put_ids :: "string \<times> json \<Rightarrow> string list \<Rightarrow> string list option" where
  "put_ids f ids =
     (if \<not> same_field (fst f) ''ids'' then Some ids
      else case snd f of
        JNull \<Rightarrow> Some []
      | JArray vs \<Rightarrow> those (map (\<lambda>v. case v of JString s \<Rightarrow> Some s | JNull \<Rightarrow> Some '''' | _ \<Rightarrow> None) vs)
      | _ \<Rightarrow> None)"

definition decodeBulkIDs :: "request \<Rightarrow> err + string list" where
  "decodeBulkIDs r = (case decode_body r of
     Inl e \<Rightarrow> Inl e
   | Inr v \<Rightarrow> (case decode_struct put_ids v [] of None \<Rightarrow> Inl ErrDecode | Some ids \<Rightarrow> Inr ids))"

definition Server_handleBulkRetry :: "'s ServerStorage \<Rightarrow> 's http_handler" where
  "Server_handleBulkRetry st r =
     (if rq_method r \<noteq> ''POST'' then done_with method_not_allowed
      else case decodeBulkIDs r of
        Inl e \<Rightarrow> done_with (http_failure e 400)
      | Inr ids \<Rightarrow> answer (ss_BulkRetry st ids))"

definition Server_handleBulkCancel :: "'s ServerStorage \<Rightarrow> 's http_handler" where
  "Server_handleBulkCancel st r =
     (if rq_method r \<noteq> ''POST'' then done_with method_not_allowed
      else case decodeBulkIDs r of
        Inl e \<Rightarrow> done_with (http_failure e 400)
      | Inr ids \<Rightarrow> answer (ss_BulkCancel st ids))"

definition Server_handleBulkPurge :: "'s ServerStorage \<Rightarrow> 's http_handler" where
  "Server_handleBulkPurge st r =
     (if rq_method r \<noteq> ''POST'' then done_with method_not_allowed
      else case decodeBulkIDs r of
        Inl e \<Rightarrow> done_with (http_failure e 400)
      | Inr ids \<Rightarrow> answer (ss_BulkPurge st ids))"

definition Server_handleRetryModified :: "'s ServerStorage \<Rightarrow> 's http_handler" where
  "Server_handleRetryModified st r =
     (if rq_method r \<noteq> ''POST'' then done_with method_not_allowed
      else let id = query_get r ''id'' in
        case rq_body r of
          Inl e \<Rightarrow> done_with (http_error ''invalid request'' 400)
        | Inr args \<Rightarrow>
            if id = '''' then done_with (http_error ''invalid request'' 400)
            else answer (ss_RetryModified st id args))"

section \<open>Metrics and the event stream\<close>

definition writeQueueMetric :: "string \<Rightarrow> string \<Rightarrow> string \<Rightarrow> int \<Rightarrow> string" where
  "writeQueueMetric metric queue status val =
     metric @ ''{queue='' @ [CHR 0x22] @ queue @ [CHR 0x22] @ '', status='' @ [CHR 0x22] @ status @ [CHR 0x22]
       @ ''} '' @ Itoa val @ [CHR 0x0A]"

definition writeQueuePausedMetric :: "string \<Rightarrow> bool \<Rightarrow> string" where
  "writeQueuePausedMetric queue paused =
     ''runiq_queue_paused{queue='' @ [CHR 0x22] @ queue @ [CHR 0x22] @ ''} ''
       @ Itoa (if paused then 1 else 0) @ [CHR 0x0A]"

definition queue_metrics :: "QueueStats \<Rightarrow> string" where
  "queue_metrics q =
     writeQueueMetric ''runiq_jobs_count'' (qs_Name q) ''pending'' (qs_Pending q)
     @ writeQueueMetric ''runiq_jobs_count'' (qs_Name q) ''running'' (qs_Running q)
     @ writeQueueMetric ''runiq_jobs_count'' (qs_Name q) ''failed'' (qs_Failed q)
     @ writeQueueMetric ''runiq_jobs_count'' (qs_Name q) ''processed'' (qs_Processed q)
     @ writeQueuePausedMetric (qs_Name q) (qs_Paused q)"

definition Server_handleMetrics :: "'s ServerStorage \<Rightarrow> 's http_handler" where
  "Server_handleMetrics st r = and_then (ss_GetStats st) (\<lambda>x. case x of
     Inl e \<Rightarrow> done_with (http_failure e 500)
   | Inr stats \<Rightarrow> done_with \<lparr>rs_status = 200, rs_headers = [(''Content-Type'', ''text/plain; version=0.0.4'')],
       rs_body = Text (concat (map queue_metrics (st_Queues stats)))\<rparr>)"

text \<open>The client stays for \<open>rounds\<close> rounds of the loop; a round that fails ends the stream.\<close>

definition Server_sendStreamStats :: "'s ServerStorage \<Rightarrow> ('s, err + Stats) act" where
  "Server_sendStreamStats st = and_then (ss_GetStats st) (\<lambda>x. case x of
     Inl e \<Rightarrow> done_with (Inl e)
   | Inr stats \<Rightarrow> done_with (if stats_encodable stats then Inr stats else Inl ErrJson))"

primrec stream_rounds :: "nat \<Rightarrow> 's ServerStorage \<Rightarrow> ('s, Stats list) act" where
  "stream_rounds 0 st = done_with []"
| "stream_rounds (Suc n) st = and_then (Server_sendStreamStats st) (\<lambda>x. case x of
     Inl e \<Rightarrow> done_with []
   | Inr stats \<Rightarrow> and_then (stream_rounds n st) (\<lambda>rest. done_with (stats # rest)))"

definition Server_handleStatsStream :: "nat \<Rightarrow> 's ServerStorage \<Rightarrow> 's http_handler" where
  "Server_handleStatsStream rounds st r = and_then (stream_rounds rounds st) (\<lambda>sent.
     done_with \<lparr>rs_status = 200, rs_headers = [(''Content-Type'', ''text/event-stream''),
       (''Cache-Control'', ''no-cache''), (''Connection'', ''keep-alive'')], rs_body = Events sent\<rparr>)"

section \<open>Cron schedules\<close>

record saveCronReq =
  sc_Name :: string
  sc_Expression :: string
  sc_Queue :: string
  sc_Payload :: string
  sc_Timezone :: string
  sc_Paused :: bool

definition zero_saveCronReq :: saveCronReq where
  "zero_saveCronReq = \<lparr>sc_Name = '''', sc_Expression = '''', sc_Queue = '''', sc_Payload = '''',
     sc_Timezone = '''', sc_Paused = False\<rparr>"

definition put_cron :: "string \<times> json \<Rightarrow> saveCronReq \<Rightarrow> saveCronReq option" where
  "put_cron f r =
     (if same_field (fst f) ''name'' then map_option (\<lambda>s. r\<lparr>sc_Name := s\<rparr>) (string_value (sc_Name r) (snd f))
      else if same_field (fst f) ''expression''
      then map_option (\<lambda>s. r\<lparr>sc_Expression := s\<rparr>) (string_value (sc_Expression r) (snd f))
      else if same_field (fst f) ''queue'' then map_option (\<lambda>s. r\<lparr>sc_Queue := s\<rparr>) (string_value (sc_Queue r) (snd f))
      else if same_field (fst f) ''payload'' then map_option (\<lambda>s. r\<lparr>sc_Payload := s\<rparr>) (string_value (sc_Payload r) (snd f))
      else if same_field (fst f) ''timezone'' then map_option (\<lambda>s. r\<lparr>sc_Timezone := s\<rparr>) (string_value (sc_Timezone r) (snd f))
      else if same_field (fst f) ''paused'' then map_option (\<lambda>b. r\<lparr>sc_Paused := b\<rparr>) (bool_value (sc_Paused r) (snd f))
      else Some r)"

definition Server_handleGetCrons :: "'s ServerStorage \<Rightarrow> 's http_handler" where
  "Server_handleGetCrons st r = and_then (ss_GetCronSchedules st) (\<lambda>x. case x of
     Inl e \<Rightarrow> done_with (http_failure e 500)
   | Inr list \<Rightarrow> done_with (json_response (JsonCrons list)))"

text \<open>\<open>zone\<close> is \<open>time.LoadLocation\<close>: the text of its error, if it does not know the location.\<close>

definition Server_handleSaveCron :: "(string \<Rightarrow> string option) \<Rightarrow> 's ServerStorage \<Rightarrow> 's http_handler" where
  "Server_handleSaveCron zone st r =
     (case decode_body r of
        Inl e \<Rightarrow> done_with (http_failure e 400)
      | Inr v \<Rightarrow> (case decode_struct put_cron v zero_saveCronReq of
          None \<Rightarrow> done_with (http_failure ErrDecode 400)
        | Some req \<Rightarrow>
            (let bad = (if sc_Timezone req \<noteq> '''' then zone (sc_Timezone req) else None) in
             case bad of
               Some text \<Rightarrow> done_with (http_error (''Invalid timezone location: '' @ text) 400)
             | None \<Rightarrow> answer (ss_SaveCronSchedule st
                 \<lparr>cj_Payload = sc_Payload req, cj_Spec = sc_Expression req, cj_Name = sc_Name req,
                  cj_Queue = sc_Queue req, cj_Timezone = sc_Timezone req, cj_Paused = sc_Paused req\<rparr>))))"

definition Server_handleDeleteCron :: "'s ServerStorage \<Rightarrow> 's http_handler" where
  "Server_handleDeleteCron st r =
     (let name = query_get r ''name'' in
      if name = '''' then done_with (http_error ''Missing name parameter'' 400)
      else answer (ss_DeleteCronSchedule st name))"

definition Server_handleCrons :: "(string \<Rightarrow> string option) \<Rightarrow> 's ServerStorage \<Rightarrow> 's http_handler" where
  "Server_handleCrons zone st r =
     (if rq_method r = ''GET'' then Server_handleGetCrons st r
      else if rq_method r = ''POST'' then Server_handleSaveCron zone st r
      else if rq_method r = ''DELETE'' then Server_handleDeleteCron st r
      else done_with method_not_allowed)"

section \<open>Routing and middlewares\<close>

text \<open>Every pattern but the last is one path; paths are clean (the multiplexer redirects others). All
  other paths go to \<open>assets\<close>, the file server of the embedded files.\<close>

definition Server_routes :: "nat \<Rightarrow> (string \<Rightarrow> string option) \<Rightarrow> 's ServerStorage \<Rightarrow> (string \<times> 's http_handler) list" where
  "Server_routes rounds zone st =
     [(''/api/stats'', Server_handleStats st),
      (''/api/jobs/retry'', Server_handleRetry st),
      (''/api/jobs/cancel'', Server_handleCancel st),
      (''/api/queues/clear'', Server_handleClearQueue st),
      (''/api/queues/pause'', Server_handlePauseQueue st),
      (''/api/queues/resume'', Server_handleResumeQueue st),
      (''/api/jobs/detail'', Server_handleJobDetail st),
      (''/api/jobs/failed/retry'', Server_handleRetryAllFailed st),
      (''/api/jobs/failed/purge'', Server_handlePurgeAllFailed st),
      (''/api/jobs'', Server_handleGetJobs st),
      (''/api/stats/stream'', Server_handleStatsStream rounds st),
      (''/api/jobs/bulk-retry'', Server_handleBulkRetry st),
      (''/api/jobs/bulk-cancel'', Server_handleBulkCancel st),
      (''/api/jobs/bulk-purge'', Server_handleBulkPurge st),
      (''/api/jobs/retry-modified'', Server_handleRetryModified st),
      (''/api/crons'', Server_handleCrons zone st),
      (''/metrics'', Server_handleMetrics st)]"

type_synonym 's middleware = "'s http_handler \<Rightarrow> 's http_handler"

record 's Server =
  sv_storage :: "'s ServerStorage"
  sv_port :: string
  sv_middlewares :: "'s middleware list"

text \<open>The loop runs from the last middleware to the first, so the first is outermost.\<close>

definition Server_applyMiddlewares :: "'s middleware list \<Rightarrow> 's http_handler \<Rightarrow> 's http_handler" where
  "Server_applyMiddlewares ms h = fold (\<lambda>m h. m h) (rev ms) h"

definition Server_mux ::
  "(request \<Rightarrow> response) \<Rightarrow> nat \<Rightarrow> (string \<Rightarrow> string option) \<Rightarrow> 's ServerStorage \<Rightarrow> 's http_handler" where
  "Server_mux assets rounds zone st r =
     (case map_of (Server_routes rounds zone st) (rq_path r) of
        Some h \<Rightarrow> h r
      | None \<Rightarrow> done_with (assets r))"

definition Server_Handler ::
  "(request \<Rightarrow> response) \<Rightarrow> nat \<Rightarrow> (string \<Rightarrow> string option) \<Rightarrow> 's Server \<Rightarrow> 's http_handler" where
  "Server_Handler assets rounds zone s =
     Server_applyMiddlewares (sv_middlewares s) (Server_mux assets rounds zone (sv_storage s))"

definition WithMiddleware :: "'s middleware list \<Rightarrow> 's Server \<Rightarrow> 's Server" where
  "WithMiddleware mws s = s\<lparr>sv_middlewares := sv_middlewares s @ mws\<rparr>"

definition NewServer :: "'s ServerStorage \<Rightarrow> string \<Rightarrow> ('s Server \<Rightarrow> 's Server) list \<Rightarrow> 's Server" where
  "NewServer storage port opts =
     fold (\<lambda>opt s. opt s) opts \<lparr>sv_storage = storage, sv_port = port, sv_middlewares = []\<rparr>"

section \<open>The backends\<close>

definition sqlite_server :: "nat \<Rightarrow> time \<Rightarrow> conn ServerStorage" where
  "sqlite_server stack now =
     \<lparr>ss_GetStats = Sqlite_GetStats now, ss_Retry = Sqlite_Retry now, ss_Cancel = Sqlite_Cancel stack now,
      ss_ClearQueue = Sqlite_ClearQueue, ss_PauseQueue = Sqlite_PauseQueue, ss_ResumeQueue = Sqlite_ResumeQueue,
      ss_RetryAllFailed = Sqlite_RetryAllFailed now, ss_PurgeAllFailed = Sqlite_PurgeAllFailed,
      ss_GetJobDetail = Sqlite_GetJobDetail, ss_GetJobs = Sqlite_GetJobs, ss_BulkRetry = Sqlite_BulkRetry now,
      ss_BulkCancel = Sqlite_BulkCancel, ss_BulkPurge = Sqlite_BulkPurge,
      ss_RetryModified = Sqlite_RetryModified now, ss_GetCronSchedules = Sqlite_GetCronSchedules,
      ss_SaveCronSchedule = Sqlite_SaveCronSchedule now, ss_DeleteCronSchedule = Sqlite_DeleteCronSchedule\<rparr>"

definition postgres_server :: "(time \<Rightarrow> string) \<Rightarrow> nat \<Rightarrow> time \<Rightarrow> conn ServerStorage" where
  "postgres_server fmt stack now =
     \<lparr>ss_GetStats = Postgres_GetStats fmt now, ss_Retry = Postgres_Retry now, ss_Cancel = Postgres_Cancel stack now,
      ss_ClearQueue = Postgres_ClearQueue, ss_PauseQueue = Postgres_PauseQueue, ss_ResumeQueue = Postgres_ResumeQueue,
      ss_RetryAllFailed = Postgres_RetryAllFailed now, ss_PurgeAllFailed = Postgres_PurgeAllFailed,
      ss_GetJobDetail = Postgres_GetJobDetail, ss_GetJobs = Postgres_GetJobs fmt,
      ss_BulkRetry = Postgres_BulkRetry now, ss_BulkCancel = Postgres_BulkCancel, ss_BulkPurge = Postgres_BulkPurge,
      ss_RetryModified = Postgres_RetryModified now, ss_GetCronSchedules = Postgres_GetCronSchedules,
      ss_SaveCronSchedule = Postgres_SaveCronSchedule now, ss_DeleteCronSchedule = Postgres_DeleteCronSchedule\<rparr>"

definition redis_server :: "(string list \<Rightarrow> string list list) \<Rightarrow> nat \<Rightarrow> time \<Rightarrow> (rdb \<times> bool list) ServerStorage" where
  "redis_server pages stack now =
     \<lparr>ss_GetStats = Redis_GetStats now, ss_Retry = Redis_Retry now, ss_Cancel = Redis_Cancel stack now,
      ss_ClearQueue = Redis_ClearQueue pages, ss_PauseQueue = Redis_PauseQueue, ss_ResumeQueue = Redis_ResumeQueue,
      ss_RetryAllFailed = Redis_RetryAllFailed now, ss_PurgeAllFailed = Redis_PurgeAllFailed,
      ss_GetJobDetail = Redis_GetJobDetail, ss_GetJobs = Redis_GetJobs, ss_BulkRetry = Redis_BulkRetry now,
      ss_BulkCancel = Redis_BulkCancel stack now, ss_BulkPurge = Redis_BulkPurge stack now,
      ss_RetryModified = Redis_RetryModified now, ss_GetCronSchedules = Redis_GetCronSchedules,
      ss_SaveCronSchedule = Redis_SaveCronSchedule, ss_DeleteCronSchedule = Redis_DeleteCronSchedule\<rparr>"

end
