(* ===== verification/Telemetry.thy ===== *)
theory Telemetry
  imports Server SqliteViews
begin

text \<open>
  \<open>telemetry.go\<close> and the \<open>Tracer\<close> interface of \<open>queue.go\<close>. The OpenTelemetry library is a parameter:
  reading and setting the span context of a context, parsing and printing the two ids, and which
  instruments can be created. What an instrument receives is a list of measurements.
\<close>

section \<open>The library\<close>

text \<open>\<open>oa_context\<close> is the span context of a context, if it is valid.\<close>

record ('c, 't, 'u) otel_api =
  oa_context :: "'c \<Rightarrow> ('t \<times> 'u) option"
  oa_with_remote :: "'t \<Rightarrow> 'u \<Rightarrow> 'c \<Rightarrow> 'c"
  oa_TraceIDFromHex :: "string \<Rightarrow> 't option"
  oa_SpanIDFromHex :: "string \<Rightarrow> 'u option"
  oa_trace_text :: "'t \<Rightarrow> string"
  oa_span_text :: "'u \<Rightarrow> string"

text \<open>What the documentation promises: the text of a valid id is read back, the empty text is no id,
  and a context answers with the ids put into it.\<close>

definition otel_documented :: "('c, 't, 'u) otel_api \<Rightarrow> bool" where
  "otel_documented api \<longleftrightarrow>
     (\<forall>c t s. oa_context api c = Some (t, s)
        \<longrightarrow> oa_TraceIDFromHex api (oa_trace_text api t) = Some t \<and> oa_SpanIDFromHex api (oa_span_text api s) = Some s)
     \<and> oa_TraceIDFromHex api '''' = None
     \<and> (\<forall>x y t s c. oa_TraceIDFromHex api x = Some t \<longrightarrow> oa_SpanIDFromHex api y = Some s
        \<longrightarrow> oa_context api (oa_with_remote api t s c) = Some (t, s))"

section \<open>Traces\<close>

definition OTelTracer_ExtractTrace :: "('c, 't, 'u) otel_api \<Rightarrow> 'c \<Rightarrow> string \<times> string" where
  "OTelTracer_ExtractTrace api ctx = (case oa_context api ctx of
     None \<Rightarrow> ('''', '''') | Some (t, s) \<Rightarrow> (oa_trace_text api t, oa_span_text api s))"

definition OTelTracer_InjectTrace :: "('c, 't, 'u) otel_api \<Rightarrow> 'c \<Rightarrow> string \<Rightarrow> string \<Rightarrow> 'c" where
  "OTelTracer_InjectTrace api ctx traceID spanID = (case oa_TraceIDFromHex api traceID of
     None \<Rightarrow> ctx
   | Some tid \<Rightarrow> (case oa_SpanIDFromHex api spanID of
       None \<Rightarrow> ctx | Some sid \<Rightarrow> oa_with_remote api tid sid ctx))"

section \<open>Metrics\<close>

text \<open>Tags are a Go map in the order of one iteration.\<close>

datatype measurement =
    Latency string int "(string \<times> string) list"
  | Count string int "(string \<times> string) list"

definition convertTagsToAttrs :: "(string \<times> string) list \<Rightarrow> (string \<times> string) list" where
  "convertTagsToAttrs tags = fold (\<lambda>(k, v) attrs. attrs @ [(k, v)]) tags []"

text \<open>Whole milliseconds, cut towards zero. \<open>fails\<close> names the instruments that cannot be created.\<close>

definition OTelTracer_RecordLatency ::
  "(string \<Rightarrow> bool) \<Rightarrow> string \<Rightarrow> duration \<Rightarrow> (string \<times> string) list \<Rightarrow> measurement list \<Rightarrow> measurement list" where
  "OTelTracer_RecordLatency fails name dur tags ms =
     (if fails name then ms else ms @ [Latency name (go_div dur millisecond) (convertTagsToAttrs tags)])"

definition OTelTracer_IncrementCounter ::
  "(string \<Rightarrow> bool) \<Rightarrow> string \<Rightarrow> (string \<times> string) list \<Rightarrow> measurement list \<Rightarrow> measurement list" where
  "OTelTracer_IncrementCounter fails name tags ms =
     (if fails name then ms else ms @ [Count name 1 (convertTagsToAttrs tags)])"

text \<open>The callback of the gauge: the observations of one collection, or the error of \<open>GetStats\<close>. The
  queues named at the registration are not looked at.\<close>

definition queue_depths :: "('s, Stats) storage_op \<Rightarrow> ('s, (string \<times> int) list) storage_op" where
  "queue_depths getStats = and_then getStats (\<lambda>r. case r of
     Inl e \<Rightarrow> done_with (Inl e)
   | Inr stats \<Rightarrow> done_with (Inr ((''_all'', st_Pending stats)
       # map (\<lambda>q. (qs_Name q, qs_Pending q)) (st_Queues stats))))"

definition OTelTracer_RegisterQueueDepthMetrics ::
  "(string \<Rightarrow> bool) \<Rightarrow> ('s, Stats) storage_op \<Rightarrow> string list
     \<Rightarrow> err + ('s, (string \<times> int) list) storage_op" where
  "OTelTracer_RegisterQueueDepthMetrics fails getStats queues =
     (if fails ''runiq_queue_depth'' then Inl ErrEngine else Inr (queue_depths getStats))"

text \<open>\<open>defaultTracer\<close> of \<open>queue.go\<close>: no ids, the context as it is, nothing recorded.\<close>

definition defaultTracer_ExtractTrace :: "'c \<Rightarrow> string \<times> string" where
  "defaultTracer_ExtractTrace ctx = ('''', '''')"

definition defaultTracer_InjectTrace :: "'c \<Rightarrow> string \<Rightarrow> string \<Rightarrow> 'c" where
  "defaultTracer_InjectTrace ctx traceID spanID = ctx"

section \<open>Facts\<close>

lemma convertTags_all: "convertTagsToAttrs tags = tags"
proof -
  have "fold (\<lambda>(k, v) attrs. attrs @ [(k, v)]) tags acc = acc @ tags" for acc
    by (induction tags arbitrary: acc) auto
  then show ?thesis by (simp add: convertTagsToAttrs_def)
qed

text \<open>The trace a client takes from its context and puts into the envelope is the trace the worker's
  context has after it was put there.\<close>

theorem trace_roundtrip:
  assumes "otel_documented api" "OTelTracer_ExtractTrace api ctx = (traceID, spanID)"
  shows "OTelTracer_ExtractTrace api (OTelTracer_InjectTrace api wctx traceID spanID)
    = (if traceID = '''' then OTelTracer_ExtractTrace api wctx else (traceID, spanID))"
proof (cases "oa_context api ctx")
  case None
  then show ?thesis using assms
    by (auto simp: OTelTracer_ExtractTrace_def OTelTracer_InjectTrace_def otel_documented_def)
next
  case (Some ts)
  obtain t s where ts: "ts = (t, s)" by fastforce
  then have ids: "traceID = oa_trace_text api t" "spanID = oa_span_text api s"
    using assms(2) Some by (auto simp: OTelTracer_ExtractTrace_def)
  have parsed: "oa_TraceIDFromHex api traceID = Some t" "oa_SpanIDFromHex api spanID = Some s"
    using assms(1) Some ts ids by (auto simp: otel_documented_def)
  then have "traceID \<noteq> ''''" using assms(1) by (auto simp: otel_documented_def)
  moreover have "oa_context api (oa_with_remote api t s wctx) = Some (t, s)"
    using assms(1) parsed by (auto simp: otel_documented_def)
  ultimately show ?thesis
    by (simp add: OTelTracer_ExtractTrace_def OTelTracer_InjectTrace_def parsed[unfolded ids] ids)
qed

definition plain_otel :: "((string \<times> string) option, string, string) otel_api" where
  "plain_otel = \<lparr>oa_context = (\<lambda>c. case c of Some (t, s) \<Rightarrow> if t = '''' then None else Some (t, s) | None \<Rightarrow> None),
     oa_with_remote = (\<lambda>t s c. Some (t, s)), oa_TraceIDFromHex = (\<lambda>x. if x = '''' then None else Some x),
     oa_SpanIDFromHex = Some, oa_trace_text = (\<lambda>t. t), oa_span_text = (\<lambda>s. s)\<rparr>"

theorem trace_roundtrip_witness:
  "OTelTracer_ExtractTrace plain_otel (OTelTracer_InjectTrace plain_otel None ''4b'' ''01'') = (''4b'', ''01'')"
proof -
  have "otel_documented plain_otel"
    by (auto simp: otel_documented_def plain_otel_def split: option.splits if_splits prod.splits)
  from trace_roundtrip[OF this, of "Some (''4b'', ''01'')" "''4b''" "''01''" None] show ?thesis
    by (simp add: OTelTracer_ExtractTrace_def plain_otel_def)
qed

text \<open>On SQLite a collection reports the number of all pending jobs, and for each queue the number of its
  own.\<close>

theorem queue_depths_exact:
  "\<exists>obs d'. queue_depths (Sqlite_GetStats now) (d, []) = Some (Inr ((''_all'', int (length (filter (\<lambda>r. j_status r = Pending) (jobs d)))) # obs), (d', []))
     \<and> distinct (map fst obs)
     \<and> fst ` set obs = set (map j_queue (jobs d)) \<union> set (paused_queues d)
     \<and> list_all (\<lambda>(q, n). n = int (length (filter (\<lambda>r. j_queue r = q \<and> j_status r = Pending) (jobs d)))) obs"
proof -
  obtain st d' where st: "Sqlite_GetStats now (d, []) = Some (Inr st, (d', []))"
    "st_Pending st = int (length (filter (\<lambda>r. j_status r = Pending) (jobs d)))"
    "distinct (map qs_Name (st_Queues st))"
    "qs_Name ` set (st_Queues st) = set (map j_queue (jobs d)) \<union> set (paused_queues d)"
    "list_all (\<lambda>qs. qs_Pending qs =
       int (length (filter (\<lambda>r. j_queue r = qs_Name qs \<and> j_status r = Pending) (jobs d)))) (st_Queues st)"
    using stats_count_jobs[of now d] by blast
  let ?obs = "map (\<lambda>q. (qs_Name q, qs_Pending q)) (st_Queues st)"
  have "queue_depths (Sqlite_GetStats now) (d, [])
      = Some (Inr ((''_all'', int (length (filter (\<lambda>r. j_status r = Pending) (jobs d)))) # ?obs), (d', []))"
    using st(1,2) by (simp add: queue_depths_def run_simps)
  moreover have "distinct (map fst ?obs)" using st(3) by (simp add: comp_def)
  moreover have "fst ` set ?obs = set (map j_queue (jobs d)) \<union> set (paused_queues d)"
    using st(4) by (simp add: image_image)
  moreover have "list_all (\<lambda>(q, n). n = int (length (filter (\<lambda>r. j_queue r = q \<and> j_status r = Pending) (jobs d)))) ?obs"
    using st(5) by (simp add: list_all_iff)
  ultimately show ?thesis by blast
qed

end
