(* ===== verification/Namespaces.thy ===== *)
theory Namespaces
  imports GoLib
begin

text \<open>
  Namespaces: \<open>SetNamespace\<close>, the rewriting \<open>q\<close> of the SQL texts, the rewriting \<open>k\<close> of the Redis keys,
  and the keys themselves. The other theories model the tables and keys of one namespace; this one
  shows what separates them from those of another, and that within a namespace the families of Redis
  keys never meet, so that a record with one component per family is what the server stores.
\<close>

section \<open>Replacing in a text\<close>

text \<open>\<open>strings.ReplaceAll\<close> and \<open>strings.Replace\<close> with count 1, for a nonempty \<open>old\<close>.\<close>

function replace_all :: "string \<Rightarrow> string \<Rightarrow> string \<Rightarrow> string" where
  "replace_all old new [] = []"
| "replace_all old new (c # cs) =
     (if old \<noteq> [] \<and> has_prefix (c # cs) old then new @ replace_all old new (drop (length old) (c # cs))
      else c # replace_all old new cs)"
  by pat_completeness auto
termination
  by (relation "measure (\<lambda>(old, new, s). length s)") auto

fun replace_first :: "string \<Rightarrow> string \<Rightarrow> string \<Rightarrow> string" where
  "replace_first old new [] = []"
| "replace_first old new (c # cs) =
     (if has_prefix (c # cs) old then new @ drop (length old) (c # cs) else c # replace_first old new cs)"

section \<open>Tables\<close>

text \<open>The \<open>prefix\<close> of a storage after \<open>SetNamespace\<close>; it is \<open>runiq\<close> from the start.\<close>

definition SetNamespace_prefix :: "string \<Rightarrow> string" where
  "SetNamespace_prefix ns = (if ns = '''' then ''runiq'' else ns)"

definition sql_q :: "string \<Rightarrow> string \<Rightarrow> string" where
  "sql_q pre query =
     (if pre = '''' \<or> pre = ''runiq'' then query else replace_all ''runiq_'' (pre @ ''_'') query)"

definition sql_tables :: "string list" where
  "sql_tables = [''jobs'', ''archived_jobs'', ''unique_locks'', ''processes'', ''cron_locks'', ''rate_limits'',
     ''batches'', ''paused_queues'', ''cron_jobs'', ''cron_schedules'', ''job_dependencies'', ''leader_leases'']"

definition sql_table :: "string \<Rightarrow> string \<Rightarrow> string" where
  "sql_table ns t = sql_q (SetNamespace_prefix ns) (''runiq_'' @ t)"

lemma sql_table_name: "t \<in> set sql_tables \<Longrightarrow> sql_table ns t = SetNamespace_prefix ns @ CHR ''_'' # t"
  by (auto simp: sql_table_def sql_q_def SetNamespace_prefix_def sql_tables_def has_prefix_def)

lemma reverse_names: "p @ c # s = p' @ c # s' \<Longrightarrow> rev s @ c # rev p = rev s' @ c # rev p'"
  by (drule arg_cong[of _ _ rev]) simp

text \<open>The code does not quote the names, so both engines ignore the case of their (ASCII) letters. A
  name may have up to 63 bytes in PostgreSQL, which cuts longer ones; namespaces are taken to be
  shorter than that.\<close>

definition folded :: "string \<Rightarrow> string" where
  "folded name = map ascii_lower name"

definition ns_folded :: "string \<Rightarrow> string" where
  "ns_folded ns = folded (SetNamespace_prefix ns)"

lemma sql_tables_folded: "list_all (\<lambda>t. folded t = t) sql_tables"
  by code_simp

lemma folded_table: "t \<in> set sql_tables \<Longrightarrow> folded (sql_table ns t) = ns_folded ns @ CHR ''_'' # t"
  using sql_tables_folded
  by (simp add: sql_table_name ns_folded_def folded_def list_all_iff ascii_lower_def Let_def)

definition nested_table :: "string \<Rightarrow> string \<Rightarrow> string \<Rightarrow> string \<Rightarrow> bool" where
  "nested_table ns t ns' t' \<longleftrightarrow> t = ''jobs'' \<and>
     (t' = ''archived_jobs'' \<and> ns_folded ns = ns_folded ns' @ ''_archived''
      \<or> t' = ''cron_jobs'' \<and> ns_folded ns = ns_folded ns' @ ''_cron'')"

lemma table_pairs:
  "filter (\<lambda>(t, t'). take (length t + 1) (rev t') = rev t @ ''_'') (List.product sql_tables sql_tables)
   = [(''jobs'', ''archived_jobs''), (''jobs'', ''cron_jobs'')]"
  by code_simp

lemma table_suffix:
  assumes "t \<in> set sql_tables" "t' \<in> set sql_tables" "rev t @ CHR ''_'' # rev p = rev t' @ CHR ''_'' # rev p'"
    "length t < length t'"
  shows "t = ''jobs'' \<and> (t' = ''archived_jobs'' \<and> p = p' @ ''_archived'' \<or> t' = ''cron_jobs'' \<and> p = p' @ ''_cron'')"
proof -
  have "take (length t + 1) (rev t @ CHR ''_'' # rev p) = rev t @ ''_''" by simp
  then have "take (length t + 1) (rev t') = rev t @ ''_''" using assms(3,4) by (simp add: take_append)
  then have "(t, t') \<in> set [(''jobs'', ''archived_jobs''), (''jobs'', ''cron_jobs'')]"
    unfolding table_pairs[symmetric] using assms(1,2) by simp
  then consider "t = ''jobs''" "t' = ''archived_jobs''" | "t = ''jobs''" "t' = ''cron_jobs''" by auto
  then show ?thesis
  proof cases
    case 1
    then have "rev p = rev (p' @ ''_archived'')" using assms(3) by simp
    then have "p = p' @ ''_archived''" unfolding rev_is_rev_conv .
    with 1 show ?thesis by simp
  next
    case 2
    then have "rev p = rev (p' @ ''_cron'')" using assms(3) by simp
    then have "p = p' @ ''_cron''" unfolding rev_is_rev_conv .
    with 2 show ?thesis by simp
  qed
qed

text \<open>C36: Two namespaces share a table only if they differ at most in case, or one is the other with
  \<open>_archived\<close> or \<open>_cron\<close> behind it: then its jobs are the other's archive or cron table.\<close>

theorem namespaces_share_no_table:
  assumes "t \<in> set sql_tables" "t' \<in> set sql_tables" "folded (sql_table ns t) = folded (sql_table ns' t')"
  shows "ns_folded ns = ns_folded ns' \<and> t = t' \<or> nested_table ns t ns' t' \<or> nested_table ns' t' ns t"
proof -
  have "rev t @ CHR ''_'' # rev (ns_folded ns) = rev t' @ CHR ''_'' # rev (ns_folded ns')"
    using assms(3) unfolding folded_table[OF assms(1)] folded_table[OF assms(2)] by (rule reverse_names)
  note eq = this
  show ?thesis
  proof (rule linorder_cases[of "length t" "length t'"])
    assume "length t = length t'"
    then have "rev t = rev t' \<and> rev (ns_folded ns) = rev (ns_folded ns')" using eq by simp
    then show ?thesis unfolding rev_is_rev_conv by simp
  next
    assume "length t < length t'"
    from table_suffix[OF assms(1,2) eq this] show ?thesis unfolding nested_table_def by (intro disjI2 disjI1)
  next
    assume "length t' < length t"
    from table_suffix[OF assms(2,1) eq[symmetric] this] show ?thesis unfolding nested_table_def by (intro disjI2)
  qed
qed

section \<open>Redis keys\<close>

definition redis_k :: "string \<Rightarrow> string \<Rightarrow> string" where
  "redis_k pre key =
     (if pre = '''' \<or> pre = ''runiq'' then key else replace_first ''runiq:'' (pre @ '':'') key)"

text \<open>Every key the code builds, with its arguments.\<close>

datatype redis_key =
    KJobs | KArchivedJobs | KErrors | KQueues | KPausedQueues | KProcessedTTL | KDeadTTL | KLeader
  | KProcesses | KHeartbeat | KBatchesExpire | KCronJobs | KCronSchedules
  | KQueue string | KScheduled string | KActive string | KProcessed string | KFailed string | KDead string
  | KProcessedCount string | KDeadCount string | KUnique string string | KRateLimit string | KBatch string
  | KDependents string | KDependencies string | KCronLock string int

fun key_rest :: "redis_key \<Rightarrow> string" where
  "key_rest KJobs = ''jobs''"
| "key_rest KArchivedJobs = ''archived_jobs''"
| "key_rest KErrors = ''errors''"
| "key_rest KQueues = ''queues''"
| "key_rest KPausedQueues = ''paused_queues''"
| "key_rest KProcessedTTL = ''processed_ttl''"
| "key_rest KDeadTTL = ''dead_ttl''"
| "key_rest KLeader = ''leader''"
| "key_rest KProcesses = ''processes''"
| "key_rest KHeartbeat = ''processes:heartbeat''"
| "key_rest KBatchesExpire = ''batches:expire''"
| "key_rest KCronJobs = ''cron_jobs''"
| "key_rest KCronSchedules = ''cron_schedules''"
| "key_rest (KQueue q) = ''queue:'' @ q"
| "key_rest (KScheduled q) = ''scheduled:'' @ q"
| "key_rest (KActive q) = ''active:'' @ q"
| "key_rest (KProcessed q) = ''processed:'' @ q"
| "key_rest (KFailed q) = ''failed:'' @ q"
| "key_rest (KDead q) = ''dead:'' @ q"
| "key_rest (KProcessedCount q) = ''processed_count:'' @ q"
| "key_rest (KDeadCount q) = ''dead_count:'' @ q"
| "key_rest (KUnique q k) = ''unique:'' @ q @ '':'' @ k"
| "key_rest (KRateLimit n) = ''ratelimit:'' @ n"
| "key_rest (KBatch b) = ''batch:'' @ b"
| "key_rest (KDependents j) = ''job:'' @ j @ '':dependents''"
| "key_rest (KDependencies j) = ''job:'' @ j @ '':dependencies''"
| "key_rest (KCronLock n m) = ''cron:lock:'' @ n @ '':'' @ Itoa m"

definition redis_name :: "string \<Rightarrow> redis_key \<Rightarrow> string" where
  "redis_name ns key = redis_k (SetNamespace_prefix ns) (''runiq:'' @ key_rest key)"

lemma redis_name_eq: "redis_name ns key = SetNamespace_prefix ns @ CHR '':'' # key_rest key"
  by (auto simp: redis_name_def redis_k_def SetNamespace_prefix_def has_prefix_def)

text \<open>A key can be read back, but for where the queue of a unique job's lock ends.\<close>

definition joined :: "redis_key \<Rightarrow> redis_key" where
  "joined a = (case a of KUnique q k \<Rightarrow> KUnique (q @ '':'' @ k) '''' | _ \<Rightarrow> a)"

definition same_redis_key :: "redis_key \<Rightarrow> redis_key \<Rightarrow> bool" where
  "same_redis_key a b \<longleftrightarrow> joined a = joined b"

definition before_colon :: "string \<Rightarrow> string" where
  "before_colon s = takeWhile (\<lambda>c. c \<noteq> CHR '':'') s"

definition after_colon :: "string \<Rightarrow> string" where
  "after_colon s = tl (dropWhile (\<lambda>c. c \<noteq> CHR '':'') s)"

definition read_int :: "string \<Rightarrow> int" where
  "read_int s = (if hd s = CHR ''-'' then - int (the (parse_nat (tl s))) else int (the (parse_nat s)))"

definition read_key :: "string \<Rightarrow> redis_key" where
  "read_key s = (let f = before_colon s; r = after_colon s in
     if f = ''jobs'' then KJobs else if f = ''archived_jobs'' then KArchivedJobs
     else if f = ''errors'' then KErrors else if f = ''queues'' then KQueues
     else if f = ''paused_queues'' then KPausedQueues else if f = ''processed_ttl'' then KProcessedTTL
     else if f = ''dead_ttl'' then KDeadTTL else if f = ''leader'' then KLeader
     else if f = ''processes'' then (if r = '''' then KProcesses else KHeartbeat)
     else if f = ''batches'' then KBatchesExpire
     else if f = ''cron_jobs'' then KCronJobs else if f = ''cron_schedules'' then KCronSchedules
     else if f = ''queue'' then KQueue r else if f = ''scheduled'' then KScheduled r
     else if f = ''active'' then KActive r else if f = ''processed'' then KProcessed r
     else if f = ''failed'' then KFailed r else if f = ''dead'' then KDead r
     else if f = ''processed_count'' then KProcessedCount r else if f = ''dead_count'' then KDeadCount r
     else if f = ''unique'' then KUnique r '''' else if f = ''ratelimit'' then KRateLimit r
     else if f = ''batch'' then KBatch r
     else if f = ''job''
     then (if before_colon (rev r) = rev ''dependents'' then KDependents (rev (after_colon (rev r)))
           else KDependencies (rev (after_colon (rev r))))
     else (let l = rev (after_colon r) in KCronLock (rev (after_colon l)) (read_int (rev (before_colon l)))))"

lemma colon_pieces:
  "CHR '':'' \<notin> set p \<Longrightarrow> before_colon (p @ CHR '':'' # s) = p"
  "CHR '':'' \<notin> set p \<Longrightarrow> after_colon (p @ CHR '':'' # s) = s"
  by (induction p) (auto simp: before_colon_def after_colon_def)

lemma colon_words:
  "before_colon (c # s) = (if c = CHR '':'' then [] else c # before_colon s)" "before_colon [] = []"
  "after_colon (c # s) = (if c = CHR '':'' then s else after_colon s)" "after_colon [] = []"
  by (auto simp: before_colon_def after_colon_def)

lemma Itoa_no_colon: "CHR '':'' \<notin> set (Itoa m)"
  using itoa_nat_char_range[of "CHR '':''"] by (auto simp: Itoa_def)

lemma read_int_Itoa: "read_int (Itoa m) = m"
proof (cases "m < 0")
  case False
  then have "hd (itoa_nat (nat m)) \<noteq> CHR ''-''"
    using itoa_nat_not_in[of "CHR ''-''" "nat m"] hd_in_set[OF itoa_nat_neq_Nil[of "nat m"]] by (cases "itoa_nat (nat m)") auto
  with False show ?thesis by (simp add: read_int_def Itoa_def)
qed (simp add: read_int_def Itoa_def)

lemma read_key_rest: "read_key (key_rest a) = joined a"
proof (cases a)
  case (KCronLock n m)
  have "rev (n @ CHR '':'' # Itoa m) = rev (Itoa m) @ CHR '':'' # rev n" by simp
  then show ?thesis using Itoa_no_colon[of m]
    by (simp add: KCronLock joined_def read_key_def colon_words colon_pieces read_int_Itoa Let_def)
qed (simp_all add: joined_def read_key_def colon_words Let_def)

lemma key_rest_inject: "key_rest a = key_rest b \<longleftrightarrow> same_redis_key a b"
proof
  show "key_rest a = key_rest b \<Longrightarrow> same_redis_key a b"
    unfolding same_redis_key_def by (metis read_key_rest)
  show "same_redis_key a b \<Longrightarrow> key_rest a = key_rest b"
    by (auto simp: same_redis_key_def joined_def split: redis_key.splits)
qed

text \<open>C37: Two namespaces without a colon share no key, and in one namespace two keys are the same only if
  they are meant to be, or are locks of the same joined name.\<close>

theorem redis_keys_apart:
  assumes "CHR '':'' \<notin> set ns" "CHR '':'' \<notin> set ns'"
  shows "redis_name ns a = redis_name ns' b
    \<longleftrightarrow> SetNamespace_prefix ns = SetNamespace_prefix ns' \<and> same_redis_key a b"
proof -
  have "CHR '':'' \<notin> set (SetNamespace_prefix ns)" "CHR '':'' \<notin> set (SetNamespace_prefix ns')"
    using assms by (auto simp: SetNamespace_prefix_def)
  then have "SetNamespace_prefix ns @ CHR '':'' # key_rest a = SetNamespace_prefix ns' @ CHR '':'' # key_rest b
    \<longleftrightarrow> SetNamespace_prefix ns = SetNamespace_prefix ns' \<and> key_rest a = key_rest b"
    by (metis colon_pieces)
  then show ?thesis by (simp add: redis_name_eq key_rest_inject)
qed


text \<open>Without the side conditions they meet: the jobs of the namespace \<open>a_archived\<close> are the archive of \<open>a\<close>,
  \<open>A\<close> and \<open>a\<close> have the same tables, and the key of all jobs of \<open>a:queue\<close> is the key of the queue \<open>jobs\<close>
  of \<open>a\<close>.\<close>

theorem namespaces_meet:
  "folded (sql_table ''a_archived'' ''jobs'') = folded (sql_table ''a'' ''archived_jobs'')
   \<and> folded (sql_table ''A'' ''jobs'') = folded (sql_table ''a'' ''jobs'')
   \<and> redis_name ''a:queue'' KJobs = redis_name ''a'' (KQueue ''jobs'')"
  by code_simp

theorem namespaces_share_no_table_witness:
  "nested_table ''A_archived'' ''jobs'' ''a'' ''archived_jobs'' \<or> nested_table ''a'' ''archived_jobs'' ''A_archived'' ''jobs''
    \<or> ns_folded ''A_archived'' = ns_folded ''a'' \<and> ''jobs'' = ''archived_jobs''"
proof -
  have "folded (sql_table ''A_archived'' ''jobs'') = folded (sql_table ''a'' ''archived_jobs'')" by code_simp
  from namespaces_share_no_table[OF _ _ this] show ?thesis by (simp add: sql_tables_def)
qed

theorem redis_keys_apart_witness:
  "redis_name ''a'' (KQueue ''q'') \<noteq> redis_name ''b'' (KQueue ''q'')
   \<and> redis_name ''a'' (KUnique ''q:r'' ''k'') = redis_name ''a'' (KUnique ''q'' ''r:k'')"
  using redis_keys_apart[of "''a''" "''b''" "KQueue ''q''" "KQueue ''q''"]
    redis_keys_apart[of "''a''" "''a''" "KUnique ''q:r'' ''k''" "KUnique ''q'' ''r:k''"]
  by (simp add: SetNamespace_prefix_def same_redis_key_def joined_def)

end
