(* ===== verification/Schema.thy ===== *)
theory Schema
  imports Namespaces SqlLogic
begin

text \<open>
  The tables the SQL backends create and migrate when they start, \<open>initTables\<close> and \<open>runMigrations\<close> of
  \<open>sqlite.go\<close> and \<open>postgres.go\<close>. The state is the catalogue: the columns of each table, in their order;
  types, defaults and indices carry no more here. As in the other theories a schedule says which
  statements fail. Names are rewritten to the namespace by \<open>sql_q\<close>;
  a catalogue has no two names that differ only in case. A start adds to the tables of an earlier
  release the columns of \<open>migrations\<close> and no others, which \<open>schema_upgrade\<close> states exactly; a namespace
  that is no SQL name gets no tables.
\<close>

section \<open>Statements\<close>

type_synonym catalog = "string \<rightharpoonup> string list"

datatype ddl =
    CreateTable string "string list"
  | CreateIndex string "string list"
  | AddColumn string string

definition create_table :: "string \<Rightarrow> string list \<Rightarrow> catalog \<Rightarrow> catalog" where
  "create_table t cols c = (case c t of None \<Rightarrow> c(t \<mapsto> cols) | Some v \<Rightarrow> c)"

definition with_column :: "string \<Rightarrow> string list \<Rightarrow> string list" where
  "with_column col v = (if col \<in> set v then v else v @ [col])"

definition add_column :: "string \<Rightarrow> string \<Rightarrow> catalog \<Rightarrow> catalog" where
  "add_column t col c = (case c t of None \<Rightarrow> c | Some v \<Rightarrow> c(t \<mapsto> with_column col v))"

text \<open>The namespace goes into the statements as it is, without quotes. Both engines read a letter, an
  underscore or a byte above 127, followed by these, digits and dollar signs, as a name; with any
  other character the statement does not parse (texts that make another statement of it, with a
  dot, quotes or a comment, are outside the model).\<close>

definition name_start :: "char \<Rightarrow> bool" where
  "name_start ch = (let n = (of_char ch :: nat) in
     65 \<le> n \<and> n \<le> 90 \<or> 97 \<le> n \<and> n \<le> 122 \<or> n = 95 \<or> 128 \<le> n)"

definition name_char :: "char \<Rightarrow> bool" where
  "name_char ch = (name_start ch \<or> (let n = (of_char ch :: nat) in 48 \<le> n \<and> n \<le> 57 \<or> n = 36))"

definition sql_name :: "string \<Rightarrow> bool" where
  "sql_name s = (case s of [] \<Rightarrow> False | ch # rest \<Rightarrow> name_start ch \<and> list_all name_char rest)"

text \<open>\<open>CREATE ... IF NOT EXISTS\<close> in both; \<open>ALTER TABLE ... ADD COLUMN\<close> of a column that is there is an
  error in SQLite, and nothing with PostgreSQL's \<open>IF NOT EXISTS\<close>.\<close>

definition ddl_table :: "ddl \<Rightarrow> string" where
  "ddl_table s = (case s of CreateTable t cols \<Rightarrow> t | CreateIndex t cols \<Rightarrow> t | AddColumn t col \<Rightarrow> t)"

definition run_ddl :: "bool \<Rightarrow> (string \<Rightarrow> string) \<Rightarrow> ddl \<Rightarrow> (catalog, unit) eff" where
  "run_ddl if_not_exists q s =
     (if \<not> sql_name (q (ddl_table s)) then engine (\<lambda>c. (Inl ErrEngine, c))
      else case s of
     CreateTable t cols \<Rightarrow> exec (create_table (q t) cols)
   | CreateIndex t cols \<Rightarrow> engine (\<lambda>c. case c (q t) of
       None \<Rightarrow> (Inl ErrEngine, c)
     | Some v \<Rightarrow> if set cols \<subseteq> set v then (Inr (), c) else (Inl ErrEngine, c))
   | AddColumn t col \<Rightarrow> engine (\<lambda>c. case c (q t) of
       None \<Rightarrow> (Inl ErrEngine, c)
     | Some v \<Rightarrow> if col \<in> set v \<and> \<not> if_not_exists then (Inl ErrEngine, c) else (Inr (), add_column (q t) col c)))"

section \<open>The schema\<close>

definition job_base_columns :: "string list" where
  "job_base_columns = [''job_id'', ''queue'', ''name'', ''args'', ''trace_id'', ''span_id'', ''status'', ''attempts'',
     ''max_attempts'', ''error_message'', ''created_at'', ''updated_at'', ''locked_at'', ''run_at'', ''unique_key'',
     ''batch_id'']"

definition sqliteTables :: "ddl list" where
  "sqliteTables =
     [CreateTable ''runiq_jobs'' (job_base_columns @ [''priority'', ''tags'']),
      CreateTable ''runiq_archived_jobs'' (job_base_columns @ [''priority'', ''tags'']),
      CreateTable ''runiq_unique_locks'' [''lock_key'', ''job_id'', ''expires_at''],
      CreateTable ''runiq_processes''
        [''process_id'', ''concurrency'', ''queues'', ''heartbeat_at'', ''min_concurrency'', ''max_concurrency''],
      CreateTable ''runiq_cron_locks'' [''cron_name'', ''execution_minute'', ''acquired_at''],
      CreateTable ''runiq_rate_limits'' [''job_name'', ''request_timestamp''],
      CreateIndex ''runiq_rate_limits'' [''job_name'', ''request_timestamp''],
      CreateTable ''runiq_batches'' [''batch_id'', ''callback_queue'', ''callback_name'', ''callback_args'',
        ''total_jobs'', ''pending_jobs'', ''status'', ''expires_at'', ''created_at''],
      CreateTable ''runiq_paused_queues'' [''queue''],
      CreateTable ''runiq_cron_jobs'' [''name'', ''expression'', ''queue'', ''payload'', ''timezone'', ''updated_at''],
      CreateTable ''runiq_cron_schedules''
        [''name'', ''spec'', ''queue'', ''payload'', ''timezone'', ''paused'', ''created_at'', ''updated_at''],
      CreateTable ''runiq_job_dependencies'' [''job_id'', ''parent_job_id''],
      CreateTable ''runiq_leader_leases'' [''lease_key'', ''holder_id'', ''expires_at'']]"

definition postgresTables :: "ddl list" where
  "postgresTables =
     [CreateTable ''runiq_jobs'' (job_base_columns @ [''priority'', ''tags'']),
      CreateTable ''runiq_archived_jobs'' (job_base_columns @ [''priority'', ''tags'']),
      CreateTable ''runiq_unique_locks'' [''lock_key'', ''job_id'', ''expires_at''],
      CreateTable ''runiq_processes''
        [''process_id'', ''concurrency'', ''queues'', ''heartbeat_at'', ''min_concurrency'', ''max_concurrency''],
      CreateTable ''runiq_cron_locks'' [''cron_name'', ''execution_minute'', ''acquired_at''],
      CreateTable ''runiq_rate_limits'' [''job_name'', ''request_timestamp''],
      CreateIndex ''runiq_rate_limits'' [''job_name'', ''request_timestamp''],
      CreateTable ''runiq_batches'' [''batch_id'', ''callback_queue'', ''callback_name'', ''callback_args'',
        ''total_jobs'', ''pending_jobs'', ''status'', ''expires_at'', ''created_at''],
      CreateTable ''runiq_paused_queues'' [''queue''],
      CreateTable ''runiq_cron_jobs'' [''name'', ''expression'', ''queue'', ''payload'', ''timezone'', ''updated_at''],
      CreateTable ''runiq_cron_schedules''
        [''name'', ''spec'', ''queue'', ''payload'', ''timezone'', ''paused'', ''created_at'', ''updated_at''],
      CreateTable ''runiq_job_dependencies'' [''job_id'', ''parent_job_id''],
      CreateTable ''runiq_leader_leases'' [''lease_key'', ''holder_id'', ''expires_at'']]"

definition migrations :: "(string \<times> string) list" where
  "migrations =
     [(''runiq_jobs'', ''priority''), (''runiq_jobs'', ''tags''), (''runiq_archived_jobs'', ''priority''),
      (''runiq_archived_jobs'', ''tags''), (''runiq_batches'', ''expires_at''), (''runiq_cron_jobs'', ''timezone''),
      (''runiq_processes'', ''min_concurrency''), (''runiq_processes'', ''max_concurrency'')]"

section \<open>Starting a backend\<close>

text \<open>The errors of the migrations are dropped, as those of the pragmas.\<close>

definition Sqlite_runMigrations :: "string \<Rightarrow> (catalog, unit) eff" where
  "Sqlite_runMigrations pre = forS (\<lambda>(t, col). ignoreS (run_ddl False (sql_q pre) (AddColumn t col))) migrations"

definition Sqlite_initTables :: "string \<Rightarrow> (catalog, unit) eff" where
  "Sqlite_initTables pre =
     thenS (forS (run_ddl False (sql_q pre)) sqliteTables) (thenS (Sqlite_runMigrations pre) (ret ()))"

definition NewSqliteStorage :: "(catalog, string) eff" where
  "NewSqliteStorage =
     thenS (ignoreS (exec (\<lambda>c. c))) (thenS (ignoreS (exec (\<lambda>c. c))) (thenS (Sqlite_initTables ''runiq'') (ret ''runiq'')))"

definition Sqlite_SetNamespace :: "string \<Rightarrow> (catalog, string) eff" where
  "Sqlite_SetNamespace ns =
     (let pre = SetNamespace_prefix ns in thenS (ignoreS (Sqlite_initTables pre)) (ret pre))"

definition Postgres_runMigrations :: "string \<Rightarrow> (catalog, unit) eff" where
  "Postgres_runMigrations pre = forS (\<lambda>(t, col). ignoreS (run_ddl True (sql_q pre) (AddColumn t col))) migrations"

definition Postgres_initTables :: "string \<Rightarrow> (catalog, unit) eff" where
  "Postgres_initTables pre =
     thenS (forS (run_ddl True (sql_q pre)) postgresTables) (thenS (Postgres_runMigrations pre) (ret ()))"

definition NewPostgresStorage :: "(catalog, string) eff" where
  "NewPostgresStorage = thenS (Postgres_initTables ''runiq'') (ret ''runiq'')"

definition Postgres_SetNamespace :: "string \<Rightarrow> (catalog, string) eff" where
  "Postgres_SetNamespace ns =
     (let pre = SetNamespace_prefix ns in thenS (ignoreS (Postgres_initTables pre)) (ret pre))"


section \<open>What a start does to the catalogue\<close>

definition ddl_effect :: "(string \<Rightarrow> string) \<Rightarrow> ddl \<Rightarrow> catalog \<Rightarrow> catalog" where
  "ddl_effect q s = (case s of
     CreateTable t cols \<Rightarrow> create_table (q t) cols
   | CreateIndex t cols \<Rightarrow> (\<lambda>c. c)
   | AddColumn t col \<Rightarrow> add_column (q t) col)"

fun created :: "(string \<Rightarrow> string) \<Rightarrow> ddl \<Rightarrow> (string \<times> string list) list" where
  "created q (CreateTable t cols) = [(q t, cols)]"
| "created q s = []"

definition adds :: "(string \<Rightarrow> string) \<Rightarrow> string \<Rightarrow> string list" where
  "adds q n = map snd (filter (\<lambda>(t, col). q t = n) migrations)"

lemma create_tables:
  "list_all (\<lambda>s. \<not> (\<exists>t col. s = AddColumn t col)) ss \<Longrightarrow>
   fold (ddl_effect q) ss c n = (case c n of Some v \<Rightarrow> Some v | None \<Rightarrow> map_of (concat (map (created q) ss)) n)"
proof (induction ss arbitrary: c)
  case (Cons s ss)
  then show ?case
    by (cases s) (auto simp: ddl_effect_def create_table_def split: option.splits)
qed (simp split: option.split)

lemma add_columns:
  "fold (\<lambda>(t, col). add_column (q t) col) ms c n
   = map_option (fold with_column (map snd (filter (\<lambda>(t, col). q t = n) ms))) (c n)"
proof (induction ms arbitrary: c)
  case (Cons m ms)
  then show ?case by (cases m) (auto simp: add_column_def split: option.splits)
qed (simp add: option.map_id0)

lemma migration_run:
  "sql_name (q t) \<Longrightarrow>
     ignoreS (run_ddl b q (AddColumn t col)) (c, []) = Some (Inr (), (add_column (q t) col c, []))"
  by (auto simp: run_simps run_ddl_def ddl_table_def engine_def add_column_def with_column_def fun_upd_idem
      split: option.split)

lemma migrations_run:
  "list_all (\<lambda>m. sql_name (q (fst m))) ms \<Longrightarrow>
   forS (\<lambda>(t, col). ignoreS (run_ddl b q (AddColumn t col))) ms (c, [])
   = Some (Inr (), (fold (\<lambda>(t, col). add_column (q t) col) ms c, []))"
proof (induction ms arbitrary: c)
  case (Cons m ms)
  obtain t col where m: "m = (t, col)" by (cases m)
  show ?case using Cons.IH[of "add_column (q t) col c"] Cons.prems by (simp add: m then_run migration_run)
qed (simp add: run_simps)

lemma tables_run:
  assumes "list_all (\<lambda>s. \<exists>t cols. s = CreateTable t cols \<and> sql_name (q t)) ss"
  shows "forS (run_ddl b q) (ss @ rest) (c, []) = forS (run_ddl b q) rest (fold (ddl_effect q) ss c, [])"
  using assms
  by (induction ss arbitrary: c) (auto simp: then_run run_ddl_def ddl_table_def exec_run ddl_effect_def)

lemma ddl_refused: "\<not> sql_name (q (ddl_table s)) \<Longrightarrow> run_ddl b q s (c, []) = Some (Inl ErrEngine, (c, []))"
  by (simp add: run_ddl_def engine_def)

lemma sql_name_append: "sql_name pre \<Longrightarrow> list_all name_char t \<Longrightarrow> sql_name (pre @ t)"
  by (auto simp: sql_name_def split: list.splits)

lemma sql_name_prefix: "sql_name (pre @ t) \<Longrightarrow> pre \<noteq> '''' \<Longrightarrow> sql_name pre"
  by (cases pre) (auto simp: sql_name_def)

text \<open>The catalogue after a start in which nothing fails.\<close>

definition upgraded :: "(string \<Rightarrow> string) \<Rightarrow> catalog \<Rightarrow> catalog" where
  "upgraded q c n = map_option (fold with_column (adds q n))
     (case c n of Some v \<Rightarrow> Some v | None \<Rightarrow> map_of (concat (map (created q) sqliteTables)) n)"

text \<open>The columns that a start adds to a table that lacks them: the priorities and tags of jobs, the
  expiry of batches, the time zones of cron jobs and the bounds of the processes' concurrency.\<close>

definition start_adds :: "string \<Rightarrow> string set" where
  "start_adds t =
     (if t = ''runiq_jobs'' \<or> t = ''runiq_archived_jobs'' then {''priority'', ''tags''}
      else if t = ''runiq_batches'' then {''expires_at''}
      else if t = ''runiq_cron_jobs'' then {''timezone''}
      else if t = ''runiq_processes'' then {''min_concurrency'', ''max_concurrency''}
      else {})"

lemma start_adds_migrations: "set (map snd (filter (\<lambda>m. fst m = t) migrations)) = start_adds t"
  by (auto simp: start_adds_def migrations_def)

text \<open>The one index a start makes needs its columns in a table that is there already.\<close>

definition index_possible :: "(string \<Rightarrow> string) \<Rightarrow> catalog \<Rightarrow> bool" where
  "index_possible q c = (case c (q ''runiq_rate_limits'') of None \<Rightarrow> True
     | Some v \<Rightarrow> {''job_name'', ''request_timestamp''} \<subseteq> set v)"

lemma table_text [simp]:
  assumes "pre \<noteq> ''''"
  shows "sql_q pre ''runiq_jobs'' = pre @ ''_jobs''" "sql_q pre ''runiq_archived_jobs'' = pre @ ''_archived_jobs''"
    "sql_q pre ''runiq_unique_locks'' = pre @ ''_unique_locks''" "sql_q pre ''runiq_processes'' = pre @ ''_processes''"
    "sql_q pre ''runiq_cron_locks'' = pre @ ''_cron_locks''" "sql_q pre ''runiq_rate_limits'' = pre @ ''_rate_limits''"
    "sql_q pre ''runiq_batches'' = pre @ ''_batches''" "sql_q pre ''runiq_paused_queues'' = pre @ ''_paused_queues''"
    "sql_q pre ''runiq_cron_jobs'' = pre @ ''_cron_jobs''" "sql_q pre ''runiq_cron_schedules'' = pre @ ''_cron_schedules''"
    "sql_q pre ''runiq_job_dependencies'' = pre @ ''_job_dependencies''"
    "sql_q pre ''runiq_leader_leases'' = pre @ ''_leader_leases''"
  using assms by (auto simp: sql_q_def has_prefix_def)

lemma table_names_parse:
  assumes "sql_name pre"
  shows "list_all (\<lambda>s. sql_name (sql_q pre (ddl_table s))) sqliteTables"
    and "list_all (\<lambda>m. sql_name (sql_q pre (fst m))) migrations"
proof -
  have pre: "pre \<noteq> ''''" using assms by (auto simp: sql_name_def)
  show "list_all (\<lambda>s. sql_name (sql_q pre (ddl_table s))) sqliteTables"
    and "list_all (\<lambda>m. sql_name (sql_q pre (fst m))) migrations"
    by (simp_all add: sqliteTables_def migrations_def ddl_table_def pre sql_name_append[OF assms]
        name_char_def name_start_def)
qed

lemma named_tables:
  "list_all (\<lambda>s. \<exists>t cols. s = CreateTable t cols) ts \<Longrightarrow> list_all (\<lambda>s. sql_name (q (ddl_table s))) ts
    \<Longrightarrow> list_all (\<lambda>s. \<exists>t cols. s = CreateTable t cols \<and> sql_name (q t)) ts"
  by (induction ts) (auto simp: ddl_table_def)

lemma sqlite_tables_run:
  assumes "sql_name pre" "index_possible (sql_q pre) c"
  shows "forS (run_ddl b (sql_q pre)) sqliteTables (c, [])
    = Some (Inr (), (fold (ddl_effect (sql_q pre)) sqliteTables c, []))"
proof -
  have pre: "pre \<noteq> ''''" using assms(1) by (auto simp: sql_name_def)
  define ts us where "ts = take 6 sqliteTables" and "us = drop 7 sqliteTables"
  have split: "sqliteTables = ts @ CreateIndex ''runiq_rate_limits'' [''job_name'', ''request_timestamp''] # us"
    by (simp add: sqliteTables_def ts_def us_def)
  have tabs: "list_all (\<lambda>s. \<exists>t cols. s = CreateTable t cols) ts" "list_all (\<lambda>s. \<exists>t cols. s = CreateTable t cols) us"
    by (simp_all add: sqliteTables_def ts_def us_def)
  have parts: "list_all (\<lambda>s. sql_name (sql_q pre (ddl_table s))) ts"
    "list_all (\<lambda>s. sql_name (sql_q pre (ddl_table s))) us"
    "sql_name (sql_q pre (ddl_table (CreateIndex ''runiq_rate_limits'' [''job_name'', ''request_timestamp''])))"
    using table_names_parse(1)[OF assms(1)] unfolding split list_all_append list.pred_inject(2) by blast+
  then have rl: "sql_name (pre @ ''_rate_limits'')" using pre by (simp add: ddl_table_def)
  note named = named_tables[of _ "sql_q pre", OF tabs(1) parts(1)] named_tables[of _ "sql_q pre", OF tabs(2) parts(2)] rl
  have old: "case c (pre @ ''_rate_limits'') of None \<Rightarrow> True | Some v \<Rightarrow> {''job_name'', ''request_timestamp''} \<subseteq> set v"
    using assms(2) pre by (simp add: index_possible_def)
  have "fold (ddl_effect (sql_q pre)) ts c (pre @ ''_rate_limits'')
      = (case c (pre @ ''_rate_limits'') of Some v \<Rightarrow> Some v | None \<Rightarrow> Some [''job_name'', ''request_timestamp''])"
    using pre by (subst create_tables) (simp_all add: sqliteTables_def ts_def split: option.split)
  with old have idx: "run_ddl b (sql_q pre) (CreateIndex ''runiq_rate_limits'' [''job_name'', ''request_timestamp''])
      (fold (ddl_effect (sql_q pre)) ts c, []) = Some (Inr (), (fold (ddl_effect (sql_q pre)) ts c, []))"
    using pre named(3) by (auto simp: run_ddl_def ddl_table_def engine_def split: option.splits)
  have rest: "forS (run_ddl b (sql_q pre)) us (c', []) = Some (Inr (), (fold (ddl_effect (sql_q pre)) us c', []))" for c'
    using tables_run[OF named(2), of b "[]" c'] by (simp add: run_simps)
  show ?thesis
    unfolding split tables_run[OF named(1)] by (simp add: then_run idx rest) (simp add: ddl_effect_def)
qed


lemma migrated_columns:
  "list_all (\<lambda>(t, cols). list_all (\<lambda>col. col \<in> set cols) (map snd (filter (\<lambda>m. fst m = t) migrations)))
     (concat (map (created (\<lambda>t. t)) sqliteTables))"
  by code_simp

definition schema_names :: "(string \<Rightarrow> string) \<Rightarrow> string set" where
  "schema_names q = set (map fst (concat (map (created q) sqliteTables)))"

lemma schema_names_tables: "schema_names (\<lambda>t. t) = (@) ''runiq_'' ` set sql_tables"
proof -
  have "map fst (concat (map (created (\<lambda>t. t)) sqliteTables)) = map ((@) ''runiq_'') sql_tables"
    by code_simp
  then show ?thesis unfolding schema_names_def by (metis set_map)
qed

lemma migrated_tables: "m \<in> set migrations \<Longrightarrow> fst m \<in> schema_names (\<lambda>t. t)"
proof -
  have "list_all (\<lambda>m. fst m \<in> (@) ''runiq_'' ` set sql_tables) migrations" by code_simp
  then show "m \<in> set migrations \<Longrightarrow> fst m \<in> schema_names (\<lambda>t. t)"
    unfolding schema_names_tables list_all_iff by (rule bspec)
qed

lemma table_texts_differ: "pre \<noteq> '''' \<Longrightarrow> inj_on (sql_q pre) (schema_names (\<lambda>t. t))"
proof -
  assume "pre \<noteq> ''''"
  then have "SetNamespace_prefix pre = pre" by (simp add: SetNamespace_prefix_def)
  then have "sql_q pre (''runiq_'' @ t) = pre @ CHR ''_'' # t" if "t \<in> set sql_tables" for t
    using sql_table_name[OF that, of pre] by (simp only: sql_table_def)
  then show ?thesis unfolding schema_names_tables inj_on_def by (auto simp del: append_Cons append_Nil)
qed

lemma table_names_distinct: "distinct (map fst (concat (map (created (\<lambda>t. t)) sqliteTables)))"
  by code_simp

lemma created_names: "map fst (concat (map (created q) ss)) = map q (map fst (concat (map (created (\<lambda>t. t)) ss)))"
proof (induction ss)
  case (Cons s ss)
  then show ?case by (cases s) simp_all
qed simp

lemma schema_names_image: "schema_names q = q ` schema_names (\<lambda>t. t)"
  unfolding schema_names_def by (subst created_names) (rule set_map)

lemma table_facts:
  assumes "pre \<noteq> ''''" "CreateTable t cols \<in> set sqliteTables"
  shows "map_of (concat (map (created (sql_q pre)) sqliteTables)) (sql_q pre t) = Some cols"
    and "adds (sql_q pre) (sql_q pre t) = map snd (filter (\<lambda>m. fst m = t) migrations)"
    and "set (map snd (filter (\<lambda>m. fst m = t) migrations)) \<subseteq> set cols"
proof -
  have mem: "(t, cols) \<in> set (concat (map (created (\<lambda>t. t)) sqliteTables))"
    using assms(2) by (fastforce intro: bexI[of _ "CreateTable t cols"])
  show "map_of (concat (map (created (sql_q pre)) sqliteTables)) (sql_q pre t) = Some cols"
  proof (rule map_of_is_SomeI)
    show "distinct (map fst (concat (map (created (sql_q pre)) sqliteTables)))"
      by (subst created_names, subst distinct_map)
        (rule conjI[OF table_names_distinct table_texts_differ[OF assms(1), unfolded schema_names_def]])
    show "(sql_q pre t, cols) \<in> set (concat (map (created (sql_q pre)) sqliteTables))"
      using assms(2) by (fastforce intro: bexI[of _ "CreateTable t cols"])
  qed
  show "adds (sql_q pre) (sql_q pre t) = map snd (filter (\<lambda>m. fst m = t) migrations)"
  proof -
    have "t \<in> schema_names (\<lambda>t. t)" using mem unfolding schema_names_def set_map by force
    then have "(case m of (t', col) \<Rightarrow> sql_q pre t' = sql_q pre t) \<longleftrightarrow> fst m = t" if "m \<in> set migrations" for m
      using inj_onD[OF table_texts_differ[OF assms(1)] _ migrated_tables[OF that]] by (cases m) auto
    then show ?thesis unfolding adds_def by (intro arg_cong[of _ _ "map snd"] filter_cong refl)
  qed
  show "set (map snd (filter (\<lambda>m. fst m = t) migrations)) \<subseteq> set cols"
    using bspec[OF migrated_columns[unfolded list_all_iff[of "\<lambda>(t, cols). _ t cols"]] mem]
    unfolding prod.case list_all_iff subset_iff by blast
qed

lemma init_effect:
  "fold (\<lambda>(t, col). add_column (q t) col) migrations (fold (ddl_effect q) sqliteTables c) = upgraded q c"
proof (rule ext)
  fix n
  have "list_all (\<lambda>s. \<not> (\<exists>t col. s = AddColumn t col)) sqliteTables" by (simp add: sqliteTables_def)
  from create_tables[OF this]
  show "fold (\<lambda>(t, col). add_column (q t) col) migrations (fold (ddl_effect q) sqliteTables c) n = upgraded q c n"
    by (simp only: add_columns upgraded_def adds_def)
qed

lemma Sqlite_init_run:
  "sql_name pre \<Longrightarrow> index_possible (sql_q pre) c
    \<Longrightarrow> Sqlite_initTables pre (c, []) = Some (Inr (), (upgraded (sql_q pre) c, []))"
  unfolding Sqlite_initTables_def Sqlite_runMigrations_def
  by (simp add: then_run ret_run sqlite_tables_run migrations_run[OF table_names_parse(2)] init_effect)

lemma Postgres_init_run:
  "sql_name pre \<Longrightarrow> index_possible (sql_q pre) c
    \<Longrightarrow> Postgres_initTables pre (c, []) = Some (Inr (), (upgraded (sql_q pre) c, []))"
  unfolding Postgres_initTables_def Postgres_runMigrations_def postgresTables_def sqliteTables_def[symmetric]
  by (simp add: then_run ret_run sqlite_tables_run migrations_run[OF table_names_parse(2)] init_effect)


lemma fold_with_column: "set (fold with_column cs v) = set v \<union> set cs"
  by (induction cs arbitrary: v) (auto simp: with_column_def)

lemma fold_with_column_idem: "set cs \<subseteq> set v \<Longrightarrow> fold with_column cs v = v"
  by (induction cs arbitrary: v) (auto simp: with_column_def)

lemma fold_with_column_prefix: "\<exists>us. fold with_column cs v = v @ us"
proof (induction cs arbitrary: v)
  case (Cons col cs)
  from Cons.IH[of "with_column col v"] obtain us where us: "fold with_column cs (with_column col v) = with_column col v @ us" ..
  obtain ws where "with_column col v = v @ ws" by (cases "col \<in> set v") (auto simp: with_column_def)
  with us show ?case by simp
qed simp

text \<open>A table that is new has the columns of the schema, in their order; one that was there keeps its
  columns and gets exactly those that a start adds.\<close>

lemma upgraded_table:
  assumes "pre \<noteq> ''''" "CreateTable t cols \<in> set sqliteTables"
  shows "case c (sql_q pre t) of
      None \<Rightarrow> upgraded (sql_q pre) c (sql_q pre t) = Some cols
    | Some v \<Rightarrow> \<exists>us. upgraded (sql_q pre) c (sql_q pre t) = Some (v @ us) \<and> set (v @ us) = set v \<union> start_adds t"
proof -
  note facts = table_facts[OF assms]
  show ?thesis
  proof (cases "c (sql_q pre t)")
    case None
    with facts show ?thesis by (simp add: upgraded_def fold_with_column_idem)
  next
    case (Some v)
    obtain us where us: "fold with_column (adds (sql_q pre) (sql_q pre t)) v = v @ us"
      using fold_with_column_prefix by blast
    moreover have "set (v @ us) = set v \<union> start_adds t"
      unfolding us[symmetric] fold_with_column facts(2) start_adds_migrations ..
    ultimately show ?thesis using Some by (auto simp: upgraded_def)
  qed
qed

lemma upgraded_index: "pre \<noteq> '''' \<Longrightarrow> index_possible (sql_q pre) c \<Longrightarrow> index_possible (sql_q pre) (upgraded (sql_q pre) c)"
  using upgraded_table[of pre "''runiq_rate_limits''" "[''job_name'', ''request_timestamp'']" c]
  by (auto simp: index_possible_def sqliteTables_def split: option.splits)


lemma upgraded_idem: "upgraded q (upgraded q c) = upgraded q c"
proof (rule ext)
  fix n
  have "fold with_column (adds q n) (fold with_column (adds q n) v) = fold with_column (adds q n) v" for v
    by (rule fold_with_column_idem) (simp add: fold_with_column)
  then show "upgraded q (upgraded q c) n = upgraded q c n"
    by (auto simp: upgraded_def split: option.split)
qed

section \<open>Properties\<close>

lemma upgraded_other: "n \<notin> schema_names q \<Longrightarrow> upgraded q c n = c n"
proof -
  assume n: "n \<notin> schema_names q"
  then have "adds q n = []"
    using migrated_tables unfolding schema_names_image[of q] by (fastforce simp: adds_def filter_empty_conv)
  moreover have "map_of (concat (map (created q) sqliteTables)) n = None"
    using n by (simp add: schema_names_def map_of_eq_None_iff image_image)
  ultimately show ?thesis by (simp add: upgraded_def split: option.split)
qed

text \<open>C35: What choosing a namespace does to the database, on both SQL backends, if the namespace is a name
  and no statement fails: a table of the namespace that is not there is made with exactly the columns
  of the schema; one that is there keeps its columns, in their order, and gets behind them those of
  \<open>priority\<close> and \<open>tags\<close> (both job tables), \<open>expires_at\<close> (batches), \<open>timezone\<close> (cron jobs),
  \<open>min_concurrency\<close> and \<open>max_concurrency\<close> (processes) that it lacks, and no other column of the schema;
  no other table of the database changes; choosing the namespace again changes nothing. A table of
  the rate limits that is there has the columns of its index.\<close>

theorem schema_upgrade:
  assumes "sql_name (SetNamespace_prefix ns)" "index_possible (sql_q (SetNamespace_prefix ns)) c"
  shows "\<exists>c'. Sqlite_SetNamespace ns (c, []) = Some (Inr (SetNamespace_prefix ns), (c', []))
    \<and> Postgres_SetNamespace ns (c, []) = Some (Inr (SetNamespace_prefix ns), (c', []))
    \<and> (\<forall>t cols. CreateTable t cols \<in> set sqliteTables \<longrightarrow>
         (case c (sql_q (SetNamespace_prefix ns) t) of
            None \<Rightarrow> c' (sql_q (SetNamespace_prefix ns) t) = Some cols
          | Some v \<Rightarrow> \<exists>us. c' (sql_q (SetNamespace_prefix ns) t) = Some (v @ us)
              \<and> set (v @ us) = set v \<union> start_adds t))
    \<and> c' |` (- schema_names (sql_q (SetNamespace_prefix ns))) = c |` (- schema_names (sql_q (SetNamespace_prefix ns)))
    \<and> Sqlite_SetNamespace ns (c', []) = Some (Inr (SetNamespace_prefix ns), (c', []))
    \<and> Postgres_SetNamespace ns (c', []) = Some (Inr (SetNamespace_prefix ns), (c', []))"
proof -
  let ?pre = "SetNamespace_prefix ns"
  have pre: "?pre \<noteq> ''''" by (simp add: SetNamespace_prefix_def)
  have runs: "Sqlite_SetNamespace ns (c, []) = Some (Inr ?pre, (upgraded (sql_q ?pre) c, []))"
      "Postgres_SetNamespace ns (c, []) = Some (Inr ?pre, (upgraded (sql_q ?pre) c, []))"
    if "index_possible (sql_q ?pre) c" for c
    using Sqlite_init_run[OF assms(1) that] Postgres_init_run[OF assms(1) that]
    by (simp_all add: Sqlite_SetNamespace_def Postgres_SetNamespace_def Let_def run_simps)
  show ?thesis
    using runs[OF assms(2)] runs[OF upgraded_index[OF pre assms(2)]] upgraded_table[OF pre, of _ _ c]
    by (auto simp: upgraded_idem restrict_map_def upgraded_other intro!: exI[of _ "upgraded (sql_q ?pre) c"])
qed

text \<open>The column \<open>batch_id\<close>, which release 1.2.0 put into the jobs, is not among those a start adds: a
  table of an earlier release stays without it, and no error is reported.\<close>

definition before_batches :: catalog where
  "before_batches = [''runiq_jobs'' \<mapsto> remove1 ''batch_id'' job_base_columns]"

theorem batch_id_is_not_migrated:
  "list_all (\<lambda>started. case started of
     Some (r, (c', fs)) \<Rightarrow> r = Inr ()
       \<and> c' ''runiq_jobs'' = Some (remove1 ''batch_id'' job_base_columns @ [''priority'', ''tags''])
       \<and> ''batch_id'' \<notin> set (the (c' ''runiq_jobs''))
   | None \<Rightarrow> False)
   [Sqlite_initTables ''runiq'' (before_batches, []), Postgres_initTables ''runiq'' (before_batches, [])]"
  by code_simp

text \<open>A namespace that is no name, \<open>tenant-1\<close> for one, is taken all the same: no table is made, the error
  is dropped, and every statement of the storage fails from then on.\<close>

lemma refused_loop:
  assumes "ss \<noteq> []" "\<not> sql_name (q (ddl_table (hd ss)))"
  shows "forS (run_ddl b q) ss (c, []) = Some (Inl ErrEngine, (c, []))"
  using assms by (cases ss) (simp_all add: then_run ddl_refused)

theorem unparsed_namespace_has_no_tables:
  assumes "ns \<noteq> ''''" "\<not> sql_name ns"
  shows "Sqlite_SetNamespace ns (c, []) = Some (Inr ns, (c, [])) \<and> Postgres_SetNamespace ns (c, []) = Some (Inr ns, (c, []))"
proof -
  have pre: "SetNamespace_prefix ns = ns" using assms(1) by (simp add: SetNamespace_prefix_def)
  have bad: "\<not> sql_name (sql_q ns (ddl_table (hd sqliteTables)))"
    using assms sql_name_prefix[of ns "''_jobs''"] by (auto simp: sqliteTables_def ddl_table_def)
  have ne: "sqliteTables \<noteq> []" by (simp add: sqliteTables_def)
  note stop = refused_loop[where q = "sql_q ns", OF ne bad]
  have same: "postgresTables = sqliteTables" by (simp add: postgresTables_def sqliteTables_def)
  show ?thesis
    unfolding Sqlite_SetNamespace_def Postgres_SetNamespace_def Sqlite_initTables_def Postgres_initTables_def pre Let_def same
    by (simp add: run_simps stop)
qed

theorem unparsed_namespace_has_no_tables_witness:
  "Sqlite_SetNamespace ''tenant-1'' (Map.empty, []) = Some (Inr ''tenant-1'', (Map.empty, []))"
proof -
  have "\<not> sql_name ''tenant-1''" by code_simp
  from unparsed_namespace_has_no_tables[OF _ this] show ?thesis by simp
qed


text \<open>Archival copies rows by position: \<open>INSERT INTO runiq_archived_jobs SELECT * FROM runiq_jobs\<close>.\<close>

definition insert_select :: "string list \<Rightarrow> string list \<Rightarrow> (string \<Rightarrow> 'v) \<Rightarrow> string \<rightharpoonup> 'v" where
  "insert_select from to r = map_of (zip to (map r from))"

definition job_columns_of_release :: "string list option \<Rightarrow> bool" where
  "job_columns_of_release v \<longleftrightarrow> v = None \<or> v = Some job_base_columns \<or> v = Some (job_base_columns @ [''priority''])
     \<or> v = Some (job_base_columns @ [''priority'', ''tags''])"

lemma archive_columns_align:
  assumes "job_columns_of_release (c (pre @ ''_jobs''))" "job_columns_of_release (c (pre @ ''_archived_jobs''))" "pre \<noteq> ''''"
  shows "upgraded (sql_q pre) c (pre @ ''_jobs'') = Some (job_base_columns @ [''priority'', ''tags''])"
    and "upgraded (sql_q pre) c (pre @ ''_archived_jobs'') = Some (job_base_columns @ [''priority'', ''tags''])"
proof -
  have names: "map_of (concat (map (created (sql_q pre)) sqliteTables)) (pre @ ''_jobs'') = Some (job_base_columns @ [''priority'', ''tags''])"
      "map_of (concat (map (created (sql_q pre)) sqliteTables)) (pre @ ''_archived_jobs'') = Some (job_base_columns @ [''priority'', ''tags''])"
      "adds (sql_q pre) (pre @ ''_jobs'') = [''priority'', ''tags'']" "adds (sql_q pre) (pre @ ''_archived_jobs'') = [''priority'', ''tags'']"
    using assms(3) by (simp_all add: sqliteTables_def adds_def migrations_def)
  have columns: "fold with_column [''priority'', ''tags''] v = job_base_columns @ [''priority'', ''tags'']"
    if "v = job_base_columns \<or> v = job_base_columns @ [''priority''] \<or> v = job_base_columns @ [''priority'', ''tags'']" for v
    using that by (auto simp: with_column_def job_base_columns_def)
  show "upgraded (sql_q pre) c (pre @ ''_jobs'') = Some (job_base_columns @ [''priority'', ''tags''])"
    using assms(1) columns unfolding upgraded_def names job_columns_of_release_def by auto
  show "upgraded (sql_q pre) c (pre @ ''_archived_jobs'') = Some (job_base_columns @ [''priority'', ''tags''])"
    using assms(2) columns unfolding upgraded_def names job_columns_of_release_def by auto
qed

lemma insert_select_same: "distinct cols \<Longrightarrow> col \<in> set cols \<Longrightarrow> insert_select cols cols r col = Some (r col)"
  by (induction cols) (auto simp: insert_select_def)


text \<open>From a catalogue in which both tables have the columns of some release, in the order in which the
  migrations add them, a start leaves them with the same columns in the same order, so that archival
  copies every column of a job to its own.\<close>

theorem archived_columns_are_the_jobs:
  assumes "job_columns_of_release (c (pre @ ''_jobs''))" "job_columns_of_release (c (pre @ ''_archived_jobs''))"
    and "pre \<noteq> ''''" and "col \<in> set (job_base_columns @ [''priority'', ''tags''])"
  shows "insert_select (the (upgraded (sql_q pre) c (pre @ ''_jobs''))) (the (upgraded (sql_q pre) c (pre @ ''_archived_jobs''))) r col
    = Some (r col)"
  unfolding archive_columns_align[OF assms(1-3)] option.sel
  by (rule insert_select_same[OF _ assms(4)]) (simp add: job_base_columns_def)

text \<open>If the statement that adds the priority to the jobs fails once, no error is reported, and the next
  start adds it behind the tags: from then on archival writes the tags into the priority and the
  priority into the tags.\<close>

definition old_release :: catalog where
  "old_release = [''runiq_jobs'' \<mapsto> job_base_columns, ''runiq_archived_jobs'' \<mapsto> job_base_columns]"

theorem failed_migration_swaps_columns:
  "case Sqlite_initTables ''runiq'' (old_release, replicate 13 False @ [True]) of
     Some (Inr (), (c, fs)) \<Rightarrow> (case Sqlite_initTables ''runiq'' (c, []) of
         Some (Inr (), (c', fs')) \<Rightarrow>
           c' ''runiq_jobs'' = Some (job_base_columns @ [''tags'', ''priority''])
           \<and> c' ''runiq_archived_jobs'' = Some (job_base_columns @ [''priority'', ''tags''])
           \<and> insert_select (the (c' ''runiq_jobs'')) (the (c' ''runiq_archived_jobs'')) (\<lambda>col. col) ''priority'' = Some ''tags''
       | _ \<Rightarrow> False)
   | _ \<Rightarrow> False"
  by code_simp

section \<open>Witnesses\<close>

theorem schema_upgrade_witness:
  "\<exists>c'. Sqlite_SetNamespace '''' (old_release, []) = Some (Inr ''runiq'', (c', []))
    \<and> c' ''runiq_leader_leases'' = Some [''lease_key'', ''holder_id'', ''expires_at'']
    \<and> set (the (c' ''runiq_jobs'')) = set job_base_columns \<union> {''priority'', ''tags''}"
proof -
  have i: "sql_name (SetNamespace_prefix '''')" "index_possible (sql_q (SetNamespace_prefix '''')) old_release"
    by (code_simp, code_simp)
  from schema_upgrade[OF i] obtain c' where c':
    "Sqlite_SetNamespace '''' (old_release, []) = Some (Inr (SetNamespace_prefix ''''), (c', []))"
    "\<And>t cols. CreateTable t cols \<in> set sqliteTables \<Longrightarrow>
       (case old_release (sql_q (SetNamespace_prefix '''') t) of
          None \<Rightarrow> c' (sql_q (SetNamespace_prefix '''') t) = Some cols
        | Some v \<Rightarrow> \<exists>us. c' (sql_q (SetNamespace_prefix '''') t) = Some (v @ us) \<and> set (v @ us) = set v \<union> start_adds t)"
    by blast
  have "CreateTable ''runiq_leader_leases'' [''lease_key'', ''holder_id'', ''expires_at''] \<in> set sqliteTables"
    "CreateTable ''runiq_jobs'' (job_base_columns @ [''priority'', ''tags'']) \<in> set sqliteTables"
    by (simp_all add: sqliteTables_def)
  note made = this[THEN c'(2)]
  have q: "sql_q (SetNamespace_prefix '''') t = t" for t by (simp add: SetNamespace_prefix_def sql_q_def)
  have old: "old_release ''runiq_leader_leases'' = None" "old_release ''runiq_jobs'' = Some job_base_columns"
    by (simp_all add: old_release_def)
  from made(1) have l: "c' ''runiq_leader_leases'' = Some [''lease_key'', ''holder_id'', ''expires_at'']"
    unfolding q old option.case .
  from made(2) obtain us where j: "c' ''runiq_jobs'' = Some (job_base_columns @ us)"
    "set (job_base_columns @ us) = set job_base_columns \<union> start_adds ''runiq_jobs''"
    unfolding q old option.case by blast
  have "start_adds ''runiq_jobs'' = {''priority'', ''tags''}" by (simp add: start_adds_def)
  with j have "set (the (c' ''runiq_jobs'')) = set job_base_columns \<union> {''priority'', ''tags''}" by (simp only: option.sel)
  with c'(1) l show ?thesis unfolding SetNamespace_prefix_def by (intro exI[of _ c']) simp
qed

end
