(* ===== verification/WorkerRuns.thy ===== *)
theory WorkerRuns
  imports WorkerLoops WorkerSettles
begin

text \<open>
  The loops of a worker pool as they run: a loop is its work at its start and at each tick until the
  context is cancelled, and the ticks are a list of clock readings. A ticker with an interval that is
  not positive panics in its goroutine, which ends the process (\<open>None\<close>). Then what a cancelled context
  does to the jobs that are still running.
\<close>

section \<open>Loops\<close>

definition with_ticker :: "duration \<Rightarrow> ('s, 'a) act \<Rightarrow> ('s, 'a) act" where
  "with_ticker d m = (if d \<le> 0 then (\<lambda>_. None) else m)"

definition Pool_startHeartbeat :: "'s WorkerPoolStorage \<Rightarrow> time list \<Rightarrow> (('s, 'h) world, unit) act" where
  "Pool_startHeartbeat st ts = with_ticker (5 * second) (each (Pool_heartbeatTick st) ts)"

definition Pool_startScheduledPoller ::
  "'s WorkerPoolStorage \<Rightarrow> string list \<Rightarrow> time list \<Rightarrow> (('s, 'h) world, unit) act" where
  "Pool_startScheduledPoller st queues ts = with_ticker (1 * second) (each (\<lambda>_. Pool_pollQueuesScheduled st queues) ts)"

definition Pool_startDLQAutopurge :: "'s WorkerPoolStorage \<Rightarrow> time list \<Rightarrow> (('s, 'h) world, unit) act" where
  "Pool_startDLQAutopurge st ts = with_pool (\<lambda>w.
     if wp_dlqTTL w \<le> 0 then done_with ()
     else with_ticker (1 * hour) (and_then (Pool_purgeDLQIfLeader st) (\<lambda>_. each (\<lambda>_. Pool_purgeDLQIfLeader st) ts)))"

definition Pool_startBatchTimeoutWatcher :: "'s WorkerPoolStorage \<Rightarrow> time list \<Rightarrow> (('s, 'h) world, unit) act" where
  "Pool_startBatchTimeoutWatcher st ts = with_ticker (10 * second)
     (and_then (Pool_failExpiredBatchesIfLeader st) (\<lambda>_. each (\<lambda>_. Pool_failExpiredBatchesIfLeader st) ts))"

definition Pool_startLeaderElector :: "'s WorkerPoolStorage \<Rightarrow> time list \<Rightarrow> (('s, 'h) world, unit) act" where
  "Pool_startLeaderElector st ts = with_pool (\<lambda>w. with_ticker (go_div (wp_leaderTTL w) 2)
     (and_then (Pool_electLeader st) (\<lambda>_. each (\<lambda>_. Pool_electLeader st) ts)))"

definition Pool_startJobArchiver :: "'s WorkerPoolStorage \<Rightarrow> time list \<Rightarrow> (('s, 'h) world, unit) act" where
  "Pool_startJobArchiver st ts = with_pool (\<lambda>w. with_ticker (wp_archivalInterval w)
     (each (\<lambda>_. Pool_runArchival st) ts))"

text \<open>The scheduler's list holds what it has started, tick by tick.\<close>

fun Pool_startCronScheduler ::
  "(string \<Rightarrow> location option) \<Rightarrow> 's WorkerPoolStorage \<Rightarrow> time list \<Rightarrow> int
    \<Rightarrow> (('s, 'h) world, (time \<times> CronJob) list) act" where
  "Pool_startCronScheduler load st [] lastMinute = done_with []"
| "Pool_startCronScheduler load st (t # ts) lastMinute =
     and_then (Pool_cronTick load st t lastMinute) (\<lambda>(started, lastMinute).
     and_then (Pool_startCronScheduler load st ts lastMinute) (\<lambda>rest.
     done_with (map (Pair t) started @ rest)))"

fun Pool_startIntervalScheduler :: "time list \<Rightarrow> (('s, 'h) world, (IntervalJob \<times> time) list) act" where
  "Pool_startIntervalScheduler [] = done_with []"
| "Pool_startIntervalScheduler (t # ts) =
     and_then (Pool_intervalTick t) (\<lambda>started.
     and_then (Pool_startIntervalScheduler ts) (\<lambda>rest. done_with (started @ rest)))"

text \<open>The autoscaler's ticks carry no data; \<open>p\<close> are the channel operations still to be done.\<close>

fun autoscaler_ticks ::
  "'s WorkerPoolStorage \<Rightarrow> DynamicConcurrencyConfig \<Rightarrow> nat \<Rightarrow> pending_ops \<Rightarrow> (('s, 'h) world, pending_ops) act" where
  "autoscaler_ticks st cfg 0 p = done_with p"
| "autoscaler_ticks st cfg (Suc n) p =
     and_then (runAutoscaleIteration st cfg) (\<lambda>target. with_pool (\<lambda>w.
     let (w', p') = (case target of None \<Rightarrow> (w, p) | Some t \<Rightarrow> adjustConcurrency cfg t (w, p))
     in and_then (set_pool (\<lambda>_. w')) (\<lambda>_. autoscaler_ticks st cfg n p')))"

definition Pool_startAutoscaler ::
  "'s WorkerPoolStorage \<Rightarrow> DynamicConcurrencyConfig \<Rightarrow> nat \<Rightarrow> pending_ops \<Rightarrow> (('s, 'h) world, pending_ops) act" where
  "Pool_startAutoscaler st cfg n p =
     (let interval = (if CheckInterval cfg \<le> 0 then 5 * second else CheckInterval cfg)
      in with_ticker interval (autoscaler_ticks st cfg n p))"

definition getCurrentConcurrency :: "('s, 'h) WorkerPool \<Rightarrow> int" where
  "getCurrentConcurrency w = wp_currentConcurrency w"

text \<open>\<open>n\<close> rounds of the processing loop, and the jobs it has started goroutines for.\<close>

primrec Pool_runProcessingLoop ::
  "'s WorkerPoolStorage \<Rightarrow> string list \<Rightarrow> nat \<Rightarrow> (('s, 'h) world, JobEnvelope list) act" where
  "Pool_runProcessingLoop st queues 0 = done_with []"
| "Pool_runProcessingLoop st queues (Suc n) =
     and_then (Pool_acquireAndProcess st queues) (\<lambda>job.
     and_then (Pool_runProcessingLoop st queues n) (\<lambda>rest.
     done_with (case job of None \<Rightarrow> rest | Some env \<Rightarrow> env # rest)))"

section \<open>Slots\<close>

text \<open>The pool's processing loop, the goroutines it has started and its background loops, one step after
  the other; between the steps anything may happen to the storage. A state is the world and the jobs
  that are being run. Each step has its own storage operations, so its own clock.\<close>

inductive pool_step ::
  "('s, 'h) world \<times> JobEnvelope list \<Rightarrow> ('s, 'h) world \<times> JobEnvelope list \<Rightarrow> bool" where
  Round: "Pool_acquireAndProcess st queues w = Some (None, w') \<Longrightarrow> pool_step (w, run) (w', run)"
| Spawn: "Pool_acquireAndProcess st queues w = Some (Some env, w') \<Longrightarrow> pool_step (w, run) (w', run @ [env])"
| Finish: "env \<in> set run \<Longrightarrow> Pool_runJobWithSemaphore st unseal env w = Some ((), w')
    \<Longrightarrow> pool_step (w, run) (w', remove1 env run)"
| Heartbeat: "Pool_heartbeatTick st now w = Some ((), w') \<Longrightarrow> pool_step (w, run) (w', run)"
| Elect: "Pool_electLeader st w = Some ((), w') \<Longrightarrow> pool_step (w, run) (w', run)"
| Cron: "Pool_cronTick load st now m w = Some (r, w') \<Longrightarrow> pool_step (w, run) (w', run)"
| EnqueueCron: "Pool_EnqueueCronJob st cron now w = Some ((), w') \<Longrightarrow> pool_step (w, run) (w', run)"
| Interval: "Pool_intervalTick now w = Some (l, w') \<Longrightarrow> pool_step (w, run) (w', run)"
| EnqueueInterval: "Pool_EnqueueIntervalJob st job block w = Some ((), w') \<Longrightarrow> pool_step (w, run) (w', run)"
| Poll: "Pool_pollQueuesScheduled st queues w = Some ((), w') \<Longrightarrow> pool_step (w, run) (w', run)"
| Purge: "Pool_purgeDLQIfLeader st w = Some ((), w') \<Longrightarrow> pool_step (w, run) (w', run)"
| Expire: "Pool_failExpiredBatchesIfLeader st w = Some ((), w') \<Longrightarrow> pool_step (w, run) (w', run)"
| Archive: "Pool_runArchival st w = Some ((), w') \<Longrightarrow> pool_step (w, run) (w', run)"
| Outside: "pool_step (w, run) (w\<lparr>w_store := s\<rparr>, run)"

inductive_cases pool_stepE: "pool_step (w, run) t"

abbreviation slots :: "nat \<Rightarrow> nat \<Rightarrow> ('s, 'h) world \<Rightarrow> bool" where
  "slots n cap w \<equiv> wp_sem (w_pool w) = n \<and> wp_semCap (w_pool w) = cap"

lemma act_store [act_rules]: "act_keeps (slots n cap) (on_store m)"
  by (auto simp: act_keeps_def on_store_def split: option.splits)

lemma act_pool [act_rules]: "(\<And>w. act_keeps I (f w)) \<Longrightarrow> act_keeps I (with_pool f)"
  by (auto simp: act_keeps_def with_pool_def)

lemma act_set_pool: "(\<And>p. wp_sem (f p) = wp_sem p) \<Longrightarrow> (\<And>p. wp_semCap (f p) = wp_semCap p)
    \<Longrightarrow> act_keeps (slots n cap) (set_pool f)"
  by (auto simp: act_keeps_def set_pool_def)

lemma act_forget [act_rules]: "act_keeps I m \<Longrightarrow> act_keeps I (forget m)"
  by (auto simp: act_keeps_def forget_def and_then_def done_with_def split: option.splits)

lemma act_event [act_rules]: "act_keeps (slots n cap) (Pool_triggerEvent t env e)"
  by (auto simp: act_keeps_def Pool_triggerEvent_def)

lemma fetch_keeps_slots: "act_keeps (slots n cap) (Pool_fetchNext st queues)"
proof -
  have check: "act_keeps (slots n cap) (Pool_checkAndDequeue st q)" for q
    unfolding Pool_checkAndDequeue_def Pool_dequeueFromQueue_def Pool_checkLimitsAndPostpone_def postpone_def
    by (auto intro!: act_rules split: sum.split option.split)
  have order: "act_keeps (slots n cap) (Pool_fetchFromOrder st qs)" for qs
    by (induction qs) (auto intro!: act_rules check)
  have turn: "slots n cap s \<Longrightarrow> act_keeps (slots n cap)
      (and_then (set_pool (\<lambda>_. snd (Pool_buildSearchOrder queues (w_pool s))))
        (\<lambda>_. Pool_fetchFromOrder st (fst (Pool_buildSearchOrder queues (w_pool s)))))" for s
    by (rule act_then[OF _ order]) (auto simp: act_keeps_def set_pool_def Pool_buildSearchOrder_def Let_def)
  show ?thesis
    unfolding act_keeps_def
  proof (intro allI impI)
    fix s x s' assume s: "slots n cap s" and r: "Pool_fetchNext st queues s = Some (x, s')"
    show "slots n cap s'"
      using r act_keepsD[OF turn[OF s] _ s] act_keepsD[OF order _ s]
      by (simp add: Pool_fetchNext_def Pool_fetchStrict_def with_pool_def split_def Let_def split: if_splits)
  qed
qed

lemma execute_keeps_slots: "act_keeps (slots n cap) (Pool_executeJob st unseal env)"
  unfolding Pool_executeJob_def Pool_runJobPerform_def Pool_finalizeJob_def Pool_finalizeJobFailure_def Let_def
  by (auto intro!: act_rules split: option.split sum.split prod.split)


text \<open>The work of the background loops.\<close>

lemma leader_keeps_slots: "act_keeps (slots n cap) (Pool_electLeader st)"
  unfolding Pool_electLeader_def by (auto intro!: act_rules act_set_pool split: sum.split)

lemma if_leader_keeps [act_rules]: "act_keeps I m \<Longrightarrow> act_keeps I (if_leader m)"
  unfolding if_leader_def by (auto intro!: act_rules)

lemma cron_keeps_slots: "act_keeps (slots n cap) (Pool_cronTick load st now m)"
  unfolding Pool_cronTick_def Pool_ProcessCronJobs_def Pool_mergeCronJobs_def Let_def
  by (auto intro!: act_rules split: sum.split)

lemma enqueue_keeps_slots:
  "act_keeps (slots n cap) (Pool_EnqueueCronJob st cron now)"
  "act_keeps (slots n cap) (Pool_EnqueueIntervalJob st job block)"
  unfolding Pool_EnqueueCronJob_def Pool_EnqueueIntervalJob_def Let_def
  by (auto intro!: act_rules split: sum.split)

lemma interval_keeps_slots: "act_keeps (slots n cap) (Pool_intervalTick now)"
  unfolding Pool_intervalTick_def Pool_ProcessIntervalJobs_def split_def Let_def
  by (auto intro!: act_rules act_set_pool)

lemma periodic_keeps_slots:
  "act_keeps (slots n cap) (Pool_heartbeatTick st now)"
  "act_keeps (slots n cap) (Pool_pollQueuesScheduled st queues)"
  "act_keeps (slots n cap) (Pool_purgeDLQIfLeader st)"
  "act_keeps (slots n cap) (Pool_failExpiredBatchesIfLeader st)"
  "act_keeps (slots n cap) (Pool_runArchival st)"
  unfolding Pool_heartbeatTick_def Pool_registerProcess_def Pool_pollQueuesScheduled_def
    Pool_purgeDLQIfLeader_def Pool_failExpiredBatchesIfLeader_def Pool_runArchival_def Let_def
  by (auto intro!: act_rules split: option.split)

lemmas background_keeps_slots = leader_keeps_slots cron_keeps_slots enqueue_keeps_slots
  interval_keeps_slots periodic_keeps_slots

lemma slots_kept: "act_keeps (slots (wp_sem (w_pool w)) (wp_semCap (w_pool w))) m \<Longrightarrow> m w = Some (x, w')
    \<Longrightarrow> slots (wp_sem (w_pool w)) (wp_semCap (w_pool w)) w'"
  using act_keepsD by fastforce

lemmas background_slots = background_keeps_slots [THEN slots_kept]

text \<open>A round takes a token and keeps it exactly when it has started a goroutine.\<close>

lemma round_slots:
  assumes "Pool_acquireAndProcess st queues w = Some (job, w')"
  shows "wp_semCap (w_pool w') = wp_semCap (w_pool w)
    \<and> (if job = None then wp_sem (w_pool w') = wp_sem (w_pool w)
       else wp_sem (w_pool w') = Suc (wp_sem (w_pool w)) \<and> wp_sem (w_pool w) < wp_semCap (w_pool w))"
proof (cases "wp_sem (w_pool w) < wp_semCap (w_pool w)")
  case False
  with assms show ?thesis by (simp add: Pool_acquireAndProcess_def with_pool_def done_with_def split: if_splits)
next
  case True
  let ?w = "w\<lparr>w_pool := (w_pool w)\<lparr>wp_sem := Suc (wp_sem (w_pool w))\<rparr>\<rparr>"
  from assms True obtain r v where r: "Pool_fetchNext st queues ?w = Some (r, v)"
      and w': "(case r of Inr (Some j) \<Rightarrow> Some (Some j, v)
          | _ \<Rightarrow> Some (None, v\<lparr>w_pool := (w_pool v)\<lparr>wp_sem := wp_sem (w_pool v) - 1\<rparr>\<rparr>)) = Some (job, w')"
    by (auto simp: Pool_acquireAndProcess_def Pool_fetchAndSpawn_def with_pool_def and_then_def set_pool_def
        done_with_def split: option.splits sum.splits)
  have "slots (Suc (wp_sem (w_pool w))) (wp_semCap (w_pool w)) v"
    by (rule act_keepsD[OF fetch_keeps_slots r]) simp
  with w' True show ?thesis by (auto split: option.splits sum.splits)
qed

lemma finish_slots:
  assumes "Pool_runJobWithSemaphore st unseal env w = Some ((), w')"
  shows "slots (wp_sem (w_pool w) - 1) (wp_semCap (w_pool w)) w'"
proof -
  from assms obtain v where v: "Pool_executeJob st unseal env w = Some ((), v)"
      and w': "w' = v\<lparr>w_pool := (w_pool v)\<lparr>wp_sem := wp_sem (w_pool v) - 1\<rparr>\<rparr>"
    by (auto simp: Pool_runJobWithSemaphore_def and_then_def set_pool_def split: option.splits)
  have "slots (wp_sem (w_pool w)) (wp_semCap (w_pool w)) v"
    by (rule act_keepsD[OF execute_keeps_slots v]) simp
  with w' show ?thesis by simp
qed

lemma pool_step_slots:
  assumes "pool_step (w, run) (w', run')" "wp_sem (w_pool w) = length run" "length run \<le> wp_semCap (w_pool w)"
  shows "wp_semCap (w_pool w') = wp_semCap (w_pool w) \<and> wp_sem (w_pool w') = length run'
    \<and> length run' \<le> wp_semCap (w_pool w')"
  using assms(1)
proof cases
  case (Round st queues)
  then show ?thesis using round_slots[OF Round(2)] assms by simp
next
  case (Spawn st queues env)
  then show ?thesis using round_slots[OF Spawn(2)] assms by simp
next
  case (Finish env st unseal)
  then show ?thesis using finish_slots[OF Finish(3)] assms length_pos_if_in_set[OF Finish(2)]
    by (auto simp: length_remove1)
next
  case (Outside s)
  then show ?thesis using assms by simp
qed (use assms in \<open>auto dest!: background_slots\<close>)

text \<open>C33: a pool without an autoscaler never runs more jobs than its concurrency, and leaks no slot.
  Whatever its rounds, its jobs (each with its middlewares, panics and settling), its background
  loops and other processes on the storage do, in any order, the semaphore holds one token for each
  job that is being run and no more than \<open>concurrency\<close> jobs are; so a round with fewer jobs
  running always finds room to fetch.\<close>

theorem pool_slots:
  assumes "wp_autoscale p = None" "w_pool w0 = setupSemaphore p"
    and "pool_step\<^sup>*\<^sup>* (w0, []) (w, run)"
  shows "wp_sem (w_pool w) = length run \<and> length run \<le> nat (wp_concurrency p)
    \<and> wp_semCap (w_pool w) = nat (wp_concurrency p)"
proof -
  have "wp_semCap (w_pool (fst s)) = nat (wp_concurrency p) \<and> wp_sem (w_pool (fst s)) = length (snd s)
      \<and> length (snd s) \<le> wp_semCap (w_pool (fst s))" if "pool_step\<^sup>*\<^sup>* (w0, []) s" for s
    using that
  proof (induction rule: rtranclp_induct)
    case base
    then show ?case using assms(1,2) by (simp add: setupSemaphore_def)
  next
    case (step s t)
    then show ?case using pool_step_slots[of "fst s" "snd s" "fst t" "snd t"] by simp
  qed
  from this[OF assms(3)] show ?thesis by auto
qed

definition slot_world :: "(conn, unit) world" where
  "slot_world = \<lparr>w_pool = setupSemaphore (NewWorkerPool ''w'' 1 [Pool_Register ''A'' (\<lambda>args. done_with (Returned None)) []]),
     w_store = (empty_db\<lparr>jobs := [(default_job_row 0 ''j'' ''q'' ''A'' ''x'')\<lparr>j_max_attempts := 3\<rparr>]\<rparr>, []),
     w_delivered = []\<rparr>"

theorem pool_slots_witness:
  "\<exists>env w. pool_step\<^sup>*\<^sup>* (slot_world, []) (w, [env]) \<and> JobID env = ''j'' \<and> wp_sem (w_pool w) = 1"
proof -
  let ?p = "NewWorkerPool ''w'' 1 [Pool_Register ''A'' (\<lambda>args. done_with (Returned None)) []] :: (conn, unit) WorkerPool"
  obtain env w where r: "Pool_acquireAndProcess (sqlite_worker 1 0 '''') [''q''] slot_world = Some (Some env, w)"
    and env: "JobID env = ''j''"
  proof -
    have "map_option (\<lambda>(e, w). map_option JobID e) (Pool_acquireAndProcess (sqlite_worker 1 0 '''') [''q''] slot_world)
        = Some (Some ''j'')"
      by code_simp
    with that show ?thesis by auto
  qed
  have run: "pool_step\<^sup>*\<^sup>* (slot_world, []) (w, [env])"
    using pool_step.Spawn[OF r, of "[]"] by auto
  have "wp_autoscale ?p = None" by (simp add: NewWorkerPool_def Pool_Register_def)
  from pool_slots[OF this _ run] have "wp_sem (w_pool w) = 1" by (simp add: slot_world_def)
  with run env show ?thesis by blast
qed

section \<open>Jobs that are still running when the context is cancelled\<close>

lemma execute_result:
  assumes "run_result unseal (w_pool w) env (w_store w) = Some ((Returned None, env'), s)"
  shows "Pool_executeJob st unseal env w = Pool_finalizeJob st env' None (w\<lparr>w_store := s\<rparr>)"
  using assms
  by (auto simp: run_result_def run_simps Pool_executeJob_def Pool_runJobPerform_def opened_def run_error_def Let_def
      split: option.splits if_splits sum.splits)

text \<open>C34: A job that ends well during the graceful wait is not settled. The worker settles with the
  context of \<open>Start\<close>, which is cancelled by then, so every call of \<open>database/sql\<close> fails: the database
  stays as the job left it, with the job's row running, where nothing fetches it again, while the
  slot is given back and the job's completion is announced to the event handlers.\<close>

theorem cancelled_pool_strands_job:
  assumes "run_result unseal (w_pool w) env (w_store w) = Some ((Returned None, env'), (d, True # fs))"
  shows "\<exists>w'. Pool_runJobWithSemaphore (sqlite_worker stack now rnd) unseal env w = Some ((), w')
    \<and> w_store w' = (d, fs)
    \<and> w_delivered w' = w_delivered w @ map (\<lambda>h. (h, \<lparr>ev_Type = EventJobCompleted, ev_Job = env', ev_Err = None\<rparr>))
        (wp_eventHandlers (w_pool w) EventJobCompleted)"
  by (simp add: Pool_runJobWithSemaphore_def execute_result[OF assms] Pool_finalizeJob_def Pool_triggerEvent_def
      run_simps sqlite_worker_def Sqlite_Ack_def query_row_def engine_def throw_def)

theorem cancelled_pool_strands_job_witness:
  "\<exists>w'. Pool_runJobWithSemaphore (sqlite_worker 1 0 ''0'') (\<lambda>_ _ _. None) (Sqlite_scanJobFrom settle_row)
      ((settle_world (Returned None))\<lparr>w_store := (empty_db\<lparr>jobs := [settle_row]\<rparr>, [True])\<rparr>) = Some ((), w')
    \<and> map j_status (jobs (fst (w_store w'))) = [Running]"
proof -
  let ?w = "(settle_world (Returned None))\<lparr>w_store := (empty_db\<lparr>jobs := [settle_row]\<rparr>, [True])\<rparr>"
  have "run_result (\<lambda>_ _ _. None) (w_pool ?w) (Sqlite_scanJobFrom settle_row) (w_store ?w)
      = Some ((Returned None, Sqlite_scanJobFrom settle_row), (empty_db\<lparr>jobs := [settle_row]\<rparr>, True # []))"
    by code_simp
  from cancelled_pool_strands_job[OF this, of 1 0 "''0''"] show ?thesis
    by (auto simp: settle_row_def)
qed

text \<open>A leader election with a lease of less than two nanoseconds asks for a ticker that never
  ticks, which panics.\<close>

lemma tiny_lease_panics: "wp_leaderTTL (w_pool w) = 1 \<Longrightarrow> Pool_startLeaderElector st ts w = None"
  by (simp add: Pool_startLeaderElector_def with_pool_def with_ticker_def go_div_def)

end
