(* ===== verification/ServerFacts.thy ===== *)
theory ServerFacts
  imports Server
begin

text \<open>
  What the dashboard does to the storage behind it. The locale \<open>served_reads\<close> is the contract of the
  storage calls a reading request reaches: each keeps a predicate of the storage state. \<open>served\<close> adds
  that every other call of the interface is the storage call of its name. Its lemmas lift this to every
  handler and to the multiplexer: a request makes exactly the call it asks for, or only reads. It is
  interpreted on the three backends.
\<close>

section \<open>Keeping a predicate\<close>

lemma act_answer [act_rules]: "act_keeps I m \<Longrightarrow> act_keeps I (answer m)"
  by (auto simp: answer_def intro!: act_rules split: sum.split)

lemma act_op: "keeps P m \<Longrightarrow> act_keeps (\<lambda>s. P (fst s)) m"
  by (auto simp: act_keeps_def dest: keepsD)

section \<open>The contract and what follows from it\<close>

locale served_reads =
  fixes st :: "'s ServerStorage" and I :: "'s \<Rightarrow> bool"
  assumes stats: "act_keeps I (ss_GetStats st)"
    and detail: "act_keeps I (ss_GetJobDetail st j)"
    and search: "act_keeps I (ss_GetJobs st q s p l)"
    and crons: "act_keeps I (ss_GetCronSchedules st)"
begin

lemma rounds: "act_keeps I (stream_rounds n st)"
  by (induction n) (auto simp: Server_sendStreamStats_def intro!: act_rules stats split: sum.split)

lemma reading:
  "act_keeps I (Server_handleStats st r)" "act_keeps I (Server_handleJobDetail st r)"
  "act_keeps I (Server_handleGetJobs st r)" "act_keeps I (Server_handleStatsStream n st r)"
  "act_keeps I (Server_handleMetrics st r)" "act_keeps I (Server_handleGetCrons st r)"
  unfolding Server_handleStats_def Server_handleJobDetail_def Server_handleGetJobs_def
    Server_handleStatsStream_def Server_handleMetrics_def Server_handleGetCrons_def Let_def
  by (auto intro!: act_rules stats detail search crons rounds split: sum.split option.split)

lemma refused:
  "rq_method r \<noteq> ''POST'' \<Longrightarrow> Server_handleRetry st r = done_with method_not_allowed"
  "rq_method r \<noteq> ''POST'' \<Longrightarrow> Server_handleCancel st r = done_with method_not_allowed"
  "rq_method r \<noteq> ''POST'' \<Longrightarrow> Server_handleClearQueue st r = done_with method_not_allowed"
  "rq_method r \<noteq> ''POST'' \<Longrightarrow> Server_handlePauseQueue st r = done_with method_not_allowed"
  "rq_method r \<noteq> ''POST'' \<Longrightarrow> Server_handleResumeQueue st r = done_with method_not_allowed"
  "rq_method r \<noteq> ''POST'' \<Longrightarrow> Server_handleRetryAllFailed st r = done_with method_not_allowed"
  "rq_method r \<noteq> ''POST'' \<Longrightarrow> Server_handlePurgeAllFailed st r = done_with method_not_allowed"
  "rq_method r \<noteq> ''POST'' \<Longrightarrow> Server_handleBulkRetry st r = done_with method_not_allowed"
  "rq_method r \<noteq> ''POST'' \<Longrightarrow> Server_handleBulkCancel st r = done_with method_not_allowed"
  "rq_method r \<noteq> ''POST'' \<Longrightarrow> Server_handleBulkPurge st r = done_with method_not_allowed"
  "rq_method r \<noteq> ''POST'' \<Longrightarrow> Server_handleRetryModified st r = done_with method_not_allowed"
  by (simp_all add: Server_handleRetry_def Server_handleCancel_def Server_handleClearQueue_def
    Server_handlePauseQueue_def Server_handleResumeQueue_def Server_handleRetryAllFailed_def
    Server_handlePurgeAllFailed_def Server_handleBulkRetry_def Server_handleBulkCancel_def
    Server_handleBulkPurge_def Server_handleRetryModified_def)

lemma mux_reading:
  assumes "rq_method r \<noteq> ''POST''" "rq_method r \<noteq> ''DELETE''"
  shows "act_keeps I (Server_mux assets n zone st r)"
proof -
  have crons: "act_keeps I (Server_handleCrons zone st r)"
    using assms by (auto simp: Server_handleCrons_def intro!: act_rules reading)
  have "act_keeps I (h r)" if "(p, h) \<in> set (Server_routes n zone st)" for p h
    using that by (auto simp: Server_routes_def refused[OF assms(1)] intro: act_rules reading crons)
  then show ?thesis
    unfolding Server_mux_def by (auto intro!: act_rules dest: map_of_SomeD split: option.split)
qed

end

text \<open>
  What a request asks for, as a table: each path that changes the storage with the call of the
  storage interface it stands for. All need \<open>POST\<close>, but for the deletion of a schedule; a call
  with a parameter needs it not to be empty, one with a body needs it to decode. Every other
  request asks for no change.
\<close>

definition with_arg :: "request \<Rightarrow> string \<Rightarrow> (string \<Rightarrow> call) \<Rightarrow> call option" where
  "with_arg r key c = (if query_get r key = '''' then None else Some (c (query_get r key)))"

definition with_ids :: "request \<Rightarrow> (string list \<Rightarrow> call) \<Rightarrow> call option" where
  "with_ids r c = (case decodeBulkIDs r of Inl e \<Rightarrow> None | Inr ids \<Rightarrow> Some (c ids))"

definition with_body :: "request \<Rightarrow> string \<Rightarrow> (string \<Rightarrow> bytes \<Rightarrow> call) \<Rightarrow> call option" where
  "with_body r key c = (case rq_body r of Inl e \<Rightarrow> None | Inr b \<Rightarrow> with_arg r key (\<lambda>j. c j b))"

definition with_cron :: "(string \<Rightarrow> string option) \<Rightarrow> request \<Rightarrow> (CronJob \<Rightarrow> call) \<Rightarrow> call option" where
  "with_cron zone r c = (case decode_body r of Inl e \<Rightarrow> None | Inr v \<Rightarrow>
     case decode_struct put_cron v zero_saveCronReq of None \<Rightarrow> None | Some q \<Rightarrow>
     if sc_Timezone q \<noteq> '''' \<and> zone (sc_Timezone q) \<noteq> None then None
     else Some (c \<lparr>cj_Payload = sc_Payload q, cj_Spec = sc_Expression q, cj_Name = sc_Name q,
                   cj_Queue = sc_Queue q, cj_Timezone = sc_Timezone q, cj_Paused = sc_Paused q\<rparr>))"

definition asked_for :: "nat \<Rightarrow> time \<Rightarrow> (string \<Rightarrow> string option) \<Rightarrow> request \<Rightarrow> (string \<times> call option) list" where
  "asked_for stack now zone r =
     [(''/api/jobs/retry'', with_arg r ''id'' (CRetry now)),
      (''/api/jobs/cancel'', with_arg r ''id'' (CCancel stack now)),
      (''/api/queues/clear'', with_arg r ''name'' CClearQueue),
      (''/api/queues/pause'', with_arg r ''name'' CPauseQueue),
      (''/api/queues/resume'', with_arg r ''name'' CResumeQueue),
      (''/api/jobs/failed/retry'', Some (CRetryAllFailed now)),
      (''/api/jobs/failed/purge'', Some CPurgeAllFailed),
      (''/api/jobs/bulk-retry'', with_ids r (CBulkRetry now)),
      (''/api/jobs/bulk-cancel'', with_ids r CBulkCancel),
      (''/api/jobs/bulk-purge'', with_ids r CBulkPurge),
      (''/api/jobs/retry-modified'', with_body r ''id'' (CRetryModified now)),
      (''/api/crons'', with_cron zone r (CSaveCronSchedule now))]"

definition requested :: "nat \<Rightarrow> time \<Rightarrow> (string \<Rightarrow> string option) \<Rightarrow> request \<Rightarrow> call option" where
  "requested stack now zone r =
     (if rq_method r = ''POST'' then
        (case map_of (asked_for stack now zone r) (rq_path r) of None \<Rightarrow> None | Some c \<Rightarrow> c)
      else if rq_method r = ''DELETE'' \<and> rq_path r = ''/api/crons'' then with_arg r ''name'' CDeleteCronSchedule
      else None)"

locale served = served_reads +
  fixes run :: "call \<Rightarrow> ('a, unit) storage_op" and stack :: nat and now :: time
  assumes changes:
    "ss_Retry st j = run (CRetry now j)" "ss_Cancel st j = run (CCancel stack now j)"
    "ss_ClearQueue st q = run (CClearQueue q)" "ss_PauseQueue st q = run (CPauseQueue q)"
    "ss_ResumeQueue st q = run (CResumeQueue q)" "ss_RetryAllFailed st = run (CRetryAllFailed now)"
    "ss_PurgeAllFailed st = run CPurgeAllFailed" "ss_BulkRetry st js = run (CBulkRetry now js)"
    "ss_BulkCancel st js = run (CBulkCancel js)" "ss_BulkPurge st js = run (CBulkPurge js)"
    "ss_RetryModified st j args = run (CRetryModified now j args)"
    "ss_SaveCronSchedule st c = run (CSaveCronSchedule now c)"
    "ss_DeleteCronSchedule st nm = run (CDeleteCronSchedule nm)"
begin

definition does :: "call option \<Rightarrow> ('a, response) act \<Rightarrow> bool" where
  "does oc h \<longleftrightarrow> (case oc of Some c \<Rightarrow> h = answer (run c) | None \<Rightarrow> act_keeps I h)"

lemma does_intros:
  "does None (done_with x)" "does (Some c) (answer (run c))" "act_keeps I h \<Longrightarrow> does None h"
  by (simp_all add: does_def act_rules)

lemma writing:
  assumes "rq_method r = ''POST''"
  shows "does (with_arg r ''id'' (CRetry now)) (Server_handleRetry st r)"
    "does (with_arg r ''id'' (CCancel stack now)) (Server_handleCancel st r)"
    "does (with_arg r ''name'' CClearQueue) (Server_handleClearQueue st r)"
    "does (with_arg r ''name'' CPauseQueue) (Server_handlePauseQueue st r)"
    "does (with_arg r ''name'' CResumeQueue) (Server_handleResumeQueue st r)"
    "does (Some (CRetryAllFailed now)) (Server_handleRetryAllFailed st r)"
    "does (Some CPurgeAllFailed) (Server_handlePurgeAllFailed st r)"
    "does (with_ids r (CBulkRetry now)) (Server_handleBulkRetry st r)"
    "does (with_ids r CBulkCancel) (Server_handleBulkCancel st r)"
    "does (with_ids r CBulkPurge) (Server_handleBulkPurge st r)"
    "does (with_body r ''id'' (CRetryModified now)) (Server_handleRetryModified st r)"
    "does (with_cron zone r (CSaveCronSchedule now)) (Server_handleCrons zone st r)"
  using assms
  by (auto simp: Server_handleRetry_def Server_handleCancel_def Server_handleClearQueue_def
    Server_handlePauseQueue_def Server_handleResumeQueue_def Server_handleRetryAllFailed_def
    Server_handlePurgeAllFailed_def Server_handleBulkRetry_def Server_handleBulkCancel_def
    Server_handleBulkPurge_def Server_handleRetryModified_def Server_handleCrons_def
    Server_handleSaveCron_def with_arg_def with_ids_def with_body_def with_cron_def Let_def changes
    intro: does_intros split: sum.split option.split)

lemma deleting:
  "rq_method r = ''DELETE'' \<Longrightarrow> does (with_arg r ''name'' CDeleteCronSchedule) (Server_handleCrons zone st r)"
  by (auto simp: Server_handleCrons_def Server_handleDeleteCron_def with_arg_def Let_def changes
    intro: does_intros)

text \<open>Every route with what it does when the request's path is its own.\<close>

lemma routes_do:
  assumes "(p, h) \<in> set (Server_routes n zone st)" "rq_path r = p"
  shows "does (requested stack now zone r) (h r)"
proof (cases "rq_method r = ''POST''")
  case True
  with assms show ?thesis
    by (auto simp: Server_routes_def requested_def asked_for_def intro: writing does_intros reading)
next
  case False
  show ?thesis
  proof (cases "rq_method r = ''DELETE'' \<and> p = ''/api/crons''")
    case True
    with assms show ?thesis
      by (auto simp: Server_routes_def requested_def intro: deleting)
  next
    case no_delete: False
    with False assms(2) have "requested stack now zone r = None" by (auto simp: requested_def)
    moreover have "act_keeps I (Server_handleCrons zone st r)" if "p = ''/api/crons''"
      using that False no_delete by (auto simp: Server_handleCrons_def intro!: act_rules reading)
    ultimately show ?thesis
      using assms(1) by (auto simp: Server_routes_def refused[OF False] intro: does_intros reading)
  qed
qed

lemma mux: "does (requested stack now zone r) (Server_mux assets n zone st r)"
proof (cases "map_of (Server_routes n zone st) (rq_path r)")
  case None
  then have "requested stack now zone r = None"
    by (auto simp: requested_def asked_for_def Server_routes_def split: if_splits)
  with None show ?thesis by (simp add: Server_mux_def does_intros)
next
  case (Some h)
  with routes_do[OF map_of_SomeD[OF Some] refl] show ?thesis by (simp add: Server_mux_def)
qed

end


section \<open>The backends\<close>

text \<open>The tables a reading request may write: \<open>GetActiveProcesses\<close> deletes the processes whose last
  heartbeat is more than fifteen seconds ago.\<close>

definition pruned :: "time \<Rightarrow> db \<Rightarrow> db \<Rightarrow> bool" where
  "pruned now d d' \<longleftrightarrow> d' = d
     \<or> d' = processes_update (filter (\<lambda>p. now - 15 * second \<le> p_heartbeat_at p)) d"

lemma pruned_refl: "pruned now d d"
  by (simp add: pruned_def)

lemma pruned_iff: "pruned now d d' \<longleftrightarrow> d' = d
    \<or> d' = d\<lparr>processes := filter (\<lambda>p. now - 15 * second \<le> p_heartbeat_at p) (processes d)\<rparr>"
  by (cases d) (simp add: pruned_def)

lemma pruned_delete:
  "pruned now d d' \<Longrightarrow> pruned now d (processes_update (t_delete (\<lambda>p. p_heartbeat_at p < now - 15 * second)) d')"
  by (cases d) (auto simp: pruned_def t_delete_def not_less)

lemma keeps_GetStats_tables: "keeps (pruned now d) (Sqlite_GetStats now)"
  unfolding Sqlite_GetStats_def Sqlite_fetchQueueStats_def Sqlite_applyPausedQueues_def
    Sqlite_fetchRecentJobs_def Sqlite_fetchCronJobs_def Sqlite_loadStaticCrons_def
    Sqlite_loadDynamicCrons_def Sqlite_loadActiveProcesses_def Sqlite_GetActiveProcesses_def
    Sqlite_markLeader_def Let_def
  by (intro keeps_rules) (simp_all add: pruned_delete[simplified])

lemma keeps_pg_GetStats_tables: "keeps (pruned now d) (Postgres_GetStats fmt now)"
  unfolding Postgres_GetStats_def Postgres_fetchQueueStats_def Postgres_applyPausedQueues_def
    Postgres_fetchRecentJobs_def Postgres_fetchCronJobs_def Postgres_loadStaticCrons_def
    Postgres_loadDynamicCrons_def Postgres_loadActiveProcesses_def Postgres_GetActiveProcesses_def
    Postgres_markLeader_def Let_def
  by (intro pg_keeps) (simp_all add: pruned_delete[simplified])

lemma keeps_pg_reads:
  "keeps I (Postgres_GetJobs fmt q s p l)" "keeps I (Postgres_GetJobDetail j)" "keeps I Postgres_GetCronSchedules"
  unfolding Postgres_GetJobs_def Postgres_GetJobDetail_def Postgres_GetCronSchedules_def Let_def
  by (auto intro!: pg_keeps split: prod.splits)

interpretation sqlite_served: served "sqlite_server stack now" "\<lambda>s. pruned now d (fst s)" run_call stack now
  for stack now d
  by unfold_locales (simp_all add: sqlite_server_def act_op keeps_reads keeps_GetStats_tables)

interpretation postgres_served: served "postgres_server fmt stack now" "\<lambda>s. pruned now d (fst s)"
    "pg_call pl locked fmt" stack now
  for fmt stack now d pl locked
  by unfold_locales (simp_all add: postgres_server_def act_op keeps_pg_reads keeps_pg_GetStats_tables)


text \<open>On Redis the clean-up concerns the process documents and the heartbeats.\<close>

definition same_but_heartbeats :: "rdb \<Rightarrow> rdb \<Rightarrow> bool" where
  "same_but_heartbeats s s' \<longleftrightarrow> s'\<lparr>rd_processes := rd_processes s, rd_heartbeat := rd_heartbeat s\<rparr> = s"

lemma same_refl: "same_but_heartbeats s s"
  by (simp add: same_but_heartbeats_def)

lemma engine_reads: "keeps I (engine (\<lambda>s. (g s, s)))"
  by (rule keeps_engine_redis) simp

lemma redis_reading:
  "keeps I (Redis_GetJobDetail j)" "keeps I Redis_GetCronSchedules" "keeps I (Redis_GetJobs q st p l)"
proof -
  show "keeps I (Redis_GetJobDetail j)" "keeps I Redis_GetCronSchedules"
    unfolding Redis_GetJobDetail_def Redis_GetCronSchedules_def by (intro redis_keeps)+
  have meta: "keeps I (Redis_appendMetasForQueue acc qu st)" for acc qu
    unfolding Redis_appendMetasForQueue_def Redis_fetchMeta_def read_queue_def Let_def
    by (intro redis_keeps engine_reads) simp
  have "keeps I (Redis_collectJobIDsForStatus st qs acc)" for qs acc
    by (induction qs arbitrary: acc) (simp_all add: keeps_ret, intro redis_keeps meta)
  then show "keeps I (Redis_GetJobs q st p l)" unfolding Redis_GetJobs_def read_errors_def by (intro redis_keeps)
qed

lemma redis_stats_reading: "keeps (same_but_heartbeats s) (Redis_GetStats now)"
proof -
  have clean: "keeps (same_but_heartbeats s) (Redis_cleanupDeadProcesses now)"
    unfolding Redis_cleanupDeadProcesses_def Let_def
    by (intro redis_keeps) (simp_all add: cmd_ok_def cmd_def same_but_heartbeats_def)
  have queueStats: "keeps (same_but_heartbeats s) (Redis_getQueueStats q)" for q
    unfolding Redis_getQueueStats_def by (rule engine_reads)
  have recent: "keeps (same_but_heartbeats s) (Redis_collectRecentJobIDs q acc)" for q acc
    unfolding Redis_collectRecentJobIDs_def read_queue_def by (intro redis_keeps engine_reads) simp
  have one: "keeps (same_but_heartbeats s) (Redis_processQueue q paused acc)" for q paused acc
    unfolding Redis_processQueue_def Let_def
    by (cases acc) (simp, intro redis_keeps queueStats recent)
  have all: "keeps (same_but_heartbeats s) (Redis_processAllQueues qs paused acc)" for qs paused acc
    by (induction qs arbitrary: acc) (simp_all add: keeps_ret, intro redis_keeps one)
  have procs: "keeps (same_but_heartbeats s) (Redis_GetActiveProcesses now)"
    unfolding Redis_GetActiveProcesses_def by (intro redis_keeps clean)
  show ?thesis
    unfolding Redis_GetStats_def Redis_loadQueuesStats_def Redis_loadRecentJobs_def read_errors_def
      Redis_loadActiveProcesses_def Redis_loadCronJobs_def Redis_loadStaticCrons_def Redis_loadDynamicCrons_def
    by (intro redis_keeps all procs)
qed

interpretation redis_served: served "redis_server pages stack now" "\<lambda>x. same_but_heartbeats s (fst x)"
    "redis_call pages stack now" stack now
  for pages stack now s
  by unfold_locales (simp_all add: redis_server_def act_op redis_reading redis_stats_reading)

section \<open>Requests with a list of jobs\<close>

text \<open>The body the dashboard's page sends for a selection of jobs, its strings escaped as Go's encoder
  does it. The page's \<open>JSON.stringify\<close> leaves the characters \<open>&\<close>, \<open><\<close> and \<open>>\<close> as they are, which the
  decoder reads as the same ids.\<close>

definition bulk_body :: "string list \<Rightarrow> string" where
  "bulk_body ids = [CHR 0x7B] @ json_string ''ids'' @ '':'' @ json_strings ids @ [CHR 0x7D]"

definition bulk_request :: "string \<Rightarrow> string list \<Rightarrow> request" where
  "bulk_request path ids =
     \<lparr>rq_method = ''POST'', rq_path = path, rq_query = [], rq_body = Inr (bulk_body ids), rq_basic_auth = None\<rparr>"

lemma those_strings: "those (map (\<lambda>v. case v of JString s \<Rightarrow> Some s | JNull \<Rightarrow> Some '''' | _ \<Rightarrow> None) (map JString ss)) = Some ss"
  by (induction ss) auto

lemma decode_bulk: "rq_body r = Inr (bulk_body ids) \<Longrightarrow> decodeBulkIDs r = Inr ids"
  using those_strings[of ids]
  by (simp add: decodeBulkIDs_def decode_body_def bulk_body_def json_first_field[simplified]
    decode_struct_def put_ids_def same_field_def del: map_map)

text \<open>C31: Whatever the ids of the selected jobs are, quotes and control characters included, the bulk
  requests that carry them as JSON hand exactly these ids to the storage, in their order.\<close>

theorem bulk_request_roundtrip:
  "Server_mux assets n zone st (bulk_request ''/api/jobs/bulk-retry'' ids) = answer (ss_BulkRetry st ids)
   \<and> Server_mux assets n zone st (bulk_request ''/api/jobs/bulk-cancel'' ids) = answer (ss_BulkCancel st ids)
   \<and> Server_mux assets n zone st (bulk_request ''/api/jobs/bulk-purge'' ids) = answer (ss_BulkPurge st ids)"
  using decode_bulk[of "bulk_request p ids" ids for p]
  by (simp add: Server_mux_def Server_routes_def bulk_request_def Server_handleBulkRetry_def
    Server_handleBulkCancel_def Server_handleBulkPurge_def)

section \<open>What the handlers let through\<close>

text \<open>A queue's name goes into the metrics as it is. A name with a quote and a line feed makes a sample
  of another queue, with any status and value.\<close>

theorem metrics_forged_sample:
  "writeQueueMetric m (b @ CHR 0x22 # '', status='' @ [CHR 0x22] @ s @ CHR 0x22 # CHR 0x7D # '' '' @ Itoa v @ CHR 0x0A
       # m @ CHR 0x7B # ''queue='' @ CHR 0x22 # c) status val
   = writeQueueMetric m b s v @ writeQueueMetric m c status val"
  by (simp add: writeQueueMetric_def)

text \<open>A schedule can be saved without a name, and then not be deleted: the storage never sees the
  request.\<close>

theorem cron_without_name_stays:
  "Server_handleSaveCron zone st \<lparr>rq_method = ''POST'', rq_path = ''/api/crons'', rq_query = [],
     rq_body = Inr [CHR 0x7B, CHR 0x7D], rq_basic_auth = None\<rparr>
   = answer (ss_SaveCronSchedule st \<lparr>cj_Payload = [], cj_Spec = [], cj_Name = [], cj_Queue = [],
       cj_Timezone = [], cj_Paused = False\<rparr>)
   \<and> Server_handleDeleteCron st \<lparr>rq_method = ''DELETE'', rq_path = ''/api/crons'', rq_query = [(''name'', '''')],
     rq_body = Inr '''', rq_basic_auth = None\<rparr> = done_with (http_error ''Missing name parameter'' 400)"
proof -
  have "json_first [CHR 0x7B, CHR 0x7D] = Some (JObject [])" by code_simp
  then show ?thesis
    by (simp add: Server_handleSaveCron_def Server_handleDeleteCron_def decode_body_def
      decode_struct_def zero_saveCronReq_def query_get_def Let_def)
qed

text \<open>The first index of a page of the Redis search is a product that wraps around.\<close>

theorem redis_search_page_panics: "paginateJobs [x] 184467440737095518 50 = Inl ErrPanic"
  by (simp add: paginateJobs_def Sqlite_sanitizePageLimit_def Let_def)

end
