(* ===== verification/Cli.thy ===== *)
theory Cli
  imports Pool ServerFacts "HOL-Library.AList"
begin

text \<open>
  \<open>cmd/runiq/main.go\<close>: the two built-in jobs, the choice of the storage, the worker pool and the
  dashboard the command starts, and the dashboard's basic authentication. What the machine does is a
  parameter: running a program, sending a request, opening a connection. The flags are in
  theory \<open>Flags\<close>; the wait for a signal is not modelled. A call of \<open>log.Fatalf\<close> is an \<open>Inl\<close> with its text.
\<close>

section \<open>The shell job\<close>

definition buildShellCmd :: "string \<Rightarrow> string \<Rightarrow> string \<times> string list" where
  "buildShellCmd goos command =
     (if goos = ''windows'' then (''powershell'', [''-Command'', command]) else (''sh'', [''-c'', command]))"

definition put_command :: "string \<times> json \<Rightarrow> string \<Rightarrow> string option" where
  "put_command f c = (if same_field (fst f) ''command'' then string_value c (snd f) else Some c)"

text \<open>\<open>sh\<close> runs a program: the text of its error, if it failed, and its output. The result is the
  text of the job's error. Arguments that do not decode are the command itself.\<close>

definition ShellJob_command :: "bytes \<Rightarrow> string" where
  "ShellJob_command args =
     (case json_whole args of
        None \<Rightarrow> args
      | Some v \<Rightarrow> (case decode_struct put_command v '''' of None \<Rightarrow> args | Some c \<Rightarrow> c))"

definition ShellJob_Perform ::
  "string \<Rightarrow> (string \<times> string list \<Rightarrow> string option \<times> string) \<Rightarrow> bytes \<Rightarrow> string option" where
  "ShellJob_Perform goos sh args =
     (let command = ShellJob_command args in
      if command = '''' then Some ''empty command''
      else (case sh (buildShellCmd goos command) of
          (Some e, output) \<Rightarrow> Some (''command failed: '' @ e @ '', output: '' @ output)
        | (None, output) \<Rightarrow> None))"

section \<open>The webhook job\<close>

record WebhookJobArgs =
  wa_URL :: string
  wa_Method :: string
  wa_Headers :: "(string \<times> string) list"
  wa_Body :: string

definition zero_WebhookJobArgs :: WebhookJobArgs where
  "zero_WebhookJobArgs = \<lparr>wa_URL = '''', wa_Method = '''', wa_Headers = [], wa_Body = ''''\<rparr>"

text \<open>A \<open>map[string]string\<close>: \<open>null\<close> makes it nil, an object adds to what is there.\<close>

fun put_entries :: "(string \<times> json) list \<Rightarrow> (string \<times> string) list \<Rightarrow> (string \<times> string) list option" where
  "put_entries [] m = Some m"
| "put_entries ((k, v) # es) m =
     (case string_value '''' v of None \<Rightarrow> None | Some s \<Rightarrow> put_entries es (AList.update k s m))"

definition string_map :: "(string \<times> string) list \<Rightarrow> json \<Rightarrow> (string \<times> string) list option" where
  "string_map old v = (case v of JNull \<Rightarrow> Some [] | JObject es \<Rightarrow> put_entries es old | _ \<Rightarrow> None)"

definition put_webhook :: "string \<times> json \<Rightarrow> WebhookJobArgs \<Rightarrow> WebhookJobArgs option" where
  "put_webhook f a =
     (if same_field (fst f) ''url'' then map_option (\<lambda>s. a\<lparr>wa_URL := s\<rparr>) (string_value (wa_URL a) (snd f))
      else if same_field (fst f) ''method''
      then map_option (\<lambda>s. a\<lparr>wa_Method := s\<rparr>) (string_value (wa_Method a) (snd f))
      else if same_field (fst f) ''headers''
      then map_option (\<lambda>h. a\<lparr>wa_Headers := h\<rparr>) (string_map (wa_Headers a) (snd f))
      else if same_field (fst f) ''body'' then map_option (\<lambda>s. a\<lparr>wa_Body := s\<rparr>) (string_value (wa_Body a) (snd f))
      else Some a)"

definition parseWebhookArgs :: "bytes \<Rightarrow> string + WebhookJobArgs" where
  "parseWebhookArgs args =
     (case json_whole args of
        None \<Rightarrow> Inl ''failed to parse webhook args''
      | Some v \<Rightarrow> (case decode_struct put_webhook v zero_WebhookJobArgs of
          None \<Rightarrow> Inl ''failed to parse webhook args''
        | Some jobArgs \<Rightarrow>
            if wa_URL jobArgs = '''' then Inl ''empty webhook URL''
            else Inr (if wa_Method jobArgs = '''' then jobArgs\<lparr>wa_Method := ''POST''\<rparr> else jobArgs)))"

text \<open>\<open>net/textproto\<close>: the characters of a token, and the canonical form of a header's name.\<close>

definition token_char :: "char \<Rightarrow> bool" where
  "token_char c \<longleftrightarrow> (CHR ''a'' \<le> c \<and> c \<le> CHR ''z'') \<or> (CHR ''A'' \<le> c \<and> c \<le> CHR ''Z'')
     \<or> (CHR ''0'' \<le> c \<and> c \<le> CHR ''9'') \<or> c \<in> set ''!#$%&*+-.^_|~'' \<or> c = CHR 0x27 \<or> c = CHR 0x60"

definition ascii_upper :: "char \<Rightarrow> char" where
  "ascii_upper c = (if CHR ''a'' \<le> c \<and> c \<le> CHR ''z'' then char_of (of_char c - 32 :: nat) else c)"

fun capitalize_words :: "bool \<Rightarrow> string \<Rightarrow> string" where
  "capitalize_words up [] = []"
| "capitalize_words up (c # cs) =
     (if up then ascii_upper c else ascii_lower c) # capitalize_words (c = CHR ''-'') cs"

definition canonical_key :: "string \<Rightarrow> string" where
  "canonical_key k = (if list_all token_char k then capitalize_words True k else k)"

record webhook_request =
  wr_method :: string
  wr_url :: string
  wr_headers :: "string \<rightharpoonup> string"
  wr_body :: string

definition header_get :: "(string \<rightharpoonup> string) \<Rightarrow> string \<Rightarrow> string" where
  "header_get h k = (case h (canonical_key k) of Some v \<Rightarrow> v | None \<Rightarrow> '''')"

text \<open>\<open>url_error\<close> is \<open>url.Parse\<close>: the text of its error; \<open>order\<close> is the order in which \<open>range\<close> visits
  the headers.\<close>

definition buildWebhookReq ::
  "((string \<times> string) list \<Rightarrow> (string \<times> string) list) \<Rightarrow> (string \<Rightarrow> string option) \<Rightarrow> WebhookJobArgs
     \<Rightarrow> string + webhook_request" where
  "buildWebhookReq order url_error args =
     (if wa_Method args = '''' \<or> \<not> list_all token_char (wa_Method args)
      then Inl (''net/http: invalid method '' @ go_quote (wa_Method args))
      else (case url_error (wa_URL args) of
          Some e \<Rightarrow> Inl e
        | None \<Rightarrow>
            (let h = fold (\<lambda>(k, v) h. h(canonical_key k \<mapsto> v)) (order (wa_Headers args)) Map.empty;
                 h = (if header_get h ''Content-Type'' = '''' then h(''Content-Type'' \<mapsto> ''application/json'') else h)
             in Inr \<lparr>wr_method = wa_Method args, wr_url = wa_URL args, wr_headers = h, wr_body = wa_Body args\<rparr>)))"

definition WebhookJob_Perform ::
  "((string \<times> string) list \<Rightarrow> (string \<times> string) list) \<Rightarrow> (string \<Rightarrow> string option)
     \<Rightarrow> (webhook_request \<Rightarrow> string + int) \<Rightarrow> bytes \<Rightarrow> string option" where
  "WebhookJob_Perform order url_error send args =
     (case parseWebhookArgs args of
        Inl e \<Rightarrow> Some e
      | Inr jobArgs \<Rightarrow> (case buildWebhookReq order url_error jobArgs of
          Inl e \<Rightarrow> Some e
        | Inr req \<Rightarrow> (case send req of
            Inl e \<Rightarrow> Some e
          | Inr status \<Rightarrow> if status \<ge> 400 then Some (''webhook returned status '' @ Itoa status) else None)))"

section \<open>The services\<close>

record config =
  cf_port :: string
  cf_dsn :: string
  cf_driver :: string
  cf_queues :: string
  cf_tlsCert :: string
  cf_tlsKey :: string
  cf_authUser :: string
  cf_authPass :: string
  cf_concurrency :: int
  cf_workerOnly :: bool

text \<open>A \<open>storage interface{}\<close> as what the type assertions on it give.\<close>

record 's engine_value =
  en_pool :: "'s WorkerPoolStorage option"
  en_server :: "'s ServerStorage option"

record 's connectors =
  connectPostgres :: "string \<Rightarrow> string + 's engine_value"
  connectRedis :: "string \<Rightarrow> string + 's engine_value"
  connectSqlite :: "string \<Rightarrow> string + 's engine_value"

definition initStorage :: "'s connectors \<Rightarrow> string \<Rightarrow> string \<Rightarrow> string + 's engine_value" where
  "initStorage io driver dsn =
     (if driver = ''postgres'' then connectPostgres io dsn
      else if driver = ''redis'' then connectRedis io dsn
      else if driver = ''sqlite'' then connectSqlite io dsn
      else Inl (''unsupported driver: '' @ driver))"

definition TrimSpace :: "string \<Rightarrow> string" where
  "TrimSpace s = rev (dropWhile is_space (rev (dropWhile is_space s)))"

definition queue_names :: "string \<Rightarrow> string list" where
  "queue_names s = map TrimSpace (split_on CHR '','' s)"

definition unauthorized :: response where
  "unauthorized = \<lparr>rs_status = 401,
     rs_headers = (''WWW-Authenticate'', ''Basic realm='' @ go_quote ''Runiq Dashboard'') # error_headers,
     rs_body = Text (''Unauthorized'' @ [CHR 0x0A])\<rparr>"

definition basicAuth :: "string \<Rightarrow> string \<Rightarrow> 's middleware" where
  "basicAuth username password nxt r =
     (case rq_basic_auth r of
        None \<Rightarrow> done_with unauthorized
      | Some (user, pass) \<Rightarrow>
          if user \<noteq> username \<or> pass \<noteq> password then done_with unauthorized else nxt r)"

definition buildServer :: "config \<Rightarrow> 's ServerStorage \<Rightarrow> 's Server" where
  "buildServer cfg store =
     (let opts = (if cf_authUser cfg \<noteq> '''' \<and> cf_authPass cfg \<noteq> ''''
                  then [WithMiddleware [basicAuth (cf_authUser cfg) (cf_authPass cfg)]] else [])
      in NewServer store (cf_port cfg) opts)"

text \<open>The jobs a pool runs for the two names; they do not touch the storage.\<close>

definition job_of :: "(bytes \<Rightarrow> string option) \<Rightarrow> 's job" where
  "job_of perform args = done_with (Returned (perform args))"

definition createWorkerPool ::
  "string \<Rightarrow> int \<Rightarrow> 's job \<Rightarrow> 's job \<Rightarrow> ('s, 'h) WorkerPool" where
  "createWorkerPool processID concurrency shell webhook =
     Pool_Register ''webhook'' webhook [] (Pool_Register ''shell'' shell []
       (NewWorkerPool processID concurrency []))"

definition startDashboardIfEnabled :: "config \<Rightarrow> 's engine_value \<Rightarrow> string + 's Server option" where
  "startDashboardIfEnabled cfg storage =
     (if cf_workerOnly cfg then Inr None
      else case en_server storage of
        None \<Rightarrow> Inl ''storage engine does not support server operations''
      | Some serverStore \<Rightarrow> Inr (Some (buildServer cfg serverStore)))"

text \<open>The pool that polls \<open>queues\<close>, and the server, if there is one.\<close>

definition startServices ::
  "string \<Rightarrow> 's job \<Rightarrow> 's job \<Rightarrow> config \<Rightarrow> 's engine_value \<Rightarrow> string list
     \<Rightarrow> string + ('s, 'h) WorkerPool \<times> string list \<times> 's Server option" where
  "startServices processID shell webhook cfg storage queues =
     (case en_pool storage of
        None \<Rightarrow> Inl ''storage engine does not support worker pool operations''
      | Some poolStore \<Rightarrow>
          (let pool = createWorkerPool processID (cf_concurrency cfg) shell webhook in
           case startDashboardIfEnabled cfg storage of
             Inl e \<Rightarrow> Inl e
           | Inr srv \<Rightarrow> Inr (pool, queues, srv)))"

definition runCli ::
  "'s connectors \<Rightarrow> string \<Rightarrow> 's job \<Rightarrow> 's job \<Rightarrow> config
     \<Rightarrow> string + ('s, 'h) WorkerPool \<times> string list \<times> 's Server option" where
  "runCli io processID shell webhook cfg =
     (let queues = queue_names (cf_queues cfg) in
      case initStorage io (cf_driver cfg) (cf_dsn cfg) of
        Inl e \<Rightarrow> Inl (''failed to initialize storage: '' @ e)
      | Inr storage \<Rightarrow> startServices processID shell webhook cfg storage queues)"

definition main_run ::
  "'s connectors \<Rightarrow> string \<Rightarrow> 's job \<Rightarrow> 's job \<Rightarrow> config
     \<Rightarrow> string + ('s, 'h) WorkerPool \<times> string list \<times> 's Server option" where
  "main_run io processID shell webhook cfg =
     (if cf_dsn cfg = '''' \<or> cf_driver cfg = '''' \<or> cf_queues cfg = ''''
      then Inl ''missing required flags: --dsn, --driver and --queue are mandatory''
      else runCli io processID shell webhook cfg)"


section \<open>Signing in\<close>

text \<open>C28: With a user and a password configured, a request without exactly these credentials is answered
  401 and never reaches a handler or the storage; every other request is served. If one of the two is
  empty the dashboard serves every request.\<close>

theorem dashboard_requires_login:
  "Server_Handler assets rounds zone (buildServer cfg st) r =
     (if cf_authUser cfg = '''' \<or> cf_authPass cfg = '''' \<or> rq_basic_auth r = Some (cf_authUser cfg, cf_authPass cfg)
      then Server_mux assets rounds zone st r else done_with unauthorized)"
  by (auto simp: Server_Handler_def buildServer_def NewServer_def WithMiddleware_def Server_applyMiddlewares_def
    basicAuth_def split: option.split)

lemma dashboard_open:
  "cf_authUser cfg = '''' \<Longrightarrow> Server_Handler assets rounds zone (buildServer cfg st) = Server_mux assets rounds zone st"
  by (rule ext) (simp add: Server_Handler_def buildServer_def NewServer_def Server_applyMiddlewares_def)

text \<open>A password alone is no protection.\<close>

theorem password_alone_is_ignored:
  "Server_Handler assets rounds zone
     (buildServer \<lparr>cf_port = p, cf_dsn = dsn, cf_driver = dr, cf_queues = q, cf_tlsCert = tc, cf_tlsKey = tk,
        cf_authUser = '''', cf_authPass = pw, cf_concurrency = n, cf_workerOnly = w\<rparr> st)
   = Server_mux assets rounds zone st"
  by (simp add: dashboard_open)

lemma dashboard_act:
  "act_keeps I (Server_mux assets rounds zone st r)
    \<Longrightarrow> act_keeps I (Server_Handler assets rounds zone (buildServer cfg st) r)"
  by (simp add: Server_Handler_def buildServer_def NewServer_def WithMiddleware_def Server_applyMiddlewares_def
    basicAuth_def act_rules split: option.split)

section \<open>The dashboard and the database\<close>

definition signed_in :: "config \<Rightarrow> request \<Rightarrow> bool" where
  "signed_in cfg r \<longleftrightarrow> cf_authUser cfg = '''' \<or> cf_authPass cfg = ''''
     \<or> rq_basic_auth r = Some (cf_authUser cfg, cf_authPass cfg)"

lemma Handler_signed_in:
  "Server_Handler assets rounds zone (buildServer cfg st) r =
     (if signed_in cfg r then Server_mux assets rounds zone st r else done_with unauthorized)"
  by (auto simp: Server_Handler_def buildServer_def NewServer_def WithMiddleware_def Server_applyMiddlewares_def
    basicAuth_def signed_in_def split: option.split)

text \<open>C30: A request that is neither POST nor DELETE changes no table of an SQL backend but that of the
  processes, and that one only by deleting the processes whose last heartbeat is more than fifteen
  seconds ago.\<close>

theorem dashboard_get_reads_only:
  assumes "rq_method r \<noteq> ''POST''" "rq_method r \<noteq> ''DELETE''"
    and "st = sqlite_server stack now \<or> st = postgres_server fmt stack now"
    and "Server_Handler assets rounds zone (buildServer cfg st) r (d, fs) = Some (resp, (d', fs'))"
  shows "d' = d \<or> d' = d\<lparr>processes := filter (\<lambda>p. now - 15 * second \<le> p_heartbeat_at p) (processes d)\<rparr>"
proof -
  have "act_keeps (\<lambda>s. pruned now d (fst s)) (Server_Handler assets rounds zone (buildServer cfg st) r)"
    using assms(3) sqlite_served.mux_reading[OF assms(1,2)] postgres_served.mux_reading[OF assms(1,2)]
    by (auto intro: dashboard_act)
  from act_keepsD[OF this assms(4)] show ?thesis by (simp add: pruned_refl) (simp add: pruned_iff)
qed

text \<open>C29: A request with valid credentials, where they are configured, changes the storage by
  exactly the one call that its method, path and parameters ask for, as the table \<open>requested\<close> says,
  on each backend; the answer is 200 if the call succeeds and 500 with its error if not. A request
  that asks for no call (another method, a missing parameter, a body that does not decode, another
  path) changes nothing, but for processes without a heartbeat for fifteen seconds.\<close>

theorem dashboard_does_what_is_asked:
  assumes "signed_in cfg r"
  shows "case requested stack now zone r of
      Some c \<Rightarrow>
        Server_Handler assets n zone (buildServer cfg (sqlite_server stack now)) r = answer (run_call c)
        \<and> Server_Handler assets n zone (buildServer cfg (postgres_server fmt stack now)) r = answer (pg_call pl locked fmt c)
        \<and> Server_Handler assets n zone (buildServer cfg (redis_server pages stack now)) r = answer (redis_call pages stack now c)
    | None \<Rightarrow>
        (\<forall>d fs resp d' fs'.
           Server_Handler assets n zone (buildServer cfg (sqlite_server stack now)) r (d, fs) = Some (resp, (d', fs'))
           \<or> Server_Handler assets n zone (buildServer cfg (postgres_server fmt stack now)) r (d, fs) = Some (resp, (d', fs'))
           \<longrightarrow> d' = d \<or> d' = d\<lparr>processes := filter (\<lambda>p. now - 15 * second \<le> p_heartbeat_at p) (processes d)\<rparr>)
        \<and> (\<forall>s fs resp s' fs'.
           Server_Handler assets n zone (buildServer cfg (redis_server pages stack now)) r (s, fs) = Some (resp, (s', fs'))
           \<longrightarrow> s'\<lparr>rd_processes := rd_processes s, rd_heartbeat := rd_heartbeat s\<rparr> = s)"
proof (cases "requested stack now zone r")
  case (Some c)
  with assms sqlite_served.mux[where stack = stack and now = now and zone = zone and r = r and assets = assets and n = n]
    postgres_served.mux[where stack = stack and now = now and zone = zone and r = r and fmt = fmt
      and pl = pl and locked = locked and assets = assets and n = n]
    redis_served.mux[where stack = stack and now = now and zone = zone and r = r and pages = pages
      and assets = assets and n = n]
  show ?thesis
    by (simp add: Handler_signed_in sqlite_served.does_def postgres_served.does_def redis_served.does_def)
next
  case None
  have sql: "pruned now d d'"
    if "Server_Handler assets n zone (buildServer cfg (sqlite_server stack now)) r (d, fs) = Some (resp, (d', fs'))
      \<or> Server_Handler assets n zone (buildServer cfg (postgres_server fmt stack now)) r (d, fs) = Some (resp, (d', fs'))"
    for d fs resp d' fs'
    using that assms None
      sqlite_served.mux[where stack = stack and now = now and zone = zone and r = r and d = d and assets = assets and n = n]
      postgres_served.mux[where stack = stack and now = now and zone = zone and r = r and d = d and fmt = fmt
        and assets = assets and n = n]
    by (auto simp: Handler_signed_in sqlite_served.does_def postgres_served.does_def pruned_refl
        dest!: act_keepsD)
  have redis: "same_but_heartbeats s s'"
    if "Server_Handler assets n zone (buildServer cfg (redis_server pages stack now)) r (s, fs) = Some (resp, (s', fs'))"
    for s fs resp s' fs'
    using that assms None redis_served.mux[where stack = stack and now = now and zone = zone and r = r
        and pages = pages and s = s and assets = assets and n = n]
    by (auto simp: Handler_signed_in redis_served.does_def same_refl dest!: act_keepsD)
  show ?thesis
    using sql redis unfolding None option.case pruned_iff same_but_heartbeats_def by blast
qed


section \<open>Shell commands\<close>

text \<open>C32: A command packed as JSON is the command that is run, whatever characters it has: the shell is
  started once, with exactly this text, and the job succeeds if and only if the shell does.\<close>

theorem shell_job_roundtrip:
  "ShellJob_Perform ''linux'' sh ([CHR 0x7B] @ json_string ''command'' @ '':'' @ json_string c @ [CHR 0x7D])
   = (if c = '''' then Some ''empty command''
      else map_option (\<lambda>e. ''command failed: '' @ e @ '', output: '' @ snd (sh (''sh'', [''-c'', c])))
        (fst (sh (''sh'', [''-c'', c]))))"
  using json_whole_field[of "''command''" c]
  by (simp add: ShellJob_Perform_def ShellJob_command_def decode_struct_def put_command_def same_field_def
    string_value_def buildShellCmd_def split: option.split prod.split)

text \<open>Arguments with a command of another type are not refused: the JSON text itself is run.\<close>

theorem shell_job_runs_json_text:
  "ShellJob_command ([CHR 0x7B, CHR 0x22] @ ''command'' @ [CHR 0x22] @ '':[1]'' @ [CHR 0x7D])
   = [CHR 0x7B, CHR 0x22] @ ''command'' @ [CHR 0x22] @ '':[1]'' @ [CHR 0x7D]"
  by code_simp

section \<open>Witnesses\<close>

definition plain_config :: config where
  "plain_config = \<lparr>cf_port = '':8080'', cf_dsn = ''file'', cf_driver = ''sqlite'', cf_queues = ''q'', cf_tlsCert = '''',
     cf_tlsKey = '''', cf_authUser = '''', cf_authPass = '''', cf_concurrency = 1, cf_workerOnly = False\<rparr>"

definition plain_request :: "string \<Rightarrow> string \<Rightarrow> (string \<times> string) list \<Rightarrow> request" where
  "plain_request m p q = \<lparr>rq_method = m, rq_path = p, rq_query = q, rq_body = Inr '''', rq_basic_auth = None\<rparr>"

definition worker_seen :: "string \<Rightarrow> time \<Rightarrow> process_row" where
  "worker_seen p t = \<lparr>p_id = p, p_concurrency = 1, p_queues = '''', p_heartbeat_at = t,
     p_min_concurrency = 1, p_max_concurrency = 1\<rparr>"

definition dead_process_db :: db where
  "dead_process_db = empty_db\<lparr>paused_queues := [''q''],
     processes := [worker_seen ''w'' (44 * second), worker_seen ''v'' (45 * second)]\<rparr>"

definition live_process_db :: db where
  "live_process_db = empty_db\<lparr>paused_queues := [''q''], processes := [worker_seen ''v'' (45 * second)]\<rparr>"

lemma dead_process_dropped:
  "map_option snd (Server_Handler (\<lambda>_. http_ok) 0 (\<lambda>_. None) (buildServer plain_config (sqlite_server 0 (60 * second)))
     (plain_request ''GET'' ''/api/stats'' []) (dead_process_db, []))
   = Some (live_process_db, [])"
  by code_simp

theorem dashboard_get_reads_only_witness:
  "dead_process_db \<noteq> live_process_db
   \<and> live_process_db = dead_process_db\<lparr>processes := filter (\<lambda>p. 60 * second - 15 * second \<le> p_heartbeat_at p)
       (processes dead_process_db)\<rparr>"
proof -
  obtain resp where "Server_Handler (\<lambda>_. http_ok) 0 (\<lambda>_. None) (buildServer plain_config (sqlite_server 0 (60 * second)))
     (plain_request ''GET'' ''/api/stats'' []) (dead_process_db, []) = Some (resp, (live_process_db, []))"
    using dead_process_dropped by auto
  from dashboard_get_reads_only[OF _ _ _ this, where stack = 0 and now = "60 * second"] have
    "live_process_db = dead_process_db \<or> live_process_db = dead_process_db\<lparr>processes :=
       filter (\<lambda>p. 60 * second - 15 * second \<le> p_heartbeat_at p) (processes dead_process_db)\<rparr>"
    by (simp add: plain_request_def)
  moreover have "dead_process_db \<noteq> live_process_db"
    by (auto simp: dead_process_db_def live_process_db_def empty_db_def)
  ultimately show ?thesis by metis
qed


lemma option_jobs_in:
  assumes "\<And>resp d' fs'. r = Some (resp, d', fs') \<Longrightarrow> jobs d' = x"
  shows "map_option (\<lambda>(resp, d', fs'). jobs d') r \<in> {None, Some x}"
  using assms by (cases r) (auto split: prod.splits)

theorem dashboard_does_what_is_asked_witness:
  "Server_Handler (\<lambda>_. http_ok) 0 (\<lambda>_. None) (buildServer plain_config (sqlite_server 0 0))
     (plain_request ''POST'' ''/api/queues/clear'' [(''name'', ''q'')]) = answer (run_call (CClearQueue ''q''))
   \<and> (\<forall>d fs. map_option (\<lambda>(resp, d', fs'). jobs d')
        (Server_Handler (\<lambda>_. http_ok) 0 (\<lambda>_. None) (buildServer plain_config (sqlite_server 0 0))
          (plain_request ''GET'' ''/api/queues/clear'' [(''name'', ''q'')]) (d, fs)) \<in> {None, Some (jobs d)})"
proof
  have ok: "signed_in plain_config (plain_request m p q)" for m p q by (simp add: signed_in_def plain_config_def)
  have "requested 0 0 (\<lambda>_. None) (plain_request ''POST'' ''/api/queues/clear'' [(''name'', ''q'')])
      = Some (CClearQueue ''q'')"
    "requested 0 0 (\<lambda>_. None) (plain_request ''GET'' ''/api/queues/clear'' [(''name'', ''q'')]) = None"
    by (simp_all add: requested_def asked_for_def with_arg_def plain_request_def query_get_def)
  with dashboard_does_what_is_asked[OF ok[of "''POST''" "''/api/queues/clear''" "[(''name'', ''q'')]"],
      where stack = 0 and now = 0 and zone = "\<lambda>_. None" and assets = "\<lambda>_. http_ok" and n = 0]
    dashboard_does_what_is_asked[OF ok[of "''GET''" "''/api/queues/clear''" "[(''name'', ''q'')]"],
      where stack = 0 and now = 0 and zone = "\<lambda>_. None" and assets = "\<lambda>_. http_ok" and n = 0]
  show "Server_Handler (\<lambda>_. http_ok) 0 (\<lambda>_. None) (buildServer plain_config (sqlite_server 0 0))
     (plain_request ''POST'' ''/api/queues/clear'' [(''name'', ''q'')]) = answer (run_call (CClearQueue ''q''))"
    and "\<forall>d fs. map_option (\<lambda>(resp, d', fs'). jobs d')
        (Server_Handler (\<lambda>_. http_ok) 0 (\<lambda>_. None) (buildServer plain_config (sqlite_server 0 0))
          (plain_request ''GET'' ''/api/queues/clear'' [(''name'', ''q'')]) (d, fs)) \<in> {None, Some (jobs d)}"
    by (fastforce intro!: option_jobs_in)+
qed

end
