(* ===== verification/Flags.thy ===== *)
theory Flags
  imports Cli
begin

text \<open>
  The command line of \<open>runiq\<close>: \<open>parseFlags\<close> of \<open>main.go\<close> on Go's package \<open>flag\<close>, with \<open>strconv.ParseInt\<close>
  in base 0 for the one integer flag, and the listener that the dashboard is started on. A bad flag or a
  request for help ends the process, which is an \<open>Inl\<close>.
\<close>

section \<open>Integers in base 0\<close>

definition lower_char :: "char \<Rightarrow> char" where
  "lower_char c = ascii_lower c"

definition digit36 :: "char \<Rightarrow> nat option" where
  "digit36 c = (case digit_of c of
     Some d \<Rightarrow> Some d
   | None \<Rightarrow> (let n = of_char (lower_char c) in if 97 \<le> n \<and> n \<le> 122 then Some (n - 87) else None))"

text \<open>The digits; underscores are skipped here, and checked by \<open>underscore_ok\<close>.\<close>

fun parse_base :: "nat \<Rightarrow> nat \<Rightarrow> string \<Rightarrow> nat option" where
  "parse_base b acc [] = Some acc"
| "parse_base b acc (c # cs) =
     (if c = CHR ''_'' then parse_base b acc cs
      else case digit36 c of
        None \<Rightarrow> None
      | Some d \<Rightarrow> if d \<ge> b then None else parse_base b (acc * b + d) cs)"

text \<open>\<open>underscoreOK\<close>: an underscore stands between digits, or between a base prefix and a digit. The kind
  of the last character is \<open>^\<close> at the start, \<open>0\<close> for a digit, \<open>_\<close>, or \<open>!\<close> for anything else.\<close>

fun underscores :: "bool \<Rightarrow> char \<Rightarrow> string \<Rightarrow> bool" where
  "underscores hex i [] = (i \<noteq> CHR ''_'')"
| "underscores hex i (c # cs) =
     (if digit_of c \<noteq> None \<or> hex \<and> (case digit36 c of Some d \<Rightarrow> d < 16 | None \<Rightarrow> False)
      then underscores hex CHR ''0'' cs
      else if c = CHR ''_'' then (if i \<noteq> CHR ''0'' then False else underscores hex CHR ''_'' cs)
      else if i = CHR ''_'' then False
      else underscores hex CHR ''!'' cs)"

definition underscore_ok :: "string \<Rightarrow> bool" where
  "underscore_ok s =
     (if 2 \<le> length s \<and> s ! 0 = CHR ''0'' \<and> lower_char (s ! 1) \<in> set ''box''
      then underscores (lower_char (s ! 1) = CHR ''x'') CHR ''0'' (drop 2 s)
      else underscores False CHR ''^'' s)"

definition parse_uint :: "string \<Rightarrow> nat option" where
  "parse_uint s =
     (if s = [] then None
      else let (b, r) =
          (if s ! 0 = CHR ''0''
           then if 3 \<le> length s \<and> lower_char (s ! 1) = CHR ''b'' then (2, drop 2 s)
                else if 3 \<le> length s \<and> lower_char (s ! 1) = CHR ''o'' then (8, drop 2 s)
                else if 3 \<le> length s \<and> lower_char (s ! 1) = CHR ''x'' then (16, drop 2 s)
                else (8, drop 1 s)
           else (10, s))
        in case parse_base b 0 r of
             None \<Rightarrow> None
           | Some n \<Rightarrow> if CHR ''_'' \<in> set r \<and> \<not> underscore_ok s then None else Some n)"

definition ParseInt :: "string \<Rightarrow> int option" where
  "ParseInt s =
     (case s of
        [] \<Rightarrow> None
      | c # r \<Rightarrow>
          if c = CHR ''-'' then (case parse_uint r of None \<Rightarrow> None | Some n \<Rightarrow> in_int64 (- int n))
          else if c = CHR ''+'' then (case parse_uint r of None \<Rightarrow> None | Some n \<Rightarrow> in_int64 (int n))
          else (case parse_uint s of None \<Rightarrow> None | Some n \<Rightarrow> in_int64 (int n)))"

section \<open>Flags\<close>

datatype flag_stop = FlagHelp | FlagError string

definition flag_names :: "string list" where
  "flag_names = [''port'', ''dsn'', ''driver'', ''queue'', ''concurrency'', ''tls-cert'', ''tls-key'',
     ''basic-auth-user'', ''basic-auth-pass'']"

definition set_flag :: "string \<Rightarrow> string \<Rightarrow> config \<Rightarrow> flag_stop + config" where
  "set_flag name v cfg =
     (if name = ''port'' then Inr (cfg\<lparr>cf_port := v\<rparr>)
      else if name = ''dsn'' then Inr (cfg\<lparr>cf_dsn := v\<rparr>)
      else if name = ''driver'' then Inr (cfg\<lparr>cf_driver := v\<rparr>)
      else if name = ''queue'' then Inr (cfg\<lparr>cf_queues := v\<rparr>)
      else if name = ''concurrency'' then
        (case ParseInt v of
           None \<Rightarrow> Inl (FlagError (''invalid value '' @ go_quote v @ '' for flag -concurrency''))
         | Some n \<Rightarrow> Inr (cfg\<lparr>cf_concurrency := n\<rparr>))
      else if name = ''tls-cert'' then Inr (cfg\<lparr>cf_tlsCert := v\<rparr>)
      else if name = ''tls-key'' then Inr (cfg\<lparr>cf_tlsKey := v\<rparr>)
      else if name = ''basic-auth-user'' then Inr (cfg\<lparr>cf_authUser := v\<rparr>)
      else Inr (cfg\<lparr>cf_authPass := v\<rparr>))"

text \<open>\<open>name=value\<close>, cut at the first equals sign.\<close>

definition cut_value :: "string \<Rightarrow> string \<times> string option" where
  "cut_value s =
     (if CHR ''='' \<in> set s
      then (takeWhile (\<lambda>c. c \<noteq> CHR ''='') s, Some (tl (dropWhile (\<lambda>c. c \<noteq> CHR ''='') s)))
      else (s, None))"

text \<open>\<open>flag.Parse\<close>: the configuration and the arguments left. It stops at the first argument that is no
  flag and behind \<open>--\<close>; none of the flags is boolean.\<close>

fun flag_parse :: "string list \<Rightarrow> config \<Rightarrow> flag_stop + config \<times> string list" where
  "flag_parse [] cfg = Inr (cfg, [])"
| "flag_parse (s # args) cfg =
     (if length s < 2 \<or> s ! 0 \<noteq> CHR ''-'' then Inr (cfg, s # args)
      else if s = ''--'' then Inr (cfg, args)
      else let name = (if s ! 1 = CHR ''-'' then drop 2 s else drop 1 s) in
        if name = [] \<or> name ! 0 = CHR ''-'' \<or> name ! 0 = CHR ''='' then Inl (FlagError (''bad flag syntax: '' @ s))
        else let (n, v) = cut_value name in
          if n \<notin> set flag_names
          then Inl (if n = ''help'' \<or> n = ''h'' then FlagHelp
                    else FlagError (''flag provided but not defined: -'' @ n))
          else (case v of
              Some x \<Rightarrow> (case set_flag n x cfg of Inl e \<Rightarrow> Inl e | Inr cfg' \<Rightarrow> flag_parse args cfg')
            | None \<Rightarrow>
                (case args of
                   [] \<Rightarrow> Inl (FlagError (''flag needs an argument: -'' @ n))
                 | x # args' \<Rightarrow> (case set_flag n x cfg of Inl e \<Rightarrow> Inl e | Inr cfg' \<Rightarrow> flag_parse args' cfg'))))"

definition flag_defaults :: config where
  "flag_defaults = \<lparr>cf_port = '':8080'', cf_dsn = '''', cf_driver = '''', cf_queues = '''', cf_tlsCert = '''',
     cf_tlsKey = '''', cf_authUser = '''', cf_authPass = '''', cf_concurrency = 10, cf_workerOnly = False\<rparr>"

definition parseFlags :: "string list \<Rightarrow> flag_stop + config" where
  "parseFlags osArgs =
     (let worker = (1 < length osArgs \<and> osArgs ! 1 = ''worker'');
          args = (if worker then drop 2 osArgs else drop 1 osArgs)
      in case flag_parse args flag_defaults of
           Inl e \<Rightarrow> Inl e
         | Inr (cfg, _) \<Rightarrow> Inr (if worker then cfg\<lparr>cf_workerOnly := True\<rparr> else cfg))"

section \<open>The listener\<close>

text \<open>\<open>Start\<close> and \<open>StartTLS\<close> hide that the listener was shut down.\<close>

datatype listen_end = ServerClosed | ListenError string

definition Server_Start :: "listen_end \<Rightarrow> string option" where
  "Server_Start listenAndServe = (case listenAndServe of ServerClosed \<Rightarrow> None | ListenError e \<Rightarrow> Some e)"

definition Server_StartTLS :: "(string \<Rightarrow> string \<Rightarrow> listen_end) \<Rightarrow> string \<Rightarrow> string \<Rightarrow> string option" where
  "Server_StartTLS listenAndServeTLS certFile keyFile =
     (case listenAndServeTLS certFile keyFile of ServerClosed \<Rightarrow> None | ListenError e \<Rightarrow> Some e)"

definition runDashboardServer :: "listen_end \<Rightarrow> (string \<Rightarrow> string \<Rightarrow> listen_end) \<Rightarrow> config \<Rightarrow> string option" where
  "runDashboardServer plain tls cfg =
     (if cf_tlsCert cfg \<noteq> '''' \<and> cf_tlsKey cfg \<noteq> ''''
      then Server_StartTLS tls (cf_tlsCert cfg) (cf_tlsKey cfg)
      else Server_Start plain)"

section \<open>Every configuration can be asked for\<close>

definition flag_arg :: "string \<Rightarrow> string \<Rightarrow> string" where
  "flag_arg name v = ''--'' @ name @ ''='' @ v"

definition render_flags :: "config \<Rightarrow> string list" where
  "render_flags cfg = (if cf_workerOnly cfg then [''worker''] else []) @
     [flag_arg ''port'' (cf_port cfg), flag_arg ''dsn'' (cf_dsn cfg), flag_arg ''driver'' (cf_driver cfg),
      flag_arg ''queue'' (cf_queues cfg), flag_arg ''concurrency'' (Itoa (cf_concurrency cfg)),
      flag_arg ''tls-cert'' (cf_tlsCert cfg), flag_arg ''tls-key'' (cf_tlsKey cfg),
      flag_arg ''basic-auth-user'' (cf_authUser cfg), flag_arg ''basic-auth-pass'' (cf_authPass cfg)]"

lemma parse_base_digits:
  "list_all (\<lambda>c. digit_of c \<noteq> None) s \<Longrightarrow> parse_base 10 acc s = parse_digits acc s"
proof (induction s arbitrary: acc)
  case (Cons c s)
  then obtain d where d: "digit_of c = Some d" by auto
  then have "c \<noteq> CHR ''_''" "d < 10" by (auto simp: digit_of_def Let_def split: if_splits)
  with Cons d show ?case by (simp add: digit36_def mult.commute)
qed simp

lemma itoa_digits: "list_all (\<lambda>c. digit_of c \<noteq> None) (itoa_nat n)"
  by (auto simp: list_all_iff dest!: itoa_nat_digits)

lemma itoa_first: "0 < n \<Longrightarrow> itoa_nat n ! 0 \<noteq> CHR ''0''"
proof (induction n rule: itoa_nat.induct)
  case (1 n)
  show ?case
  proof (cases "n < 10")
    case True
    have "digit_of CHR ''0'' = Some 0" by code_simp
    then have "digit_char n \<noteq> CHR ''0''" using 1(2) digit_of_digit_char[OF True] by auto
    with True show ?thesis by (subst itoa_nat.simps) simp
  next
    case False
    with 1 show ?thesis by (subst itoa_nat.simps) (simp add: nth_append)
  qed
qed

lemma parse_uint_itoa: "parse_uint (itoa_nat n) = Some n"
proof (cases "n = 0")
  case True
  have "digit_char 0 = CHR ''0''" by code_simp
  then have "itoa_nat 0 = ''0''" by (subst itoa_nat.simps) simp
  with True show ?thesis by (simp add: parse_uint_def)
next
  case False
  have "CHR ''_'' \<notin> set (itoa_nat n)" using itoa_nat_char_range[of "CHR ''_''" n] by auto
  with False show ?thesis
    by (simp add: parse_uint_def itoa_first parse_base_digits[OF itoa_digits] parse_itoa)
qed

lemma ParseInt_Itoa:
  assumes "in_int64 n = Some n"
  shows "ParseInt (Itoa n) = Some n"
proof (cases "n < 0")
  case True
  with assms show ?thesis by (simp add: ParseInt_def Itoa_def parse_uint_itoa)
next
  case False
  obtain c r where cr: "itoa_nat (nat n) = c # r" by (cases "itoa_nat (nat n)") auto
  have "c \<noteq> CHR ''-''" "c \<noteq> CHR ''+''"
    using itoa_nat_not_in[of "CHR ''-''" "nat n"] itoa_nat_not_in[of "CHR ''+''" "nat n"] cr by auto
  with False assms cr parse_uint_itoa[of "nat n"] show ?thesis by (simp add: ParseInt_def Itoa_def)
qed

lemma cut_value_flag: "CHR ''='' \<notin> set n \<Longrightarrow> cut_value (n @ CHR ''='' # v) = (n, Some v)"
  by (induction n) (auto simp: cut_value_def)

lemma flag_step:
  assumes "n \<in> set flag_names"
  shows "flag_parse (flag_arg n v # args) cfg = (case set_flag n v cfg of Inl e \<Rightarrow> Inl e | Inr cfg' \<Rightarrow> flag_parse args cfg')"
proof -
  have name: "list_all (\<lambda>n. n \<noteq> [] \<and> n ! 0 \<noteq> CHR ''-'' \<and> n ! 0 \<noteq> CHR ''='' \<and> CHR ''='' \<notin> set n) flag_names"
    by code_simp
  with assms(1) have n: "n \<noteq> []" "n ! 0 \<noteq> CHR ''-''" "n ! 0 \<noteq> CHR ''=''" "CHR ''='' \<notin> set n"
    by (auto simp: list_all_iff)
  with assms show ?thesis
    by (simp add: cut_value_flag nth_append flag_arg_def)
qed

text \<open>Every configuration is reached from the command line: its flags, each written as
  \<open>--name=value\<close>, behind \<open>worker\<close> when there is to be no dashboard, are read back as exactly this
  configuration, whatever the texts are, empty or with spaces, dashes and equals signs.\<close>

theorem flags_roundtrip:
  assumes "in_int64 (cf_concurrency cfg) = Some (cf_concurrency cfg)"
  shows "parseFlags (program # render_flags cfg) = Inr cfg"
proof -
  have int: "ParseInt (Itoa (cf_concurrency cfg)) = Some (cf_concurrency cfg)" by (rule ParseInt_Itoa[OF assms])
  have steps: "flag_parse (drop (if cf_workerOnly cfg then 1 else 0) (render_flags cfg)) flag_defaults
      = Inr (cfg\<lparr>cf_workerOnly := False\<rparr>, [])"
    by (simp add: render_flags_def flag_step flag_names_def set_flag_def int flag_defaults_def del: flag_parse.simps(2))
  have "render_flags cfg ! 0 = ''worker'' \<longleftrightarrow> cf_workerOnly cfg" by (simp add: render_flags_def flag_arg_def)
  moreover have "1 < length (program # render_flags cfg)" by (simp add: render_flags_def)
  ultimately show ?thesis
    using steps by (cases "cf_workerOnly cfg") (simp_all add: parseFlags_def)
qed

text \<open>A listener with only one of the two TLS flags is started without TLS, without an error.\<close>

theorem tls_needs_both:
  "cf_tlsCert cfg = '''' \<or> cf_tlsKey cfg = '''' \<Longrightarrow> runDashboardServer plain tls cfg = Server_Start plain"
  by (auto simp: runDashboardServer_def)

theorem flags_roundtrip_witness:
  "parseFlags (''runiq'' # render_flags (plain_config\<lparr>cf_dsn := ''--driver=a b'', cf_workerOnly := True\<rparr>))
   = Inr (plain_config\<lparr>cf_dsn := ''--driver=a b'', cf_workerOnly := True\<rparr>)"
  by (rule flags_roundtrip) (simp add: plain_config_def in_int64_def max_int_def)

end
