(* ===== verification/Setup.thy ===== *)
theory Setup
  imports Client Schema WorkerRuns Flags
begin

text \<open>
  How a program is put together: the drivers that the package registers when it is loaded, storage
  objects with the namespace they carry, the options of \<open>NewClient\<close>, the end of a pool's \<open>Start\<close>, and what
  a pool of the \<open>runiq\<close> command does not start. Storage objects are pointers: an index into the objects
  of the process.
\<close>

section \<open>Storage objects\<close>

datatype backend = SqliteBackend | PostgresBackend | RedisBackend | OtherBackend

record storage_object =
  so_backend :: backend
  so_prefix :: string
  so_database :: nat

text \<open>A database is its catalogue and the schedule of its failures.\<close>

record process =
  ps_objects :: "storage_object list"
  ps_databases :: "nat \<Rightarrow> catalog \<times> bool list"

datatype conn_value = SqlConn nat | RedisConn nat | OtherConn

definition new_object :: "backend \<Rightarrow> nat \<Rightarrow> process \<Rightarrow> nat \<times> process" where
  "new_object b n ps = (length (ps_objects ps),
     ps\<lparr>ps_objects := ps_objects ps @ [\<lparr>so_backend = b, so_prefix = ''runiq'', so_database = n\<rparr>]\<rparr>)"

text \<open>Creating an object of an SQL backend creates and migrates its tables. If that fails there is no
  object, but what was created stays.\<close>

definition open_sql :: "backend \<Rightarrow> (catalog, string) eff \<Rightarrow> nat \<Rightarrow> process \<Rightarrow> (err + nat) \<times> process" where
  "open_sql b start n ps =
     (case start (ps_databases ps n) of
        None \<Rightarrow> (Inl ErrEngine, ps)
      | Some (Inl e, c) \<Rightarrow> (Inl e, ps\<lparr>ps_databases := (ps_databases ps)(n := c)\<rparr>)
      | Some (Inr _, c) \<Rightarrow> (let (r, ps') = new_object b n (ps\<lparr>ps_databases := (ps_databases ps)(n := c)\<rparr>)
                           in (Inr r, ps')))"

section \<open>Drivers\<close>

text \<open>The factories that the \<open>init\<close> functions register; they get the connection and the process.\<close>

definition sqlite_factory :: "(conn_value \<times> process, (err + nat) \<times> process) factory" where
  "sqlite_factory = (\<lambda>(conn, ps). case conn of
       SqlConn n \<Rightarrow> Inr (open_sql SqliteBackend NewSqliteStorage n ps)
     | _ \<Rightarrow> Inl (ErrMsg ''sqlite driver requires *sql.DB connection''))"

definition postgres_factory :: "(conn_value \<times> process, (err + nat) \<times> process) factory" where
  "postgres_factory = (\<lambda>(conn, ps). case conn of
       SqlConn n \<Rightarrow> Inr (open_sql PostgresBackend NewPostgresStorage n ps)
     | _ \<Rightarrow> Inl (ErrMsg ''postgres driver requires *sql.DB connection''))"

definition redis_factory :: "(conn_value \<times> process, (err + nat) \<times> process) factory" where
  "redis_factory = (\<lambda>(conn, ps). case conn of
       RedisConn n \<Rightarrow> Inr (let (r, ps') = new_object RedisBackend n ps in (Inr r, ps'))
     | _ \<Rightarrow> Inl (ErrMsg ''redis driver requires *redis.Client connection''))"

text \<open>The \<open>init\<close> functions of a package run in the order of its files' names.\<close>

definition init_postgres ::
  "(conn_value \<times> process, (err + nat) \<times> process) drivers
     \<Rightarrow> string + (conn_value \<times> process, (err + nat) \<times> process) drivers" where
  "init_postgres ds = RegisterStorageDriver ds ''postgres'' (Some postgres_factory)"

definition init_redis ::
  "(conn_value \<times> process, (err + nat) \<times> process) drivers
     \<Rightarrow> string + (conn_value \<times> process, (err + nat) \<times> process) drivers" where
  "init_redis ds = RegisterStorageDriver ds ''redis'' (Some redis_factory)"

definition init_sqlite ::
  "(conn_value \<times> process, (err + nat) \<times> process) drivers
     \<Rightarrow> string + (conn_value \<times> process, (err + nat) \<times> process) drivers" where
  "init_sqlite ds = RegisterStorageDriver ds ''sqlite'' (Some sqlite_factory)"

definition package_init :: "string + (conn_value \<times> process, (err + nat) \<times> process) drivers" where
  "package_init = (case init_postgres (\<lambda>_. None) of
       Inl p \<Rightarrow> Inl p
     | Inr ds \<Rightarrow> (case init_redis ds of Inl p \<Rightarrow> Inl p | Inr ds \<Rightarrow> init_sqlite ds))"

text \<open>How the command connects. \<open>open_db\<close> and \<open>new_client\<close> stand for \<open>sql.Open\<close> and \<open>redis.NewClient\<close>: the database
  behind a text, or the address and options of a server.\<close>

definition connect_postgres :: "(string \<Rightarrow> err + nat) \<Rightarrow> string \<Rightarrow> process \<Rightarrow> (err + nat) \<times> process" where
  "connect_postgres open_db dsn ps =
     (case open_db dsn of Inl e \<Rightarrow> (Inl e, ps) | Inr n \<Rightarrow> open_sql PostgresBackend NewPostgresStorage n ps)"

definition connect_sqlite :: "(string \<Rightarrow> err + nat) \<Rightarrow> string \<Rightarrow> process \<Rightarrow> (err + nat) \<times> process" where
  "connect_sqlite open_db dsn ps =
     (case open_db dsn of Inl e \<Rightarrow> (Inl e, ps) | Inr n \<Rightarrow> open_sql SqliteBackend NewSqliteStorage n ps)"

datatype 'o redis_options = ParsedURL 'o | AddressOnly string

definition connect_redis ::
  "(string \<Rightarrow> err + 'o) \<Rightarrow> ('o redis_options \<Rightarrow> nat) \<Rightarrow> string \<Rightarrow> process \<Rightarrow> (err + nat) \<times> process" where
  "connect_redis parse_url new_client dsn ps =
     (case (if has_prefix dsn ''redis://'' \<or> has_prefix dsn ''rediss://''
            then (case parse_url dsn of Inl e \<Rightarrow> Inl e | Inr opts \<Rightarrow> Inr (ParsedURL opts))
            else Inr (AddressOnly dsn)) of
        Inl e \<Rightarrow> (Inl e, ps)
      | Inr opts \<Rightarrow> (let (r, ps') = new_object RedisBackend (new_client opts) ps in (Inr r, ps')))"

text \<open>\<open>Ping\<close> is one call of the driver.\<close>

definition Sqlite_Ping :: "unit sql" where
  "Sqlite_Ping = exec (\<lambda>d. d)"

definition Postgres_Ping :: "unit sql" where
  "Postgres_Ping = exec (\<lambda>d. d)"

definition Redis_Ping :: "unit rds" where
  "Redis_Ping = exec (\<lambda>s. s)"

section \<open>Namespaces and clients\<close>

definition Redis_SetNamespace :: "string \<Rightarrow> string" where
  "Redis_SetNamespace ns = (if ns = '''' then ''runiq'' else ns)"

text \<open>\<open>SetNamespace\<close> of the object, which is the one every holder of the pointer uses; a storage of
  another make that is no \<open>Namespacer\<close> is left alone.\<close>

definition sql_set_namespace :: "(catalog, string) eff \<Rightarrow> nat \<Rightarrow> process \<Rightarrow> process" where
  "sql_set_namespace set_ns r ps =
     (case set_ns (ps_databases ps (so_database (ps_objects ps ! r))) of
        Some (Inr pre, c) \<Rightarrow>
          ps\<lparr>ps_objects := (ps_objects ps)[r := (ps_objects ps ! r)\<lparr>so_prefix := pre\<rparr>],
             ps_databases := (ps_databases ps)(so_database (ps_objects ps ! r) := c)\<rparr>
      | _ \<Rightarrow> ps)"

definition set_namespace :: "string \<Rightarrow> nat \<Rightarrow> process \<Rightarrow> process" where
  "set_namespace ns r ps =
     (case so_backend (ps_objects ps ! r) of
        SqliteBackend \<Rightarrow> sql_set_namespace (Sqlite_SetNamespace ns) r ps
      | PostgresBackend \<Rightarrow> sql_set_namespace (Postgres_SetNamespace ns) r ps
      | RedisBackend \<Rightarrow> ps\<lparr>ps_objects := (ps_objects ps)[r := (ps_objects ps ! r)\<lparr>so_prefix := Redis_SetNamespace ns\<rparr>]\<rparr>
      | OtherBackend \<Rightarrow> ps)"

record client_config =
  cc_storage :: nat
  cc_cb :: "circuitBreaker option"
  cc_encryptionKey :: bytes

type_synonym client_option = "client_config \<times> process \<Rightarrow> client_config \<times> process"

definition NewClient :: "nat \<Rightarrow> client_option list \<Rightarrow> process \<Rightarrow> client_config \<times> process" where
  "NewClient storage opts ps =
     fold (\<lambda>opt s. opt s) opts (\<lparr>cc_storage = storage, cc_cb = None, cc_encryptionKey = []\<rparr>, ps)"

definition WithCircuitBreaker :: "CircuitBreakerConfig \<Rightarrow> time \<Rightarrow> client_option" where
  "WithCircuitBreaker cfg now = (\<lambda>(c, ps). (c\<lparr>cc_cb := Some (newCircuitBreaker cfg now)\<rparr>, ps))"

definition WithClientPayloadEncryption :: "bytes \<Rightarrow> client_option" where
  "WithClientPayloadEncryption key = (\<lambda>(c, ps). (c\<lparr>cc_encryptionKey := key\<rparr>, ps))"

definition WithNamespace :: "string \<Rightarrow> client_option" where
  "WithNamespace ns = (\<lambda>(c, ps). (c, set_namespace ns (cc_storage c) ps))"

definition WithServerNamespace :: "string \<Rightarrow> nat \<Rightarrow> process \<Rightarrow> process" where
  "WithServerNamespace ns storage ps = set_namespace ns storage ps"

section \<open>The end of a pool\<close>

text \<open>\<open>gracefulWait\<close> with the times, from now, at which the running jobs end (\<open>None\<close>: never), and which of
  two ready channels a \<open>select\<close> takes: how long it waits, and whether it saw all jobs finish.\<close>

definition Pool_gracefulWait :: "bool \<Rightarrow> ('s, 'h) WorkerPool \<Rightarrow> duration option list \<Rightarrow> duration \<times> bool" where
  "Pool_gracefulWait done_first w runs =
     (let timeout = max 0 (wp_shutdownTimeout w); finish = foldr (max \<circ> the) runs 0 in
      if None \<in> set runs \<or> finish > timeout \<or> (finish = timeout \<and> \<not> done_first) then (timeout, False)
      else (finish, True))"

section \<open>Properties\<close>

text \<open>Loading the package panics nowhere, and leaves exactly the three drivers.\<close>

theorem package_init_drivers:
  "package_init = Inr [''postgres'' \<mapsto> postgres_factory, ''redis'' \<mapsto> redis_factory, ''sqlite'' \<mapsto> sqlite_factory]"
  by (simp add: package_init_def init_postgres_def init_redis_def init_sqlite_def RegisterStorageDriver_def)

lemma engine_total: "\<exists>r c'. engine g c = Some (r, c')"
  by (cases c) (simp add: engine_def split: list.split bool.split prod.split)

lemma run_ddl_total: "\<exists>r c'. run_ddl b q s c = Some (r, c')"
proof (cases "sql_name (q (ddl_table s))")
  case True
  then show ?thesis by (cases s) (simp_all only: run_ddl_def ddl.case exec_def engine_total if_False not_True_eq_False)
qed (simp only: run_ddl_def engine_total if_True not_False_eq_True)

lemma forS_ignored_total: "\<exists>c'. forS (\<lambda>(t, col). ignoreS (run_ddl b q (AddColumn t col))) ms c = Some (Inr (), c')"
proof (induction ms arbitrary: c)
  case (Cons m ms)
  obtain t col where m: "m = (t, col)" by (cases m)
  obtain c1 where "ignoreS (run_ddl b q (AddColumn t col)) c = Some (Inr (), c1)"
  proof -
    obtain r c1 where "run_ddl b q (AddColumn t col) c = Some (r, c1)"
      using run_ddl_total by blast
    with that show ?thesis by (simp add: ignore_run)
  qed
  with Cons.IH[of c1] show ?case by (simp add: m then_run)
qed (simp add: run_simps)

lemma forS_ddl_total: "forS (run_ddl b q) ss c \<noteq> None"
proof (induction ss arbitrary: c)
  case (Cons s ss)
  then show ?case
    by (cases c; cases s)
      (auto simp: then_run run_ddl_def exec_def engine_def split: list.splits bool.splits option.splits sum.splits if_splits)
qed (simp add: run_simps)

lemma init_tables_total:
  "Sqlite_initTables pre c \<noteq> None" "Postgres_initTables pre c \<noteq> None"
proof -
  have tail: "thenS (forS (\<lambda>(t, col). ignoreS (run_ddl b q (AddColumn t col))) ms) (ret ()) c \<noteq> None" for b q ms c
    using forS_ignored_total[of b q ms c] by (auto simp: then_run ret_run)
  have both: "thenS (forS (run_ddl b q) ss) (thenS (forS (\<lambda>(t, col). ignoreS (run_ddl b q (AddColumn t col))) ms) (ret ())) c
      \<noteq> None" for b q ss ms c
    using forS_ddl_total[of b q ss c] tail[of b q ms] by (auto simp: then_run[of "forS _ _"] split: option.split sum.split)
  show "Sqlite_initTables pre c \<noteq> None" "Postgres_initTables pre c \<noteq> None"
    unfolding Sqlite_initTables_def Sqlite_runMigrations_def Postgres_initTables_def Postgres_runMigrations_def
    using both by simp_all
qed

lemma set_namespace_run:
  "\<exists>c'. Sqlite_SetNamespace ns c = Some (Inr (SetNamespace_prefix ns), c')"
  "\<exists>c'. Postgres_SetNamespace ns c = Some (Inr (SetNamespace_prefix ns), c')"
  using init_tables_total[of "SetNamespace_prefix ns" c]
  by (auto simp: Sqlite_SetNamespace_def Postgres_SetNamespace_def Let_def run_simps split: option.split)

text \<open>The namespace is a matter of the object: \<open>SetNamespace\<close> changes it for every holder, even if
  creating the tables fails, and leaves the other objects alone.\<close>

lemma set_namespace_prefix:
  assumes "r < length (ps_objects ps)"
  shows "ps_objects (set_namespace ns r ps)
    = (if so_backend (ps_objects ps ! r) = OtherBackend then ps_objects ps
       else (ps_objects ps)[r := (ps_objects ps ! r)\<lparr>so_prefix := SetNamespace_prefix ns\<rparr>])"
  using assms set_namespace_run[of ns "ps_databases ps (so_database (ps_objects ps ! r))"]
  by (auto simp: set_namespace_def sql_set_namespace_def Redis_SetNamespace_def SetNamespace_prefix_def
      split: backend.split)

text \<open>C38: The namespace belongs to the storage object, not to the client: of two clients that are created
  one after the other, each with its namespace, the first still has its own if they were given two
  objects, and works in the second's if they share one, on every backend and whatever statements
  fail in setting up the tables.\<close>

theorem namespace_of_client:
  assumes "r1 < length (ps_objects ps)" "r2 < length (ps_objects ps)"
    and "so_backend (ps_objects ps ! r1) \<noteq> OtherBackend"
    and "NewClient r1 [WithNamespace a] ps = (c1, ps1)" "NewClient r2 [WithNamespace b] ps1 = (c2, ps2)"
  shows "so_prefix (ps_objects ps2 ! cc_storage c1) = SetNamespace_prefix (if r1 = r2 then b else a)"
proof -
  have c1: "cc_storage c1 = r1" and ps1: "ps1 = set_namespace a r1 ps" and ps2: "ps2 = set_namespace b r2 ps1"
    using assms(4,5) by (auto simp: NewClient_def WithNamespace_def)
  have o1: "ps_objects ps1 = (ps_objects ps)[r1 := (ps_objects ps ! r1)\<lparr>so_prefix := SetNamespace_prefix a\<rparr>]"
    using set_namespace_prefix[OF assms(1)] assms(3) by (simp add: ps1)
  show ?thesis
    using set_namespace_prefix[of r2 ps1 b] assms(1-3)
    by (cases "r1 = r2") (simp_all add: c1 ps2 o1 nth_list_update)
qed

definition two_objects :: process where
  "two_objects = \<lparr>ps_objects = [\<lparr>so_backend = SqliteBackend, so_prefix = ''runiq'', so_database = 0\<rparr>,
       \<lparr>so_backend = RedisBackend, so_prefix = ''runiq'', so_database = 1\<rparr>],
     ps_databases = (\<lambda>_. (Map.empty, [True]))\<rparr>"

theorem namespace_of_client_witness:
  "(let (c1, ps1) = NewClient 0 [WithNamespace ''a''] two_objects; (c2, ps2) = NewClient 0 [WithNamespace ''b''] ps1
    in so_prefix (ps_objects ps2 ! cc_storage c1) = ''b'')
   \<and> (let (c1, ps1) = NewClient 0 [WithNamespace ''a''] two_objects; (c2, ps2) = NewClient 1 [WithNamespace ''b''] ps1
    in so_prefix (ps_objects ps2 ! cc_storage c1) = ''a'')"
  using namespace_of_client[of 0 two_objects 0 "''a''" _ _ "''b''"] namespace_of_client[of 0 two_objects 1 "''a''" _ _ "''b''"]
  by (simp add: two_objects_def SetNamespace_prefix_def split: prod.split)

text \<open>The wait at the end of \<open>Start\<close> is never longer than the timeout, and reports that all workers have
  finished only if they have.\<close>

lemma finish_of_all:
  "None \<notin> set runs \<Longrightarrow> e \<in> set runs \<Longrightarrow> case e of None \<Rightarrow> False | Some t \<Rightarrow> t \<le> foldr (max \<circ> the) runs (0 :: int)"
  by (cases e; induction runs) (auto simp: le_max_iff_disj)

theorem graceful_wait_bounded:
  "Pool_gracefulWait done_first w runs = (d, finished) \<Longrightarrow>
     0 \<le> d \<and> d \<le> max 0 (wp_shutdownTimeout w)
     \<and> (finished \<longrightarrow> list_all (\<lambda>e. case e of None \<Rightarrow> False | Some t \<Rightarrow> t \<le> d) runs)"
proof -
  have "0 \<le> foldr (max \<circ> the) runs (0 :: int)" by (induction runs) auto
  then show "Pool_gracefulWait done_first w runs = (d, finished) \<Longrightarrow> ?thesis"
    using finish_of_all[of runs]
    by (simp add: Pool_gracefulWait_def Let_def list_all_iff split: if_splits) force+
qed

lemma command_pool:
  assumes "main_run io processID shell webhook cfg = Inr (pool, queues, srv)"
  shows "wp_cronJobs pool = [] \<and> wp_autoscale pool = None \<and> wp_weights pool = [] \<and> wp_leaderTTL pool = 0"
  using assms
  by (auto simp: main_run_def runCli_def startServices_def createWorkerPool_def Pool_Register_def NewWorkerPool_def
      Let_def split: if_splits sum.splits option.splits)

text \<open>The worker that the \<open>runiq\<close> command starts runs no cron scheduler, whatever its flags and
  whatever the storage: the scheduler needs a cron job registered in code, and the command registers
  none. So the schedules that its own dashboard creates are stored and listed, and never executed.\<close>

theorem command_never_schedules:
  assumes "main_run io processID shell webhook cfg = Inr (pool, queues, srv)"
    and "Pool_Start st now queues \<lparr>w_pool = pool, w_store = s, w_delivered = []\<rparr> = Some (loops, w)"
  shows "CronScheduler \<notin> set loops \<and> Heartbeat \<in> set loops \<and> ScheduledPoller \<in> set loops"
proof -
  have pool: "wp_cronJobs pool = []" using command_pool[OF assms(1)] by simp
  have "wp_cronJobs (w_pool w) = [] \<and> loops = Pool_startBackgroundLoops (w_pool w)"
    using assms(2) pool
    by (auto simp: Pool_Start_def Pool_registerProcess_def Pool_setupWeightedQueues_def setupSemaphore_def run_simps
        Let_def split: option.splits prod.splits)
  then show ?thesis by (auto simp: Pool_startBackgroundLoops_def)
qed

definition one_database :: "conn connectors" where
  "one_database = (let e = \<lparr>en_pool = Some (sqlite_worker 1 0 ''''), en_server = Some (sqlite_server 1 0)\<rparr>
     in \<lparr>connectPostgres = (\<lambda>_. Inl ''''), connectRedis = (\<lambda>_. Inl ''''), connectSqlite = (\<lambda>_. Inr e)\<rparr>)"

theorem command_never_schedules_witness:
  "\<exists>pool srv loops w.
     main_run one_database ''w'' (\<lambda>args. done_with (Returned None)) (\<lambda>args. done_with (Returned None))
       plain_config
       = Inr (pool :: (conn, unit) WorkerPool, [''q''], srv)
   \<and> Pool_Start (sqlite_worker 1 0 '''') 0 [''q''] \<lparr>w_pool = pool, w_store = (empty_db, []), w_delivered = []\<rparr>
       = Some (loops, w)
   \<and> CronScheduler \<notin> set loops"
proof -
  let ?job = "\<lambda>args. done_with (Returned None) :: (conn, run_end) act"
  obtain pool :: "(conn, unit) WorkerPool" and srv
    where run: "main_run one_database ''w'' ?job ?job plain_config = Inr (pool, [''q''], srv)"
    by (auto simp: main_run_def runCli_def startServices_def startDashboardIfEnabled_def initStorage_def
        one_database_def queue_names_def TrimSpace_def is_space_def plain_config_def Let_def split: sum.split)
  obtain loops w where "Pool_Start (sqlite_worker 1 0 '''') 0 [''q'']
      \<lparr>w_pool = pool, w_store = (empty_db, []), w_delivered = []\<rparr> = Some (loops, w)"
    using command_pool[OF run]
    by (auto simp: Pool_Start_def Pool_registerProcess_def Pool_setupWeightedQueues_def setupSemaphore_def run_simps
        sqlite_worker_def Sqlite_RegisterProcess_def Let_def)
  with command_never_schedules[OF run this] run show ?thesis by blast
qed

text \<open>A concurrency of zero is accepted. The semaphore is then a channel without a buffer, no round gets a
  slot, and the command runs without ever fetching a job.\<close>

theorem zero_concurrency_never_fetches:
  assumes "main_run io processID shell webhook cfg = Inr (pool, queues, srv)" "cf_concurrency cfg = 0"
    and "w_pool w = setupSemaphore pool"
  shows "Pool_acquireAndProcess st queues w = Some (None, w)"
proof -
  have "wp_concurrency pool = 0" "wp_autoscale pool = None"
    using assms(1,2)
    by (auto simp: main_run_def runCli_def startServices_def createWorkerPool_def Pool_Register_def NewWorkerPool_def
        Let_def split: if_splits sum.splits option.splits)
  then have "wp_semCap (w_pool w) = 0" by (simp add: assms(3) setupSemaphore_def)
  then show ?thesis by (simp add: Pool_acquireAndProcess_def with_pool_def done_with_def)
qed

end
