(* ===== verification/Spec2Isabelle.thy ===== *)
theory Spec2Isabelle
  imports SqliteViews SqliteOwner EndToEnd PostgresStorage RedisStorage Telemetry Setup
begin

text \<open>
  Runiq (package \<open>queue\<close> under \<open>src/queue\<close>, command \<open>src/cmd/runiq\<close>) is a background job queue for Go.
  A client (\<open>client.go\<close>, \<open>batch.go\<close>) puts job envelopes into a storage backend; worker pools (\<open>worker.go\<close>,
  \<open>autoscaler.go\<close>) fetch, run and settle them and do the periodic work of a cluster (cron and interval
  jobs, leader election, archival); a dashboard server (\<open>server.go\<close>) reads and administers the storage;
  the command \<open>main.go\<close> runs a pool and a dashboard with two built-in jobs. Three backends (SQLite,
  PostgreSQL, Redis) implement the interfaces of \<open>queue.go\<close>. All of these are modelled, and the theorems
  say what makes them correct; where the code does something other than it means to, a theorem states
  what it does.

  \<^bold>\<open>Shared code.\<close>
  \<^item> \<open>Prelude\<close>, \<open>GoLib\<close>, \<open>Json\<close>, \<open>JsonValue\<close>, \<open>Float64\<close>: base types, error values, and what the code uses of
    Go's library: \<open>strings\<close>, \<open>strconv\<close>, \<open>encoding/json\<close>, RFC 3339, \<open>float64\<close>, and SQL's \<open>LIKE\<close>.
  \<^item> \<open>Core\<close>: the data of \<open>queue.go\<close>, its driver registry, and \<open>helpers.go\<close> (backoff on 64-bit integers,
    tag matching, job ids). \<open>Cron\<close>: \<open>cron.go\<close>. \<open>Breaker\<close>: \<open>circuit_breaker.go\<close>. \<open>Crypto\<close>: \<open>crypto.go\<close>.
  \<^item> \<open>Storage\<close>: the interfaces \<open>ClientStorage\<close> and \<open>WorkerPoolStorage\<close> as records of operations, with the
    SQLite methods as an instance; the other instances are in \<open>PostgresStorage\<close> and \<open>RedisStorage\<close>.

  \<^bold>\<open>SQLite.\<close> \<open>SqlBase\<close> has the tables of \<open>sqlite.go\<close> as a record and the actions of \<open>database/sql\<close>
  (statements, rows, transactions) as a state and error monad, \<open>SqlLogic\<close> a Hoare logic for them.
  \<open>SqliteJobs\<close> (\<open>sqlite.go\<close>), \<open>SqliteFlow\<close> (\<open>sqlite_workflow.go\<close>, \<open>sqlite_batch.go\<close>, the life cycle in
  \<open>sqlite_admin.go\<close>) and \<open>SqliteAdmin\<close> (\<open>sqlite_process.go\<close>, \<open>sqlite_cron.go\<close>, \<open>sqlite_search.go\<close>, the
  statistics in \<open>sqlite_admin.go\<close>) hold every method of \<open>SqliteStorage\<close>, named \<open>Sqlite_\<close> and the method.
  \<^item> \<open>SqliteInv\<close>: the backend as a transition system over all its methods; primary keys (which the engine
    keeps), blocked jobs, and that a failed transaction leaves no trace.
  \<^item> \<open>SqliteQueue\<close>: which job a dequeue returns, that none is handed out twice, what an envelope keeps on
    its way through the queue, unique locks, archival.
  \<^item> \<open>SqliteLifecycle\<close>: acknowledging, failing and cancelling jobs with dependencies, for every graph; the
    rank that bounds the cascade is the number of transitive dependants.
  \<^item> \<open>SqliteBatch\<close>: the exact effect of an acknowledgement, and a batch as a sequence of
    acknowledgements and submissions.
  \<^item> \<open>SqliteGuards\<close>: leader leases (the locale \<open>lease\<close>, interpreted for all three backends), rate limits,
    cron locks. \<open>SqliteViews\<close>: statistics and pages. \<open>SqliteOwner\<close>: which calls may change a job that is
    being run.

  \<^bold>\<open>PostgreSQL.\<close> \<open>PostgresJobs\<close>, \<open>PostgresFlow\<close> and \<open>PostgresAdmin\<close> are the methods of \<open>PostgresStorage\<close>
  on the same tables, with the rows that other transactions lock, transactions that are aborted by a
  failed statement, and foreign keys that cascade. \<open>PostgresAgree\<close> shows which methods are those of
  SQLite, \<open>PostgresInv\<close> that every method keeps keys and references, \<open>PostgresQueue\<close> that the two backends
  give the same replies and databases, exclusive dequeueing, and the differences.

  \<^bold>\<open>Redis.\<close> \<open>RedisBase\<close> has the keys of the server as a record \<open>rdb\<close> with a component per family of keys,
  and the commands; \<open>RedisJobs\<close> (\<open>redis.go\<close>), \<open>RedisFlow\<close> (\<open>redis_admin.go\<close>, \<open>redis_workflow.go\<close>,
  \<open>redis_batch.go\<close>) and \<open>RedisAdmin\<close> (\<open>redis_admin_helper.go\<close>, \<open>redis_process.go\<close>, \<open>redis_cron.go\<close>,
  \<open>redis_stats.go\<close>, \<open>redis_search.go\<close>) the methods of \<open>RedisStorage\<close> as the round trips they send.
  \<open>RedisInv\<close> shows the typing of the keys in every state that calls lead to; \<open>RedisQueue\<close> that a dequeue
  refines taking the first runnable job of an abstract list, in order of priority for all the rounding
  of the scores, exclusively and completely; \<open>RedisLifecycle\<close> what failing round trips leave half done.

  \<^bold>\<open>Client and worker.\<close> \<open>Client\<close> is \<open>client.go\<close> and \<open>batch.go\<close> on any \<open>ClientStorage\<close>; \<open>Pool\<close>, \<open>Autoscaler\<close>,
  \<open>Worker\<close>, \<open>WorkerLoops\<close> are \<open>worker.go\<close> and \<open>autoscaler.go\<close> on any \<open>WorkerPoolStorage\<close>, methods named
  \<open>Pool_\<close> and the method. The locale \<open>settling\<close> of \<open>WorkerSettles\<close> states what a worker needs of \<open>Ack\<close> and
  \<open>Fail\<close>; the worker's part is proved in it once, and SQLite, PostgreSQL and Redis are interpretations.
  \<open>WorkerRuns\<close> runs the loops over lists of ticks, interleaves a pool's rounds, jobs and background work
  with whatever happens to the storage, bounds the jobs that run at a time, and shows what a cancelled
  context does to them. \<open>EndToEnd\<close>: client, SQLite and worker together. \<open>Telemetry\<close>: \<open>telemetry.go\<close>.

  \<^bold>\<open>Dashboard and command.\<close> \<open>Server\<close> has the handlers and routes of \<open>server.go\<close> on any \<open>ServerStorage\<close>;
  a handler maps a request to a response and the storage state. The locales \<open>served_reads\<close> and \<open>served\<close>
  of \<open>ServerFacts\<close> say what a request does to the storage: the one call that \<open>requested\<close> reads off its
  method, path and parameters, or reads only, with interpretations for the three backends. \<open>Cli\<close> is \<open>main.go\<close>: the shell and webhook jobs, the choice of the storage, basic
  authentication, the services; \<open>Flags\<close> its flags. \<open>Namespaces\<close> has the rewriting of table names and keys, \<open>Schema\<close> the
  creation and migration of the tables, \<open>Setup\<close> the drivers, storage objects that several clients share,
  the options of a client, and the end of a pool.

  \<^bold>\<open>How state and operations correspond.\<close> A storage action takes the state and a failure schedule: one
  boolean per driver call or round trip to come, \<open>True\<close> when that call fails (without effect); after the
  schedule nothing fails. Its result is an error or a value with the new state, or \<open>None\<close> when the process
  dies in it. A transaction whose body fails, or whose commit fails, restores the database it began with; a Redis
  pipeline is one round trip that runs all its commands. A cancelled context is a schedule that fails. Each
  operation takes the clock reading and the random bytes it uses as arguments, one reading per
  operation. A step of the client, the worker or the dashboard threads the storage state through its
  calls. Go maps are association lists in the order of one iteration. A goroutine that a step starts is
  returned as a value, to be run at any later point; the autoscaler's channel operations, the breaker's
  steps, the leases, dequeues on stale candidates and the steps of a pool are interleaved by step
  relations or lists of events.

  \<^bold>\<open>Bounds and fuel.\<close> The cascade over dependants is recursive in the code; its model counts the calls that
  the stack has room for and is \<open>None\<close> when there is none left. The proofs show that more room than
  dependency rows is enough on every acyclic graph, and that on a cycle no room is. Reading a JSON text
  takes fuel twice its length and one, which \<open>JsonValue\<close> shows to be enough for every text. The fetch
  counter, the backoff, the page offsets of Redis and the parsed numbers are 64-bit; other counters are
  integers.

  \<^bold>\<open>Parameters.\<close> AES-GCM (one law: it opens what it sealed), time zones other than UTC, the shell, HTTP
  requests and database connections of the command, the OpenTelemetry library (its documented laws are
  \<open>otel_documented\<close>), the pages in which Redis returns a scan, the rows other PostgreSQL transactions lock,
  and whether its driver accepts a statement while rows are being read.

  \<^bold>\<open>Idealised.\<close> DATETIME columns hold instants and compare as such (the code compares the texts of run
  times in \<open>Dequeue\<close>, which is the same from September 2001 to 2286), \<open>CURRENT_TIMESTAMP\<close> in whole seconds of
  SQLite; ties of \<open>ORDER BY\<close> keep the order of the rows; transactions run one after the other; SQLite does
  not enforce foreign keys (its default); values fit their columns; a namespace that is no SQL name makes statements that do not parse, and names
  fit PostgreSQL's length for them;
  the clocks of a Redis server and its clients agree; texts are valid UTF-8, and only ASCII letters have
  a case; nil and empty slices are the same; \<open>%q\<close> quotes without Unicode tables; a worker's configured
  concurrencies are not negative.

  \<^bold>\<open>Not modelled.\<close> Loggers; signals, the sockets of the HTTP listener and the embedded assets; column types,
  defaults and indices beyond their columns; the constructor of the tracer.
\<close>

end
